(* ===== verification/Go_Prelude.thy ===== *)
theory Go_Prelude
  imports Main "HOL-Library.Sublist" "HOL-Library.Char_ord" "HOL-Library.List_Lexorder"
begin

section \<open>Prelude: the Go values and library calls the program uses\<close>

text \<open>
  Shared types and helper lemmas of the development.  Go strings are byte strings, so they are
  \<open>string\<close> (lists of 8-bit characters) with the byte-wise lexicographic order of
  \<open>List_Lexorder\<close> and \<open>Char_ord\<close>, which is the order of Go's \<open><\<close>.  An \<open>error\<close> value
  is the text of its message; a Go pair \<open>(value, err)\<close> is a HOL pair whose second component is
  \<open>None\<close> for \<open>nil\<close>.  A \<open>time.Time\<close> is its instant, in nanoseconds since the Unix epoch
  (the location attached to a \<open>Time\<close> is not modelled); a \<open>time.Duration\<close> is a number of
  nanoseconds.  A Go map that the code ranges over is an association list with distinct keys: the
  order of the list is the unspecified iteration order.
\<close>

named_theorems model_defs \<open>definitions that model straight-line code and unfold in proofs\<close>
named_theorems invs \<open>operations that preserve a component's invariant\<close>

type_synonym goerror = string
type_synonym gtime = int
type_synonym duration = int
type_synonym 'a with_err = "'a \<times> goerror option"
type_synonym 'a slice = "'a list option"

text \<open>A slice is \<open>nil\<close> or a list; \<open>len\<close> and \<open>range\<close> do not distinguish \<open>nil\<close> from the empty slice.\<close>

definition elems :: "'a slice \<Rightarrow> 'a list" where
  "elems s = (case s of None \<Rightarrow> [] | Some l \<Rightarrow> l)"

text \<open>Durations of the \<open>time\<close> package.\<close>

definition Nanosecond :: duration where "Nanosecond = 1"
definition Millisecond :: duration where "Millisecond = 1000000"
definition Second :: duration where "Second = 1000000000"
definition Minute :: duration where "Minute = 60 * Second"
definition Hour :: duration where "Hour = 60 * Minute"

lemmas duration_defs = Nanosecond_def Millisecond_def Second_def Minute_def Hour_def

text \<open>The zero \<open>time.Time\<close> is January 1, year 1, 00:00:00 UTC.\<close>

definition zero_time :: gtime where
  "zero_time = -62135596800 * 1000000000"

subsection \<open>Strings\<close>

text \<open>\<open>strings.Split\<close> with a one-character separator: the fields between separators, at least
  one.\<close>

fun strings_Split :: "char \<Rightarrow> string \<Rightarrow> string list" where
  "strings_Split c [] = [[]]"
| "strings_Split c (x # xs) =
     (if x = c then [] # strings_Split c xs
      else (case strings_Split c xs of [] \<Rightarrow> [[x]] | f # fs \<Rightarrow> (x # f) # fs))"

text \<open>\<open>strings.Join\<close> with a one-character separator.\<close>

fun strings_Join :: "char \<Rightarrow> string list \<Rightarrow> string" where
  "strings_Join c [] = []"
| "strings_Join c [s] = s"
| "strings_Join c (s # t # ss) = s @ c # strings_Join c (t # ss)"

lemma strings_Split_not_Nil [simp]: "strings_Split c s \<noteq> []"
  by (induction s) (auto split: list.splits)

lemma strings_Split_no_sep [simp]: "c \<notin> set s \<Longrightarrow> strings_Split c s = [s]"
  by (induction s) auto

lemma strings_Split_append:
  "c \<notin> set s \<Longrightarrow> strings_Split c (s @ c # t) = s # strings_Split c t"
  by (induction s) auto

lemma strings_Split_sep: "strings_Split c (s @ c # t) = strings_Split c s @ strings_Split c t"
  by (induction s) (auto split: list.split)

lemma strings_Join_Split: "strings_Join c (strings_Split c s) = s"
proof (induction s)
  case Nil
  then show ?case by simp
next
  case (Cons x s)
  obtain f fs where f: "strings_Split c s = f # fs"
    by (cases "strings_Split c s") auto
  with Cons show ?case by (cases fs) auto
qed

lemma strings_Split_fields: "f \<in> set (strings_Split c s) \<Longrightarrow> c \<notin> set f"
proof (induction s arbitrary: f)
  case Nil
  then show ?case by simp
next
  case (Cons x s)
  obtain g gs where g: "strings_Split c s = g # gs"
    by (cases "strings_Split c s") auto
  with Cons show ?case by (auto split: if_splits)
qed

text \<open>Two concatenations that share a first part, or whose first parts contain no separator.\<close>

lemma sep_append_inject:
  fixes a :: string
  assumes "c \<notin> set a" and "c \<notin> set a'"
  shows "a @ c # b = a' @ c # b' \<longleftrightarrow> a = a' \<and> b = b'"
proof
  assume "a @ c # b = a' @ c # b'"
  with assms have "strings_Split c (a @ c # b) = strings_Split c (a' @ c # b')" by simp
  with assms have "a = a'" by (simp add: strings_Split_append)
  with \<open>a @ c # b = a' @ c # b'\<close> show "a = a' \<and> b = b'" by simp
qed simp

subsection \<open>Decimal formatting\<close>

text \<open>The verb \<open>%d\<close> of \<open>fmt.Sprintf\<close> (and \<open>fmt.Sprint\<close> of an integer).\<close>

definition digit_char :: "nat \<Rightarrow> char" where
  "digit_char d = char_of (48 + d)"

fun show_nat :: "nat \<Rightarrow> string" where
  "show_nat n = (if n < 10 then [digit_char n] else show_nat (n div 10) @ [digit_char (n mod 10)])"

declare show_nat.simps [simp del]

definition show_int :: "int \<Rightarrow> string" where
  "show_int i = (if i < 0 then CHR ''-'' # show_nat (nat (- i)) else show_nat (nat i))"

definition digit_val :: "char \<Rightarrow> nat" where
  "digit_val c = of_char c - 48"

definition read_nat :: "string \<Rightarrow> nat" where
  "read_nat = foldl (\<lambda>n c. 10 * n + digit_val c) 0"

lemma digit_val_char [simp]: "d < 10 \<Longrightarrow> digit_val (digit_char d) = d"
  by (simp add: digit_val_def digit_char_def)

lemma read_nat_snoc: "read_nat (s @ [c]) = 10 * read_nat s + digit_val c"
  by (simp add: read_nat_def)

lemma read_show_nat [simp]: "read_nat (show_nat n) = n"
proof (induction n rule: show_nat.induct)
  case (1 n)
  then show ?case
    by (subst show_nat.simps) (auto simp: read_nat_snoc read_nat_def)
qed

lemma show_nat_inject [simp]: "show_nat m = show_nat n \<longleftrightarrow> m = n"
  by (metis read_show_nat)

subsection \<open>Association lists as Go maps\<close>

lemma map_of_filter_fst:
  "map_of (filter (\<lambda>kv. P (fst kv)) l) k = (if P k then map_of l k else None)"
  by (induction l) auto

lemma distinct_map_of_SomeI: "distinct (map fst l) \<Longrightarrow> (k, v) \<in> set l \<Longrightarrow> map_of l k = Some v"
  by (rule map_of_is_SomeI)

lemma distinct_fst_filter: "distinct (map fst l) \<Longrightarrow> distinct (map fst (filter P l))"
  by (induction l) (auto dest: filter_is_subset [THEN subsetD])

lemma sum_list_update_nat:
  fixes f :: "'a \<Rightarrow> nat"
  assumes "i < length xs"
  shows "sum_list (map f (xs[i := y])) + f (xs ! i) = sum_list (map f xs) + f y"
  using assms
proof (induction xs arbitrary: i)
  case Nil
  then show ?case by simp
next
  case (Cons x xs)
  then show ?case by (cases i) (auto simp: add.commute add.left_commute)
qed

end
