(* ===== verification/Json_Doc.thy ===== *)
theory Json_Doc
  imports Go_Prelude
begin

section \<open>JSON documents: what the program uses of encoding/json\<close>

text \<open>
  A byte slice that holds JSON text is represented by the document it denotes; \<open>JBad\<close> stands for
  bytes that are not a JSON text.  \<open>JTime t\<close> is a JSON string in the RFC 3339 format of
  \<open>time.Time\<close>, \<open>JStr\<close> any other string.  \<open>json_struct\<close> is the struct encoder (fields in
  declaration order, the first failing \<open>MarshalJSON\<close> aborts) and \<open>decode_struct\<close> the
  struct decoder: object members in document order, names matched without regard to ASCII case,
  unknown members skipped, a member of a wrong type recorded as the error to return while decoding
  goes on (\<open>TypeErr\<close>), an error of a custom \<open>UnmarshalJSON\<close> ending the decoding at once
  (\<open>Abort\<close>); members already decoded stay in the target.
\<close>

datatype json =
    JNull
  | JBool bool
  | JNum int
  | JStr string
  | JTime gtime
  | JArr "json list"
  | JObj "(string \<times> json) list"
  | JBad

subsection \<open>Encoding\<close>

fun json_members :: "(string \<times> (goerror + json)) list \<Rightarrow> goerror + (string \<times> json) list" where
  "json_members [] = Inr []"
| "json_members ((k, Inl e) # fs) = Inl e"
| "json_members ((k, Inr j) # fs) =
     (case json_members fs of Inl e \<Rightarrow> Inl e | Inr js \<Rightarrow> Inr ((k, j) # js))"

definition json_struct :: "(string \<times> (goerror + json)) list \<Rightarrow> goerror + json" where
  "json_struct fs = map_sum id JObj (json_members fs)"

text \<open>\<open>time.Time.MarshalJSON\<close> refuses a year outside 0 to 9999.\<close>

definition time_ok :: "gtime \<Rightarrow> bool" where
  "time_ok t \<longleftrightarrow> -62167219200 * Second \<le> t \<and> t < 253402300800 * Second"

text \<open>An error of a \<open>MarshalJSON\<close> method, as the encoder reports it.\<close>

definition marshaler_error :: "string \<Rightarrow> goerror \<Rightarrow> goerror" where
  "marshaler_error typ e = ''json: error calling MarshalJSON for type '' @ typ @ '': '' @ e"

definition json_time :: "gtime \<Rightarrow> goerror + json" where
  "json_time t =
     (if time_ok t then Inr (JTime t)
      else Inl (marshaler_error ''time.Time'' ''Time.MarshalJSON: year outside of range [0,9999]''))"

abbreviation json_string :: "string \<Rightarrow> goerror + json" where
  "json_string s \<equiv> Inr (JStr s)"

abbreviation json_bool :: "bool \<Rightarrow> goerror + json" where
  "json_bool b \<equiv> Inr (JBool b)"

lemma zero_time_ok [simp]: "time_ok zero_time"
  by (simp add: time_ok_def zero_time_def Second_def)

lemma json_time_ok [simp]: "time_ok t \<Longrightarrow> json_time t = Inr (JTime t)"
  by (simp add: json_time_def)

subsection \<open>Decoding\<close>

datatype 'r field_res = Decoded 'r | TypeErr goerror | Abort goerror

definition ascii_lower :: "char \<Rightarrow> char" where
  "ascii_lower c = (if CHR ''A'' \<le> c \<and> c \<le> CHR ''Z'' then char_of (of_char c + 32 :: nat) else c)"

definition fold_key :: "string \<Rightarrow> string" where
  "fold_key = map ascii_lower"

type_synonym 'r setter = "string \<Rightarrow> json \<Rightarrow> 'r \<Rightarrow> 'r field_res"

fun decode_members :: "'r setter \<Rightarrow> (string \<times> json) list \<Rightarrow> 'r with_err \<Rightarrow> 'r with_err" where
  "decode_members st [] (r, saved) = (r, saved)"
| "decode_members st ((k, j) # fs) (r, saved) =
     (case st (fold_key k) j r of
        Decoded r' \<Rightarrow> decode_members st fs (r', saved)
      | TypeErr e \<Rightarrow> decode_members st fs (r, if saved = None then Some e else saved)
      | Abort e \<Rightarrow> (r, Some e))"

definition type_error :: "goerror" where
  "type_error = ''json: cannot unmarshal value into Go value''"

definition syntax_error :: "goerror" where
  "syntax_error = ''invalid character''"

text \<open>\<open>json.Unmarshal(data, &r)\<close> for a struct \<open>r\<close>: bytes that are not JSON leave \<open>r\<close> as
  it is, \<open>null\<close> is a no-op.\<close>

fun decode_struct :: "'r setter \<Rightarrow> json \<Rightarrow> 'r \<Rightarrow> 'r with_err" where
  "decode_struct st (JObj fs) r = decode_members st fs (r, None)"
| "decode_struct st JNull r = (r, None)"
| "decode_struct st JBad r = (r, Some syntax_error)"
| "decode_struct st _ r = (r, Some type_error)"

text \<open>Members of Go type \<open>string\<close>, \<open>bool\<close> and \<open>time.Time\<close>.\<close>

fun set_string :: "(string \<Rightarrow> 'r) \<Rightarrow> 'r \<Rightarrow> json \<Rightarrow> 'r field_res" where
  "set_string f r (JStr s) = Decoded (f s)"
| "set_string f r JNull = Decoded r"
| "set_string f r _ = TypeErr type_error"

fun set_bool :: "(bool \<Rightarrow> 'r) \<Rightarrow> 'r \<Rightarrow> json \<Rightarrow> 'r field_res" where
  "set_bool f r (JBool b) = Decoded (f b)"
| "set_bool f r JNull = Decoded r"
| "set_bool f r _ = TypeErr type_error"

fun set_time :: "(gtime \<Rightarrow> 'r) \<Rightarrow> 'r \<Rightarrow> json \<Rightarrow> 'r field_res" where
  "set_time f r (JTime t) = Decoded (f t)"
| "set_time f r JNull = Decoded r"
| "set_time f r _ = Abort ''parsing time''"

text \<open>A slice of structs: every element is decoded into a fresh zero value.\<close>

fun decode_elems :: "'r setter \<Rightarrow> 'r \<Rightarrow> json list \<Rightarrow> 'r list with_err" where
  "decode_elems st z [] = ([], None)"
| "decode_elems st z (j # js) =
     (case decode_struct st j z of
        (r, None) \<Rightarrow> (case decode_elems st z js of (rs, e) \<Rightarrow> (r # rs, e))
      | (r, Some e) \<Rightarrow> ([r], Some e))"

fun decode_slice :: "'r setter \<Rightarrow> 'r \<Rightarrow> json \<Rightarrow> 'r list with_err" where
  "decode_slice st z (JArr js) = decode_elems st z js"
| "decode_slice st z JNull = ([], None)"
| "decode_slice st z JBad = ([], Some syntax_error)"
| "decode_slice st z _ = ([], Some type_error)"

lemma json_struct_ok:
  "json_struct fs = Inr j \<longleftrightarrow> (\<exists>js. json_members fs = Inr js \<and> j = JObj js)"
  by (cases "json_members fs") (auto simp: json_struct_def)

lemma decode_elems_map:
  assumes "\<And>x. x \<in> set xs \<Longrightarrow> decode_struct st (enc x) z = (x, None)"
  shows "decode_elems st z (map enc xs) = (xs, None)"
  using assms by (induction xs) auto

end
