(* ===== verification/Messages.thy ===== *)
theory Messages
  imports Json_Doc
begin

section \<open>Statuses, commands and messages (internal/status.go, msg.go, status_web.go)\<close>

text \<open>
  The values that workers, manager and clients exchange, with their JSON encodings.  The
  \<open>uint8\<close> enumerations are datatypes with the source's constants and one more constructor for
  the values that no constant names, so that the default branches of the code are reachable in the
  model.  Shown here: the encodings of statuses and commands round-trip, invalid statuses are
  refused both ways, and a stored record decodes to itself whatever value it is decoded into.
\<close>

subsection \<open>SyncStatus\<close>

datatype SyncStatus =
  NoneStatus | Failed | Success | Syncing | PreSyncing | Paused | Disabled | OtherStatus nat

fun SyncStatus_String :: "SyncStatus \<Rightarrow> string" where
  "SyncStatus_String NoneStatus = ''none''"
| "SyncStatus_String Failed = ''failed''"
| "SyncStatus_String Success = ''success''"
| "SyncStatus_String Syncing = ''syncing''"
| "SyncStatus_String PreSyncing = ''pre-syncing''"
| "SyncStatus_String Paused = ''paused''"
| "SyncStatus_String Disabled = ''disabled''"
| "SyncStatus_String (OtherStatus _) = ''''"

definition SyncStatus_MarshalJSON :: "SyncStatus \<Rightarrow> goerror + json" where
  "SyncStatus_MarshalJSON s =
     (let strStatus = SyncStatus_String s
      in if strStatus = '''' then Inl ''Invalid status value'' else Inr (JStr strStatus))"

text \<open>The text of a literal in an error message (only strings are rendered).\<close>

fun json_raw :: "json \<Rightarrow> string" where
  "json_raw (JStr s) = CHR 0x22 # s @ [CHR 0x22]"
| "json_raw JNull = ''null''"
| "json_raw _ = ''''"

definition SyncStatus_UnmarshalJSON :: "json \<Rightarrow> goerror + SyncStatus" where
  "SyncStatus_UnmarshalJSON v =
     (if v = JStr ''none'' then Inr NoneStatus
      else if v = JStr ''failed'' then Inr Failed
      else if v = JStr ''success'' then Inr Success
      else if v = JStr ''syncing'' then Inr Syncing
      else if v = JStr ''pre-syncing'' then Inr PreSyncing
      else if v = JStr ''paused'' then Inr Paused
      else if v = JStr ''disabled'' then Inr Disabled
      else Inl (''Invalid status value: '' @ json_raw v))"

definition status_ok :: "SyncStatus \<Rightarrow> bool" where
  "status_ok s \<longleftrightarrow> (\<forall>n. s \<noteq> OtherStatus n)"

lemma status_ok_simps [simp]:
  "status_ok NoneStatus" "status_ok Failed" "status_ok Success" "status_ok Syncing"
  "status_ok PreSyncing" "status_ok Paused" "status_ok Disabled" "\<not> status_ok (OtherStatus n)"
  by (simp_all add: status_ok_def)

lemma status_ok_iff_String: "status_ok s \<longleftrightarrow> SyncStatus_String s \<noteq> ''''"
  by (cases s) simp_all

lemma SyncStatus_MarshalJSON_ok:
  "status_ok s \<Longrightarrow> SyncStatus_MarshalJSON s = Inr (JStr (SyncStatus_String s))"
  by (simp add: SyncStatus_MarshalJSON_def status_ok_iff_String)

lemma SyncStatus_Unmarshal_String:
  "status_ok s \<Longrightarrow> SyncStatus_UnmarshalJSON (JStr (SyncStatus_String s)) = Inr s"
  by (cases s) (simp_all add: SyncStatus_UnmarshalJSON_def)

lemma SyncStatus_Unmarshal_sound:
  "SyncStatus_UnmarshalJSON v = Inr s \<Longrightarrow> status_ok s \<and> v = JStr (SyncStatus_String s)"
  by (auto simp: SyncStatus_UnmarshalJSON_def split: if_splits)

subsection \<open>CmdVerb\<close>

datatype CmdVerb = CmdStart | CmdStop | CmdDisable | CmdRestart | CmdPing | CmdReload | OtherCmd nat

fun CmdVerb_String :: "CmdVerb \<Rightarrow> string" where
  "CmdVerb_String CmdStart = ''start''"
| "CmdVerb_String CmdStop = ''stop''"
| "CmdVerb_String CmdDisable = ''disable''"
| "CmdVerb_String CmdRestart = ''restart''"
| "CmdVerb_String CmdPing = ''ping''"
| "CmdVerb_String CmdReload = ''reload''"
| "CmdVerb_String (OtherCmd _) = ''''"

text \<open>A missing key of a Go map yields the zero value, which is \<open>CmdStart\<close>.\<close>

definition NewCmdVerbFromString :: "string \<Rightarrow> CmdVerb" where
  "NewCmdVerbFromString s =
     (case map_of [(''start'', CmdStart), (''stop'', CmdStop), (''disable'', CmdDisable),
                   (''restart'', CmdRestart), (''ping'', CmdPing), (''reload'', CmdReload)] s of
        None \<Rightarrow> CmdStart | Some c \<Rightarrow> c)"

definition CmdVerb_MarshalJSON :: "CmdVerb \<Rightarrow> goerror + json" where
  "CmdVerb_MarshalJSON c = Inr (JStr (CmdVerb_String c))"

fun CmdVerb_UnmarshalJSON :: "json \<Rightarrow> goerror + CmdVerb" where
  "CmdVerb_UnmarshalJSON (JStr j) = Inr (NewCmdVerbFromString j)"
| "CmdVerb_UnmarshalJSON JNull = Inr (NewCmdVerbFromString '''')"
| "CmdVerb_UnmarshalJSON _ = Inl type_error"

lemma NewCmdVerb_String:
  "NewCmdVerbFromString (CmdVerb_String c) = (case c of OtherCmd _ \<Rightarrow> CmdStart | _ \<Rightarrow> c)"
  by (cases c) (simp_all add: NewCmdVerbFromString_def)

subsection \<open>MirrorStatus and WorkerStatus\<close>

record MirrorStatus =
  ms_Name :: string
  ms_Worker :: string
  ms_IsMaster :: bool
  ms_Status :: SyncStatus
  ms_LastUpdate :: gtime
  ms_LastStarted :: gtime
  ms_LastEnded :: gtime
  ms_Scheduled :: gtime
  ms_Upstream :: string
  ms_Size :: string
  ms_ErrorMsg :: string

definition zero_MirrorStatus :: MirrorStatus where
  "zero_MirrorStatus =
     \<lparr>ms_Name = '''', ms_Worker = '''', ms_IsMaster = False, ms_Status = NoneStatus,
      ms_LastUpdate = zero_time, ms_LastStarted = zero_time, ms_LastEnded = zero_time,
      ms_Scheduled = zero_time, ms_Upstream = '''', ms_Size = '''', ms_ErrorMsg = ''''\<rparr>"

definition MirrorStatus_Marshal :: "MirrorStatus \<Rightarrow> goerror + json" where
  "MirrorStatus_Marshal m = json_struct
     [(''name'', json_string (ms_Name m)),
      (''worker'', json_string (ms_Worker m)),
      (''is_master'', json_bool (ms_IsMaster m)),
      (''status'', map_sum (marshaler_error ''internal.SyncStatus'') id (SyncStatus_MarshalJSON (ms_Status m))),
      (''last_update'', json_time (ms_LastUpdate m)),
      (''last_started'', json_time (ms_LastStarted m)),
      (''last_ended'', json_time (ms_LastEnded m)),
      (''next_schedule'', json_time (ms_Scheduled m)),
      (''upstream'', json_string (ms_Upstream m)),
      (''size'', json_string (ms_Size m)),
      (''error_msg'', json_string (ms_ErrorMsg m))]"

definition MirrorStatus_set :: "MirrorStatus setter" where
  "MirrorStatus_set k j m =
     (if k = ''name'' then set_string (\<lambda>v. m\<lparr>ms_Name := v\<rparr>) m j
      else if k = ''worker'' then set_string (\<lambda>v. m\<lparr>ms_Worker := v\<rparr>) m j
      else if k = ''is_master'' then set_bool (\<lambda>v. m\<lparr>ms_IsMaster := v\<rparr>) m j
      else if k = ''status'' then
        (case SyncStatus_UnmarshalJSON j of Inl e \<Rightarrow> Abort e | Inr s \<Rightarrow> Decoded (m\<lparr>ms_Status := s\<rparr>))
      else if k = ''last_update'' then set_time (\<lambda>v. m\<lparr>ms_LastUpdate := v\<rparr>) m j
      else if k = ''last_started'' then set_time (\<lambda>v. m\<lparr>ms_LastStarted := v\<rparr>) m j
      else if k = ''last_ended'' then set_time (\<lambda>v. m\<lparr>ms_LastEnded := v\<rparr>) m j
      else if k = ''next_schedule'' then set_time (\<lambda>v. m\<lparr>ms_Scheduled := v\<rparr>) m j
      else if k = ''upstream'' then set_string (\<lambda>v. m\<lparr>ms_Upstream := v\<rparr>) m j
      else if k = ''size'' then set_string (\<lambda>v. m\<lparr>ms_Size := v\<rparr>) m j
      else if k = ''error_msg'' then set_string (\<lambda>v. m\<lparr>ms_ErrorMsg := v\<rparr>) m j
      else Decoded m)"

abbreviation MirrorStatus_Unmarshal :: "json \<Rightarrow> MirrorStatus \<Rightarrow> MirrorStatus with_err" where
  "MirrorStatus_Unmarshal \<equiv> decode_struct MirrorStatus_set"

definition MirrorStatus_ok :: "MirrorStatus \<Rightarrow> bool" where
  "MirrorStatus_ok m \<longleftrightarrow>
     status_ok (ms_Status m) \<and> time_ok (ms_LastUpdate m) \<and> time_ok (ms_LastStarted m) \<and>
     time_ok (ms_LastEnded m) \<and> time_ok (ms_Scheduled m)"

record WorkerStatus =
  ws_ID :: string
  ws_URL :: string
  ws_Token :: string
  ws_LastOnline :: gtime
  ws_LastRegister :: gtime

definition zero_WorkerStatus :: WorkerStatus where
  "zero_WorkerStatus =
     \<lparr>ws_ID = '''', ws_URL = '''', ws_Token = '''', ws_LastOnline = zero_time, ws_LastRegister = zero_time\<rparr>"

definition WorkerStatus_Marshal :: "WorkerStatus \<Rightarrow> goerror + json" where
  "WorkerStatus_Marshal w = json_struct
     [(''id'', json_string (ws_ID w)),
      (''url'', json_string (ws_URL w)),
      (''token'', json_string (ws_Token w)),
      (''last_online'', json_time (ws_LastOnline w)),
      (''last_register'', json_time (ws_LastRegister w))]"

definition WorkerStatus_set :: "WorkerStatus setter" where
  "WorkerStatus_set k j w =
     (if k = ''id'' then set_string (\<lambda>v. w\<lparr>ws_ID := v\<rparr>) w j
      else if k = ''url'' then set_string (\<lambda>v. w\<lparr>ws_URL := v\<rparr>) w j
      else if k = ''token'' then set_string (\<lambda>v. w\<lparr>ws_Token := v\<rparr>) w j
      else if k = ''last_online'' then set_time (\<lambda>v. w\<lparr>ws_LastOnline := v\<rparr>) w j
      else if k = ''last_register'' then set_time (\<lambda>v. w\<lparr>ws_LastRegister := v\<rparr>) w j
      else Decoded w)"

abbreviation WorkerStatus_Unmarshal :: "json \<Rightarrow> WorkerStatus \<Rightarrow> WorkerStatus with_err" where
  "WorkerStatus_Unmarshal \<equiv> decode_struct WorkerStatus_set"

definition WorkerStatus_ok :: "WorkerStatus \<Rightarrow> bool" where
  "WorkerStatus_ok w \<longleftrightarrow> time_ok (ws_LastOnline w) \<and> time_ok (ws_LastRegister w)"

text \<open>Keys written by the encoder are lower case, so the decoder's case folding is the identity on
  them.\<close>

lemma fold_key_tags [simp]:
  "fold_key ''name'' = ''name''" "fold_key ''worker'' = ''worker''"
  "fold_key ''is_master'' = ''is_master''" "fold_key ''status'' = ''status''"
  "fold_key ''last_update'' = ''last_update''" "fold_key ''last_started'' = ''last_started''"
  "fold_key ''last_ended'' = ''last_ended''" "fold_key ''next_schedule'' = ''next_schedule''"
  "fold_key ''upstream'' = ''upstream''" "fold_key ''size'' = ''size''"
  "fold_key ''error_msg'' = ''error_msg''" "fold_key ''id'' = ''id''" "fold_key ''url'' = ''url''"
  "fold_key ''token'' = ''token''" "fold_key ''last_online'' = ''last_online''"
  "fold_key ''last_register'' = ''last_register''"
  by code_simp+

text \<open>Encoding and decoding a stored status or worker is the identity, into any target.\<close>

lemma MirrorStatus_Marshal_Inr:
  assumes "MirrorStatus_ok m"
  obtains j where "MirrorStatus_Marshal m = Inr j" and "\<And>r. MirrorStatus_Unmarshal j r = (m, None)"
proof -
  from assms have "\<exists>j. MirrorStatus_Marshal m = Inr j \<and> (\<forall>r. MirrorStatus_Unmarshal j r = (m, None))"
    by (simp add: MirrorStatus_Marshal_def MirrorStatus_ok_def json_struct_def
        SyncStatus_MarshalJSON_ok MirrorStatus_set_def SyncStatus_Unmarshal_String)
  with that show thesis by blast
qed

lemma WorkerStatus_Marshal_Inr:
  assumes "WorkerStatus_ok w"
  obtains j where "WorkerStatus_Marshal w = Inr j" and "\<And>r. WorkerStatus_Unmarshal j r = (w, None)"
proof -
  from assms have "\<exists>j. WorkerStatus_Marshal w = Inr j \<and> (\<forall>r. WorkerStatus_Unmarshal j r = (w, None))"
    by (simp add: WorkerStatus_Marshal_def WorkerStatus_ok_def json_struct_def WorkerStatus_set_def)
  with that show thesis by blast
qed

lemma MirrorStatus_roundtrip:
  "MirrorStatus_ok m \<Longrightarrow> MirrorStatus_Marshal m = Inr j \<Longrightarrow> MirrorStatus_Unmarshal j r = (m, None)"
  by (metis MirrorStatus_Marshal_Inr Inr_inject)

lemma WorkerStatus_roundtrip:
  "WorkerStatus_ok w \<Longrightarrow> WorkerStatus_Marshal w = Inr j \<Longrightarrow> WorkerStatus_Unmarshal j r = (w, None)"
  by (metis WorkerStatus_Marshal_Inr Inr_inject)

lemma zero_MirrorStatus_ok [simp]: "MirrorStatus_ok zero_MirrorStatus"
  by (simp add: MirrorStatus_ok_def zero_MirrorStatus_def)

lemma json_time_Inr: "(\<exists>j. json_time t = Inr j) \<longleftrightarrow> time_ok t"
  by (simp add: json_time_def)

lemma MirrorStatus_Marshal_fails_iff:
  "(\<exists>e. MirrorStatus_Marshal m = Inl e) \<longleftrightarrow> \<not> MirrorStatus_ok m"
proof (cases "MirrorStatus_ok m")
  case True
  then show ?thesis by (metis MirrorStatus_Marshal_Inr Inl_Inr_False)
next
  case False
  then show ?thesis
    by (cases "status_ok (ms_Status m)"; cases "time_ok (ms_LastUpdate m)";
        cases "time_ok (ms_LastStarted m)"; cases "time_ok (ms_LastEnded m)";
        cases "time_ok (ms_Scheduled m)")
      (auto simp: MirrorStatus_ok_def MirrorStatus_Marshal_def json_struct_def json_time_def
        SyncStatus_MarshalJSON_def status_ok_iff_String Let_def split: sum.splits)
qed

subsection \<open>Schedules and commands\<close>

record MirrorSchedule =
  sc_MirrorName :: string
  sc_NextSchedule :: gtime

type_synonym MirrorSchedules = "MirrorSchedule list"

record WorkerCmd =
  wc_Cmd :: CmdVerb
  wc_MirrorID :: string
  wc_Args :: "string list"
  wc_Options :: "(string \<times> bool) list"

record ClientCmd =
  cc_Cmd :: CmdVerb
  cc_MirrorID :: string
  cc_WorkerID :: string
  cc_Args :: "string list"
  cc_Options :: "(string \<times> bool) list"

text \<open>A missing key of \<open>Options\<close> reads as \<open>false\<close>.\<close>

definition wc_option :: "WorkerCmd \<Rightarrow> string \<Rightarrow> bool" where
  "wc_option c k = (map_of (wc_Options c) k = Some True)"

definition WorkerCmd_String :: "WorkerCmd \<Rightarrow> string" where
  "WorkerCmd_String c =
     (if length (wc_Args c) > 0
      then CmdVerb_String (wc_Cmd c) @ '' ('' @ wc_MirrorID c @ '', ['' @
           strings_Join (CHR '' '') (wc_Args c) @ ''])''
      else CmdVerb_String (wc_Cmd c) @ '' ('' @ wc_MirrorID c @ '')'')"

subsection \<open>The status page\<close>

text \<open>\<open>textTime\<close> and \<open>stampTime\<close> embed a \<open>time.Time\<close>; \<open>Unix()\<close> counts whole seconds.\<close>

definition stampTime_MarshalJSON :: "gtime \<Rightarrow> goerror + json" where
  "stampTime_MarshalJSON t = Inr (JNum (t div Second))"

fun stampTime_UnmarshalJSON :: "json \<Rightarrow> goerror + gtime" where
  "stampTime_UnmarshalJSON (JNum ts) = Inr (ts * Second)"
| "stampTime_UnmarshalJSON _ = Inl ''strconv.Atoi: invalid syntax''"

record WebMirrorStatus =
  web_Name :: string
  web_IsMaster :: bool
  web_Status :: SyncStatus
  web_LastUpdate :: gtime
  web_LastUpdateTs :: gtime
  web_LastStarted :: gtime
  web_LastStartedTs :: gtime
  web_LastEnded :: gtime
  web_LastEndedTs :: gtime
  web_Scheduled :: gtime
  web_ScheduledTs :: gtime
  web_Upstream :: string
  web_Size :: string

definition BuildWebMirrorStatus :: "MirrorStatus \<Rightarrow> WebMirrorStatus" where
  "BuildWebMirrorStatus m =
     \<lparr>web_Name = ms_Name m, web_IsMaster = ms_IsMaster m, web_Status = ms_Status m,
      web_LastUpdate = ms_LastUpdate m, web_LastUpdateTs = ms_LastUpdate m,
      web_LastStarted = ms_LastStarted m, web_LastStartedTs = ms_LastStarted m,
      web_LastEnded = ms_LastEnded m, web_LastEndedTs = ms_LastEnded m,
      web_Scheduled = ms_Scheduled m, web_ScheduledTs = ms_Scheduled m,
      web_Upstream = ms_Upstream m, web_Size = ms_Size m\<rparr>"

lemma stampTime_roundtrip:
  "stampTime_UnmarshalJSON (JNum (t div Second)) = Inr (t - t mod Second)"
  by (simp add: minus_mod_eq_div_mult)

end
