(* ===== verification/Kv_Store.thy ===== *)
theory Kv_Store
  imports Messages "HOL-Library.AList"
begin

section \<open>Key-value stores (manager/db.go: kvAdapter; manager/db_*.go)\<close>

text \<open>
  The interface \<open>kvAdapter\<close> is the record of its methods over a database state \<open>'s\<close>.  The four
  adapters are definitions over a record of the third-party operations they call (bbolt, badger,
  goleveldb, go-redis), so the third-party code is a parameter; \<open>bolt_laws\<close>, \<open>badger_laws\<close>,
  \<open>leveldb_laws\<close> and \<open>redis_laws\<close> state the documented behaviour of these operations in a
  healthy database (\<open>up\<close>).  The locale \<open>kv_store\<close> is the contract the rest of the manager relies
  on: two independent buckets, each a map.  It is interpreted on all four adapters; for badger and
  leveldb this needs that the flat keys \<open>bucket + key\<close> of the two buckets never collide.
\<close>

record 's kvAdapter =
  kv_InitBucket :: "string \<Rightarrow> 's \<Rightarrow> goerror option \<times> 's"
  kv_Get :: "string \<Rightarrow> string \<Rightarrow> 's \<Rightarrow> json option with_err"
  kv_GetAll :: "string \<Rightarrow> 's \<Rightarrow> (string \<times> json) list with_err"
  kv_Put :: "string \<Rightarrow> string \<Rightarrow> json \<Rightarrow> 's \<Rightarrow> goerror option \<times> 's"
  kv_Delete :: "string \<Rightarrow> string \<Rightarrow> 's \<Rightarrow> goerror option \<times> 's"
  kv_Close :: "'s \<Rightarrow> goerror option \<times> 's"

definition workerBucketKey :: string where "workerBucketKey = ''workers''"
definition statusBucketKey :: string where "statusBucketKey = ''mirror_status''"

definition is_bucket :: "string \<Rightarrow> bool" where
  "is_bucket b \<longleftrightarrow> b = workerBucketKey \<or> b = statusBucketKey"

text \<open>Keys that every backend accepts: bbolt refuses the empty key and keys above 32768 bytes.\<close>

definition key_ok :: "string \<Rightarrow> bool" where
  "key_ok k \<longleftrightarrow> k \<noteq> [] \<and> length k \<le> 32768"

lemma bucket_simps [simp]: "is_bucket workerBucketKey" "is_bucket statusBucketKey"
  "workerBucketKey \<noteq> statusBucketKey" "statusBucketKey \<noteq> workerBucketKey"
  by (simp_all add: is_bucket_def workerBucketKey_def statusBucketKey_def)

lemma bucket_not_Nil [simp]: "is_bucket b \<Longrightarrow> b \<noteq> []"
  by (auto simp: is_bucket_def workerBucketKey_def statusBucketKey_def)

text \<open>The flat keys of the two buckets are disjoint: neither bucket name is a prefix of the other.\<close>

lemma bucket_append_inject:
  assumes "is_bucket b" and "is_bucket b'"
  shows "b @ k = b' @ k' \<longleftrightarrow> b = b' \<and> k = k'"
  using assms by (auto simp: is_bucket_def workerBucketKey_def statusBucketKey_def)

subsection \<open>The contract\<close>

locale kv_store =
  fixes K :: "'s kvAdapter"
    and contents :: "'s \<Rightarrow> string \<Rightarrow> string \<rightharpoonup> json"
    and up :: "'s \<Rightarrow> bool"
  assumes get_contents: "up s \<Longrightarrow> is_bucket b \<Longrightarrow> fst (kv_Get K b k s) = contents s b k"
    and get_no_error: "up s \<Longrightarrow> is_bucket b \<Longrightarrow> contents s b k = Some v \<Longrightarrow> snd (kv_Get K b k s) = None"
    and getall: "up s \<Longrightarrow> is_bucket b \<Longrightarrow> \<exists>l. kv_GetAll K b s = (l, None) \<and> distinct (map fst l) \<and> map_of l = contents s b"
    and put: "up s \<Longrightarrow> is_bucket b \<Longrightarrow> key_ok k \<Longrightarrow> \<exists>s'. kv_Put K b k v s = (None, s') \<and> up s' \<and>
       (\<forall>b'. is_bucket b' \<longrightarrow> contents s' b' = (if b' = b then (contents s b)(k \<mapsto> v) else contents s b'))"
    and delete: "up s \<Longrightarrow> is_bucket b \<Longrightarrow> \<exists>s'. kv_Delete K b k s = (None, s') \<and> up s' \<and>
       (\<forall>b'. is_bucket b' \<longrightarrow> contents s' b' = (if b' = b then (contents s b)(k := None) else contents s b'))"

subsection \<open>bbolt\<close>

record 's bolt_db =
  bolt_View :: "'s \<Rightarrow> goerror option"
  bolt_Update :: "('s \<Rightarrow> goerror option \<times> 's) \<Rightarrow> 's \<Rightarrow> goerror option \<times> 's"
  bolt_CreateBucketIfNotExists :: "string \<Rightarrow> 's \<Rightarrow> goerror option \<times> 's"
  bolt_Bucket_Get :: "string \<Rightarrow> string \<Rightarrow> 's \<Rightarrow> json option"
  bolt_Bucket_Cursor :: "string \<Rightarrow> 's \<Rightarrow> (string \<times> json) list"
  bolt_Bucket_Put :: "string \<Rightarrow> string \<Rightarrow> json \<Rightarrow> 's \<Rightarrow> goerror option \<times> 's"
  bolt_Bucket_Delete :: "string \<Rightarrow> string \<Rightarrow> 's \<Rightarrow> goerror option \<times> 's"
  bolt_Close :: "'s \<Rightarrow> goerror option \<times> 's"

definition bolt_InitBucket :: "'s bolt_db \<Rightarrow> string \<Rightarrow> 's \<Rightarrow> goerror option \<times> 's" where
  "bolt_InitBucket B bucket s = bolt_Update B (\<lambda>tx.
     case bolt_CreateBucketIfNotExists B bucket tx of
       (Some e, tx') \<Rightarrow> (Some (''create bucket '' @ workerBucketKey @ '' error: '' @ e), tx')
     | (None, tx') \<Rightarrow> (None, tx')) s"

definition bolt_Get :: "'s bolt_db \<Rightarrow> string \<Rightarrow> string \<Rightarrow> 's \<Rightarrow> json option with_err" where
  "bolt_Get B bucket key s =
     (case bolt_View B s of Some e \<Rightarrow> (None, Some e) | None \<Rightarrow> (bolt_Bucket_Get B bucket key s, None))"

definition bolt_GetAll :: "'s bolt_db \<Rightarrow> string \<Rightarrow> 's \<Rightarrow> (string \<times> json) list with_err" where
  "bolt_GetAll B bucket s =
     (case bolt_View B s of Some e \<Rightarrow> ([], Some e) | None \<Rightarrow> (bolt_Bucket_Cursor B bucket s, None))"

definition bolt_Put :: "'s bolt_db \<Rightarrow> string \<Rightarrow> string \<Rightarrow> json \<Rightarrow> 's \<Rightarrow> goerror option \<times> 's" where
  "bolt_Put B bucket key v s = bolt_Update B (bolt_Bucket_Put B bucket key v) s"

definition bolt_Delete :: "'s bolt_db \<Rightarrow> string \<Rightarrow> string \<Rightarrow> 's \<Rightarrow> goerror option \<times> 's" where
  "bolt_Delete B bucket key s = bolt_Update B (bolt_Bucket_Delete B bucket key) s"

definition boltAdapter :: "'s bolt_db \<Rightarrow> 's kvAdapter" where
  "boltAdapter B =
     \<lparr>kv_InitBucket = bolt_InitBucket B, kv_Get = bolt_Get B, kv_GetAll = bolt_GetAll B,
      kv_Put = bolt_Put B, kv_Delete = bolt_Delete B, kv_Close = bolt_Close B\<rparr>"

text \<open>Documented behaviour of bbolt: \<open>Update\<close> commits when the function returns no error and rolls
  back otherwise; a bucket is a map; \<open>Delete\<close> of an absent key is no error.\<close>

definition bolt_laws :: "'s bolt_db \<Rightarrow> ('s \<Rightarrow> string \<Rightarrow> (string \<rightharpoonup> json) option) \<Rightarrow> ('s \<Rightarrow> bool) \<Rightarrow> bool" where
  "bolt_laws B c up \<longleftrightarrow>
     (\<forall>s. up s \<longrightarrow> bolt_View B s = None) \<and>
     (\<forall>s f. up s \<longrightarrow> bolt_Update B f s = (case f s of (None, s') \<Rightarrow> (None, s') | (Some e, _) \<Rightarrow> (Some e, s))) \<and>
     (\<forall>s b k m. up s \<longrightarrow> c s b = Some m \<longrightarrow> bolt_Bucket_Get B b k s = m k) \<and>
     (\<forall>s b m. up s \<longrightarrow> c s b = Some m \<longrightarrow>
        distinct (map fst (bolt_Bucket_Cursor B b s)) \<and> map_of (bolt_Bucket_Cursor B b s) = m) \<and>
     (\<forall>s b k v m. up s \<longrightarrow> c s b = Some m \<longrightarrow> key_ok k \<longrightarrow>
        (\<exists>s'. bolt_Bucket_Put B b k v s = (None, s') \<and> up s' \<and> c s' = (c s)(b \<mapsto> m(k \<mapsto> v)))) \<and>
     (\<forall>s b k m. up s \<longrightarrow> c s b = Some m \<longrightarrow>
        (\<exists>s'. bolt_Bucket_Delete B b k s = (None, s') \<and> up s' \<and> c s' = (c s)(b \<mapsto> m(k := None)))) \<and>
     (\<forall>s b. up s \<longrightarrow> b \<noteq> [] \<longrightarrow>
        (\<exists>s'. bolt_CreateBucketIfNotExists B b s = (None, s') \<and> up s' \<and>
           c s' = (if c s b = None then (c s)(b \<mapsto> Map.empty) else c s)))"

definition bolt_contents :: "('s \<Rightarrow> string \<Rightarrow> (string \<rightharpoonup> json) option) \<Rightarrow> 's \<Rightarrow> string \<Rightarrow> string \<rightharpoonup> json" where
  "bolt_contents c s b = (case c s b of None \<Rightarrow> Map.empty | Some m \<Rightarrow> m)"

text \<open>A bolt database after \<open>Init\<close>: healthy, with both buckets created.\<close>

definition bolt_up :: "'s bolt_db \<Rightarrow> ('s \<Rightarrow> string \<Rightarrow> (string \<rightharpoonup> json) option) \<Rightarrow> ('s \<Rightarrow> bool) \<Rightarrow> 's \<Rightarrow> bool" where
  "bolt_up B c up s \<longleftrightarrow> bolt_laws B c up \<and> up s \<and> (\<forall>b. is_bucket b \<longrightarrow> c s b \<noteq> None)"

lemma boltAdapter_simps [simp]:
  "kv_InitBucket (boltAdapter B) = bolt_InitBucket B" "kv_Get (boltAdapter B) = bolt_Get B"
  "kv_GetAll (boltAdapter B) = bolt_GetAll B" "kv_Put (boltAdapter B) = bolt_Put B"
  "kv_Delete (boltAdapter B) = bolt_Delete B" "kv_Close (boltAdapter B) = bolt_Close B"
  by (simp_all add: boltAdapter_def)

lemma bolt_upE:
  assumes "bolt_up B c up s" and "is_bucket b"
  obtains m where "bolt_laws B c up" and "up s" and "c s b = Some m" and "\<forall>b. is_bucket b \<longrightarrow> c s b \<noteq> None"
    and "bolt_contents c s b = m"
  using assms by (auto simp: bolt_up_def bolt_contents_def)

lemma bolt_Put_law:
  assumes "bolt_up B c up s" and "is_bucket b" and "key_ok k"
  shows "\<exists>s'. bolt_Put B b k v s = (None, s') \<and> bolt_up B c up s' \<and>
    (\<forall>b'. is_bucket b' \<longrightarrow> bolt_contents c s' b' =
       (if b' = b then (bolt_contents c s b)(k \<mapsto> v) else bolt_contents c s b'))"
proof -
  from assms(1,2) obtain m where m: "bolt_laws B c up" "up s" "c s b = Some m"
    "\<forall>b. is_bucket b \<longrightarrow> c s b \<noteq> None" by (rule bolt_upE)
  with assms(3) obtain s' where "bolt_Bucket_Put B b k v s = (None, s')" "up s'" "c s' = (c s)(b \<mapsto> m(k \<mapsto> v))"
    unfolding bolt_laws_def by meson
  moreover from m have "bolt_Update B f s = (case f s of (None, s') \<Rightarrow> (None, s') | (Some e, _) \<Rightarrow> (Some e, s))" for f
    unfolding bolt_laws_def by meson
  ultimately show ?thesis
    using m by (auto simp: bolt_Put_def bolt_up_def bolt_contents_def)
qed

lemma bolt_Delete_law:
  assumes "bolt_up B c up s" and "is_bucket b"
  shows "\<exists>s'. bolt_Delete B b k s = (None, s') \<and> bolt_up B c up s' \<and>
    (\<forall>b'. is_bucket b' \<longrightarrow> bolt_contents c s' b' =
       (if b' = b then (bolt_contents c s b)(k := None) else bolt_contents c s b'))"
proof -
  from assms obtain m where m: "bolt_laws B c up" "up s" "c s b = Some m"
    "\<forall>b. is_bucket b \<longrightarrow> c s b \<noteq> None" by (rule bolt_upE)
  then obtain s' where "bolt_Bucket_Delete B b k s = (None, s')" "up s'" "c s' = (c s)(b \<mapsto> m(k := None))"
    unfolding bolt_laws_def by meson
  moreover from m have "bolt_Update B f s = (case f s of (None, s') \<Rightarrow> (None, s') | (Some e, _) \<Rightarrow> (Some e, s))" for f
    unfolding bolt_laws_def by meson
  ultimately show ?thesis
    using m by (auto simp: bolt_Delete_def bolt_up_def bolt_contents_def)
qed

interpretation bolt: kv_store "boltAdapter B" "bolt_contents c" "bolt_up B c up" for B c up
proof
  fix s b k v
  assume s: "bolt_up B c up s" and b: "is_bucket b"
  from s b obtain m where m: "bolt_laws B c up" "up s" "c s b = Some m" "bolt_contents c s b = m"
    by (rule bolt_upE)
  from m have view: "bolt_View B s = None" unfolding bolt_laws_def by meson
  from m have get: "bolt_Bucket_Get B b k s = m k" unfolding bolt_laws_def by meson
  from m have cur: "distinct (map fst (bolt_Bucket_Cursor B b s)) \<and> map_of (bolt_Bucket_Cursor B b s) = m"
    unfolding bolt_laws_def by meson
  from view get m show "fst (kv_Get (boltAdapter B) b k s) = bolt_contents c s b k"
    and "snd (kv_Get (boltAdapter B) b k s) = None"
    by (simp_all add: bolt_Get_def)
  from view cur m show "\<exists>l. kv_GetAll (boltAdapter B) b s = (l, None) \<and> distinct (map fst l) \<and> map_of l = bolt_contents c s b"
    by (simp add: bolt_GetAll_def)
qed (simp_all add: bolt_Put_law bolt_Delete_law)

subsection \<open>badger\<close>

text \<open>An item of a badger iteration or lookup: its key and what \<open>ValueCopy\<close> returns.\<close>

record badger_item =
  item_Key :: string
  item_ValueCopy :: "json option with_err"

record 's badger_db =
  bdg_View :: "'s \<Rightarrow> goerror option"
  bdg_Update :: "('s \<Rightarrow> goerror option \<times> 's) \<Rightarrow> 's \<Rightarrow> goerror option \<times> 's"
  bdg_Txn_Get :: "string \<Rightarrow> 's \<Rightarrow> badger_item option with_err"
  bdg_Iterate :: "string \<Rightarrow> 's \<Rightarrow> badger_item list"
  bdg_Txn_Set :: "string \<Rightarrow> json \<Rightarrow> 's \<Rightarrow> goerror option \<times> 's"
  bdg_Txn_Delete :: "string \<Rightarrow> 's \<Rightarrow> goerror option \<times> 's"
  bdg_Close :: "'s \<Rightarrow> goerror option \<times> 's"

definition badger_InitBucket :: "'s badger_db \<Rightarrow> string \<Rightarrow> 's \<Rightarrow> goerror option \<times> 's" where
  "badger_InitBucket B bucket s = (None, s)"

text \<open>The result of \<open>View\<close> itself is dropped by the adapter.\<close>

definition badger_Get :: "'s badger_db \<Rightarrow> string \<Rightarrow> string \<Rightarrow> 's \<Rightarrow> json option with_err" where
  "badger_Get B bucket key s =
     (case bdg_View B s of
        Some _ \<Rightarrow> (None, None)
      | None \<Rightarrow> (case bdg_Txn_Get B (bucket @ key) s of
                   (Some item, _) \<Rightarrow> item_ValueCopy item
                 | (None, err) \<Rightarrow> (None, err)))"

text \<open>The loop over the items with the bucket's prefix: the value of a failed copy is stored as
  \<open>nil\<close> and only the error of the last item is returned.\<close>

fun badger_collect :: "nat \<Rightarrow> badger_item list \<Rightarrow> (string \<times> json option) list \<times> goerror option \<Rightarrow>
    (string \<times> json option) list \<times> goerror option" where
  "badger_collect n [] acc = acc"
| "badger_collect n (it # its) (m, err) =
     badger_collect n its
       (AList.update (drop n (item_Key it)) (fst (item_ValueCopy it)) m, snd (item_ValueCopy it))"

text \<open>A \<open>nil\<close> value is no JSON text.\<close>

definition nil_as_bad :: "(string \<times> json option) list \<Rightarrow> (string \<times> json) list" where
  "nil_as_bad = map (\<lambda>(k, v). (k, case v of None \<Rightarrow> JBad | Some j \<Rightarrow> j))"

definition badger_GetAll :: "'s badger_db \<Rightarrow> string \<Rightarrow> 's \<Rightarrow> (string \<times> json) list with_err" where
  "badger_GetAll B bucket s =
     (case bdg_View B s of
        Some _ \<Rightarrow> ([], None)
      | None \<Rightarrow> map_prod nil_as_bad id (badger_collect (length bucket) (bdg_Iterate B bucket s) ([], None)))"

definition badger_Put :: "'s badger_db \<Rightarrow> string \<Rightarrow> string \<Rightarrow> json \<Rightarrow> 's \<Rightarrow> goerror option \<times> 's" where
  "badger_Put B bucket key v s = bdg_Update B (bdg_Txn_Set B (bucket @ key) v) s"

definition badger_Delete :: "'s badger_db \<Rightarrow> string \<Rightarrow> string \<Rightarrow> 's \<Rightarrow> goerror option \<times> 's" where
  "badger_Delete B bucket key s = bdg_Update B (bdg_Txn_Delete B (bucket @ key)) s"

definition badgerAdapter :: "'s badger_db \<Rightarrow> 's kvAdapter" where
  "badgerAdapter B =
     \<lparr>kv_InitBucket = badger_InitBucket B, kv_Get = badger_Get B, kv_GetAll = badger_GetAll B,
      kv_Put = badger_Put B, kv_Delete = badger_Delete B, kv_Close = bdg_Close B\<rparr>"

text \<open>Documented behaviour of badger in a healthy database: a transaction sees one map \<open>m s\<close> from
  keys to values; an iteration from a prefix yields exactly the keys with that prefix, each once.\<close>

definition badger_laws :: "'s badger_db \<Rightarrow> ('s \<Rightarrow> string \<rightharpoonup> json) \<Rightarrow> ('s \<Rightarrow> bool) \<Rightarrow> bool" where
  "badger_laws B m up \<longleftrightarrow>
     (\<forall>s. up s \<longrightarrow> bdg_View B s = None) \<and>
     (\<forall>s f. up s \<longrightarrow> bdg_Update B f s = (case f s of (None, s') \<Rightarrow> (None, s') | (Some e, _) \<Rightarrow> (Some e, s))) \<and>
     (\<forall>s k. up s \<longrightarrow> m s k = None \<longrightarrow> fst (bdg_Txn_Get B k s) = None) \<and>
     (\<forall>s k v. up s \<longrightarrow> m s k = Some v \<longrightarrow>
        (\<exists>it. bdg_Txn_Get B k s = (Some it, None) \<and> item_ValueCopy it = (Some v, None))) \<and>
     (\<forall>s p. up s \<longrightarrow> distinct (map item_Key (bdg_Iterate B p s)) \<and>
        (\<forall>it\<in>set (bdg_Iterate B p s). prefix p (item_Key it) \<and>
           (\<exists>v. m s (item_Key it) = Some v \<and> item_ValueCopy it = (Some v, None))) \<and>
        (\<forall>k. prefix p k \<longrightarrow> m s k \<noteq> None \<longrightarrow> k \<in> item_Key ` set (bdg_Iterate B p s))) \<and>
     (\<forall>s k v. up s \<longrightarrow> k \<noteq> [] \<longrightarrow> length k \<le> 65000 \<longrightarrow>
        (\<exists>s'. bdg_Txn_Set B k v s = (None, s') \<and> up s' \<and> m s' = (m s)(k \<mapsto> v))) \<and>
     (\<forall>s k. up s \<longrightarrow> k \<noteq> [] \<longrightarrow>
        (\<exists>s'. bdg_Txn_Delete B k s = (None, s') \<and> up s' \<and> m s' = (m s)(k := None)))"

text \<open>A bucket of a flat store is the part of the map under the bucket's prefix.\<close>

definition flat_contents :: "('s \<Rightarrow> string \<rightharpoonup> json) \<Rightarrow> 's \<Rightarrow> string \<Rightarrow> string \<rightharpoonup> json" where
  "flat_contents m s b k = m s (b @ k)"

definition badger_up :: "'s badger_db \<Rightarrow> ('s \<Rightarrow> string \<rightharpoonup> json) \<Rightarrow> ('s \<Rightarrow> bool) \<Rightarrow> 's \<Rightarrow> bool" where
  "badger_up B m up s \<longleftrightarrow> badger_laws B m up \<and> up s"

lemma badgerAdapter_simps [simp]:
  "kv_InitBucket (badgerAdapter B) = badger_InitBucket B" "kv_Get (badgerAdapter B) = badger_Get B"
  "kv_GetAll (badgerAdapter B) = badger_GetAll B" "kv_Put (badgerAdapter B) = badger_Put B"
  "kv_Delete (badgerAdapter B) = badger_Delete B" "kv_Close (badgerAdapter B) = bdg_Close B"
  by (simp_all add: badgerAdapter_def)

lemma flat_contents_update:
  assumes "is_bucket b" and "is_bucket b'" and "m s' = (m s)(b @ k := v)"
  shows "flat_contents m s' b' = (if b' = b then (flat_contents m s b)(k := v) else flat_contents m s b')"
  using assms by (auto simp: flat_contents_def fun_eq_iff bucket_append_inject)

lemma key_ok_flat: "key_ok k \<Longrightarrow> is_bucket b \<Longrightarrow> b @ k \<noteq> [] \<and> length (b @ k) \<le> 65000"
  by (auto simp: key_ok_def is_bucket_def workerBucketKey_def statusBucketKey_def)

lemma badger_Put_law:
  assumes "badger_up B m up s" and "is_bucket b" and "key_ok k"
  shows "\<exists>s'. badger_Put B b k v s = (None, s') \<and> badger_up B m up s' \<and>
    (\<forall>b'. is_bucket b' \<longrightarrow> flat_contents m s' b' =
       (if b' = b then (flat_contents m s b)(k \<mapsto> v) else flat_contents m s b'))"
proof -
  from assms key_ok_flat obtain s' where s': "bdg_Txn_Set B (b @ k) v s = (None, s')" "up s'" "m s' = (m s)(b @ k \<mapsto> v)"
    unfolding badger_laws_def badger_up_def by meson
  moreover from assms(1) have "bdg_Update B f s = (case f s of (None, s') \<Rightarrow> (None, s') | (Some e, _) \<Rightarrow> (Some e, s))" for f
    unfolding badger_laws_def badger_up_def by meson
  ultimately show ?thesis
    using assms(1,2) by (auto simp: badger_Put_def badger_up_def flat_contents_update)
qed

lemma badger_Delete_law:
  assumes "badger_up B m up s" and "is_bucket b"
  shows "\<exists>s'. badger_Delete B b k s = (None, s') \<and> badger_up B m up s' \<and>
    (\<forall>b'. is_bucket b' \<longrightarrow> flat_contents m s' b' =
       (if b' = b then (flat_contents m s b)(k := None) else flat_contents m s b'))"
proof -
  from assms have "b @ k \<noteq> []" by auto
  with assms obtain s' where s': "bdg_Txn_Delete B (b @ k) s = (None, s')" "up s'" "m s' = (m s)(b @ k := None)"
    unfolding badger_laws_def badger_up_def by meson
  moreover from assms(1) have "bdg_Update B f s = (case f s of (None, s') \<Rightarrow> (None, s') | (Some e, _) \<Rightarrow> (Some e, s))" for f
    unfolding badger_laws_def badger_up_def by meson
  ultimately show ?thesis
    using assms(1,2) by (auto simp: badger_Delete_def badger_up_def flat_contents_update)
qed

text \<open>Collecting items with pairwise distinct keys under one prefix and good values builds the list of
  the stripped keys and values.\<close>

lemma badger_collect_good:
  assumes "distinct (map fst acc @ map (drop n \<circ> item_Key) its)"
    and "\<forall>it\<in>set its. snd (item_ValueCopy it) = None"
  shows "badger_collect n its (acc, None) =
    (acc @ map (\<lambda>it. (drop n (item_Key it), fst (item_ValueCopy it))) its, None)"
  using assms
proof (induction its arbitrary: acc)
  case Nil
  then show ?case by simp
next
  case (Cons it its)
  from Cons.prems(1) have "drop n (item_Key it) \<notin> set (map fst acc)" by auto
  then have "AList.update (drop n (item_Key it)) v acc = acc @ [(drop n (item_Key it), v)]" for v :: "json option"
    by (induction acc) auto
  with Cons.prems show ?case by (simp add: Cons.IH)
qed

lemma badger_GetAll_law:
  assumes "badger_up B m up s" and "is_bucket b"
  shows "\<exists>l. badger_GetAll B b s = (l, None) \<and> distinct (map fst l) \<and> map_of l = flat_contents m s b"
proof -
  let ?its = "bdg_Iterate B b s"
  let ?strip = "\<lambda>it. drop (length b) (item_Key it)"
  let ?l = "map (\<lambda>it. (?strip it, the (m s (item_Key it)))) ?its"
  have view: "bdg_View B s = None" and dist: "distinct (map item_Key ?its)"
    and val: "\<And>it. it \<in> set ?its \<Longrightarrow> prefix b (item_Key it) \<and>
      (\<exists>v. m s (item_Key it) = Some v \<and> item_ValueCopy it = (Some v, None))"
    and all: "\<And>k. prefix b k \<Longrightarrow> m s k \<noteq> None \<Longrightarrow> k \<in> item_Key ` set ?its"
    using assms(1) unfolding badger_laws_def badger_up_def by meson+
  have key: "item_Key it = b @ ?strip it" if "it \<in> set ?its" for it
    using val [OF that] by (auto elim: prefixE)
  have dstrip: "distinct (map ?strip ?its)"
  proof -
    have "map item_Key ?its = map ((@) b) (map ?strip ?its)" using key by auto
    with dist show ?thesis by (metis distinct_map)
  qed
  have good: "badger_collect (length b) ?its ([], None) =
      (map (\<lambda>it. (?strip it, fst (item_ValueCopy it))) ?its, None)"
  proof (subst badger_collect_good)
    show "\<forall>it\<in>set ?its. snd (item_ValueCopy it) = None" using val by fastforce
  qed (use dstrip in \<open>simp_all add: comp_def\<close>)
  have l: "nil_as_bad (map (\<lambda>it. (?strip it, fst (item_ValueCopy it))) ?its) = ?l"
    using val by (fastforce simp: nil_as_bad_def)
  have "map_of ?l k = flat_contents m s b k" for k
  proof (cases "m s (b @ k)")
    case None
    have "k \<notin> ?strip ` set ?its" using None key val by fastforce
    then have "map_of ?l k = None" by (auto simp: map_of_eq_None_iff image_image)
    with None show ?thesis by (simp add: flat_contents_def)
  next
    case (Some v)
    then have "b @ k \<in> item_Key ` set ?its" by (intro all) auto
    then obtain it where it: "it \<in> set ?its" "item_Key it = b @ k" by auto
    with Some have "(k, v) \<in> set ?l" by force
    moreover have "distinct (map fst ?l)" using dstrip by (simp add: comp_def)
    ultimately show ?thesis using Some by (simp add: flat_contents_def)
  qed
  moreover have "distinct (map fst ?l)" using dstrip by (simp add: comp_def)
  ultimately show ?thesis
    using view good l by (auto simp: badger_GetAll_def)
qed

interpretation badger: kv_store "badgerAdapter B" "flat_contents m" "badger_up B m up" for B m up
proof
  fix s b k
  assume s: "badger_up B m up s" and b: "is_bucket b"
  then have view: "bdg_View B s = None" unfolding badger_up_def badger_laws_def by meson
  show "fst (kv_Get (badgerAdapter B) b k s) = flat_contents m s b k"
  proof (cases "m s (b @ k)")
    case None
    with s have "fst (bdg_Txn_Get B (b @ k) s) = None" unfolding badger_up_def badger_laws_def by meson
    with None view show ?thesis
      by (cases "bdg_Txn_Get B (b @ k) s") (simp add: badger_Get_def flat_contents_def)
  next
    case (Some v)
    with s obtain it where "bdg_Txn_Get B (b @ k) s = (Some it, None)" "item_ValueCopy it = (Some v, None)"
      unfolding badger_up_def badger_laws_def by meson
    with Some view show ?thesis by (simp add: badger_Get_def flat_contents_def)
  qed
next
  fix s b k v
  assume s: "badger_up B m up s" and b: "is_bucket b" and v: "flat_contents m s b k = Some v"
  then have view: "bdg_View B s = None" unfolding badger_up_def badger_laws_def by meson
  from v have "m s (b @ k) = Some v" by (simp add: flat_contents_def)
  with s obtain it where "bdg_Txn_Get B (b @ k) s = (Some it, None)" "item_ValueCopy it = (Some v, None)"
    unfolding badger_up_def badger_laws_def by meson
  with view show "snd (kv_Get (badgerAdapter B) b k s) = None" by (simp add: badger_Get_def)
qed (simp_all add: badger_Put_law badger_Delete_law badger_GetAll_law)

subsection \<open>leveldb\<close>

record 's level_db =
  ldb_Get :: "string \<Rightarrow> 's \<Rightarrow> json option with_err"
  ldb_Iterate :: "string \<Rightarrow> 's \<Rightarrow> (string \<times> json) list"
  ldb_Put :: "string \<Rightarrow> json \<Rightarrow> 's \<Rightarrow> goerror option \<times> 's"
  ldb_Delete :: "string \<Rightarrow> 's \<Rightarrow> goerror option \<times> 's"
  ldb_Close :: "'s \<Rightarrow> goerror option \<times> 's"

definition leveldb_InitBucket :: "'s level_db \<Rightarrow> string \<Rightarrow> 's \<Rightarrow> goerror option \<times> 's" where
  "leveldb_InitBucket L bucket s = (None, s)"

definition leveldb_Get :: "'s level_db \<Rightarrow> string \<Rightarrow> string \<Rightarrow> 's \<Rightarrow> json option with_err" where
  "leveldb_Get L bucket key s = ldb_Get L (bucket @ key) s"

text \<open>The loop over \<open>NewIterator(BytesPrefix(bucket))\<close>.\<close>

fun leveldb_collect :: "nat \<Rightarrow> (string \<times> json) list \<Rightarrow> (string \<times> json) list \<Rightarrow> (string \<times> json) list" where
  "leveldb_collect n [] m = m"
| "leveldb_collect n ((k, v) # kvs) m = leveldb_collect n kvs (AList.update (drop n k) v m)"

definition leveldb_GetAll :: "'s level_db \<Rightarrow> string \<Rightarrow> 's \<Rightarrow> (string \<times> json) list with_err" where
  "leveldb_GetAll L bucket s = (leveldb_collect (length bucket) (ldb_Iterate L bucket s) [], None)"

definition leveldb_Put :: "'s level_db \<Rightarrow> string \<Rightarrow> string \<Rightarrow> json \<Rightarrow> 's \<Rightarrow> goerror option \<times> 's" where
  "leveldb_Put L bucket key v s = ldb_Put L (bucket @ key) v s"

definition leveldb_Delete :: "'s level_db \<Rightarrow> string \<Rightarrow> string \<Rightarrow> 's \<Rightarrow> goerror option \<times> 's" where
  "leveldb_Delete L bucket key s = ldb_Delete L (bucket @ key) s"

definition leveldbAdapter :: "'s level_db \<Rightarrow> 's kvAdapter" where
  "leveldbAdapter L =
     \<lparr>kv_InitBucket = leveldb_InitBucket L, kv_Get = leveldb_Get L, kv_GetAll = leveldb_GetAll L,
      kv_Put = leveldb_Put L, kv_Delete = leveldb_Delete L, kv_Close = ldb_Close L\<rparr>"

text \<open>Documented behaviour of goleveldb: \<open>Get\<close> of an absent key is \<open>ErrNotFound\<close> with a nil
  value; an iterator over a prefix range yields the keys with that prefix, each once.\<close>

definition leveldb_laws :: "'s level_db \<Rightarrow> ('s \<Rightarrow> string \<rightharpoonup> json) \<Rightarrow> ('s \<Rightarrow> bool) \<Rightarrow> bool" where
  "leveldb_laws L m up \<longleftrightarrow>
     (\<forall>s k. up s \<longrightarrow> m s k = None \<longrightarrow> fst (ldb_Get L k s) = None) \<and>
     (\<forall>s k v. up s \<longrightarrow> m s k = Some v \<longrightarrow> ldb_Get L k s = (Some v, None)) \<and>
     (\<forall>s p. up s \<longrightarrow> distinct (map fst (ldb_Iterate L p s)) \<and>
        set (ldb_Iterate L p s) = {(k, v). prefix p k \<and> m s k = Some v}) \<and>
     (\<forall>s k v. up s \<longrightarrow> k \<noteq> [] \<longrightarrow>
        (\<exists>s'. ldb_Put L k v s = (None, s') \<and> up s' \<and> m s' = (m s)(k \<mapsto> v))) \<and>
     (\<forall>s k. up s \<longrightarrow> (\<exists>s'. ldb_Delete L k s = (None, s') \<and> up s' \<and> m s' = (m s)(k := None)))"

definition leveldb_up :: "'s level_db \<Rightarrow> ('s \<Rightarrow> string \<rightharpoonup> json) \<Rightarrow> ('s \<Rightarrow> bool) \<Rightarrow> 's \<Rightarrow> bool" where
  "leveldb_up L m up s \<longleftrightarrow> leveldb_laws L m up \<and> up s"

lemma leveldbAdapter_simps [simp]:
  "kv_InitBucket (leveldbAdapter L) = leveldb_InitBucket L" "kv_Get (leveldbAdapter L) = leveldb_Get L"
  "kv_GetAll (leveldbAdapter L) = leveldb_GetAll L" "kv_Put (leveldbAdapter L) = leveldb_Put L"
  "kv_Delete (leveldbAdapter L) = leveldb_Delete L" "kv_Close (leveldbAdapter L) = ldb_Close L"
  by (simp_all add: leveldbAdapter_def)

lemma map_of_leveldb_collect:
  "map_of (leveldb_collect n kvs acc) = map_of acc ++ map_of (rev (map (\<lambda>(k, v). (drop n k, v)) kvs))"
  by (induction n kvs acc rule: leveldb_collect.induct) (auto simp: AList.update_conv' fun_eq_iff map_add_def split: option.splits)

lemma distinct_leveldb_collect:
  "distinct (map fst acc) \<Longrightarrow> distinct (map fst (leveldb_collect n kvs acc))"
  by (induction n kvs acc rule: leveldb_collect.induct) (auto simp: AList.distinct_update)

lemma leveldb_GetAll_law:
  assumes "leveldb_up L m up s" and "is_bucket b"
  shows "\<exists>l. leveldb_GetAll L b s = (l, None) \<and> distinct (map fst l) \<and> map_of l = flat_contents m s b"
proof -
  let ?kvs = "ldb_Iterate L b s"
  let ?l = "rev (map (\<lambda>(k, v). (drop (length b) k, v)) ?kvs)"
  have dist: "distinct (map fst ?kvs)" and elems: "set ?kvs = {(k, v). prefix b k \<and> m s k = Some v}"
    using assms(1) unfolding leveldb_laws_def leveldb_up_def by meson+
  have key: "fst kv = b @ drop (length b) (fst kv)" if "kv \<in> set ?kvs" for kv
    using that elems by (auto elim: prefixE)
  have "map fst ?kvs = map ((@) b) (map (drop (length b) \<circ> fst) ?kvs)" using key by auto
  with dist have "distinct (map (drop (length b) \<circ> fst) ?kvs)" by (metis distinct_map)
  then have dl: "distinct (map fst ?l)" by (simp add: comp_def case_prod_unfold flip: rev_map)
  have "map_of ?l k = flat_contents m s b k" for k
  proof (cases "m s (b @ k)")
    case None
    have "k \<notin> fst ` set ?l"
    proof
      assume "k \<in> fst ` set ?l"
      then obtain k' v where "(k', v) \<in> set ?kvs" "k = drop (length b) k'" by auto
      with key [of "(k', v)"] elems None show False by auto
    qed
    then have "map_of ?l k = None" by (rule map_of_eq_None_iff [THEN iffD2])
    with None show ?thesis by (simp add: flat_contents_def)
  next
    case (Some v)
    then have "(b @ k, v) \<in> set ?kvs" using elems by simp
    then have "(k, v) \<in> set ?l" by force
    with dl have "map_of ?l k = Some v" by (rule map_of_is_SomeI)
    with Some show ?thesis by (simp add: flat_contents_def)
  qed
  then show ?thesis
    by (simp add: leveldb_GetAll_def distinct_leveldb_collect map_of_leveldb_collect fun_eq_iff)
qed

interpretation leveldb: kv_store "leveldbAdapter L" "flat_contents m" "leveldb_up L m up" for L m up
proof
  fix s b k
  assume s: "leveldb_up L m up s" and b: "is_bucket b"
  show "fst (kv_Get (leveldbAdapter L) b k s) = flat_contents m s b k"
    using s unfolding leveldb_up_def leveldb_laws_def
    by (cases "m s (b @ k)") (simp_all add: leveldb_Get_def flat_contents_def)
  have "b @ k \<noteq> []" using b by auto
  fix v
  from s obtain s' where "ldb_Put L (b @ k) v s = (None, s')" "up s'" "m s' = (m s)(b @ k \<mapsto> v)"
    using \<open>b @ k \<noteq> []\<close> unfolding leveldb_up_def leveldb_laws_def by meson
  with s b show "\<exists>s'. kv_Put (leveldbAdapter L) b k v s = (None, s') \<and> leveldb_up L m up s' \<and>
      (\<forall>b'. is_bucket b' \<longrightarrow> flat_contents m s' b' = (if b' = b then (flat_contents m s b)(k \<mapsto> v) else flat_contents m s b'))"
    by (auto simp: leveldb_Put_def leveldb_up_def flat_contents_update)
  from s obtain s'' where "ldb_Delete L (b @ k) s = (None, s'')" "up s''" "m s'' = (m s)(b @ k := None)"
    unfolding leveldb_up_def leveldb_laws_def by meson
  with s b show "\<exists>s'. kv_Delete (leveldbAdapter L) b k s = (None, s') \<and> leveldb_up L m up s' \<and>
      (\<forall>b'. is_bucket b' \<longrightarrow> flat_contents m s' b' = (if b' = b then (flat_contents m s b)(k := None) else flat_contents m s b'))"
    by (auto simp: leveldb_Delete_def leveldb_up_def flat_contents_update)
next
  fix s b k v
  assume "leveldb_up L m up s" "is_bucket b" "flat_contents m s b k = Some v"
  then show "snd (kv_Get (leveldbAdapter L) b k s) = None"
    unfolding leveldb_up_def leveldb_laws_def by (simp add: leveldb_Get_def flat_contents_def)
qed (simp_all add: leveldb_GetAll_law)

subsection \<open>redis\<close>

text \<open>\<open>HGetAll\<close> may yield a nil map (\<open>None\<close>).\<close>

record 's redis_db =
  rds_HGet :: "string \<Rightarrow> string \<Rightarrow> 's \<Rightarrow> json with_err"
  rds_HGetAll :: "string \<Rightarrow> 's \<Rightarrow> (string \<times> json) list option with_err"
  rds_HSet :: "string \<Rightarrow> string \<Rightarrow> json \<Rightarrow> 's \<Rightarrow> goerror option \<times> 's"
  rds_HDel :: "string \<Rightarrow> string \<Rightarrow> 's \<Rightarrow> goerror option \<times> 's"
  rds_Close :: "'s \<Rightarrow> goerror option \<times> 's"

definition redis_InitBucket :: "'s redis_db \<Rightarrow> string \<Rightarrow> 's \<Rightarrow> goerror option \<times> 's" where
  "redis_InitBucket R bucket s = (None, s)"

definition redis_Get :: "'s redis_db \<Rightarrow> string \<Rightarrow> string \<Rightarrow> 's \<Rightarrow> json option with_err" where
  "redis_Get R bucket key s =
     (case rds_HGet R bucket key s of (v, None) \<Rightarrow> (Some v, None) | (_, Some e) \<Rightarrow> (None, Some e))"

definition redis_GetAll :: "'s redis_db \<Rightarrow> string \<Rightarrow> 's \<Rightarrow> (string \<times> json) list with_err" where
  "redis_GetAll R bucket s =
     (case rds_HGetAll R bucket s of (Some m, None) \<Rightarrow> (m, None) | (_, err) \<Rightarrow> ([], err))"

definition redis_Put :: "'s redis_db \<Rightarrow> string \<Rightarrow> string \<Rightarrow> json \<Rightarrow> 's \<Rightarrow> goerror option \<times> 's" where
  "redis_Put R bucket key v s = rds_HSet R bucket key v s"

definition redis_Delete :: "'s redis_db \<Rightarrow> string \<Rightarrow> string \<Rightarrow> 's \<Rightarrow> goerror option \<times> 's" where
  "redis_Delete R bucket key s = rds_HDel R bucket key s"

definition redisAdapter :: "'s redis_db \<Rightarrow> 's kvAdapter" where
  "redisAdapter R =
     \<lparr>kv_InitBucket = redis_InitBucket R, kv_Get = redis_Get R, kv_GetAll = redis_GetAll R,
      kv_Put = redis_Put R, kv_Delete = redis_Delete R, kv_Close = rds_Close R\<rparr>"

text \<open>Documented behaviour of redis hashes: a missing field is the error \<open>redis.Nil\<close>; every hash
  is a map, an absent hash the empty one.\<close>

definition redis_laws :: "'s redis_db \<Rightarrow> ('s \<Rightarrow> string \<Rightarrow> string \<rightharpoonup> json) \<Rightarrow> ('s \<Rightarrow> bool) \<Rightarrow> bool" where
  "redis_laws R c up \<longleftrightarrow>
     (\<forall>s b k. up s \<longrightarrow> c s b k = None \<longrightarrow> snd (rds_HGet R b k s) \<noteq> None) \<and>
     (\<forall>s b k v. up s \<longrightarrow> c s b k = Some v \<longrightarrow> rds_HGet R b k s = (v, None)) \<and>
     (\<forall>s b. up s \<longrightarrow> (\<exists>l. rds_HGetAll R b s = (Some l, None) \<and> distinct (map fst l) \<and> map_of l = c s b)) \<and>
     (\<forall>s b k v. up s \<longrightarrow>
        (\<exists>s'. rds_HSet R b k v s = (None, s') \<and> up s' \<and> c s' = (c s)(b := (c s b)(k \<mapsto> v)))) \<and>
     (\<forall>s b k. up s \<longrightarrow>
        (\<exists>s'. rds_HDel R b k s = (None, s') \<and> up s' \<and> c s' = (c s)(b := (c s b)(k := None))))"

definition redis_up :: "'s redis_db \<Rightarrow> ('s \<Rightarrow> string \<Rightarrow> string \<rightharpoonup> json) \<Rightarrow> ('s \<Rightarrow> bool) \<Rightarrow> 's \<Rightarrow> bool" where
  "redis_up R c up s \<longleftrightarrow> redis_laws R c up \<and> up s"

lemma redisAdapter_simps [simp]:
  "kv_InitBucket (redisAdapter R) = redis_InitBucket R" "kv_Get (redisAdapter R) = redis_Get R"
  "kv_GetAll (redisAdapter R) = redis_GetAll R" "kv_Put (redisAdapter R) = redis_Put R"
  "kv_Delete (redisAdapter R) = redis_Delete R" "kv_Close (redisAdapter R) = rds_Close R"
  by (simp_all add: redisAdapter_def)

interpretation redis: kv_store "redisAdapter R" c "redis_up R c up" for R c up
proof
  fix s b k
  assume s: "redis_up R c up s" and b: "is_bucket b"
  show "fst (kv_Get (redisAdapter R) b k s) = c s b k"
  proof (cases "c s b k")
    case None
    with s have "snd (rds_HGet R b k s) \<noteq> None" unfolding redis_up_def redis_laws_def by meson
    with None show ?thesis by (auto simp: redis_Get_def split: prod.splits option.splits)
  next
    case (Some v)
    with s have "rds_HGet R b k s = (v, None)" unfolding redis_up_def redis_laws_def by meson
    with Some show ?thesis by (simp add: redis_Get_def)
  qed
  from s obtain l where "rds_HGetAll R b s = (Some l, None)" "distinct (map fst l)" "map_of l = c s b"
    unfolding redis_up_def redis_laws_def by meson
  then show "\<exists>l. kv_GetAll (redisAdapter R) b s = (l, None) \<and> distinct (map fst l) \<and> map_of l = c s b"
    by (simp add: redis_GetAll_def)
  from s obtain s' where "rds_HDel R b k s = (None, s')" "up s'" "c s' = (c s)(b := (c s b)(k := None))"
    unfolding redis_up_def redis_laws_def by meson
  with s show "\<exists>s'. kv_Delete (redisAdapter R) b k s = (None, s') \<and> redis_up R c up s' \<and>
      (\<forall>b'. is_bucket b' \<longrightarrow> c s' b' = (if b' = b then (c s b)(k := None) else c s b'))"
    by (auto simp: redis_Delete_def redis_up_def)
  fix v
  from s obtain s' where "rds_HSet R b k v s = (None, s')" "up s'" "c s' = (c s)(b := (c s b)(k \<mapsto> v))"
    unfolding redis_up_def redis_laws_def by meson
  with s show "\<exists>s'. kv_Put (redisAdapter R) b k v s = (None, s') \<and> redis_up R c up s' \<and>
      (\<forall>b'. is_bucket b' \<longrightarrow> c s' b' = (if b' = b then (c s b)(k \<mapsto> v) else c s b'))"
    by (auto simp: redis_Put_def redis_up_def)
next
  fix s b k v
  assume s: "redis_up R c up s" and "is_bucket b" and v: "c s b k = Some v"
  then have "rds_HGet R b k s = (v, None)" unfolding redis_up_def redis_laws_def by meson
  then show "snd (kv_Get (redisAdapter R) b k s) = None" by (simp add: redis_Get_def)
qed

subsection \<open>The backends of the manager\<close>

text \<open>\<open>db_backend K contents up\<close>: \<open>K\<close> is one of the four adapters of the source; in a state with
  \<open>up\<close> the third-party database under it behaves as documented, and \<open>contents\<close> is what the
  two buckets hold.\<close>

definition db_backend :: "'s kvAdapter \<Rightarrow> ('s \<Rightarrow> string \<Rightarrow> string \<rightharpoonup> json) \<Rightarrow> ('s \<Rightarrow> bool) \<Rightarrow> bool" where
  "db_backend K contents up \<longleftrightarrow>
     (\<exists>B c u. K = boltAdapter B \<and> contents = bolt_contents c \<and> up = bolt_up B c u) \<or>
     (\<exists>B m u. K = badgerAdapter B \<and> contents = flat_contents m \<and> up = badger_up B m u) \<or>
     (\<exists>L m u. K = leveldbAdapter L \<and> contents = flat_contents m \<and> up = leveldb_up L m u) \<or>
     (\<exists>R c u. K = redisAdapter R \<and> contents = c \<and> up = redis_up R c u)"

lemma db_backend_kv_store: "db_backend K contents up \<Longrightarrow> kv_store K contents up"
  using bolt.kv_store_axioms badger.kv_store_axioms leveldb.kv_store_axioms redis.kv_store_axioms
  by (auto simp: db_backend_def)


subsection \<open>A concrete bolt database\<close>

text \<open>Used by the witnesses: buckets as association lists, every operation succeeding.\<close>

type_synonym ref_db = "(string \<times> (string \<times> json) list) list"

definition ref_bolt :: "ref_db bolt_db" where
  "ref_bolt =
     \<lparr>bolt_View = (\<lambda>s. None),
      bolt_Update = (\<lambda>f s. case f s of (None, s') \<Rightarrow> (None, s') | (Some e, _) \<Rightarrow> (Some e, s)),
      bolt_CreateBucketIfNotExists = (\<lambda>b s. (None, if map_of s b = None then AList.update b [] s else s)),
      bolt_Bucket_Get = (\<lambda>b k s. case map_of s b of None \<Rightarrow> None | Some m \<Rightarrow> map_of m k),
      bolt_Bucket_Cursor = (\<lambda>b s. case map_of s b of None \<Rightarrow> [] | Some m \<Rightarrow> m),
      bolt_Bucket_Put = (\<lambda>b k v s. (None, AList.update b (AList.update k v (case map_of s b of None \<Rightarrow> [] | Some m \<Rightarrow> m)) s)),
      bolt_Bucket_Delete = (\<lambda>b k s. (None, AList.update b (AList.delete k (case map_of s b of None \<Rightarrow> [] | Some m \<Rightarrow> m)) s)),
      bolt_Close = (\<lambda>s. (None, s))\<rparr>"

definition ref_contents :: "ref_db \<Rightarrow> string \<Rightarrow> (string \<rightharpoonup> json) option" where
  "ref_contents s b = map_option map_of (map_of s b)"

definition ref_ok :: "ref_db \<Rightarrow> bool" where
  "ref_ok s \<longleftrightarrow> (\<forall>b m. map_of s b = Some m \<longrightarrow> distinct (map fst m))"

definition ref_empty :: ref_db where
  "ref_empty = [(workerBucketKey, []), (statusBucketKey, [])]"

lemma ref_bolt_simps [simp]:
  "bolt_View ref_bolt s = None"
  "bolt_Update ref_bolt f s = (case f s of (None, s') \<Rightarrow> (None, s') | (Some e, _) \<Rightarrow> (Some e, s))"
  "bolt_CreateBucketIfNotExists ref_bolt b s = (None, if map_of s b = None then AList.update b [] s else s)"
  "bolt_Bucket_Get ref_bolt b k s = (case map_of s b of None \<Rightarrow> None | Some m \<Rightarrow> map_of m k)"
  "bolt_Bucket_Cursor ref_bolt b s = (case map_of s b of None \<Rightarrow> [] | Some m \<Rightarrow> m)"
  "bolt_Bucket_Put ref_bolt b k v s = (None, AList.update b (AList.update k v (case map_of s b of None \<Rightarrow> [] | Some m \<Rightarrow> m)) s)"
  "bolt_Bucket_Delete ref_bolt b k s = (None, AList.update b (AList.delete k (case map_of s b of None \<Rightarrow> [] | Some m \<Rightarrow> m)) s)"
  by (simp_all add: ref_bolt_def)

lemma ref_bolt_laws: "bolt_laws ref_bolt ref_contents ref_ok"
proof -
  have upd: "map_option map_of (map_of (AList.update b m s) b') =
      ((\<lambda>b. map_option map_of (map_of s b))(b \<mapsto> map_of m)) b'" for b b' and m :: "(string \<times> json) list" and s
    by (simp add: AList.update_conv')
  show ?thesis
    unfolding bolt_laws_def ref_ok_def
    by (auto simp: ref_contents_def fun_eq_iff upd AList.update_conv' AList.delete_conv'
        AList.distinct_update AList.distinct_delete split: if_splits)
qed

lemma ref_up: "ref_ok s \<Longrightarrow> map_of s workerBucketKey \<noteq> None \<Longrightarrow> map_of s statusBucketKey \<noteq> None \<Longrightarrow>
    bolt_up ref_bolt ref_contents ref_ok s"
  by (auto simp: bolt_up_def ref_bolt_laws is_bucket_def ref_contents_def)

lemma ref_backend: "db_backend (boltAdapter ref_bolt) (bolt_contents ref_contents) (bolt_up ref_bolt ref_contents ref_ok)"
  unfolding db_backend_def by blast

lemma ref_empty_up [simp]: "bolt_up ref_bolt ref_contents ref_ok ref_empty"
  by (rule ref_up) (auto simp: ref_empty_def ref_ok_def)


end
