(* ===== verification/Manager_Db.thy ===== *)
theory Manager_Db
  imports Kv_Store
begin

section \<open>The manager's database (manager/db.go: dbAdapter and kvDBAdapter)\<close>

text \<open>
  The interface \<open>dbAdapter\<close> is the record of its methods; \<open>kvDBAdapter\<close> implements it over a
  \<open>kvAdapter\<close>.  \<open>time.Now()\<close> is an argument of \<open>RefreshWorker\<close>.  \<open>errors.Wrap\<close> of
  \<open>pkg/errors\<close> is the parameter \<open>wrap\<close>; its documented behaviour (\<open>wrap_laws\<close>) includes
  that wrapping \<open>nil\<close> is \<open>nil\<close>.  The locale \<open>db_adapter\<close> is the contract the HTTP
  handlers rely on: two maps, of workers by id and of statuses by \<open>mirror/worker\<close> key, refined by
  every operation.  It is interpreted on \<open>kvDBAdapter\<close> over every backend.
\<close>

record 's dbAdapter =
  db_Init :: "'s \<Rightarrow> goerror option \<times> 's"
  db_ListWorkers :: "'s \<Rightarrow> WorkerStatus list with_err"
  db_GetWorker :: "string \<Rightarrow> 's \<Rightarrow> WorkerStatus with_err"
  db_DeleteWorker :: "string \<Rightarrow> 's \<Rightarrow> goerror option \<times> 's"
  db_CreateWorker :: "WorkerStatus \<Rightarrow> 's \<Rightarrow> WorkerStatus with_err \<times> 's"
  db_RefreshWorker :: "gtime \<Rightarrow> string \<Rightarrow> 's \<Rightarrow> WorkerStatus with_err \<times> 's"
  db_UpdateMirrorStatus :: "string \<Rightarrow> string \<Rightarrow> MirrorStatus \<Rightarrow> 's \<Rightarrow> MirrorStatus with_err \<times> 's"
  db_GetMirrorStatus :: "string \<Rightarrow> string \<Rightarrow> 's \<Rightarrow> MirrorStatus with_err"
  db_ListMirrorStatus :: "string \<Rightarrow> 's \<Rightarrow> MirrorStatus list with_err option"
  db_ListAllMirrorStatus :: "'s \<Rightarrow> MirrorStatus list with_err"
  db_FlushDisabledJobs :: "'s \<Rightarrow> goerror option \<times> 's"
  db_Close :: "'s \<Rightarrow> goerror option \<times> 's"

type_synonym wrapper = "goerror option \<Rightarrow> string \<Rightarrow> goerror option"

definition wrap_laws :: "wrapper \<Rightarrow> bool" where
  "wrap_laws wrap \<longleftrightarrow> (\<forall>msg. wrap None msg = None) \<and> (\<forall>e msg. wrap (Some e) msg = Some (msg @ '': '' @ e))"

subsection \<open>Operations\<close>

definition kvdb_Init :: "'s kvAdapter \<Rightarrow> 's \<Rightarrow> goerror option \<times> 's" where
  "kvdb_Init K s =
     (case kv_InitBucket K workerBucketKey s of
        (Some e, s') \<Rightarrow> (Some (''create bucket '' @ workerBucketKey @ '' error: '' @ e), s')
      | (None, s') \<Rightarrow>
          (case kv_InitBucket K statusBucketKey s' of
             (Some e, s'') \<Rightarrow> (Some (''create bucket '' @ workerBucketKey @ '' error: '' @ e), s'')
           | (None, s'') \<Rightarrow> (None, s'')))"

text \<open>The loop of \<open>ListWorkers\<close> decodes every value into the same variable \<open>w\<close>.\<close>

fun list_workers_loop :: "wrapper \<Rightarrow> json list \<Rightarrow> WorkerStatus \<Rightarrow> WorkerStatus list with_err \<Rightarrow> WorkerStatus list with_err" where
  "list_workers_loop wrap [] w acc = acc"
| "list_workers_loop wrap (v # vs) w (ws, err) =
     (case WorkerStatus_Unmarshal v w of
        (w', Some jsonErr) \<Rightarrow> list_workers_loop wrap vs w' (ws, wrap err jsonErr)
      | (w', None) \<Rightarrow> list_workers_loop wrap vs w' (ws @ [w'], err))"

definition kvdb_ListWorkers :: "'s kvAdapter \<Rightarrow> wrapper \<Rightarrow> 's \<Rightarrow> WorkerStatus list with_err" where
  "kvdb_ListWorkers K wrap s =
     (case kv_GetAll K workerBucketKey s of
        (workers, err) \<Rightarrow> list_workers_loop wrap (map snd workers) zero_WorkerStatus ([], err))"

definition kvdb_GetWorker :: "'s kvAdapter \<Rightarrow> string \<Rightarrow> 's \<Rightarrow> WorkerStatus with_err" where
  "kvdb_GetWorker K workerID s =
     (case fst (kv_Get K workerBucketKey workerID s) of
        None \<Rightarrow> (zero_WorkerStatus, Some (''invalid workerID '' @ workerID))
      | Some v \<Rightarrow> WorkerStatus_Unmarshal v zero_WorkerStatus)"

definition kvdb_DeleteWorker :: "'s kvAdapter \<Rightarrow> string \<Rightarrow> 's \<Rightarrow> goerror option \<times> 's" where
  "kvdb_DeleteWorker K workerID s =
     (case fst (kv_Get K workerBucketKey workerID s) of
        None \<Rightarrow> (Some (''invalid workerID '' @ workerID), s)
      | Some v \<Rightarrow> kv_Delete K workerBucketKey workerID s)"

definition kvdb_CreateWorker :: "'s kvAdapter \<Rightarrow> WorkerStatus \<Rightarrow> 's \<Rightarrow> WorkerStatus with_err \<times> 's" where
  "kvdb_CreateWorker K w s =
     (case WorkerStatus_Marshal w of
        Inl e \<Rightarrow> ((w, Some e), s)
      | Inr v \<Rightarrow> (case kv_Put K workerBucketKey (ws_ID w) v s of (err, s') \<Rightarrow> ((w, err), s')))"

definition kvdb_RefreshWorker :: "'s kvAdapter \<Rightarrow> gtime \<Rightarrow> string \<Rightarrow> 's \<Rightarrow> WorkerStatus with_err \<times> 's" where
  "kvdb_RefreshWorker K now workerID s =
     (case kvdb_GetWorker K workerID s of
        (w, Some e) \<Rightarrow> ((w, Some e), s)
      | (w, None) \<Rightarrow> kvdb_CreateWorker K (w\<lparr>ws_LastOnline := now\<rparr>) s)"

definition status_key :: "string \<Rightarrow> string \<Rightarrow> string" where
  "status_key mirrorID workerID = mirrorID @ ''/'' @ workerID"

definition kvdb_UpdateMirrorStatus ::
  "'s kvAdapter \<Rightarrow> string \<Rightarrow> string \<Rightarrow> MirrorStatus \<Rightarrow> 's \<Rightarrow> MirrorStatus with_err \<times> 's" where
  "kvdb_UpdateMirrorStatus K workerID mirrorID status s =
     (case MirrorStatus_Marshal status of
        Inl e \<Rightarrow> ((status, Some e), s)
      | Inr v \<Rightarrow> (case kv_Put K statusBucketKey (status_key mirrorID workerID) v s of
                    (err, s') \<Rightarrow> ((status, err), s')))"

definition no_mirror_error :: "string \<Rightarrow> string \<Rightarrow> goerror" where
  "no_mirror_error mirrorID workerID =
     ''no mirror '' @ [CHR 0x27] @ mirrorID @ [CHR 0x27] @ '' exists in worker '' @ [CHR 0x27] @ workerID @ [CHR 0x27]"

definition kvdb_GetMirrorStatus :: "'s kvAdapter \<Rightarrow> string \<Rightarrow> string \<Rightarrow> 's \<Rightarrow> MirrorStatus with_err" where
  "kvdb_GetMirrorStatus K workerID mirrorID s =
     (case kv_Get K statusBucketKey (status_key mirrorID workerID) s of
        (None, _) \<Rightarrow> (zero_MirrorStatus, Some (no_mirror_error mirrorID workerID))
      | (Some v, None) \<Rightarrow> MirrorStatus_Unmarshal v zero_MirrorStatus
      | (Some v, Some e) \<Rightarrow> (zero_MirrorStatus, Some e))"

text \<open>\<open>strings.Split(k, "/")[1]\<close> panics (\<open>None\<close>) on a key without a slash.\<close>

fun list_status_loop :: "wrapper \<Rightarrow> string \<Rightarrow> (string \<times> json) list \<Rightarrow> MirrorStatus list with_err \<Rightarrow>
    MirrorStatus list with_err option" where
  "list_status_loop wrap workerID [] acc = Some acc"
| "list_status_loop wrap workerID ((k, v) # kvs) (ms, err) =
     (case strings_Split (CHR ''/'') k of
        _ # wID # _ \<Rightarrow>
          (if wID = workerID then
             (case MirrorStatus_Unmarshal v zero_MirrorStatus of
                (m, Some jsonErr) \<Rightarrow> list_status_loop wrap workerID kvs (ms, wrap err jsonErr)
              | (m, None) \<Rightarrow> list_status_loop wrap workerID kvs (ms @ [m], err))
           else list_status_loop wrap workerID kvs (ms, err))
      | _ \<Rightarrow> None)"

definition kvdb_ListMirrorStatus :: "'s kvAdapter \<Rightarrow> wrapper \<Rightarrow> string \<Rightarrow> 's \<Rightarrow> MirrorStatus list with_err option" where
  "kvdb_ListMirrorStatus K wrap workerID s =
     (case kv_GetAll K statusBucketKey s of
        (vals, Some e) \<Rightarrow> Some ([], Some e)
      | (vals, None) \<Rightarrow> list_status_loop wrap workerID vals ([], None))"

fun list_all_loop :: "wrapper \<Rightarrow> json list \<Rightarrow> MirrorStatus list with_err \<Rightarrow> MirrorStatus list with_err" where
  "list_all_loop wrap [] acc = acc"
| "list_all_loop wrap (v # vs) (ms, err) =
     (case MirrorStatus_Unmarshal v zero_MirrorStatus of
        (m, Some jsonErr) \<Rightarrow> list_all_loop wrap vs (ms, wrap err jsonErr)
      | (m, None) \<Rightarrow> list_all_loop wrap vs (ms @ [m], err))"

definition kvdb_ListAllMirrorStatus :: "'s kvAdapter \<Rightarrow> wrapper \<Rightarrow> 's \<Rightarrow> MirrorStatus list with_err" where
  "kvdb_ListAllMirrorStatus K wrap s =
     (case kv_GetAll K statusBucketKey s of
        (vals, Some e) \<Rightarrow> ([], Some e)
      | (vals, None) \<Rightarrow> list_all_loop wrap (map snd vals) ([], None))"

definition flushable :: "MirrorStatus \<Rightarrow> bool" where
  "flushable m \<longleftrightarrow> ms_Status m = Disabled \<or> length (ms_Name m) = 0"

fun flush_loop :: "'s kvAdapter \<Rightarrow> wrapper \<Rightarrow> (string \<times> json) list \<Rightarrow> goerror option \<times> 's \<Rightarrow> goerror option \<times> 's" where
  "flush_loop K wrap [] acc = acc"
| "flush_loop K wrap ((k, v) # kvs) (err, s) =
     (case MirrorStatus_Unmarshal v zero_MirrorStatus of
        (m, Some jsonErr) \<Rightarrow> flush_loop K wrap kvs (wrap err jsonErr, s)
      | (m, None) \<Rightarrow>
          (if flushable m then
             (case kv_Delete K statusBucketKey k s of
                (Some deleteErr, s') \<Rightarrow> flush_loop K wrap kvs (wrap err deleteErr, s')
              | (None, s') \<Rightarrow> flush_loop K wrap kvs (err, s'))
           else flush_loop K wrap kvs (err, s)))"

definition kvdb_FlushDisabledJobs :: "'s kvAdapter \<Rightarrow> wrapper \<Rightarrow> 's \<Rightarrow> goerror option \<times> 's" where
  "kvdb_FlushDisabledJobs K wrap s =
     (case kv_GetAll K statusBucketKey s of
        (vals, Some e) \<Rightarrow> (Some e, s)
      | (vals, None) \<Rightarrow> flush_loop K wrap vals (None, s))"

definition kvDBAdapter :: "'s kvAdapter \<Rightarrow> wrapper \<Rightarrow> 's dbAdapter" where
  "kvDBAdapter K wrap =
     \<lparr>db_Init = kvdb_Init K, db_ListWorkers = kvdb_ListWorkers K wrap, db_GetWorker = kvdb_GetWorker K,
      db_DeleteWorker = kvdb_DeleteWorker K, db_CreateWorker = kvdb_CreateWorker K,
      db_RefreshWorker = kvdb_RefreshWorker K, db_UpdateMirrorStatus = kvdb_UpdateMirrorStatus K,
      db_GetMirrorStatus = kvdb_GetMirrorStatus K, db_ListMirrorStatus = kvdb_ListMirrorStatus K wrap,
      db_ListAllMirrorStatus = kvdb_ListAllMirrorStatus K wrap,
      db_FlushDisabledJobs = kvdb_FlushDisabledJobs K wrap, db_Close = kv_Close K\<rparr>"

lemma kvDBAdapter_simps [simp]:
  "db_Init (kvDBAdapter K wrap) = kvdb_Init K"
  "db_ListWorkers (kvDBAdapter K wrap) = kvdb_ListWorkers K wrap"
  "db_GetWorker (kvDBAdapter K wrap) = kvdb_GetWorker K"
  "db_DeleteWorker (kvDBAdapter K wrap) = kvdb_DeleteWorker K"
  "db_CreateWorker (kvDBAdapter K wrap) = kvdb_CreateWorker K"
  "db_RefreshWorker (kvDBAdapter K wrap) = kvdb_RefreshWorker K"
  "db_UpdateMirrorStatus (kvDBAdapter K wrap) = kvdb_UpdateMirrorStatus K"
  "db_GetMirrorStatus (kvDBAdapter K wrap) = kvdb_GetMirrorStatus K"
  "db_ListMirrorStatus (kvDBAdapter K wrap) = kvdb_ListMirrorStatus K wrap"
  "db_ListAllMirrorStatus (kvDBAdapter K wrap) = kvdb_ListAllMirrorStatus K wrap"
  "db_FlushDisabledJobs (kvDBAdapter K wrap) = kvdb_FlushDisabledJobs K wrap"
  "db_Close (kvDBAdapter K wrap) = kv_Close K"
  by (simp_all add: kvDBAdapter_def)

subsection \<open>The abstract database\<close>

text \<open>The records a bucket holds, and the well-formedness every operation of the adapter keeps: a
  worker is stored under its id, every value is the encoding of a record, every status key has the
  form \<open>mirror/worker\<close>.\<close>

definition decode_worker :: "json \<Rightarrow> WorkerStatus option" where
  "decode_worker j = (case WorkerStatus_Unmarshal j zero_WorkerStatus of (w, None) \<Rightarrow> Some w | _ \<Rightarrow> None)"

definition decode_status :: "json \<Rightarrow> MirrorStatus option" where
  "decode_status j = (case MirrorStatus_Unmarshal j zero_MirrorStatus of (m, None) \<Rightarrow> Some m | _ \<Rightarrow> None)"

definition workers_of :: "(string \<Rightarrow> string \<rightharpoonup> json) \<Rightarrow> string \<rightharpoonup> WorkerStatus" where
  "workers_of c k = Option.bind (c workerBucketKey k) decode_worker"

definition statuses_of :: "(string \<Rightarrow> string \<rightharpoonup> json) \<Rightarrow> string \<rightharpoonup> MirrorStatus" where
  "statuses_of c k = Option.bind (c statusBucketKey k) decode_status"

definition db_wf :: "(string \<Rightarrow> string \<rightharpoonup> json) \<Rightarrow> bool" where
  "db_wf c \<longleftrightarrow>
     (\<forall>k j. c workerBucketKey k = Some j \<longrightarrow> key_ok k \<and>
        (\<exists>w. WorkerStatus_ok w \<and> WorkerStatus_Marshal w = Inr j \<and> ws_ID w = k)) \<and>
     (\<forall>k j. c statusBucketKey k = Some j \<longrightarrow> key_ok k \<and> CHR ''/'' \<in> set k \<and>
        (\<exists>m. MirrorStatus_ok m \<and> MirrorStatus_Marshal m = Inr j))"

lemma decode_worker_Marshal: "WorkerStatus_ok w \<Longrightarrow> WorkerStatus_Marshal w = Inr j \<Longrightarrow> decode_worker j = Some w"
  by (simp add: decode_worker_def WorkerStatus_roundtrip)

lemma decode_status_Marshal: "MirrorStatus_ok m \<Longrightarrow> MirrorStatus_Marshal m = Inr j \<Longrightarrow> decode_status j = Some m"
  by (simp add: decode_status_def MirrorStatus_roundtrip)

lemma db_wf_worker:
  assumes "db_wf c" and "c workerBucketKey k = Some j"
  obtains w where "workers_of c k = Some w" and "\<And>r. WorkerStatus_Unmarshal j r = (w, None)"
    and "WorkerStatus_ok w" and "ws_ID w = k" and "key_ok k"
proof -
  from assms obtain w where "WorkerStatus_ok w" "WorkerStatus_Marshal w = Inr j" "ws_ID w = k" "key_ok k"
    unfolding db_wf_def by blast
  with assms(2) show thesis
    by (intro that [of w]) (simp_all add: workers_of_def decode_worker_Marshal WorkerStatus_roundtrip)
qed

lemma db_wf_status:
  assumes "db_wf c" and "c statusBucketKey k = Some j"
  obtains m where "statuses_of c k = Some m" and "\<And>r. MirrorStatus_Unmarshal j r = (m, None)"
    and "MirrorStatus_ok m" and "CHR ''/'' \<in> set k" and "key_ok k"
proof -
  from assms obtain m where "MirrorStatus_ok m" "MirrorStatus_Marshal m = Inr j" "CHR ''/'' \<in> set k" "key_ok k"
    unfolding db_wf_def by blast
  with assms(2) show thesis
    by (intro that [of m]) (simp_all add: statuses_of_def decode_status_Marshal MirrorStatus_roundtrip)
qed

lemma workers_of_None: "c workerBucketKey k = None \<Longrightarrow> workers_of c k = None"
  by (simp add: workers_of_def)

lemma statuses_of_None: "c statusBucketKey k = None \<Longrightarrow> statuses_of c k = None"
  by (simp add: statuses_of_def)

lemma slash_status_key [simp]: "CHR ''/'' \<in> set (status_key m w)"
  by (simp add: status_key_def)

lemma status_key_inject:
  "CHR ''/'' \<notin> set m \<Longrightarrow> CHR ''/'' \<notin> set m' \<Longrightarrow> status_key m w = status_key m' w' \<longleftrightarrow> m = m' \<and> w = w'"
  by (simp add: status_key_def sep_append_inject)

lemma Split_slash_Cons2: "CHR ''/'' \<in> set k \<Longrightarrow> \<exists>a b r. strings_Split (CHR ''/'') k = a # b # r"
  by (metis in_set_conv_decomp_first strings_Split_append list.exhaust strings_Split_not_Nil)

subsection \<open>The contract of dbAdapter\<close>

locale db_adapter =
  fixes D :: "'s dbAdapter"
    and workers :: "'s \<Rightarrow> string \<rightharpoonup> WorkerStatus"
    and statuses :: "'s \<Rightarrow> string \<rightharpoonup> MirrorStatus"
    and up :: "'s \<Rightarrow> bool"
  assumes get_worker: "up s \<Longrightarrow> db_GetWorker D i s =
      (case workers s i of None \<Rightarrow> (zero_WorkerStatus, Some (''invalid workerID '' @ i)) | Some w \<Rightarrow> (w, None))"
    and worker_id: "up s \<Longrightarrow> workers s i = Some w \<Longrightarrow> ws_ID w = i \<and> WorkerStatus_ok w"
    and status_wf: "up s \<Longrightarrow> statuses s k = Some m \<Longrightarrow> MirrorStatus_ok m \<and> key_ok k"
    and create_worker: "up s \<Longrightarrow> key_ok (ws_ID w) \<Longrightarrow> WorkerStatus_ok w \<Longrightarrow>
      \<exists>s'. db_CreateWorker D w s = ((w, None), s') \<and> up s' \<and>
        workers s' = (workers s)(ws_ID w \<mapsto> w) \<and> statuses s' = statuses s"
    and delete_worker: "up s \<Longrightarrow> workers s i \<noteq> None \<Longrightarrow>
      \<exists>s'. db_DeleteWorker D i s = (None, s') \<and> up s' \<and> workers s' = (workers s)(i := None) \<and> statuses s' = statuses s"
    and delete_no_worker: "up s \<Longrightarrow> workers s i = None \<Longrightarrow>
      db_DeleteWorker D i s = (Some (''invalid workerID '' @ i), s)"
    and refresh_worker: "up s \<Longrightarrow> time_ok now \<Longrightarrow> workers s i = Some w \<Longrightarrow>
      \<exists>s'. db_RefreshWorker D now i s = ((w\<lparr>ws_LastOnline := now\<rparr>, None), s') \<and> up s' \<and>
        workers s' = (workers s)(i \<mapsto> w\<lparr>ws_LastOnline := now\<rparr>) \<and> statuses s' = statuses s"
    and refresh_no_worker: "up s \<Longrightarrow> workers s i = None \<Longrightarrow>
      db_RefreshWorker D now i s = ((zero_WorkerStatus, Some (''invalid workerID '' @ i)), s)"
    and get_status: "up s \<Longrightarrow> db_GetMirrorStatus D i n s =
      (case statuses s (status_key n i) of
         None \<Rightarrow> (zero_MirrorStatus, Some (no_mirror_error n i)) | Some m \<Rightarrow> (m, None))"
    and update_status: "up s \<Longrightarrow> key_ok (status_key n i) \<Longrightarrow> MirrorStatus_ok m \<Longrightarrow>
      \<exists>s'. db_UpdateMirrorStatus D i n m s = ((m, None), s') \<and> up s' \<and>
        workers s' = workers s \<and> statuses s' = (statuses s)(status_key n i \<mapsto> m)"
    and update_bad_status: "\<not> MirrorStatus_ok m \<Longrightarrow> \<exists>e. db_UpdateMirrorStatus D i n m s = ((m, Some e), s)"
    and list_workers: "up s \<Longrightarrow> \<exists>ks. distinct ks \<and> set ks = dom (workers s) \<and>
      db_ListWorkers D s = (map (\<lambda>k. the (workers s k)) ks, None)"
    and list_all: "up s \<Longrightarrow> \<exists>ks. distinct ks \<and> set ks = dom (statuses s) \<and>
      db_ListAllMirrorStatus D s = (map (\<lambda>k. the (statuses s k)) ks, None)"
    and list_status: "up s \<Longrightarrow> \<exists>ks. distinct ks \<and>
      set ks = {k \<in> dom (statuses s). strings_Split (CHR ''/'') k ! 1 = i} \<and>
      db_ListMirrorStatus D i s = Some (map (\<lambda>k. the (statuses s k)) ks, None)"
    and flush: "up s \<Longrightarrow> \<exists>s'. db_FlushDisabledJobs D s = (None, s') \<and> up s' \<and> workers s' = workers s \<and>
      statuses s' = (\<lambda>k. case statuses s k of None \<Rightarrow> None | Some m \<Rightarrow> if flushable m then None else Some m)"

subsection \<open>kvDBAdapter over a key-value store\<close>

text \<open>How the abstract maps and the well-formedness change when one key of one bucket changes.\<close>

lemma workers_of_upd:
  assumes "c' workerBucketKey = (c workerBucketKey)(k := v)"
  shows "workers_of c' = (workers_of c)(k := Option.bind v decode_worker)"
  using assms by (auto simp: workers_of_def fun_eq_iff)

lemma statuses_of_upd:
  assumes "c' statusBucketKey = (c statusBucketKey)(k := v)"
  shows "statuses_of c' = (statuses_of c)(k := Option.bind v decode_status)"
  using assms by (auto simp: statuses_of_def fun_eq_iff)

lemma workers_of_cong: "c' workerBucketKey = c workerBucketKey \<Longrightarrow> workers_of c' = workers_of c"
  by (simp add: workers_of_def fun_eq_iff)

lemma statuses_of_cong: "c' statusBucketKey = c statusBucketKey \<Longrightarrow> statuses_of c' = statuses_of c"
  by (simp add: statuses_of_def fun_eq_iff)

lemma db_wf_put_worker:
  assumes "db_wf c" and "c' workerBucketKey = (c workerBucketKey)(ws_ID w \<mapsto> j)" and "c' statusBucketKey = c statusBucketKey"
    and "key_ok (ws_ID w)" and "WorkerStatus_ok w" and "WorkerStatus_Marshal w = Inr j"
  shows "db_wf c'"
  using assms unfolding db_wf_def by (auto simp: fun_upd_apply)

lemma db_wf_put_status:
  assumes "db_wf c" and "c' statusBucketKey = (c statusBucketKey)(k \<mapsto> j)" and "c' workerBucketKey = c workerBucketKey"
    and "key_ok k" and "CHR ''/'' \<in> set k" and "MirrorStatus_ok m" and "MirrorStatus_Marshal m = Inr j"
  shows "db_wf c'"
  using assms unfolding db_wf_def by (auto simp: fun_upd_apply)

lemma db_wf_remove_worker:
  assumes "db_wf c" and "c' workerBucketKey = (c workerBucketKey)(k := None)" and "c' statusBucketKey = c statusBucketKey"
  shows "db_wf c'"
  using assms unfolding db_wf_def by (auto simp: fun_upd_apply split: if_splits)

lemma db_wf_remove_status:
  assumes "db_wf c" and "c' statusBucketKey = (c statusBucketKey)(k := None)" and "c' workerBucketKey = c workerBucketKey"
  shows "db_wf c'"
  using assms unfolding db_wf_def by (auto simp: fun_upd_apply split: if_splits)

text \<open>The loops over all values of a bucket, when every value decodes.\<close>

lemma list_workers_loop_good:
  assumes "\<And>v. v \<in> set vs \<Longrightarrow> \<exists>w. decode_worker v = Some w \<and> (\<forall>r. WorkerStatus_Unmarshal v r = (w, None))"
  shows "list_workers_loop wrap vs r (ws, err) = (ws @ map (\<lambda>v. the (decode_worker v)) vs, err)"
  using assms
proof (induction vs arbitrary: r ws)
  case Nil
  then show ?case by simp
next
  case (Cons v vs)
  then obtain w where "decode_worker v = Some w" "\<forall>r. WorkerStatus_Unmarshal v r = (w, None)" by fastforce
  with Cons show ?case by simp
qed

lemma list_all_loop_good:
  assumes "\<And>v. v \<in> set vs \<Longrightarrow> \<exists>m. decode_status v = Some m \<and> MirrorStatus_Unmarshal v zero_MirrorStatus = (m, None)"
  shows "list_all_loop wrap vs (ms, err) = (ms @ map (\<lambda>v. the (decode_status v)) vs, err)"
  using assms
proof (induction vs arbitrary: ms)
  case Nil
  then show ?case by simp
next
  case (Cons v vs)
  then obtain m where "decode_status v = Some m" "MirrorStatus_Unmarshal v zero_MirrorStatus = (m, None)" by fastforce
  with Cons show ?case by simp
qed

lemma list_status_loop_good:
  assumes "\<And>k v. (k, v) \<in> set kvs \<Longrightarrow> CHR ''/'' \<in> set k \<and>
      (\<exists>m. decode_status v = Some m \<and> MirrorStatus_Unmarshal v zero_MirrorStatus = (m, None))"
  shows "list_status_loop wrap i kvs (ms, err) =
    Some (ms @ map (\<lambda>kv. the (decode_status (snd kv))) (filter (\<lambda>kv. strings_Split (CHR ''/'') (fst kv) ! 1 = i) kvs), err)"
  using assms
proof (induction kvs arbitrary: ms)
  case Nil
  then show ?case by simp
next
  case (Cons kv kvs)
  obtain k v where kv: "kv = (k, v)" by force
  from Cons.prems [of k v] kv obtain m where m: "decode_status v = Some m" "MirrorStatus_Unmarshal v zero_MirrorStatus = (m, None)"
    and k: "CHR ''/'' \<in> set k" by auto
  from Split_slash_Cons2 [OF k] obtain a b r where sp: "strings_Split (CHR ''/'') k = a # b # r" by blast
  have IH: "list_status_loop wrap i kvs (ms', err) = Some (ms' @ map (\<lambda>kv. the (decode_status (snd kv)))
      (filter (\<lambda>kv. strings_Split (CHR ''/'') (fst kv) ! 1 = i) kvs), err)" for ms'
    by (rule Cons.IH) (use Cons.prems in auto)
  show ?case by (simp add: kv sp m IH)
qed

context kv_store
begin

lemma bucket_entries:
  assumes "up s" and "is_bucket b"
  obtains l where "kv_GetAll K b s = (l, None)" and "distinct (map fst l)" and "set (map fst l) = dom (contents s b)"
    and "\<And>k v. (k, v) \<in> set l \<Longrightarrow> contents s b k = Some v"
proof -
  from getall [OF assms] obtain l where l: "kv_GetAll K b s = (l, None)" "distinct (map fst l)" "map_of l = contents s b"
    by blast
  then show thesis
    by (intro that [of l]) (auto simp: dom_map_of_conv_image_fst [symmetric] dest: distinct_map_of_SomeI)
qed

lemma dom_workers: "db_wf (contents s) \<Longrightarrow> dom (workers_of (contents s)) = dom (contents s workerBucketKey)"
  by (auto simp: dom_def workers_of_None elim: db_wf_worker dest: workers_of_None split: option.splits)
    (metis db_wf_worker option.distinct(1) option.exhaust workers_of_None)+

lemma dom_statuses: "db_wf (contents s) \<Longrightarrow> dom (statuses_of (contents s)) = dom (contents s statusBucketKey)"
  by (auto simp: dom_def) (metis db_wf_status option.distinct(1) option.exhaust statuses_of_None)+

lemma GetWorker_refines:
  assumes "up s" and "db_wf (contents s)"
  shows "kvdb_GetWorker K i s = (case workers_of (contents s) i of
      None \<Rightarrow> (zero_WorkerStatus, Some (''invalid workerID '' @ i)) | Some w \<Rightarrow> (w, None))"
proof (cases "contents s workerBucketKey i")
  case None
  then show ?thesis using assms(1) by (simp add: kvdb_GetWorker_def get_contents workers_of_None)
next
  case (Some j)
  with assms show ?thesis
    by (auto simp: kvdb_GetWorker_def get_contents elim!: db_wf_worker)
qed

lemma GetMirrorStatus_refines:
  assumes "up s" and "db_wf (contents s)"
  shows "kvdb_GetMirrorStatus K i n s = (case statuses_of (contents s) (status_key n i) of
      None \<Rightarrow> (zero_MirrorStatus, Some (no_mirror_error n i)) | Some m \<Rightarrow> (m, None))"
proof (cases "kv_Get K statusBucketKey (status_key n i) s")
  case (Pair r e)
  with get_contents [OF assms(1), of statusBucketKey "status_key n i"]
  have r: "contents s statusBucketKey (status_key n i) = r" by simp
  show ?thesis
  proof (cases r)
    case None
    with r Pair show ?thesis by (simp add: kvdb_GetMirrorStatus_def statuses_of_None)
  next
    case (Some j)
    with r Pair get_no_error [OF assms(1), of statusBucketKey "status_key n i" j] have "e = None" by simp
    with Some r Pair assms show ?thesis
      by (auto simp: kvdb_GetMirrorStatus_def elim!: db_wf_status)
  qed
qed

lemma CreateWorker_refines:
  assumes "up s" and "db_wf (contents s)" and "key_ok (ws_ID w)" and "WorkerStatus_ok w"
  shows "\<exists>s'. kvdb_CreateWorker K w s = ((w, None), s') \<and> up s' \<and> db_wf (contents s') \<and>
    workers_of (contents s') = (workers_of (contents s))(ws_ID w \<mapsto> w) \<and> statuses_of (contents s') = statuses_of (contents s)"
proof -
  from assms(4) obtain j where j: "WorkerStatus_Marshal w = Inr j" by (rule WorkerStatus_Marshal_Inr)
  from put [OF assms(1) _ assms(3), of workerBucketKey j] obtain s' where
    s': "kv_Put K workerBucketKey (ws_ID w) j s = (None, s')" "up s'" and
    c: "\<And>b. is_bucket b \<Longrightarrow> contents s' b = (if b = workerBucketKey then (contents s workerBucketKey)(ws_ID w \<mapsto> j) else contents s b)"
    by auto
  from c [of workerBucketKey] c [of statusBucketKey]
  have cw: "contents s' workerBucketKey = (contents s workerBucketKey)(ws_ID w \<mapsto> j)"
    and cs: "contents s' statusBucketKey = contents s statusBucketKey" by simp_all
  from workers_of_upd [where c' = "contents s'" and c = "contents s", OF cw] statuses_of_cong [where c' = "contents s'" and c = "contents s", OF cs] db_wf_put_worker [where c' = "contents s'" and c = "contents s", OF assms(2) cw cs assms(3,4) j] s' j
  show ?thesis by (simp add: kvdb_CreateWorker_def decode_worker_Marshal [OF assms(4) j])
qed

lemma DeleteWorker_refines:
  assumes "up s" and "db_wf (contents s)" and "workers_of (contents s) i \<noteq> None"
  shows "\<exists>s'. kvdb_DeleteWorker K i s = (None, s') \<and> up s' \<and> db_wf (contents s') \<and>
    workers_of (contents s') = (workers_of (contents s))(i := None) \<and> statuses_of (contents s') = statuses_of (contents s)"
proof -
  from assms(3) have "contents s workerBucketKey i \<noteq> None" by (metis workers_of_None)
  moreover from delete [OF assms(1), of workerBucketKey i] obtain s' where
    s': "kv_Delete K workerBucketKey i s = (None, s')" "up s'" and
    c: "\<And>b. is_bucket b \<Longrightarrow> contents s' b = (if b = workerBucketKey then (contents s workerBucketKey)(i := None) else contents s b)"
    by auto
  from c [of workerBucketKey] c [of statusBucketKey]
  have cw: "contents s' workerBucketKey = (contents s workerBucketKey)(i := None)"
    and cs: "contents s' statusBucketKey = contents s statusBucketKey" by simp_all
  ultimately show ?thesis
    using s' workers_of_upd [where c' = "contents s'" and c = "contents s", OF cw] statuses_of_cong [where c' = "contents s'" and c = "contents s", OF cs] db_wf_remove_worker [where c' = "contents s'" and c = "contents s", OF assms(2) cw cs] assms(1)
    by (auto simp: kvdb_DeleteWorker_def get_contents)
qed

lemma DeleteWorker_absent:
  assumes "up s" and "db_wf (contents s)" and "workers_of (contents s) i = None"
  shows "kvdb_DeleteWorker K i s = (Some (''invalid workerID '' @ i), s)"
proof -
  from assms(2,3) have "contents s workerBucketKey i = None"
    by (metis db_wf_worker not_None_eq)
  then show ?thesis using assms(1) by (simp add: kvdb_DeleteWorker_def get_contents)
qed

lemma RefreshWorker_refines:
  assumes "up s" and "db_wf (contents s)" and "time_ok now" and "workers_of (contents s) i = Some w"
  shows "\<exists>s'. kvdb_RefreshWorker K now i s = ((w\<lparr>ws_LastOnline := now\<rparr>, None), s') \<and> up s' \<and> db_wf (contents s') \<and>
    workers_of (contents s') = (workers_of (contents s))(i \<mapsto> w\<lparr>ws_LastOnline := now\<rparr>) \<and>
    statuses_of (contents s') = statuses_of (contents s)"
proof -
  from assms(4) obtain j where "contents s workerBucketKey i = Some j" by (metis workers_of_None option.distinct(1) option.exhaust)
  with assms(2,4) have w: "WorkerStatus_ok w" "ws_ID w = i" "key_ok i"
    by (auto elim!: db_wf_worker)
  let ?w = "w\<lparr>ws_LastOnline := now\<rparr>"
  from w assms(3) have "WorkerStatus_ok ?w" "ws_ID ?w = i" by (simp_all add: WorkerStatus_ok_def)
  with CreateWorker_refines [OF assms(1,2), of ?w] w(3) assms(4) show ?thesis
    by (simp add: kvdb_RefreshWorker_def GetWorker_refines [OF assms(1,2)])
qed

lemma UpdateMirrorStatus_refines:
  assumes "up s" and "db_wf (contents s)" and "key_ok (status_key n i)" and "MirrorStatus_ok m"
  shows "\<exists>s'. kvdb_UpdateMirrorStatus K i n m s = ((m, None), s') \<and> up s' \<and> db_wf (contents s') \<and>
    workers_of (contents s') = workers_of (contents s) \<and>
    statuses_of (contents s') = (statuses_of (contents s))(status_key n i \<mapsto> m)"
proof -
  from assms(4) obtain j where j: "MirrorStatus_Marshal m = Inr j" by (rule MirrorStatus_Marshal_Inr)
  let ?k = "status_key n i"
  from put [OF assms(1) _ assms(3), of statusBucketKey j] obtain s' where
    s': "kv_Put K statusBucketKey ?k j s = (None, s')" "up s'" and
    c: "\<And>b. is_bucket b \<Longrightarrow> contents s' b = (if b = statusBucketKey then (contents s statusBucketKey)(?k \<mapsto> j) else contents s b)"
    by auto
  from c [of workerBucketKey] c [of statusBucketKey]
  have cs: "contents s' statusBucketKey = (contents s statusBucketKey)(?k \<mapsto> j)"
    and cw: "contents s' workerBucketKey = contents s workerBucketKey" by simp_all
  from statuses_of_upd [where c' = "contents s'" and c = "contents s", OF cs] workers_of_cong [where c' = "contents s'" and c = "contents s", OF cw] db_wf_put_status [where c' = "contents s'" and c = "contents s", OF assms(2) cs cw assms(3) _ assms(4) j] s' j
  show ?thesis by (simp add: kvdb_UpdateMirrorStatus_def decode_status_Marshal [OF assms(4) j])
qed

lemma ListWorkers_refines:
  assumes "up s" and "db_wf (contents s)"
  shows "\<exists>ks. distinct ks \<and> set ks = dom (workers_of (contents s)) \<and>
    kvdb_ListWorkers K wrap s = (map (\<lambda>k. the (workers_of (contents s) k)) ks, None)"
proof -
  obtain l where l: "kv_GetAll K workerBucketKey s = (l, None)" "distinct (map fst l)"
    "set (map fst l) = dom (contents s workerBucketKey)" "\<And>k v. (k, v) \<in> set l \<Longrightarrow> contents s workerBucketKey k = Some v"
    by (rule bucket_entries [OF assms(1), of workerBucketKey]) auto
  have dec: "\<exists>w. decode_worker v = Some w \<and> (\<forall>r. WorkerStatus_Unmarshal v r = (w, None))" if "v \<in> set (map snd l)" for v
    using that l(4) assms(2) by (fastforce simp: decode_worker_def elim: db_wf_worker)
  have "map (\<lambda>v. the (decode_worker v)) (map snd l) = map (\<lambda>k. the (workers_of (contents s) k)) (map fst l)"
    using l(4) by (auto simp: workers_of_def)
  with l(1) list_workers_loop_good [OF dec, of "map snd l"]
  have "kvdb_ListWorkers K wrap s = (map (\<lambda>k. the (workers_of (contents s) k)) (map fst l), None)"
    by (simp add: kvdb_ListWorkers_def del: map_map)
  with l(2,3) show ?thesis using dom_workers [OF assms(2)] by metis
qed

lemma status_entries:
  assumes "up s" and "db_wf (contents s)"
  shows "\<exists>l. kv_GetAll K statusBucketKey s = (l, None) \<and> distinct (map fst l) \<and>
    fst ` set l = dom (statuses_of (contents s)) \<and>
    (\<forall>k v. (k, v) \<in> set l \<longrightarrow> CHR ''/'' \<in> set k \<and> (\<exists>m. decode_status v = Some m \<and>
       MirrorStatus_Unmarshal v zero_MirrorStatus = (m, None) \<and> statuses_of (contents s) k = Some m))"
proof -
  obtain l where l: "kv_GetAll K statusBucketKey s = (l, None)" "distinct (map fst l)"
    "set (map fst l) = dom (contents s statusBucketKey)" "\<And>k v. (k, v) \<in> set l \<Longrightarrow> contents s statusBucketKey k = Some v"
    by (rule bucket_entries [OF assms(1), of statusBucketKey]) auto
  have "CHR ''/'' \<in> set k \<and> (\<exists>m. decode_status v = Some m \<and>
       MirrorStatus_Unmarshal v zero_MirrorStatus = (m, None) \<and> statuses_of (contents s) k = Some m)"
    if "(k, v) \<in> set l" for k v
    by (rule db_wf_status [OF assms(2) l(4) [OF that]]) (simp add: decode_status_def)
  with l(1-3) show ?thesis by (auto simp: dom_statuses [OF assms(2)])
qed

lemma ListAllMirrorStatus_refines:
  assumes "up s" and "db_wf (contents s)"
  shows "\<exists>ks. distinct ks \<and> set ks = dom (statuses_of (contents s)) \<and>
    kvdb_ListAllMirrorStatus K wrap s = (map (\<lambda>k. the (statuses_of (contents s) k)) ks, None)"
proof -
  from status_entries [OF assms] obtain l where
    l: "kv_GetAll K statusBucketKey s = (l, None)" "distinct (map fst l)" "fst ` set l = dom (statuses_of (contents s))"
    and e: "\<forall>k v. (k, v) \<in> set l \<longrightarrow> CHR ''/'' \<in> set k \<and> (\<exists>m. decode_status v = Some m \<and>
       MirrorStatus_Unmarshal v zero_MirrorStatus = (m, None) \<and> statuses_of (contents s) k = Some m)"
    by blast
  have "list_all_loop wrap (map snd l) ([], None) = ([] @ map (\<lambda>v. the (decode_status v)) (map snd l), None)"
    using e by (intro list_all_loop_good) fastforce
  moreover have "map (\<lambda>v. the (decode_status v)) (map snd l) = map (\<lambda>k. the (statuses_of (contents s) k)) (map fst l)"
    using e by fastforce
  ultimately have "kvdb_ListAllMirrorStatus K wrap s = (map (\<lambda>k. the (statuses_of (contents s) k)) (map fst l), None)"
    using l(1) by (simp add: kvdb_ListAllMirrorStatus_def)
  moreover have "set (map fst l) = dom (statuses_of (contents s))" using l(3) by simp
  ultimately show ?thesis using l(2) by blast
qed

lemma ListMirrorStatus_refines:
  assumes "up s" and "db_wf (contents s)"
  shows "\<exists>ks. distinct ks \<and> set ks = {k \<in> dom (statuses_of (contents s)). strings_Split (CHR ''/'') k ! 1 = i} \<and>
    kvdb_ListMirrorStatus K wrap i s = Some (map (\<lambda>k. the (statuses_of (contents s) k)) ks, None)"
proof -
  from status_entries [OF assms] obtain l where
    l: "kv_GetAll K statusBucketKey s = (l, None)" "distinct (map fst l)" "fst ` set l = dom (statuses_of (contents s))"
    and e: "\<forall>k v. (k, v) \<in> set l \<longrightarrow> CHR ''/'' \<in> set k \<and> (\<exists>m. decode_status v = Some m \<and>
       MirrorStatus_Unmarshal v zero_MirrorStatus = (m, None) \<and> statuses_of (contents s) k = Some m)"
    by blast
  let ?l = "filter (\<lambda>kv. strings_Split (CHR ''/'') (fst kv) ! 1 = i) l"
  have "kvdb_ListMirrorStatus K wrap i s = Some ([] @ map (\<lambda>kv. the (decode_status (snd kv))) ?l, None)"
    using e by (simp add: kvdb_ListMirrorStatus_def l(1)) (subst list_status_loop_good, fastforce, simp)
  moreover have "map (\<lambda>kv. the (decode_status (snd kv))) ?l = map (\<lambda>k. the (statuses_of (contents s) k)) (map fst ?l)"
    using e by fastforce
  ultimately have "kvdb_ListMirrorStatus K wrap i s = Some (map (\<lambda>k. the (statuses_of (contents s) k)) (map fst ?l), None)"
    by simp
  moreover have "set (map fst ?l) = {k \<in> dom (statuses_of (contents s)). strings_Split (CHR ''/'') k ! 1 = i}"
    using l(3) by (auto simp: image_iff)
  ultimately show ?thesis using distinct_fst_filter [OF l(2)] by blast
qed

lemma flush_loop_refines:
  assumes "up s" and "db_wf (contents s)" and "distinct (map fst kvs)"
    and "\<And>k v. (k, v) \<in> set kvs \<Longrightarrow> \<exists>m. decode_status v = Some m \<and> statuses_of (contents s) k = Some m"
  shows "\<exists>s'. flush_loop K wrap kvs (None, s) = (None, s') \<and> up s' \<and> db_wf (contents s') \<and>
    workers_of (contents s') = workers_of (contents s) \<and>
    statuses_of (contents s') = (\<lambda>k. if k \<in> fst ` set kvs \<and> flushable (the (statuses_of (contents s) k))
       then None else statuses_of (contents s) k)"
  using assms
proof (induction kvs arbitrary: s)
  case Nil
  then show ?case by simp
next
  case (Cons kv kvs)
  obtain k v where kv: "kv = (k, v)" by force
  from Cons.prems(4) [of k v] kv obtain m where m: "decode_status v = Some m" "statuses_of (contents s) k = Some m" by auto
  then have u: "MirrorStatus_Unmarshal v zero_MirrorStatus = (m, None)"
    by (auto simp: decode_status_def split: prod.splits option.splits)
  have k: "k \<notin> fst ` set kvs" using Cons.prems(3) kv by simp
  show ?case
  proof (cases "flushable m")
    case False
    with Cons.IH [OF Cons.prems(1,2)] Cons.prems(3,4) kv u m k show ?thesis by (fastforce simp: fun_eq_iff)
  next
    case True
    from delete [OF Cons.prems(1), of statusBucketKey k] obtain s1 where
      s1: "kv_Delete K statusBucketKey k s = (None, s1)" "up s1" and
      c: "\<And>b. is_bucket b \<Longrightarrow> contents s1 b = (if b = statusBucketKey then (contents s statusBucketKey)(k := None) else contents s b)"
      by auto
    from c [of workerBucketKey] c [of statusBucketKey]
    have cs: "contents s1 statusBucketKey = (contents s statusBucketKey)(k := None)"
      and cw: "contents s1 workerBucketKey = contents s workerBucketKey" by simp_all
    note st1 = statuses_of_upd [where c' = "contents s1" and c = "contents s", OF cs] and wk1 = workers_of_cong [where c' = "contents s1" and c = "contents s", OF cw]
      and wf1 = db_wf_remove_status [where c' = "contents s1" and c = "contents s", OF Cons.prems(2) cs cw]
    have "\<exists>m. decode_status v' = Some m \<and> statuses_of (contents s1) k' = Some m" if "(k', v') \<in> set kvs" for k' v'
    proof -
      from that k have "k' \<noteq> k" by force
      with Cons.prems(4) [of k' v'] that kv st1 show ?thesis by simp
    qed
    with Cons.IH [OF s1(2) wf1] Cons.prems(3) kv obtain s' where
      s': "flush_loop K wrap kvs (None, s1) = (None, s')" "up s'" "db_wf (contents s')"
      "workers_of (contents s') = workers_of (contents s1)"
      "statuses_of (contents s') = (\<lambda>k. if k \<in> fst ` set kvs \<and> flushable (the (statuses_of (contents s1) k))
         then None else statuses_of (contents s1) k)" by auto
    with True kv u s1 st1 wk1 m k show ?thesis by (fastforce simp: fun_eq_iff)
  qed
qed

lemma FlushDisabledJobs_refines:
  assumes "up s" and "db_wf (contents s)"
  shows "\<exists>s'. kvdb_FlushDisabledJobs K wrap s = (None, s') \<and> up s' \<and> db_wf (contents s') \<and>
    workers_of (contents s') = workers_of (contents s) \<and>
    statuses_of (contents s') = (\<lambda>k. case statuses_of (contents s) k of
       None \<Rightarrow> None | Some m \<Rightarrow> if flushable m then None else Some m)"
proof -
  from status_entries [OF assms] obtain l where
    l: "kv_GetAll K statusBucketKey s = (l, None)" "distinct (map fst l)" "fst ` set l = dom (statuses_of (contents s))"
    and e: "\<forall>k v. (k, v) \<in> set l \<longrightarrow> CHR ''/'' \<in> set k \<and> (\<exists>m. decode_status v = Some m \<and>
       MirrorStatus_Unmarshal v zero_MirrorStatus = (m, None) \<and> statuses_of (contents s) k = Some m)"
    by blast
  from e have "\<exists>m. decode_status v = Some m \<and> statuses_of (contents s) k = Some m" if "(k, v) \<in> set l" for k v
    using that by blast
  from flush_loop_refines [OF assms l(2) this, of wrap] obtain s' where
    s': "flush_loop K wrap l (None, s) = (None, s')" "up s'" "db_wf (contents s')"
      "workers_of (contents s') = workers_of (contents s)"
      "statuses_of (contents s') = (\<lambda>k. if k \<in> fst ` set l \<and> flushable (the (statuses_of (contents s) k))
         then None else statuses_of (contents s) k)" by blast
  have "statuses_of (contents s') = (\<lambda>k. case statuses_of (contents s) k of
       None \<Rightarrow> None | Some m \<Rightarrow> if flushable m then None else Some m)"
    unfolding s'(5) l(3) by (auto simp: fun_eq_iff dom_def split: option.splits)
  with s' l(1) show ?thesis by (simp add: kvdb_FlushDisabledJobs_def)
qed

end

text \<open>A database in use: one of the backends, healthy, \<open>errors.Wrap\<close> as documented, and well-formed
  contents.\<close>

definition db_up :: "'s kvAdapter \<Rightarrow> wrapper \<Rightarrow> ('s \<Rightarrow> string \<Rightarrow> string \<rightharpoonup> json) \<Rightarrow> ('s \<Rightarrow> bool) \<Rightarrow> 's \<Rightarrow> bool" where
  "db_up K wrap c up s \<longleftrightarrow> db_backend K c up \<and> wrap_laws wrap \<and> up s \<and> db_wf (c s)"

lemma db_upD: "db_up K wrap c up s \<Longrightarrow> kv_store K c up \<and> up s \<and> db_wf (c s)"
  by (simp add: db_up_def db_backend_kv_store)

lemma db_up_step: "db_up K wrap c up s \<Longrightarrow> up s' \<Longrightarrow> db_wf (c s') \<Longrightarrow> db_up K wrap c up s'"
  by (simp add: db_up_def)

interpretation kvdb: db_adapter "kvDBAdapter K wrap" "\<lambda>s. workers_of (c s)" "\<lambda>s. statuses_of (c s)" "db_up K wrap c up"
  for K wrap c up
proof
  fix s
  assume s: "db_up K wrap c up s"
  then have kv: "kv_store K c up" and g: "up s" "db_wf (c s)" by (simp_all add: db_upD)
  note step = db_up_step [OF s]
  show "db_GetWorker (kvDBAdapter K wrap) i s = (case workers_of (c s) i of
      None \<Rightarrow> (zero_WorkerStatus, Some (''invalid workerID '' @ i)) | Some w \<Rightarrow> (w, None))" for i
    by (simp add: kv_store.GetWorker_refines [OF kv g])
  show "ws_ID w = i \<and> WorkerStatus_ok w" if "workers_of (c s) i = Some w" for i w
  proof -
    from that obtain j where "c s workerBucketKey i = Some j" by (cases "c s workerBucketKey i") (auto simp: workers_of_def)
    with g(2) that show ?thesis by (auto elim!: db_wf_worker)
  qed
  show "MirrorStatus_ok m \<and> key_ok k" if "statuses_of (c s) k = Some m" for k m
  proof -
    from that obtain j where "c s statusBucketKey k = Some j" by (cases "c s statusBucketKey k") (auto simp: statuses_of_def)
    with g(2) that show ?thesis by (auto elim!: db_wf_status)
  qed
  show "\<exists>s'. db_CreateWorker (kvDBAdapter K wrap) w s = ((w, None), s') \<and> db_up K wrap c up s' \<and>
      workers_of (c s') = (workers_of (c s))(ws_ID w \<mapsto> w) \<and> statuses_of (c s') = statuses_of (c s)"
    if "key_ok (ws_ID w)" "WorkerStatus_ok w" for w
    using kv_store.CreateWorker_refines [OF kv g that] step by auto
  show "\<exists>s'. db_DeleteWorker (kvDBAdapter K wrap) i s = (None, s') \<and> db_up K wrap c up s' \<and>
      workers_of (c s') = (workers_of (c s))(i := None) \<and> statuses_of (c s') = statuses_of (c s)"
    if "workers_of (c s) i \<noteq> None" for i
    using kv_store.DeleteWorker_refines [OF kv g that] step by auto
  show "db_DeleteWorker (kvDBAdapter K wrap) i s = (Some (''invalid workerID '' @ i), s)"
    if "workers_of (c s) i = None" for i
    using kv_store.DeleteWorker_absent [OF kv g that] by simp
  show "\<exists>s'. db_RefreshWorker (kvDBAdapter K wrap) now i s = ((w\<lparr>ws_LastOnline := now\<rparr>, None), s') \<and> db_up K wrap c up s' \<and>
      workers_of (c s') = (workers_of (c s))(i \<mapsto> w\<lparr>ws_LastOnline := now\<rparr>) \<and> statuses_of (c s') = statuses_of (c s)"
    if "time_ok now" "workers_of (c s) i = Some w" for now i w
    using kv_store.RefreshWorker_refines [OF kv g that] step by auto
  show "db_RefreshWorker (kvDBAdapter K wrap) now i s = ((zero_WorkerStatus, Some (''invalid workerID '' @ i)), s)"
    if "workers_of (c s) i = None" for now i
    using that by (simp add: kvdb_RefreshWorker_def kv_store.GetWorker_refines [OF kv g])
  show "db_GetMirrorStatus (kvDBAdapter K wrap) i n s = (case statuses_of (c s) (status_key n i) of
      None \<Rightarrow> (zero_MirrorStatus, Some (no_mirror_error n i)) | Some m \<Rightarrow> (m, None))" for i n
    by (simp add: kv_store.GetMirrorStatus_refines [OF kv g])
  show "\<exists>s'. db_UpdateMirrorStatus (kvDBAdapter K wrap) i n m s = ((m, None), s') \<and> db_up K wrap c up s' \<and>
      workers_of (c s') = workers_of (c s) \<and> statuses_of (c s') = (statuses_of (c s))(status_key n i \<mapsto> m)"
    if "key_ok (status_key n i)" "MirrorStatus_ok m" for n i m
    using kv_store.UpdateMirrorStatus_refines [OF kv g that] step by auto
  show "\<exists>ks. distinct ks \<and> set ks = dom (workers_of (c s)) \<and>
      db_ListWorkers (kvDBAdapter K wrap) s = (map (\<lambda>k. the (workers_of (c s) k)) ks, None)"
    using kv_store.ListWorkers_refines [OF kv g] by simp
  show "\<exists>ks. distinct ks \<and> set ks = dom (statuses_of (c s)) \<and>
      db_ListAllMirrorStatus (kvDBAdapter K wrap) s = (map (\<lambda>k. the (statuses_of (c s) k)) ks, None)"
    using kv_store.ListAllMirrorStatus_refines [OF kv g] by simp
  show "\<exists>ks. distinct ks \<and> set ks = {k \<in> dom (statuses_of (c s)). strings_Split (CHR ''/'') k ! 1 = i} \<and>
      db_ListMirrorStatus (kvDBAdapter K wrap) i s = Some (map (\<lambda>k. the (statuses_of (c s) k)) ks, None)" for i
    using kv_store.ListMirrorStatus_refines [OF kv g] by simp
  show "\<exists>s'. db_FlushDisabledJobs (kvDBAdapter K wrap) s = (None, s') \<and> db_up K wrap c up s' \<and>
      workers_of (c s') = workers_of (c s) \<and> statuses_of (c s') =
        (\<lambda>k. case statuses_of (c s) k of None \<Rightarrow> None | Some m \<Rightarrow> if flushable m then None else Some m)"
    using kv_store.FlushDisabledJobs_refines [OF kv g] step by auto
next
  fix m i n s
  assume "\<not> MirrorStatus_ok m"
  then obtain e where "MirrorStatus_Marshal m = Inl e" using MirrorStatus_Marshal_fails_iff by blast
  then show "\<exists>e. db_UpdateMirrorStatus (kvDBAdapter K wrap) i n m s = ((m, Some e), s)"
    by (simp add: kvdb_UpdateMirrorStatus_def)
qed

subsection \<open>Properties of the database\<close>

text \<open>A status map all of whose keys are built from names without slashes.\<close>

definition plain_keys :: "(string \<rightharpoonup> MirrorStatus) \<Rightarrow> bool" where
  "plain_keys st \<longleftrightarrow> (\<forall>k\<in>dom st. \<exists>n i. k = status_key n i \<and> CHR ''/'' \<notin> set n \<and> CHR ''/'' \<notin> set i)"

lemma Split_status_key:
  "CHR ''/'' \<notin> set n \<Longrightarrow> CHR ''/'' \<notin> set i \<Longrightarrow> strings_Split (CHR ''/'') (status_key n i) = [n, i]"
  by (simp add: status_key_def strings_Split_append)

lemma ListMirrorStatus_names:
  assumes "db_up K wrap c up s" and "plain_keys (statuses_of (c s))" and "CHR ''/'' \<notin> set i"
  shows "\<exists>ns. distinct ns \<and> set ns = {n. CHR ''/'' \<notin> set n \<and> statuses_of (c s) (status_key n i) \<noteq> None} \<and>
    kvdb_ListMirrorStatus K wrap i s = Some (map (\<lambda>n. the (statuses_of (c s) (status_key n i))) ns, None)"
proof -
  from kvdb.list_status [OF assms(1), of i] obtain ks where ks: "distinct ks"
    "set ks = {k \<in> dom (statuses_of (c s)). strings_Split (CHR ''/'') k ! 1 = i}"
    "kvdb_ListMirrorStatus K wrap i s = Some (map (\<lambda>k. the (statuses_of (c s) k)) ks, None)" by auto
  define ns where "ns = map (\<lambda>k. strings_Split (CHR ''/'') k ! 0) ks"
  have key: "k = status_key (strings_Split (CHR ''/'') k ! 0) i \<and> CHR ''/'' \<notin> set (strings_Split (CHR ''/'') k ! 0)"
    if "k \<in> set ks" for k
  proof -
    from that ks(2) have k: "k \<in> dom (statuses_of (c s))" "strings_Split (CHR ''/'') k ! 1 = i" by auto
    with assms(2) obtain n j where "k = status_key n j" "CHR ''/'' \<notin> set n" "CHR ''/'' \<notin> set j"
      unfolding plain_keys_def by blast
    with k(2) show ?thesis by (simp add: Split_status_key)
  qed
  then have ks_ns: "ks = map (\<lambda>n. status_key n i) ns" by (simp add: ns_def map_idI)
  then have "distinct ns" using ks(1) by (metis distinct_map)
  moreover have "set ns = {n. CHR ''/'' \<notin> set n \<and> statuses_of (c s) (status_key n i) \<noteq> None}"
  proof (intro equalityI subsetI)
    fix n assume "n \<in> set ns"
    then obtain k where "k \<in> set ks" "n = strings_Split (CHR ''/'') k ! 0" by (auto simp: ns_def)
    with key [of k] ks(2) show "n \<in> {n. CHR ''/'' \<notin> set n \<and> statuses_of (c s) (status_key n i) \<noteq> None}" by auto
  next
    fix n assume n: "n \<in> {n. CHR ''/'' \<notin> set n \<and> statuses_of (c s) (status_key n i) \<noteq> None}"
    with assms(3) have sp: "strings_Split (CHR ''/'') (status_key n i) = [n, i]" by (simp add: Split_status_key)
    with n have "status_key n i \<in> set ks" by (auto simp: ks(2))
    then have "strings_Split (CHR ''/'') (status_key n i) ! 0 \<in> set ns" unfolding ns_def by force
    with sp show "n \<in> set ns" by simp
  qed
  ultimately show ?thesis using ks(3) ks_ns by (auto simp: comp_def)
qed

text \<open>C28.  The job list of a worker is complete and exact: when no mirror or worker name contains a
  slash, \<open>ListMirrorStatus\<close> does not panic, reports no error and returns every status stored for
  that worker exactly once, and none of another worker.\<close>

theorem ListMirrorStatus_exact:
  assumes "db_up K wrap c up s" and "plain_keys (statuses_of (c s))" and "CHR ''/'' \<notin> set i"
  shows "\<exists>ns. distinct ns \<and> set ns = {n. CHR ''/'' \<notin> set n \<and> statuses_of (c s) (status_key n i) \<noteq> None} \<and>
    kvdb_ListMirrorStatus K wrap i s = Some (map (\<lambda>n. the (statuses_of (c s) (status_key n i))) ns, None)"
  by (rule ListMirrorStatus_names [OF assms])

text \<open>The concrete database of the witnesses, with one worker and one job.\<close>

definition ex_worker :: WorkerStatus where
  "ex_worker = zero_WorkerStatus\<lparr>ws_ID := ''w'', ws_URL := ''http://w/''\<rparr>"

definition ex_status :: MirrorStatus where
  "ex_status = zero_MirrorStatus\<lparr>ms_Name := ''m'', ms_Worker := ''w'', ms_Status := Success, ms_Size := ''1G''\<rparr>"

definition ex_wrap :: wrapper where
  "ex_wrap err msg = (case err of None \<Rightarrow> None | Some e \<Rightarrow> Some (msg @ '': '' @ e))"

definition ex_db :: ref_db where
  "ex_db = [(workerBucketKey, [(''w'', projr (WorkerStatus_Marshal ex_worker))]),
            (statusBucketKey, [(status_key ''m'' ''w'', projr (MirrorStatus_Marshal ex_status))])]"

lemma ex_worker_ok [simp]: "WorkerStatus_ok ex_worker"
  by (simp add: WorkerStatus_ok_def ex_worker_def zero_WorkerStatus_def)

lemma ex_worker_ID [simp]: "ws_ID ex_worker = ''w''"
  by (simp add: ex_worker_def)

lemma ex_status_ok [simp]: "MirrorStatus_ok ex_status"
  by (simp add: MirrorStatus_ok_def ex_status_def zero_MirrorStatus_def)

lemma ex_db_contents:
  "bolt_contents ref_contents ex_db workerBucketKey = [''w'' \<mapsto> projr (WorkerStatus_Marshal ex_worker)]"
  "bolt_contents ref_contents ex_db statusBucketKey = [status_key ''m'' ''w'' \<mapsto> projr (MirrorStatus_Marshal ex_status)]"
  by (auto simp: bolt_contents_def ref_contents_def ex_db_def)

lemma ex_db_wf: "db_wf (bolt_contents ref_contents ex_db)"
proof -
  obtain jw js where j: "WorkerStatus_Marshal ex_worker = Inr jw" "MirrorStatus_Marshal ex_status = Inr js"
    by (metis WorkerStatus_Marshal_Inr MirrorStatus_Marshal_Inr ex_worker_ok ex_status_ok)
  then show ?thesis
    unfolding db_wf_def ex_db_contents
    by (auto simp: key_ok_def status_key_def intro: exI [of _ ex_worker] exI [of _ ex_status])
qed

abbreviation ex_K :: "ref_db kvAdapter" where "ex_K \<equiv> boltAdapter ref_bolt"
abbreviation ex_c :: "ref_db \<Rightarrow> string \<Rightarrow> string \<rightharpoonup> json" where "ex_c \<equiv> bolt_contents ref_contents"
abbreviation ex_up :: "ref_db \<Rightarrow> bool" where "ex_up \<equiv> bolt_up ref_bolt ref_contents ref_ok"

lemma ex_db_up [simp]: "db_up ex_K ex_wrap ex_c ex_up ex_db"
  unfolding db_up_def using ref_backend ex_db_wf
  by (auto simp: wrap_laws_def ex_wrap_def ex_db_def ref_ok_def intro!: ref_up split: if_splits)

lemma ex_db_maps:
  "workers_of (ex_c ex_db) = [''w'' \<mapsto> ex_worker]" "statuses_of (ex_c ex_db) = [status_key ''m'' ''w'' \<mapsto> ex_status]"
proof -
  obtain jw js where j: "WorkerStatus_Marshal ex_worker = Inr jw" "MirrorStatus_Marshal ex_status = Inr js"
    by (metis WorkerStatus_Marshal_Inr MirrorStatus_Marshal_Inr ex_worker_ok ex_status_ok)
  then show "workers_of (ex_c ex_db) = [''w'' \<mapsto> ex_worker]" "statuses_of (ex_c ex_db) = [status_key ''m'' ''w'' \<mapsto> ex_status]"
    by (auto simp: workers_of_def statuses_of_def ex_db_contents fun_eq_iff
        decode_worker_Marshal [OF ex_worker_ok j(1)] decode_status_Marshal [OF ex_status_ok j(2)])
qed

theorem ListMirrorStatus_exact_witness:
  "\<exists>ns. distinct ns \<and> set ns = {n. CHR ''/'' \<notin> set n \<and> statuses_of (ex_c ex_db) (status_key n ''w'') \<noteq> None} \<and>
    kvdb_ListMirrorStatus ex_K ex_wrap ''w'' ex_db =
      Some (map (\<lambda>n. the (statuses_of (ex_c ex_db) (status_key n ''w''))) ns, None)"
proof (rule ListMirrorStatus_exact [OF ex_db_up])
  show "plain_keys (statuses_of (ex_c ex_db))"
    unfolding plain_keys_def ex_db_maps
    by (intro ballI exI [of _ "''m''"] exI [of _ "''w''"]) (simp split: if_splits)
qed simp_all



text \<open>A mirror whose name contains a slash is lost from the job list: the field after the first
  slash of its key is not the worker's name, so \<open>ListMirrorStatus\<close> never selects that key, although
  \<open>GetMirrorStatus\<close> finds the status under the same names.\<close>

theorem ListMirrorStatus_misses_slash_names:
  assumes "db_up K wrap c up s" and "CHR ''/'' \<notin> set a" and "CHR ''/'' \<notin> set b" and "b \<noteq> i"
    and "statuses_of (c s) = [status_key (a @ ''/'' @ b) i \<mapsto> m]"
  shows "kvdb_GetMirrorStatus K i (a @ ''/'' @ b) s = (m, None) \<and> kvdb_ListMirrorStatus K wrap i s = Some ([], None)"
proof -
  from kvdb.list_status [OF assms(1), of i] obtain ks where ks:
    "set ks = {k \<in> dom (statuses_of (c s)). strings_Split (CHR ''/'') k ! 1 = i}"
    "kvdb_ListMirrorStatus K wrap i s = Some (map (\<lambda>k. the (statuses_of (c s) k)) ks, None)" by auto
  have "strings_Split (CHR ''/'') (status_key (a @ ''/'' @ b) i) = a # b # strings_Split (CHR ''/'') i"
    using assms(2,3) by (simp add: status_key_def strings_Split_append)
  with assms(4,5) ks(1) have "set ks = {}" by (auto split: if_splits)
  then have "ks = []" by simp
  with ks(2) kvdb.get_status [OF assms(1), of i "a @ ''/'' @ b"] assms(5) show ?thesis by simp
qed

definition ex_slash_db :: ref_db where
  "ex_slash_db = [(workerBucketKey, []), (statusBucketKey, [(status_key ''a/b'' ''w'', projr (MirrorStatus_Marshal ex_status))])]"

lemma ex_slash_db_up: "db_up ex_K ex_wrap ex_c ex_up ex_slash_db"
  and ex_slash_db_map: "statuses_of (ex_c ex_slash_db) = [status_key ''a/b'' ''w'' \<mapsto> ex_status]"
proof -
  obtain js where j: "MirrorStatus_Marshal ex_status = Inr js"
    by (metis MirrorStatus_Marshal_Inr ex_status_ok)
  have c: "ex_c ex_slash_db workerBucketKey = Map.empty" "ex_c ex_slash_db statusBucketKey = [status_key ''a/b'' ''w'' \<mapsto> js]"
    by (auto simp: bolt_contents_def ref_contents_def ex_slash_db_def j)
  then have "db_wf (ex_c ex_slash_db)"
    using j by (auto simp: db_wf_def key_ok_def status_key_def intro: exI [of _ ex_status] split: if_splits)
  then show "db_up ex_K ex_wrap ex_c ex_up ex_slash_db"
    unfolding db_up_def using ref_backend
    by (auto simp: wrap_laws_def ex_wrap_def ex_slash_db_def ref_ok_def intro!: ref_up split: if_splits)
  show "statuses_of (ex_c ex_slash_db) = [status_key ''a/b'' ''w'' \<mapsto> ex_status]"
    by (auto simp: statuses_of_def c fun_eq_iff decode_status_Marshal [OF ex_status_ok j])
qed

theorem ListMirrorStatus_misses_slash_names_witness:
  "kvdb_GetMirrorStatus ex_K ''w'' (''a'' @ ''/'' @ ''b'') ex_slash_db = (ex_status, None) \<and>
   kvdb_ListMirrorStatus ex_K ex_wrap ''w'' ex_slash_db = Some ([], None)"
  by (rule ListMirrorStatus_misses_slash_names [OF ex_slash_db_up]) (simp_all add: ex_slash_db_map)

end
