(* ===== verification/Manager_Server.thy ===== *)
theory Manager_Server
  imports Manager_Db
begin

section \<open>The manager's HTTP interface (manager/server.go, manager/middleware.go)\<close>

text \<open>
  Every handler of \<open>Manager\<close> is a function of the database adapter \<open>D\<close>, the instants
  \<open>time.Now()\<close> returns, the request and the database state.  A response is the list of writes the
  handler makes on the \<open>gin.Context\<close>, in order: several handlers go on after they have written an
  error, and the status a client sees is that of the first write (\<open>http_status\<close>).  A request body
  is the struct as \<open>BindJSON\<close> leaves it together with the error of \<open>BindJSON\<close>, which the
  handlers ignore; gin itself then writes the status 400 (\<open>bind_writes\<close>).  One request is
  handled at a time here; the locks, and requests handled at the same time, are in \<open>Manager_Concurrent\<close>.  The post of a command to a worker is the
  parameter \<open>post\<close> (the error of the HTTP client), the posts made are part of the outcome.
\<close>

datatype body =
    BNone
  | BErr goerror
  | BInfo string
  | BEmpty
  | BWorker WorkerStatus
  | BWorkers "WorkerStatus list"
  | BJob MirrorStatus
  | BJobs "MirrorStatus list"
  | BWeb "WebMirrorStatus list"

type_synonym writes = "(nat \<times> body) list"

definition http_status :: "writes \<Rightarrow> nat" where
  "http_status ws = (case ws of [] \<Rightarrow> 200 | (code, _) # _ \<Rightarrow> code)"

abbreviation StatusOK :: nat where "StatusOK \<equiv> 200"
abbreviation StatusBadRequest :: nat where "StatusBadRequest \<equiv> 400"
abbreviation StatusInternalServerError :: nat where "StatusInternalServerError \<equiv> 500"

definition bind_writes :: "goerror option \<Rightarrow> writes" where
  "bind_writes berr = (case berr of None \<Rightarrow> [] | Some _ \<Rightarrow> [(StatusBadRequest, BNone)])"

definition returnErrJSON :: "nat \<Rightarrow> goerror \<Rightarrow> writes" where
  "returnErrJSON code err = [(code, BErr err)]"

subsection \<open>Listing, flushing, registering\<close>

definition listAllJobs :: "'s dbAdapter \<Rightarrow> 's \<Rightarrow> writes" where
  "listAllJobs D s =
     (case db_ListAllMirrorStatus D s of
        (_, Some e) \<Rightarrow> returnErrJSON StatusInternalServerError (''failed to list all mirror status: '' @ e)
      | (mirrorStatusList, None) \<Rightarrow> [(StatusOK, BWeb (map BuildWebMirrorStatus mirrorStatusList))])"

definition flushDisabledJobs :: "'s dbAdapter \<Rightarrow> 's \<Rightarrow> writes \<times> 's" where
  "flushDisabledJobs D s =
     (case db_FlushDisabledJobs D s of
        (Some e, s') \<Rightarrow> (returnErrJSON StatusInternalServerError (''failed to flush disabled jobs: '' @ e), s')
      | (None, s') \<Rightarrow> ([(StatusOK, BInfo ''flushed'')], s'))"

definition deleteWorker :: "'s dbAdapter \<Rightarrow> string \<Rightarrow> 's \<Rightarrow> writes \<times> 's" where
  "deleteWorker D workerID s =
     (case db_DeleteWorker D workerID s of
        (Some e, s') \<Rightarrow> (returnErrJSON StatusInternalServerError (''failed to delete worker: '' @ e), s')
      | (None, s') \<Rightarrow> ([(StatusOK, BInfo ''deleted'')], s'))"

definition redacted :: "WorkerStatus \<Rightarrow> WorkerStatus" where
  "redacted w = \<lparr>ws_ID = ws_ID w, ws_URL = ws_URL w, ws_Token = ''REDACTED'',
                 ws_LastOnline = ws_LastOnline w, ws_LastRegister = ws_LastRegister w\<rparr>"

definition listWorkers :: "'s dbAdapter \<Rightarrow> 's \<Rightarrow> writes" where
  "listWorkers D s =
     (case db_ListWorkers D s of
        (_, Some e) \<Rightarrow> returnErrJSON StatusInternalServerError (''failed to list workers: '' @ e)
      | (workers, None) \<Rightarrow> [(StatusOK, BWorkers (map redacted workers))])"

text \<open>\<open>time.Now()\<close> is called twice.\<close>

definition registerWorker :: "'s dbAdapter \<Rightarrow> gtime \<Rightarrow> gtime \<Rightarrow> WorkerStatus with_err \<Rightarrow> 's \<Rightarrow> writes \<times> 's" where
  "registerWorker D now now' req s =
     (let w = (fst req)\<lparr>ws_LastOnline := now, ws_LastRegister := now'\<rparr> in
      case db_CreateWorker D w s of
        ((_, Some e), s') \<Rightarrow>
          (bind_writes (snd req) @ returnErrJSON StatusInternalServerError (''failed to register worker: '' @ e), s')
      | ((newWorker, None), s') \<Rightarrow> (bind_writes (snd req) @ [(StatusOK, BWorker newWorker)], s'))"

text \<open>A panic of the adapter is answered with 500 by \<open>gin.Recovery\<close>.\<close>

definition listJobsOfWorker :: "'s dbAdapter \<Rightarrow> string \<Rightarrow> 's \<Rightarrow> writes" where
  "listJobsOfWorker D workerID s =
     (case db_ListMirrorStatus D workerID s of
        None \<Rightarrow> [(StatusInternalServerError, BNone)]
      | Some (_, Some e) \<Rightarrow>
          returnErrJSON StatusInternalServerError (''failed to list jobs of worker '' @ workerID @ '': '' @ e)
      | Some (mirrorStatusList, None) \<Rightarrow> [(StatusOK, BJobs mirrorStatusList)])"

subsection \<open>Updates from workers\<close>

definition update_job_error :: "string \<Rightarrow> string \<Rightarrow> goerror \<Rightarrow> goerror" where
  "update_job_error mirrorName workerID e = ''failed to update job '' @ mirrorName @ '' of worker '' @ workerID @ '': '' @ e"

text \<open>The loop of \<open>updateSchedulesOfWorker\<close>; the n-th \<open>time.Now()\<close> is \<open>clock n\<close>.  An empty
  mirror name is reported, but the loop goes on with it.\<close>

fun update_schedules_loop :: "'s dbAdapter \<Rightarrow> (nat \<Rightarrow> gtime) \<Rightarrow> string \<Rightarrow> nat \<Rightarrow> MirrorSchedule list \<Rightarrow> writes \<Rightarrow> 's \<Rightarrow> writes \<times> 's" where
  "update_schedules_loop D clock workerID n [] ws s = (ws @ [(StatusOK, BEmpty)], s)"
| "update_schedules_loop D clock workerID n (schedule # schedules) ws s =
     (let mirrorName = sc_MirrorName schedule;
          ws1 = (if length mirrorName = 0
                 then ws @ returnErrJSON StatusBadRequest ''mirror Name should not be empty'' else ws);
          s1 = snd (db_RefreshWorker D (clock n) workerID s)
      in case db_GetMirrorStatus D workerID mirrorName s1 of
           (_, Some e) \<Rightarrow> update_schedules_loop D clock workerID (Suc n) schedules ws1 s1
         | (curStatus, None) \<Rightarrow>
             (if ms_Scheduled curStatus = sc_NextSchedule schedule
              then update_schedules_loop D clock workerID (Suc n) schedules ws1 s1
              else case db_UpdateMirrorStatus D workerID mirrorName
                          (curStatus\<lparr>ms_Scheduled := sc_NextSchedule schedule\<rparr>) s1 of
                     ((_, Some e), s2) \<Rightarrow>
                       (ws1 @ returnErrJSON StatusInternalServerError (update_job_error mirrorName workerID e), s2)
                   | ((_, None), s2) \<Rightarrow> update_schedules_loop D clock workerID (Suc n) schedules ws1 s2))"

definition updateSchedulesOfWorker ::
  "'s dbAdapter \<Rightarrow> (nat \<Rightarrow> gtime) \<Rightarrow> string \<Rightarrow> MirrorSchedules with_err \<Rightarrow> 's \<Rightarrow> writes \<times> 's" where
  "updateSchedulesOfWorker D clock workerID req s =
     update_schedules_loop D clock workerID 0 (fst req) (bind_writes (snd req)) s"

text \<open>How a reported status is combined with the stored one.\<close>

definition merge_status :: "gtime \<Rightarrow> MirrorStatus \<Rightarrow> MirrorStatus \<Rightarrow> MirrorStatus" where
  "merge_status curTime curStatus status =
     (let status = status\<lparr>ms_LastStarted :=
            (if ms_Status status = PreSyncing \<and> ms_Status curStatus \<noteq> PreSyncing
             then curTime else ms_LastStarted curStatus)\<rparr>;
          status = status\<lparr>ms_LastUpdate :=
            (if ms_Status status = Success then curTime else ms_LastUpdate curStatus)\<rparr>;
          status = status\<lparr>ms_LastEnded :=
            (if ms_Status status = Success \<or> ms_Status status = Failed
             then curTime else ms_LastEnded curStatus)\<rparr>
      in if length (ms_Size curStatus) > 0 \<and> ms_Size curStatus \<noteq> ''unknown''
         then if length (ms_Size status) = 0 \<or> ms_Size status = ''unknown''
              then status\<lparr>ms_Size := ms_Size curStatus\<rparr> else status
         else status)"

text \<open>An empty name is answered with 400, but there is no return after it.\<close>

definition updateJobOfWorker ::
  "'s dbAdapter \<Rightarrow> gtime \<Rightarrow> gtime \<Rightarrow> string \<Rightarrow> MirrorStatus with_err \<Rightarrow> 's \<Rightarrow> writes \<times> 's" where
  "updateJobOfWorker D now curTime workerID req s =
     (let status = fst req;
          mirrorName = ms_Name status;
          ws = bind_writes (snd req) @
               (if length mirrorName = 0
                then returnErrJSON StatusBadRequest ''mirror Name should not be empty'' else []);
          s1 = snd (db_RefreshWorker D now workerID s);
          curStatus = fst (db_GetMirrorStatus D workerID mirrorName s1)
      in case db_UpdateMirrorStatus D workerID mirrorName (merge_status curTime curStatus status) s1 of
           ((_, Some e), s2) \<Rightarrow>
             (ws @ returnErrJSON StatusInternalServerError (update_job_error mirrorName workerID e), s2)
         | ((newStatus, None), s2) \<Rightarrow> (ws @ [(StatusOK, BJob newStatus)], s2))"

record SizeMsg =
  sm_Name :: string
  sm_Size :: string

definition updateMirrorSize :: "'s dbAdapter \<Rightarrow> gtime \<Rightarrow> string \<Rightarrow> SizeMsg with_err \<Rightarrow> 's \<Rightarrow> writes \<times> 's" where
  "updateMirrorSize D now workerID req s =
     (let msg = fst req;
          mirrorName = sm_Name msg;
          s1 = snd (db_RefreshWorker D now workerID s)
      in case db_GetMirrorStatus D workerID mirrorName s1 of
           (_, Some e) \<Rightarrow> (bind_writes (snd req) @ returnErrJSON StatusInternalServerError e, s1)
         | (status, None) \<Rightarrow>
             (let status1 = (if length (sm_Size msg) > 0 \<or> sm_Size msg \<noteq> ''unknown''
                             then status\<lparr>ms_Size := sm_Size msg\<rparr> else status)
              in case db_UpdateMirrorStatus D workerID mirrorName status1 s1 of
                   ((_, Some e), s2) \<Rightarrow>
                     (bind_writes (snd req) @
                        returnErrJSON StatusInternalServerError (update_job_error mirrorName workerID e), s2)
                 | ((newStatus, None), s2) \<Rightarrow> (bind_writes (snd req) @ [(StatusOK, BJob newStatus)], s2)))"

subsection \<open>Commands from clients\<close>

type_synonym outcome = "writes \<times> (string \<times> WorkerCmd) list"

definition worker_cmd :: "ClientCmd \<Rightarrow> WorkerCmd" where
  "worker_cmd c = \<lparr>wc_Cmd = cc_Cmd c, wc_MirrorID = cc_MirrorID c, wc_Args = cc_Args c, wc_Options = cc_Options c\<rparr>"

text \<open>The status a command sets at once, if any.\<close>

definition cmd_status :: "CmdVerb \<Rightarrow> SyncStatus option" where
  "cmd_status c = (case c of CmdDisable \<Rightarrow> Some Disabled | CmdStop \<Rightarrow> Some Paused | _ \<Rightarrow> None)"

definition handleClientCmd ::
  "'s dbAdapter \<Rightarrow> (string \<Rightarrow> WorkerCmd \<Rightarrow> goerror option) \<Rightarrow> ClientCmd with_err \<Rightarrow> 's \<Rightarrow> outcome \<times> 's" where
  "handleClientCmd D post req s =
     (let clientCmd = fst req; workerID = cc_WorkerID clientCmd; ws = bind_writes (snd req) in
      if workerID = '''' then ((ws @ [(StatusInternalServerError, BNone)], []), s)
      else case db_GetWorker D workerID s of
        (_, Some _) \<Rightarrow>
          ((ws @ returnErrJSON StatusBadRequest (''worker '' @ workerID @ '' is not registered yet''), []), s)
      | (w, None) \<Rightarrow>
          (let workerURL = ws_URL w;
               workerCmd = worker_cmd clientCmd;
               curStat = fst (db_GetMirrorStatus D workerID (cc_MirrorID clientCmd) s);
               s1 = (case cmd_status (cc_Cmd clientCmd) of
                       None \<Rightarrow> s
                     | Some st \<Rightarrow> snd (db_UpdateMirrorStatus D workerID (cc_MirrorID clientCmd)
                                        (curStat\<lparr>ms_Status := st\<rparr>) s))
           in case post workerURL workerCmd of
                Some e \<Rightarrow>
                  ((ws @ returnErrJSON StatusInternalServerError
                      (''post command to worker '' @ workerID @ ''('' @ workerURL @ '') fail: '' @ e),
                    [(workerURL, workerCmd)]), s1)
              | None \<Rightarrow>
                  ((ws @ [(StatusOK, BInfo (''successfully send command to worker '' @ workerID))],
                    [(workerURL, workerCmd)]), s1)))"

subsection \<open>Middleware and routes\<close>

text \<open>\<open>workerIDValidator\<close>: \<open>Some\<close> answer when the request is aborted.\<close>

definition workerIDValidator :: "'s dbAdapter \<Rightarrow> string \<Rightarrow> 's \<Rightarrow> writes option" where
  "workerIDValidator D workerID s =
     (case db_GetWorker D workerID s of
        (_, Some _) \<Rightarrow> Some (returnErrJSON StatusBadRequest (''invalid workerID '' @ workerID))
      | (_, None) \<Rightarrow> None)"

text \<open>The routes of \<open>GetTUNASyncManager\<close>, with the path parameters and bodies of their requests.\<close>

datatype request =
    GetPing
  | GetJobs
  | DeleteDisabledJobs
  | GetWorkers
  | PostWorkers "WorkerStatus with_err"
  | DeleteWorkerReq string
  | GetWorkerJobs string
  | PostJob string string "MirrorStatus with_err"
  | PostJobSize string string "SizeMsg with_err"
  | PostSchedules string "MirrorSchedules with_err"
  | PostCmd "ClientCmd with_err"

definition validated :: "'s dbAdapter \<Rightarrow> string \<Rightarrow> ('s \<Rightarrow> writes \<times> 's) \<Rightarrow> 's \<Rightarrow> outcome \<times> 's" where
  "validated D workerID handler s =
     (case workerIDValidator D workerID s of
        Some ws \<Rightarrow> ((ws, []), s)
      | None \<Rightarrow> (case handler s of (ws, s') \<Rightarrow> ((ws, []), s')))"

fun serve :: "'s dbAdapter \<Rightarrow> (nat \<Rightarrow> gtime) \<Rightarrow> (string \<Rightarrow> WorkerCmd \<Rightarrow> goerror option) \<Rightarrow> request \<Rightarrow> 's \<Rightarrow> outcome \<times> 's" where
  "serve D clock post GetPing s = (([(StatusOK, BInfo ''pong'')], []), s)"
| "serve D clock post GetJobs s = ((listAllJobs D s, []), s)"
| "serve D clock post DeleteDisabledJobs s = (case flushDisabledJobs D s of (ws, s') \<Rightarrow> ((ws, []), s'))"
| "serve D clock post GetWorkers s = ((listWorkers D s, []), s)"
| "serve D clock post (PostWorkers req) s = (case registerWorker D (clock 0) (clock 1) req s of (ws, s') \<Rightarrow> ((ws, []), s'))"
| "serve D clock post (DeleteWorkerReq i) s = validated D i (deleteWorker D i) s"
| "serve D clock post (GetWorkerJobs i) s = validated D i (\<lambda>s. (listJobsOfWorker D i s, s)) s"
| "serve D clock post (PostJob i job req) s = validated D i (updateJobOfWorker D (clock 0) (clock 1) i req) s"
| "serve D clock post (PostJobSize i job req) s = validated D i (updateMirrorSize D (clock 0) i req) s"
| "serve D clock post (PostSchedules i req) s = validated D i (updateSchedulesOfWorker D clock i req) s"
| "serve D clock post (PostCmd req) s = handleClientCmd D post req s"

text \<open>A session: requests served one after the other, each with its own clock.\<close>

fun serve_all :: "'s dbAdapter \<Rightarrow> (string \<Rightarrow> WorkerCmd \<Rightarrow> goerror option) \<Rightarrow> ((nat \<Rightarrow> gtime) \<times> request) list \<Rightarrow> 's \<Rightarrow> outcome list \<times> 's" where
  "serve_all D post [] s = ([], s)"
| "serve_all D post ((clock, r) # rs) s =
     (case serve D clock post r s of (o1, s1) \<Rightarrow> case serve_all D post rs s1 of (os, s2) \<Rightarrow> (o1 # os, s2))"

subsection \<open>The merge of a report into the stored status\<close>

lemma merge_status_Name [simp]: "ms_Name (merge_status t cur st) = ms_Name st"
  and merge_status_Status [simp]: "ms_Status (merge_status t cur st) = ms_Status st"
  and merge_status_Scheduled [simp]: "ms_Scheduled (merge_status t cur st) = ms_Scheduled st"
  by (simp_all add: merge_status_def Let_def)

lemma merge_status_LastStarted [simp]: "ms_LastStarted (merge_status t cur st) =
    (if ms_Status st = PreSyncing \<and> ms_Status cur \<noteq> PreSyncing then t else ms_LastStarted cur)"
  and merge_status_LastUpdate [simp]: "ms_LastUpdate (merge_status t cur st) =
    (if ms_Status st = Success then t else ms_LastUpdate cur)"
  and merge_status_LastEnded [simp]: "ms_LastEnded (merge_status t cur st) =
    (if ms_Status st = Success \<or> ms_Status st = Failed then t else ms_LastEnded cur)"
  by (simp_all add: merge_status_def Let_def)

text \<open>A size is known when it is neither empty nor \<open>unknown\<close>.\<close>

definition known_size :: "string \<Rightarrow> bool" where
  "known_size z \<longleftrightarrow> z \<noteq> '''' \<and> z \<noteq> ''unknown''"

lemma merge_status_Size: "ms_Size (merge_status t cur st) =
    (if known_size (ms_Size st) \<or> \<not> known_size (ms_Size cur) then ms_Size st else ms_Size cur)"
  by (auto simp: merge_status_def Let_def known_size_def)

lemma merge_status_ok:
  assumes "time_ok t" and "MirrorStatus_ok cur"
  shows "MirrorStatus_ok (merge_status t cur st) \<longleftrightarrow> status_ok (ms_Status st) \<and> time_ok (ms_Scheduled st)"
  using assms by (auto simp: MirrorStatus_ok_def)

text \<open>The time line of a stored status at instant \<open>t\<close>: a success is also an end, and nothing lies in
  the future.\<close>

definition timeline :: "gtime \<Rightarrow> MirrorStatus \<Rightarrow> bool" where
  "timeline t m \<longleftrightarrow> ms_LastUpdate m \<le> ms_LastEnded m \<and> ms_LastEnded m \<le> t \<and> ms_LastStarted m \<le> t"

lemma timeline_merge: "timeline t cur \<Longrightarrow> t \<le> t' \<Longrightarrow> timeline t' (merge_status t' cur st)"
  by (auto simp: timeline_def)

lemma timeline_mono: "timeline t m \<Longrightarrow> t \<le> t' \<Longrightarrow> timeline t' m"
  by (auto simp: timeline_def)

lemma timeline_zero: "zero_time \<le> t \<Longrightarrow> timeline t zero_MirrorStatus"
  by (simp add: timeline_def zero_MirrorStatus_def)

subsection \<open>Handlers over the database contract\<close>

text \<open>The stored status a handler starts from.\<close>

definition cur_status :: "(string \<rightharpoonup> MirrorStatus) \<Rightarrow> string \<Rightarrow> string \<Rightarrow> MirrorStatus" where
  "cur_status st i n = (case st (status_key n i) of None \<Rightarrow> zero_MirrorStatus | Some m \<Rightarrow> m)"

text \<open>\<open>RefreshWorker\<close> only touches the time stamp of the worker, when there is one.\<close>

definition refreshed :: "gtime \<Rightarrow> string \<Rightarrow> (string \<rightharpoonup> WorkerStatus) \<Rightarrow> string \<rightharpoonup> WorkerStatus" where
  "refreshed now i m = (case m i of None \<Rightarrow> m | Some w \<Rightarrow> m(i \<mapsto> w\<lparr>ws_LastOnline := now\<rparr>))"

lemma dom_refreshed [simp]: "dom (refreshed now i m) = dom m"
  by (auto simp: refreshed_def split: option.splits if_splits)

text \<open>The statuses after the schedule updates: the later entry for a mirror wins, a mirror without a
  stored status is skipped.\<close>

fun scheduled :: "string \<Rightarrow> MirrorSchedule list \<Rightarrow> (string \<rightharpoonup> MirrorStatus) \<Rightarrow> string \<rightharpoonup> MirrorStatus" where
  "scheduled i [] st = st"
| "scheduled i (sc # scs) st =
     scheduled i scs (case st (status_key (sc_MirrorName sc) i) of
        None \<Rightarrow> st
      | Some m \<Rightarrow> st(status_key (sc_MirrorName sc) i \<mapsto> m\<lparr>ms_Scheduled := sc_NextSchedule sc\<rparr>))"

definition sched_err_writes :: "MirrorSchedule list \<Rightarrow> writes" where
  "sched_err_writes scs = concat (map (\<lambda>sc. if sc_MirrorName sc = []
     then returnErrJSON 400 ''mirror Name should not be empty'' else []) scs)"

text \<open>The statuses a client command leaves.\<close>

definition cmd_statuses :: "ClientCmd \<Rightarrow> (string \<rightharpoonup> MirrorStatus) \<Rightarrow> string \<rightharpoonup> MirrorStatus" where
  "cmd_statuses cmd st =
     (case cmd_status (cc_Cmd cmd) of
        None \<Rightarrow> st
      | Some v \<Rightarrow> st(status_key (cc_MirrorID cmd) (cc_WorkerID cmd) \<mapsto>
                     (cur_status st (cc_WorkerID cmd) (cc_MirrorID cmd))\<lparr>ms_Status := v\<rparr>))"

text \<open>Requests whose keys the database accepts and whose schedules are representable.\<close>

fun request_ok :: "request \<Rightarrow> bool" where
  "request_ok (PostWorkers req) \<longleftrightarrow> key_ok (ws_ID (fst req))"
| "request_ok (PostJob i job req) \<longleftrightarrow> key_ok (status_key (ms_Name (fst req)) i)"
| "request_ok (PostSchedules i req) \<longleftrightarrow> (\<forall>sc\<in>set (fst req). time_ok (sc_NextSchedule sc))"
| "request_ok (PostCmd req) \<longleftrightarrow> key_ok (status_key (cc_MirrorID (fst req)) (cc_WorkerID (fst req)))"
| "request_ok _ \<longleftrightarrow> True"

text \<open>A session whose clocks do not go back: it starts at \<open>t\<close> and is over at \<open>u\<close>.\<close>

fun clocks_from :: "gtime \<Rightarrow> ((nat \<Rightarrow> gtime) \<times> request) list \<Rightarrow> gtime \<Rightarrow> bool" where
  "clocks_from t [] u \<longleftrightarrow> t \<le> u"
| "clocks_from t ((clock, r) # rs) u \<longleftrightarrow>
     (\<exists>v. (\<forall>n. time_ok (clock n) \<and> t \<le> clock n \<and> clock n \<le> v) \<and> clocks_from v rs u)"

context db_adapter
begin

lemma fst_get_status: "up s \<Longrightarrow> fst (db_GetMirrorStatus D i n s) = cur_status (statuses s) i n"
  by (simp add: get_status cur_status_def split: option.split)

lemma cur_status_ok: "up s \<Longrightarrow> MirrorStatus_ok (cur_status (statuses s) i n)"
  by (auto simp: cur_status_def dest: status_wf split: option.split)

lemma refresh_state:
  assumes "up s" and "time_ok now"
  shows "up (snd (db_RefreshWorker D now i s)) \<and>
    workers (snd (db_RefreshWorker D now i s)) = refreshed now i (workers s) \<and>
    statuses (snd (db_RefreshWorker D now i s)) = statuses s"
proof (cases "workers s i")
  case None
  with assms show ?thesis by (simp add: refresh_no_worker refreshed_def)
next
  case (Some w)
  with refresh_worker [OF assms Some] show ?thesis by (auto simp: refreshed_def)
qed

lemma updateJob_stores:
  assumes "up s" and "time_ok now" and "time_ok curTime" and "key_ok (status_key (ms_Name st) i)"
    and "status_ok (ms_Status st)" and "time_ok (ms_Scheduled st)"
  shows "\<exists>s'. updateJobOfWorker D now curTime i (st, berr) s =
      (bind_writes berr @ (if ms_Name st = [] then returnErrJSON 400 ''mirror Name should not be empty'' else []) @
         [(200, BJob (merge_status curTime (cur_status (statuses s) i (ms_Name st)) st))], s') \<and>
    up s' \<and> workers s' = refreshed now i (workers s) \<and>
    statuses s' = (statuses s)(status_key (ms_Name st) i \<mapsto> merge_status curTime (cur_status (statuses s) i (ms_Name st)) st)"
proof -
  let ?s1 = "snd (db_RefreshWorker D now i s)"
  let ?m = "merge_status curTime (cur_status (statuses s) i (ms_Name st)) st"
  from refresh_state [OF assms(1,2)] have s1: "up ?s1" "workers ?s1 = refreshed now i (workers s)" "statuses ?s1 = statuses s"
    by auto
  then have cur: "fst (db_GetMirrorStatus D i (ms_Name st) ?s1) = cur_status (statuses s) i (ms_Name st)"
    by (simp add: fst_get_status)
  have ok: "MirrorStatus_ok ?m"
    using assms by (simp add: merge_status_ok cur_status_ok)
  from update_status [OF s1(1) assms(4) ok] s1(2,3) cur show ?thesis
    by (auto simp: updateJobOfWorker_def Let_def)
qed

lemma updateJob_up:
  assumes "up s" and "time_ok now" and "time_ok curTime" and "key_ok (status_key (ms_Name (fst req)) i)"
  shows "up (snd (updateJobOfWorker D now curTime i req s))"
proof -
  let ?s1 = "snd (db_RefreshWorker D now i s)"
  let ?n = "ms_Name (fst req)"
  let ?m = "merge_status curTime (fst (db_GetMirrorStatus D i ?n ?s1)) (fst req)"
  from refresh_state [OF assms(1,2)] have s1: "up ?s1" by simp
  have "up (snd (db_UpdateMirrorStatus D i ?n ?m ?s1))"
  proof (cases "MirrorStatus_ok ?m")
    case True
    from update_status [OF s1 assms(4) True] show ?thesis by auto
  next
    case False
    from update_bad_status [OF False, of i ?n ?s1] s1 show ?thesis by auto
  qed
  then show ?thesis
    by (auto simp: updateJobOfWorker_def Let_def split: prod.splits option.splits)
qed

lemma updateMirrorSize_stores:
  assumes "up s" and "time_ok now" and "statuses s (status_key (sm_Name msg) i) = Some m"
  shows "\<exists>s'. updateMirrorSize D now i (msg, berr) s =
      (bind_writes berr @ [(200, BJob (m\<lparr>ms_Size := sm_Size msg\<rparr>))], s') \<and>
    up s' \<and> workers s' = refreshed now i (workers s) \<and>
    statuses s' = (statuses s)(status_key (sm_Name msg) i \<mapsto> m\<lparr>ms_Size := sm_Size msg\<rparr>)"
proof -
  let ?s1 = "snd (db_RefreshWorker D now i s)"
  from refresh_state [OF assms(1,2)] have s1: "up ?s1" "workers ?s1 = refreshed now i (workers s)" "statuses ?s1 = statuses s"
    by auto
  from status_wf [OF assms(1,3)] have m: "MirrorStatus_ok (m\<lparr>ms_Size := sm_Size msg\<rparr>)" "key_ok (status_key (sm_Name msg) i)"
    by (simp_all add: MirrorStatus_ok_def)
  have "length (sm_Size msg) > 0 \<or> sm_Size msg \<noteq> ''unknown''" by auto
  with update_status [OF s1(1) m(2,1)] s1 assms(3) show ?thesis
    by (auto simp: updateMirrorSize_def Let_def get_status [OF s1(1)])
qed

lemma updateMirrorSize_absent:
  assumes "up s" and "time_ok now" and "statuses s (status_key (sm_Name msg) i) = None"
  shows "updateMirrorSize D now i (msg, berr) s =
    (bind_writes berr @ returnErrJSON 500 (no_mirror_error (sm_Name msg) i), snd (db_RefreshWorker D now i s))"
proof -
  let ?s1 = "snd (db_RefreshWorker D now i s)"
  from refresh_state [OF assms(1,2)] assms(3) have "up ?s1" "statuses ?s1 (status_key (sm_Name msg) i) = None" by simp_all
  then show ?thesis by (simp add: updateMirrorSize_def Let_def get_status)
qed

lemma updateMirrorSize_up:
  assumes "up s" and "time_ok now"
  shows "up (snd (updateMirrorSize D now i req s))"
proof (cases "statuses s (status_key (sm_Name (fst req)) i)")
  case None
  with updateMirrorSize_absent [OF assms, of "fst req" i "snd req"] refresh_state [OF assms] show ?thesis by simp
next
  case (Some m)
  from updateMirrorSize_stores [OF assms, of "fst req" i m "snd req"] Some show ?thesis by auto
qed

lemma update_schedules_loop_stores:
  assumes "up s" and "\<forall>n. time_ok (clock n)" and "\<forall>sc\<in>set scs. time_ok (sc_NextSchedule sc)"
  shows "\<exists>s'. update_schedules_loop D clock i n scs ws s = (ws @ sched_err_writes scs @ [(200, BEmpty)], s') \<and>
    up s' \<and> dom (workers s') = dom (workers s) \<and> statuses s' = scheduled i scs (statuses s)"
  using assms(1,3)
proof (induction scs arbitrary: n ws s)
  case Nil
  then show ?case by (simp add: sched_err_writes_def)
next
  case (Cons sc scs)
  let ?n = "sc_MirrorName sc" and ?t = "sc_NextSchedule sc"
  let ?ws1 = "ws @ (if ?n = [] then returnErrJSON 400 ''mirror Name should not be empty'' else [])"
  let ?s1 = "snd (db_RefreshWorker D (clock n) i s)"
  from refresh_state [OF Cons.prems(1) spec [OF assms(2)]] have
    s1: "up ?s1" "dom (workers ?s1) = dom (workers s)" "statuses ?s1 = statuses s" by auto
  have t: "\<forall>sc\<in>set scs. time_ok (sc_NextSchedule sc)" "time_ok ?t" using Cons.prems(2) by auto
  have ws: "?ws1 @ sched_err_writes scs = ws @ sched_err_writes (sc # scs)" by (simp add: sched_err_writes_def)
  show ?case
  proof (cases "statuses s (status_key ?n i)")
    case None
    with Cons.IH [OF s1(1) t(1), of "Suc n" ?ws1] s1 get_status [OF s1(1), of i ?n] ws show ?thesis
      by (auto simp: Let_def)
  next
    case (Some m)
    show ?thesis
    proof (cases "ms_Scheduled m = ?t")
      case True
      then have "(statuses s)(status_key ?n i \<mapsto> m\<lparr>ms_Scheduled := ?t\<rparr>) = statuses s" using Some by auto
      with True Some Cons.IH [OF s1(1) t(1), of "Suc n" ?ws1] s1 get_status [OF s1(1), of i ?n] ws show ?thesis
        by (auto simp: Let_def)
    next
      case False
      from status_wf [OF Cons.prems(1) Some] t(2) have
        m: "MirrorStatus_ok (m\<lparr>ms_Scheduled := ?t\<rparr>)" "key_ok (status_key ?n i)" by (simp_all add: MirrorStatus_ok_def)
      from update_status [OF s1(1) m(2,1)] obtain s2 where
        s2: "db_UpdateMirrorStatus D i ?n (m\<lparr>ms_Scheduled := ?t\<rparr>) ?s1 = ((m\<lparr>ms_Scheduled := ?t\<rparr>, None), s2)"
        "up s2" "workers s2 = workers ?s1" "statuses s2 = (statuses ?s1)(status_key ?n i \<mapsto> m\<lparr>ms_Scheduled := ?t\<rparr>)" by blast
      let ?st = "(statuses s)(status_key ?n i \<mapsto> m\<lparr>ms_Scheduled := ?t\<rparr>)"
      from Cons.IH [OF s2(2) t(1), of "Suc n" ?ws1] obtain s' where
        s': "update_schedules_loop D clock i (Suc n) scs ?ws1 s2 = (?ws1 @ sched_err_writes scs @ [(200, BEmpty)], s')"
        "up s'" "dom (workers s') = dom (workers s2)" "statuses s' = scheduled i scs (statuses s2)" by blast
      have "update_schedules_loop D clock i n (sc # scs) ws s = update_schedules_loop D clock i (Suc n) scs ?ws1 s2"
        using False Some s1(3) s2(1) get_status [OF s1(1), of i ?n] by (simp add: Let_def)
      moreover have "statuses s' = scheduled i (sc # scs) (statuses s)"
        using s'(4) s2(4) s1(3) Some by simp
      ultimately show ?thesis using s'(1,2,3) s2(3) s1(2) ws by simp
    qed
  qed
qed

lemma updateSchedules_up:
  assumes "up s" and "\<forall>n. time_ok (clock n)" and "\<forall>sc\<in>set (fst req). time_ok (sc_NextSchedule sc)"
  shows "up (snd (updateSchedulesOfWorker D clock i req s))"
  using update_schedules_loop_stores [OF assms, where i = i and n = 0 and ws = "bind_writes (snd req)"]
  by (auto simp: updateSchedulesOfWorker_def)

lemma registerWorker_stores:
  assumes "up s" and "time_ok now" and "time_ok now'" and "key_ok (ws_ID w)"
  shows "\<exists>s'. registerWorker D now now' (w, berr) s =
      (bind_writes berr @ [(200, BWorker (w\<lparr>ws_LastOnline := now, ws_LastRegister := now'\<rparr>))], s') \<and>
    up s' \<and> workers s' = (workers s)(ws_ID w \<mapsto> w\<lparr>ws_LastOnline := now, ws_LastRegister := now'\<rparr>) \<and>
    statuses s' = statuses s"
proof -
  let ?w = "w\<lparr>ws_LastOnline := now, ws_LastRegister := now'\<rparr>"
  have "WorkerStatus_ok ?w" "key_ok (ws_ID ?w)" using assms by (simp_all add: WorkerStatus_ok_def)
  from create_worker [OF assms(1) this(2,1)] show ?thesis by (auto simp: registerWorker_def Let_def)
qed

text \<open>The statuses after a client command.\<close>

lemma cmd_update:
  assumes "up s" and "key_ok (status_key n i)"
  shows "case cmd_status v of
      None \<Rightarrow> True
    | Some st \<Rightarrow> \<exists>s'. db_UpdateMirrorStatus D i n ((cur_status (statuses s) i n)\<lparr>ms_Status := st\<rparr>) s =
          (((cur_status (statuses s) i n)\<lparr>ms_Status := st\<rparr>, None), s') \<and> up s' \<and> workers s' = workers s \<and>
        statuses s' = (statuses s)(status_key n i \<mapsto> (cur_status (statuses s) i n)\<lparr>ms_Status := st\<rparr>)"
proof -
  have "MirrorStatus_ok ((cur_status (statuses s) i n)\<lparr>ms_Status := st\<rparr>)" if "cmd_status v = Some st" for st
    using that cur_status_ok [OF assms(1), of i n]
    by (auto simp: MirrorStatus_ok_def cmd_status_def split: CmdVerb.splits)
  with update_status [OF assms] show ?thesis by (simp split: option.split)
qed

lemma handleClientCmd_known:
  assumes "up s" and "workers s (cc_WorkerID cmd) = Some w" and "cc_WorkerID cmd \<noteq> []"
    and "key_ok (status_key (cc_MirrorID cmd) (cc_WorkerID cmd))"
  shows "\<exists>s'. handleClientCmd D post (cmd, berr) s =
      ((bind_writes berr @ (case post (ws_URL w) (worker_cmd cmd) of
           Some e \<Rightarrow> returnErrJSON 500 (''post command to worker '' @ cc_WorkerID cmd @ ''('' @ ws_URL w @ '') fail: '' @ e)
         | None \<Rightarrow> [(200, BInfo (''successfully send command to worker '' @ cc_WorkerID cmd))]),
        [(ws_URL w, worker_cmd cmd)]), s') \<and>
    up s' \<and> workers s' = workers s \<and> statuses s' = cmd_statuses cmd (statuses s)"
proof (cases "cmd_status (cc_Cmd cmd)")
  case None
  with assms show ?thesis
    by (simp add: handleClientCmd_def Let_def get_worker cmd_statuses_def split: option.split)
next
  case (Some st)
  from cmd_update [OF assms(1,4), of "cc_Cmd cmd"] Some obtain s' where
    "db_UpdateMirrorStatus D (cc_WorkerID cmd) (cc_MirrorID cmd) ((cur_status (statuses s) (cc_WorkerID cmd) (cc_MirrorID cmd))\<lparr>ms_Status := st\<rparr>) s =
      (((cur_status (statuses s) (cc_WorkerID cmd) (cc_MirrorID cmd))\<lparr>ms_Status := st\<rparr>, None), s')" "up s'" "workers s' = workers s"
    "statuses s' = (statuses s)(status_key (cc_MirrorID cmd) (cc_WorkerID cmd) \<mapsto>
      (cur_status (statuses s) (cc_WorkerID cmd) (cc_MirrorID cmd))\<lparr>ms_Status := st\<rparr>)"
    by auto
  with Some assms show ?thesis
    by (simp add: handleClientCmd_def Let_def get_worker fst_get_status cmd_statuses_def split: option.split)
qed

lemma handleClientCmd_rejects:
  assumes "up s" and "cc_WorkerID cmd = [] \<or> workers s (cc_WorkerID cmd) = None"
  shows "\<exists>ws. handleClientCmd D post (cmd, berr) s = ((bind_writes berr @ ws, []), s) \<and>
    ws = (if cc_WorkerID cmd = [] then [(500, BNone)]
          else returnErrJSON 400 (''worker '' @ cc_WorkerID cmd @ '' is not registered yet''))"
  using assms by (auto simp: handleClientCmd_def Let_def get_worker)

lemma handleClientCmd_up:
  assumes "up s" and "key_ok (status_key (cc_MirrorID (fst req)) (cc_WorkerID (fst req)))"
  shows "up (snd (handleClientCmd D post req s))"
proof (cases "cc_WorkerID (fst req) = [] \<or> workers s (cc_WorkerID (fst req)) = None")
  case True
  from handleClientCmd_rejects [OF assms(1) this, of post "snd req"] assms(1) show ?thesis by auto
next
  case False
  then obtain w where "workers s (cc_WorkerID (fst req)) = Some w" by auto
  from handleClientCmd_known [OF assms(1) this _ assms(2), of post "snd req"] False show ?thesis by auto
qed

lemma deleteWorker_up: "up s \<Longrightarrow> up (snd (deleteWorker D i s))"
  using delete_worker [of s i] delete_no_worker [of s i] by (cases "workers s i") (auto simp: deleteWorker_def)

lemma validated_up: "up s \<Longrightarrow> up (snd (h s)) \<Longrightarrow> up (snd (validated D i h s))"
  by (auto simp: validated_def split: option.split prod.split)

lemma validated_rejects: "up s \<Longrightarrow> workers s i = None \<Longrightarrow>
    validated D i h s = ((returnErrJSON 400 (''invalid workerID '' @ i), []), s)"
  by (simp add: validated_def workerIDValidator_def get_worker)

lemma validated_passes: "up s \<Longrightarrow> workers s i \<noteq> None \<Longrightarrow>
    validated D i h s = ((fst (h s), []), snd (h s))"
  by (auto simp: validated_def workerIDValidator_def get_worker split: prod.split)

text \<open>Every request leaves the database in use.\<close>

lemma serve_up:
  assumes s: "up s" and t: "\<forall>n. time_ok (clock n)" and r: "request_ok r"
  shows "up (snd (serve D clock post r s))"
proof (cases r)
  case DeleteDisabledJobs
  with flush [OF s] show ?thesis by (auto simp: flushDisabledJobs_def)
next
  case (PostWorkers req)
  with registerWorker_stores [OF s spec [OF t, of 0] spec [OF t, of 1], of "fst req" "snd req"] r show ?thesis by auto
next
  case (DeleteWorkerReq i)
  with s show ?thesis by (simp add: validated_up deleteWorker_up)
next
  case (GetWorkerJobs i)
  with s show ?thesis by (simp add: validated_up)
next
  case (PostJob i job req)
  with s t r show ?thesis by (simp add: validated_up updateJob_up)
next
  case (PostJobSize i job req)
  with s t show ?thesis by (simp add: validated_up updateMirrorSize_up)
next
  case (PostSchedules i req)
  with s t r show ?thesis by (simp add: validated_up updateSchedules_up)
next
  case (PostCmd req)
  with s r show ?thesis by (simp add: handleClientCmd_up)
qed (use s in simp_all)

lemma serve_all_up:
  "up s \<Longrightarrow> \<forall>(clock, r)\<in>set rs. (\<forall>n. time_ok (clock n)) \<and> request_ok r \<Longrightarrow> up (snd (serve_all D post rs s))"
proof (induction rs arbitrary: s)
  case (Cons cr rs)
  obtain clock r where cr: "cr = (clock, r)" by (cases cr)
  with Cons.prems have "up (snd (serve D clock post r s))" by (auto intro: serve_up)
  from Cons.IH [OF this] Cons.prems(2) show ?case by (auto simp: cr split: prod.split)
qed simp

text \<open>The time line of the whole database, request by request.\<close>

lemma updateJob_timeline:
  assumes s: "up s" "\<forall>k m. statuses s k = Some m \<longrightarrow> timeline t m" and z: "zero_time \<le> t"
    and c: "time_ok now" "time_ok cur" "t \<le> cur" "cur \<le> u" and k: "key_ok (status_key (ms_Name (fst req)) i)"
  shows "statuses (snd (updateJobOfWorker D now cur i req s)) k = Some m \<Longrightarrow> timeline u m"
proof -
  let ?n = "ms_Name (fst req)" and ?s' = "snd (updateJobOfWorker D now cur i req s)"
  let ?m = "merge_status cur (cur_status (statuses s) i ?n) (fst req)"
  have old: "timeline u m'" if "statuses s k' = Some m'" for k' m'
    using s(2) that c(3,4) timeline_mono [of t m' u] by auto
  have "timeline t (cur_status (statuses s) i ?n)"
    using s(2) z by (auto simp: cur_status_def timeline_zero split: option.split)
  then have new: "timeline u ?m" using c(3,4) timeline_merge timeline_mono by blast
  assume k': "statuses ?s' k = Some m"
  show "timeline u m"
  proof (cases "MirrorStatus_ok ?m")
    case True
    then have "status_ok (ms_Status (fst req))" "time_ok (ms_Scheduled (fst req))"
      by (simp_all add: merge_status_ok c(2) cur_status_ok s(1))
    from updateJob_stores [OF s(1) c(1,2) k this, of "snd req"] k' old new show ?thesis
      by (auto split: if_splits)
  next
    case False
    let ?s1 = "snd (db_RefreshWorker D now i s)"
    from refresh_state [OF s(1) c(1), of i] have s1: "up ?s1" "statuses ?s1 = statuses s" by auto
    from update_bad_status [OF False, of i ?n ?s1] obtain e where
      "db_UpdateMirrorStatus D i ?n ?m ?s1 = ((?m, Some e), ?s1)" by blast
    then have "?s' = ?s1" using s1 by (simp add: updateJobOfWorker_def Let_def fst_get_status)
    with k' s1(2) old show ?thesis by simp
  qed
qed

lemma scheduled_timeline: "\<forall>k m. st k = Some m \<longrightarrow> timeline t m \<Longrightarrow> scheduled i scs st k = Some m \<Longrightarrow> timeline t m"
proof (induction scs arbitrary: st)
  case (Cons sc scs)
  have "\<forall>k m. (case st (status_key (sc_MirrorName sc) i) of None \<Rightarrow> st
      | Some m \<Rightarrow> st(status_key (sc_MirrorName sc) i \<mapsto> m\<lparr>ms_Scheduled := sc_NextSchedule sc\<rparr>)) k = Some m \<longrightarrow> timeline t m"
    using Cons.prems(1) by (auto simp: timeline_def split: option.splits if_splits)
  from Cons.IH [OF this] Cons.prems(2) show ?case by simp
qed simp

lemma cmd_statuses_timeline:
  "\<forall>k m. st k = Some m \<longrightarrow> timeline t m \<Longrightarrow> zero_time \<le> t \<Longrightarrow> cmd_statuses cmd st k = Some m \<Longrightarrow> timeline t m"
  by (auto simp: cmd_statuses_def cur_status_def timeline_def zero_MirrorStatus_def split: option.splits if_splits)

lemma updateMirrorSize_timeline:
  assumes "up s" and "\<forall>k m. statuses s k = Some m \<longrightarrow> timeline t m" and "time_ok now"
    and "statuses (snd (updateMirrorSize D now i req s)) k = Some m"
  shows "timeline t m"
proof (cases "statuses s (status_key (sm_Name (fst req)) i)")
  case None
  from updateMirrorSize_absent [OF assms(1,3) None, of "snd req"] refresh_state [OF assms(1,3), of i] assms(2,4)
  show ?thesis by auto
next
  case (Some m')
  from updateMirrorSize_stores [OF assms(1,3) Some, of "snd req"] assms(2,4) Some show ?thesis
    by (auto simp: timeline_def split: if_splits)
qed

lemma updateSchedules_timeline:
  assumes "up s" and "\<forall>k m. statuses s k = Some m \<longrightarrow> timeline t m" and "\<forall>n. time_ok (clock n)"
    and "\<forall>sc\<in>set (fst req). time_ok (sc_NextSchedule sc)"
    and "statuses (snd (updateSchedulesOfWorker D clock i req s)) k = Some m"
  shows "timeline t m"
proof -
  from update_schedules_loop_stores [OF assms(1,3,4), of i 0 "bind_writes (snd req)"] assms(5)
  have "scheduled i (fst req) (statuses s) k = Some m" by (auto simp: updateSchedulesOfWorker_def)
  with scheduled_timeline [OF assms(2)] show ?thesis .
qed

lemma handleClientCmd_timeline:
  assumes "up s" and "\<forall>k m. statuses s k = Some m \<longrightarrow> timeline t m" and "zero_time \<le> t"
    and "key_ok (status_key (cc_MirrorID (fst req)) (cc_WorkerID (fst req)))"
    and "statuses (snd (handleClientCmd D post req s)) k = Some m"
  shows "timeline t m"
proof (cases "cc_WorkerID (fst req) = [] \<or> workers s (cc_WorkerID (fst req)) = None")
  case True
  from handleClientCmd_rejects [OF assms(1) this, of post "snd req"] assms(2,5) show ?thesis by auto
next
  case False
  then obtain w where "workers s (cc_WorkerID (fst req)) = Some w" by auto
  from handleClientCmd_known [OF assms(1) this _ assms(4), of post "snd req"] False assms(5)
  have "cmd_statuses (fst req) (statuses s) k = Some m" by auto
  with cmd_statuses_timeline [OF assms(2,3)] show ?thesis .
qed

lemma deleteWorker_statuses: "up s \<Longrightarrow> statuses (snd (deleteWorker D i s)) = statuses s"
  using delete_worker [of s i] delete_no_worker [of s i] by (cases "workers s i") (auto simp: deleteWorker_def)

lemma validated_cases:
  assumes "up s" and "statuses (snd (validated D i h s)) k = Some m"
  obtains "statuses s k = Some m" | "statuses (snd (h s)) k = Some m"
  using assms validated_rejects [of s i h] validated_passes [of s i h] by (cases "workers s i") auto

lemma serve_timeline:
  assumes s: "up s" "\<forall>k m. statuses s k = Some m \<longrightarrow> timeline t m" and z: "zero_time \<le> t"
    and c: "\<forall>n. time_ok (clock n) \<and> t \<le> clock n \<and> clock n \<le> u" and r: "request_ok r"
    and k: "statuses (snd (serve D clock post r s)) k = Some m"
  shows "timeline u m"
proof -
  from c have tu: "t \<le> u" and t: "\<forall>n. time_ok (clock n)" using order_trans by blast+
  have old: "timeline u m'" if "statuses s k' = Some m'" for k' m'
    using s(2) that timeline_mono [OF _ tu] by blast
  show ?thesis
  proof (cases r)
    case DeleteDisabledJobs
    with flush [OF s(1)] k old show ?thesis by (auto simp: flushDisabledJobs_def split: option.splits if_splits)
  next
    case (PostWorkers req)
    with registerWorker_stores [OF s(1) spec [OF t, of 0] spec [OF t, of 1], of "fst req" "snd req"] r k old
    show ?thesis by auto
  next
    case (DeleteWorkerReq i)
    with k old deleteWorker_statuses [OF s(1), of i] show ?thesis by (auto elim!: validated_cases [OF s(1)])
  next
    case (GetWorkerJobs i)
    with k old s(1) show ?thesis by (auto elim!: validated_cases)
  next
    case (PostJob i job req)
    with r have "key_ok (status_key (ms_Name (fst req)) i)" by simp
    note new = updateJob_timeline [OF s z spec [OF t, of 0] spec [OF t, of 1] _ _ this, of u]
    from k PostJob have "statuses (snd (validated D i (updateJobOfWorker D (clock 0) (clock 1) i req) s)) k = Some m" by simp
    from validated_cases [OF s(1) this] old new c show ?thesis by metis
  next
    case (PostJobSize i job req)
    with k have "statuses (snd (validated D i (updateMirrorSize D (clock 0) i req) s)) k = Some m" by simp
    from validated_cases [OF s(1) this] old updateMirrorSize_timeline [OF s spec [OF t, of 0]] timeline_mono [OF _ tu]
    show ?thesis by metis
  next
    case (PostSchedules i req)
    with k have "statuses (snd (validated D i (updateSchedulesOfWorker D clock i req) s)) k = Some m" by simp
    from validated_cases [OF s(1) this] old updateSchedules_timeline [OF s t, of req] timeline_mono [OF _ tu] r PostSchedules
    show ?thesis by (metis request_ok.simps(3))
  next
    case (PostCmd req)
    with r k have "timeline t m" by (auto intro: handleClientCmd_timeline [OF s z])
    then show ?thesis using timeline_mono tu by blast
  qed (use k old in simp_all)
qed

lemma serve_all_timeline:
  assumes "up s" and "\<forall>k m. statuses s k = Some m \<longrightarrow> timeline t m" and "zero_time \<le> t" and "clocks_from t rs u"
    and "\<forall>(clock, r)\<in>set rs. request_ok r"
  shows "statuses (snd (serve_all D post rs s)) k = Some m \<Longrightarrow> timeline u m"
  using assms
proof (induction rs arbitrary: s t)
  case Nil
  then show ?case using timeline_mono by (metis clocks_from.simps(1) serve_all.simps(1) snd_conv)
next
  case (Cons cr rs)
  obtain clock r where cr: "cr = (clock, r)" by (cases cr)
  from Cons.prems(5) obtain v where v: "\<forall>n. time_ok (clock n) \<and> t \<le> clock n \<and> clock n \<le> v" "clocks_from v rs u"
    by (auto simp: cr)
  let ?s1 = "snd (serve D clock post r s)"
  have r: "request_ok r" using Cons.prems(6) by (simp add: cr)
  have "up ?s1" using serve_up [OF Cons.prems(2) _ r] v(1) by blast
  moreover have "\<forall>k m. statuses ?s1 k = Some m \<longrightarrow> timeline v m"
    using serve_timeline [OF Cons.prems(2,3,4) v(1) r] by blast
  moreover have "zero_time \<le> v" using Cons.prems(4) spec [OF v(1), of 0] by linarith
  moreover have "snd (serve_all D post (cr # rs) s) = snd (serve_all D post rs ?s1)"
    by (simp add: cr split: prod.split)
  ultimately show ?case using Cons.IH [of ?s1 v] Cons.prems(1,6) v(2) by simp
qed

end

lemma scheduled_last:
  "scheduled i scs st k = map_option (\<lambda>m. case map_of (rev (map (\<lambda>sc. (status_key (sc_MirrorName sc) i, sc_NextSchedule sc)) scs)) k of
      None \<Rightarrow> m | Some t \<Rightarrow> m\<lparr>ms_Scheduled := t\<rparr>) (st k)"
proof (induction scs arbitrary: st)
  case Nil
  then show ?case by (simp add: option.map_ident)
next
  case (Cons sc scs)
  then show ?case
    by (cases "st (status_key (sc_MirrorName sc) i)")
       (auto simp: map_add_def option.map_ident fun_upd_apply split: option.split)
qed

subsection \<open>Properties of the manager\<close>

text \<open>C3.  A status report is stored merged with what is known: for a registered worker the answer is
  200 and the stored status keeps the reported name, state and schedule, takes the current time as
  start only on entering \<open>PreSyncing\<close>, as last update only on \<open>Success\<close>, as end only on
  \<open>Success\<close> or \<open>Failed\<close>, and never loses a known size to an unknown one.  No other status
  changes, and of the workers only the time stamp of the reporting one.\<close>

theorem updateJob_stores_merged:
  assumes "db_up K wrap c up s" and "time_ok (clock 0)" and "time_ok (clock 1)" and "workers_of (c s) i \<noteq> None"
    and "key_ok (status_key (ms_Name st) i)" and "status_ok (ms_Status st)" and "time_ok (ms_Scheduled st)"
    and "ms_Name st \<noteq> []" and "cur = cur_status (statuses_of (c s)) i (ms_Name st)"
  shows "\<exists>s' m. serve (kvDBAdapter K wrap) clock post (PostJob i job (st, None)) s = (([(200, BJob m)], []), s') \<and>
    db_up K wrap c up s' \<and> workers_of (c s') = refreshed (clock 0) i (workers_of (c s)) \<and>
    statuses_of (c s') = (statuses_of (c s))(status_key (ms_Name st) i \<mapsto> m) \<and>
    ms_Name m = ms_Name st \<and> ms_Status m = ms_Status st \<and> ms_Scheduled m = ms_Scheduled st \<and>
    ms_LastStarted m = (if ms_Status st = PreSyncing \<and> ms_Status cur \<noteq> PreSyncing then clock 1 else ms_LastStarted cur) \<and>
    ms_LastUpdate m = (if ms_Status st = Success then clock 1 else ms_LastUpdate cur) \<and>
    ms_LastEnded m = (if ms_Status st = Success \<or> ms_Status st = Failed then clock 1 else ms_LastEnded cur) \<and>
    ms_Size m = (if known_size (ms_Size st) \<or> \<not> known_size (ms_Size cur) then ms_Size st else ms_Size cur)"
proof -
  from kvdb.updateJob_stores [OF assms(1-3,5-7), of None] obtain s' where
    "updateJobOfWorker (kvDBAdapter K wrap) (clock 0) (clock 1) i (st, None) s = ([(200, BJob (merge_status (clock 1) cur st))], s')"
    "db_up K wrap c up s'" "workers_of (c s') = refreshed (clock 0) i (workers_of (c s))"
    "statuses_of (c s') = (statuses_of (c s))(status_key (ms_Name st) i \<mapsto> merge_status (clock 1) cur st)"
    using assms(8,9) by (auto simp: bind_writes_def)
  then show ?thesis
    by (intro exI [of _ s'] exI [of _ "merge_status (clock 1) cur st"])
       (simp add: kvdb.validated_passes [OF assms(1,4)] merge_status_Size)
qed

theorem updateJob_stores_merged_witness:
  "\<exists>s' m. serve (kvDBAdapter ex_K ex_wrap) (\<lambda>n. 5) (\<lambda>_ _. None) (PostJob ''w'' ''m'' (ex_status\<lparr>ms_Size := ''''\<rparr>, None)) ex_db =
      (([(200, BJob m)], []), s') \<and>
    ms_LastUpdate m = 5 \<and> ms_Size m = ''1G''"
proof -
  let ?st = "ex_status\<lparr>ms_Size := ''''\<rparr>"
  have "\<exists>s' m. serve (kvDBAdapter ex_K ex_wrap) (\<lambda>n. 5) (\<lambda>_ _. None) (PostJob ''w'' ''m'' (?st, None)) ex_db = (([(200, BJob m)], []), s') \<and>
    db_up ex_K ex_wrap ex_c ex_up s' \<and> workers_of (ex_c s') = refreshed 5 ''w'' (workers_of (ex_c ex_db)) \<and>
    statuses_of (ex_c s') = (statuses_of (ex_c ex_db))(status_key (ms_Name ?st) ''w'' \<mapsto> m) \<and>
    ms_Name m = ms_Name ?st \<and> ms_Status m = ms_Status ?st \<and> ms_Scheduled m = ms_Scheduled ?st \<and>
    ms_LastStarted m = (if ms_Status ?st = PreSyncing \<and> ms_Status ex_status \<noteq> PreSyncing then 5 else ms_LastStarted ex_status) \<and>
    ms_LastUpdate m = (if ms_Status ?st = Success then 5 else ms_LastUpdate ex_status) \<and>
    ms_LastEnded m = (if ms_Status ?st = Success \<or> ms_Status ?st = Failed then 5 else ms_LastEnded ex_status) \<and>
    ms_Size m = (if known_size (ms_Size ?st) \<or> \<not> known_size (ms_Size ex_status) then ms_Size ?st else ms_Size ex_status)"
    by (rule updateJob_stores_merged [OF ex_db_up])
       (simp_all add: ex_db_maps cur_status_def key_ok_def status_key_def time_ok_def Second_def ex_status_def zero_MirrorStatus_def zero_time_def)
  then show ?thesis by (auto simp: ex_status_def known_size_def)
qed

text \<open>C26.  The manager's database stays well-formed: after any session of requests on any backend,
  every stored worker is found under its own id, every value decodes to the record it encodes and
  every status key has the form \<open>mirror/worker\<close>.\<close>

theorem serve_all_keeps_db:
  assumes "db_up K wrap c up s"
    and "\<forall>(clock, r)\<in>set rs. (\<forall>n. time_ok (clock n)) \<and> request_ok r"
  shows "db_up K wrap c up (snd (serve_all (kvDBAdapter K wrap) post rs s))"
  using kvdb.serve_all_up [OF assms] .

theorem serve_all_keeps_db_witness:
  "db_up ex_K ex_wrap ex_c ex_up (snd (serve_all (kvDBAdapter ex_K ex_wrap) (\<lambda>_ _. None)
     [(\<lambda>_. 7, PostJob ''w'' ''m'' (ex_status, None)), (\<lambda>_. 8, DeleteDisabledJobs), (\<lambda>_. 9, DeleteWorkerReq ''w'')] ex_db))"
  by (rule serve_all_keeps_db [OF ex_db_up]) (simp add: time_ok_def Second_def key_ok_def status_key_def ex_status_def)

text \<open>Time stamps stay consistent: when the clock does not go back during a session, every stored
  status has its last update no later than its last end, and neither its end nor its start in the
  future, whatever workers and clients send.\<close>

theorem serve_all_timeline_ok:
  assumes "db_up K wrap c up s" and "\<forall>k m. statuses_of (c s) k = Some m \<longrightarrow> timeline t m"
    and "zero_time \<le> t" and "clocks_from t rs u" and "\<forall>(clock, r)\<in>set rs. request_ok r"
  shows "\<forall>k m. statuses_of (c (snd (serve_all (kvDBAdapter K wrap) post rs s))) k = Some m \<longrightarrow>
    ms_LastUpdate m \<le> ms_LastEnded m \<and> ms_LastEnded m \<le> u \<and> ms_LastStarted m \<le> u"
  using kvdb.serve_all_timeline [OF assms] by (auto simp: timeline_def)

lemma case_option_all: "(\<forall>k m. f k = Some m \<longrightarrow> P m) \<Longrightarrow> \<forall>k. case f k of None \<Rightarrow> True | Some m \<Rightarrow> P m"
  by (simp split: option.split)

theorem serve_all_timeline_ok_witness:
  "\<forall>k. case statuses_of (ex_c (snd (serve_all (kvDBAdapter ex_K ex_wrap) (\<lambda>_ _. None)
      [(\<lambda>_. 7, PostJob ''w'' ''m'' (ex_status, None)), (\<lambda>_. 8, PostJobSize ''w'' ''m'' (\<lparr>sm_Name = ''m'', sm_Size = ''2G''\<rparr>, None))] ex_db))) k of
    None \<Rightarrow> True | Some m \<Rightarrow> ms_LastUpdate m \<le> ms_LastEnded m \<and> ms_LastEnded m \<le> 9 \<and> ms_LastStarted m \<le> 9"
proof (rule case_option_all, rule serve_all_timeline_ok [OF ex_db_up, where t = 6])
  show "clocks_from 6 [(\<lambda>_. 7, PostJob ''w'' ''m'' (ex_status, None)), (\<lambda>_. 8, PostJobSize ''w'' ''m'' (\<lparr>sm_Name = ''m'', sm_Size = ''2G''\<rparr>, None))] 9"
    by (auto simp: time_ok_def Second_def intro!: exI [of _ 7] exI [of _ 8])
qed (simp_all add: ex_db_maps timeline_def ex_status_def zero_MirrorStatus_def zero_time_def key_ok_def status_key_def)

text \<open>A size report always replaces the stored size, also by an empty size or by
  \<open>unknown\<close>: the guard that should keep a meaningful size holds for every message.\<close>

theorem updateMirrorSize_overwrites:
  assumes "db_up K wrap c up s" and "time_ok now" and "statuses_of (c s) (status_key (sm_Name msg) i) = Some m"
  shows "\<exists>s'. updateMirrorSize (kvDBAdapter K wrap) now i (msg, None) s = ([(200, BJob (m\<lparr>ms_Size := sm_Size msg\<rparr>))], s') \<and>
    kvdb_GetMirrorStatus K i (sm_Name msg) s' = (m\<lparr>ms_Size := sm_Size msg\<rparr>, None)"
proof -
  from kvdb.updateMirrorSize_stores [OF assms, of None] obtain s' where
    s': "updateMirrorSize (kvDBAdapter K wrap) now i (msg, None) s = ([(200, BJob (m\<lparr>ms_Size := sm_Size msg\<rparr>))], s')"
    "db_up K wrap c up s'" "statuses_of (c s') = (statuses_of (c s))(status_key (sm_Name msg) i \<mapsto> m\<lparr>ms_Size := sm_Size msg\<rparr>)"
    by (auto simp: bind_writes_def)
  from kvdb.get_status [OF s'(2), of i "sm_Name msg"] s'(3)
  have "kvdb_GetMirrorStatus K i (sm_Name msg) s' = (m\<lparr>ms_Size := sm_Size msg\<rparr>, None)" by simp
  with s'(1) show ?thesis by blast
qed

theorem updateMirrorSize_overwrites_witness:
  "\<exists>s'. updateMirrorSize (kvDBAdapter ex_K ex_wrap) 5 ''w'' (\<lparr>sm_Name = ''m'', sm_Size = ''unknown''\<rparr>, None) ex_db =
      ([(200, BJob (ex_status\<lparr>ms_Size := ''unknown''\<rparr>))], s') \<and>
    kvdb_GetMirrorStatus ex_K ''w'' ''m'' s' = (ex_status\<lparr>ms_Size := ''unknown''\<rparr>, None)"
  using updateMirrorSize_overwrites [OF ex_db_up, of 5 "\<lparr>sm_Name = ''m'', sm_Size = ''unknown''\<rparr>" "''w''" ex_status]
  by (simp add: ex_db_maps time_ok_def Second_def)

text \<open>A client command for a registered worker is posted to that worker's URL exactly once, with
  the verb, mirror, arguments and options of the client; \<open>disable\<close> and \<open>stop\<close> set the stored
  state to \<open>Disabled\<close> and \<open>Paused\<close> whether or not the post succeeds, and the other verbs
  change nothing.  The answer is 200 exactly when the post succeeded.\<close>

theorem handleClientCmd_forwards:
  assumes "db_up K wrap c up s" and "workers_of (c s) i = Some w" and "i \<noteq> []" and "key_ok (status_key n i)"
    and "cmd = \<lparr>cc_Cmd = verb, cc_MirrorID = n, cc_WorkerID = i, cc_Args = args, cc_Options = opts\<rparr>"
  shows "\<exists>ws s'. serve (kvDBAdapter K wrap) clock post (PostCmd (cmd, None)) s =
      ((ws, [(ws_URL w, \<lparr>wc_Cmd = verb, wc_MirrorID = n, wc_Args = args, wc_Options = opts\<rparr>)]), s') \<and>
    (http_status ws = 200 \<longleftrightarrow> post (ws_URL w) \<lparr>wc_Cmd = verb, wc_MirrorID = n, wc_Args = args, wc_Options = opts\<rparr> = None) \<and>
    db_up K wrap c up s' \<and> workers_of (c s') = workers_of (c s) \<and>
    statuses_of (c s') =
      (if verb = CmdDisable
       then (statuses_of (c s))(status_key n i \<mapsto> (cur_status (statuses_of (c s)) i n)\<lparr>ms_Status := Disabled\<rparr>)
       else if verb = CmdStop
       then (statuses_of (c s))(status_key n i \<mapsto> (cur_status (statuses_of (c s)) i n)\<lparr>ms_Status := Paused\<rparr>)
       else statuses_of (c s))"
  using kvdb.handleClientCmd_known [OF assms(1), of cmd w post None] assms(2-5)
  by (cases verb) (auto simp: worker_cmd_def bind_writes_def returnErrJSON_def http_status_def cmd_statuses_def
      cmd_status_def split: option.splits)

theorem handleClientCmd_forwards_witness:
  "\<exists>ws s'. serve (kvDBAdapter ex_K ex_wrap) (\<lambda>_. 0) (\<lambda>_ _. Some ''timeout'')
      (PostCmd (\<lparr>cc_Cmd = CmdDisable, cc_MirrorID = ''m'', cc_WorkerID = ''w'', cc_Args = [], cc_Options = [(''force'', True)]\<rparr>, None)) ex_db =
      ((ws, [(''http://w/'', \<lparr>wc_Cmd = CmdDisable, wc_MirrorID = ''m'', wc_Args = [], wc_Options = [(''force'', True)]\<rparr>)]), s') \<and>
    http_status ws \<noteq> 200 \<and> statuses_of (ex_c s') = [status_key ''m'' ''w'' \<mapsto> ex_status\<lparr>ms_Status := Disabled\<rparr>]"
  using handleClientCmd_forwards [OF ex_db_up, of "''w''" ex_worker "''m''" _ CmdDisable "[]" "[(''force'', True)]" "\<lambda>_. 0" "\<lambda>_ _. Some ''timeout''"]
  by (simp add: ex_db_maps key_ok_def status_key_def cur_status_def) (auto simp: ex_worker_def)

text \<open>C40.  Requests about a worker that is not registered are refused: the job, size, schedule, list
  and delete routes answer 400, a command answers 400 (or 500 when it names no worker), the database
  is unchanged and nothing is posted to anybody.\<close>

theorem unregistered_worker_refused:
  assumes "db_up K wrap c up s" and "workers_of (c s) i = None"
    and "r \<in> {DeleteWorkerReq i, GetWorkerJobs i, PostJob i job st, PostJobSize i job sz, PostSchedules i scs, PostCmd (cmd, None)}"
    and "cc_WorkerID cmd = i"
  shows "\<exists>ws. serve (kvDBAdapter K wrap) clock post r s = ((ws, []), s) \<and>
    http_status ws = (if r = PostCmd (cmd, None) \<and> i = [] then 500 else 400)"
proof (cases "r = PostCmd (cmd, None)")
  case True
  with kvdb.handleClientCmd_rejects [OF assms(1), of cmd post None] assms(2,4) show ?thesis
    by (auto simp: bind_writes_def returnErrJSON_def http_status_def)
next
  case False
  with assms(3) kvdb.validated_rejects [OF assms(1,2)] show ?thesis
    by (auto simp: returnErrJSON_def http_status_def)
qed

theorem unregistered_worker_refused_witness:
  "\<exists>ws. serve (kvDBAdapter ex_K ex_wrap) (\<lambda>_. 0) (\<lambda>_ _. None) (PostJob ''x'' ''m'' (ex_status, None)) ex_db = ((ws, []), ex_db) \<and>
    http_status ws = 400"
  using unregistered_worker_refused [OF ex_db_up, of "''x''" "PostJob ''x'' ''m'' (ex_status, None)" "''m''" "(ex_status, None)"
      undefined undefined "\<lparr>cc_Cmd = CmdStart, cc_MirrorID = ''m'', cc_WorkerID = ''x'', cc_Args = [], cc_Options = [(''force'', True)]\<rparr>"
      "\<lambda>_. 0" "\<lambda>_ _. None"]
  by (simp add: ex_db_maps)

text \<open>The worker list shows every registered worker exactly once, with its id, URL and time
  stamps, and never a token.\<close>

theorem listWorkers_redacts:
  assumes "db_up K wrap c up s"
  shows "\<exists>ws. listWorkers (kvDBAdapter K wrap) s = [(200, BWorkers ws)] \<and> distinct (map ws_ID ws) \<and>
    set ws = {w\<lparr>ws_Token := ''REDACTED''\<rparr> |w. w \<in> ran (workers_of (c s))}"
proof -
  from kvdb.list_workers [OF assms] obtain ks where ks: "distinct ks" "set ks = dom (workers_of (c s))"
    "kvdb_ListWorkers K wrap s = (map (\<lambda>k. the (workers_of (c s) k)) ks, None)" by auto
  let ?ws = "map (\<lambda>k. redacted (the (workers_of (c s) k))) ks"
  have id: "ws_ID (the (workers_of (c s) k)) = k" if "k \<in> set ks" for k
    using kvdb.worker_id [OF assms, of k] that ks(2) by auto
  have "listWorkers (kvDBAdapter K wrap) s = [(200, BWorkers ?ws)]"
    using ks(3) by (simp add: listWorkers_def comp_def)
  moreover have "map ws_ID ?ws = ks" using id by (simp add: comp_def redacted_def map_idI)
  moreover have "redacted w = w\<lparr>ws_Token := ''REDACTED''\<rparr>" for w by (simp add: redacted_def)
  then have "set ?ws = {w\<lparr>ws_Token := ''REDACTED''\<rparr> |w. w \<in> ran (workers_of (c s))}"
    using ks(2) by (force simp: ran_def dom_def)
  ultimately show ?thesis using ks(1) by metis
qed

theorem listWorkers_redacts_witness:
  "\<exists>ws. listWorkers (kvDBAdapter ex_K ex_wrap) ex_db = [(200, BWorkers ws)] \<and> distinct (map ws_ID ws) \<and>
    set ws = {w\<lparr>ws_Token := ''REDACTED''\<rparr> |w. w \<in> ran (workers_of (ex_c ex_db))}"
  by (rule listWorkers_redacts [OF ex_db_up])

text \<open>Schedule reports: every listed mirror that has a stored status gets the schedule of its last
  entry in the list, everything else about the statuses is unchanged, no status is created, and the
  answer ends with 200.\<close>

theorem updateSchedules_last_entry:
  assumes "db_up K wrap c up s" and "\<forall>n. time_ok (clock n)" and "\<forall>sc\<in>set scs. time_ok (sc_NextSchedule sc)"
  shows "\<exists>ws s'. updateSchedulesOfWorker (kvDBAdapter K wrap) clock i (scs, None) s = (ws @ [(200, BEmpty)], s') \<and>
    db_up K wrap c up s' \<and>
    statuses_of (c s') = (\<lambda>k. map_option (\<lambda>m.
      case map_of (rev (map (\<lambda>sc. (status_key (sc_MirrorName sc) i, sc_NextSchedule sc)) scs)) k of
        None \<Rightarrow> m | Some t \<Rightarrow> m\<lparr>ms_Scheduled := t\<rparr>) (statuses_of (c s) k))"
proof -
  from kvdb.update_schedules_loop_stores [OF assms, of i 0 "[]"] obtain s' where
    "updateSchedulesOfWorker (kvDBAdapter K wrap) clock i (scs, None) s = (sched_err_writes scs @ [(200, BEmpty)], s')"
    "db_up K wrap c up s'" "statuses_of (c s') = scheduled i scs (statuses_of (c s))"
    by (auto simp: updateSchedulesOfWorker_def bind_writes_def)
  then show ?thesis by (auto simp: scheduled_last)
qed

theorem updateSchedules_last_entry_witness:
  "\<exists>ws s'. updateSchedulesOfWorker (kvDBAdapter ex_K ex_wrap) (\<lambda>_. 1) ''w''
      ([\<lparr>sc_MirrorName = ''m'', sc_NextSchedule = 3\<rparr>, \<lparr>sc_MirrorName = ''m'', sc_NextSchedule = 4\<rparr>], None) ex_db = (ws @ [(200, BEmpty)], s') \<and>
    statuses_of (ex_c s') (status_key ''m'' ''w'') = Some (ex_status\<lparr>ms_Scheduled := 4\<rparr>)"
  using updateSchedules_last_entry [OF ex_db_up, of "\<lambda>_. 1"
      "[\<lparr>sc_MirrorName = ''m'', sc_NextSchedule = 3\<rparr>, \<lparr>sc_MirrorName = ''m'', sc_NextSchedule = 4\<rparr>]" "''w''"]
  by (auto simp: ex_db_maps time_ok_def Second_def)

text \<open>A report with an empty mirror name is answered with 400, but the handler goes on: the status
  is stored under the key \<open>/worker\<close> and a second body follows the error.\<close>

theorem updateJob_empty_name_stored:
  assumes "db_up K wrap c up s" and "time_ok now" and "time_ok cur" and "key_ok (status_key [] i)"
    and "status_ok (ms_Status st)" and "time_ok (ms_Scheduled st)" and "ms_Name st = []"
  shows "\<exists>ws s' m. updateJobOfWorker (kvDBAdapter K wrap) now cur i (st, None) s = (ws @ [(200, BJob m)], s') \<and>
    http_status ws = 400 \<and> kvdb_GetMirrorStatus K i [] s' = (m, None)"
proof -
  from kvdb.updateJob_stores [OF assms(1-3), of st i None] assms(4-7) obtain s' m where
    s': "updateJobOfWorker (kvDBAdapter K wrap) now cur i (st, None) s =
      (returnErrJSON 400 ''mirror Name should not be empty'' @ [(200, BJob m)], s')"
    "db_up K wrap c up s'" "statuses_of (c s') = (statuses_of (c s))(status_key [] i \<mapsto> m)"
    by (auto simp: bind_writes_def)
  from kvdb.get_status [OF s'(2), of i "[]"] s'(3) have "kvdb_GetMirrorStatus K i [] s' = (m, None)" by simp
  with s'(1) show ?thesis by (auto simp: returnErrJSON_def http_status_def)
qed

theorem updateJob_empty_name_stored_witness:
  "\<exists>ws s' m. updateJobOfWorker (kvDBAdapter ex_K ex_wrap) 1 2 ''w'' (ex_status\<lparr>ms_Name := []\<rparr>, None) ex_db = (ws @ [(200, BJob m)], s') \<and>
    http_status ws = 400 \<and> kvdb_GetMirrorStatus ex_K ''w'' [] s' = (m, None)"
  by (rule updateJob_empty_name_stored [OF ex_db_up])
     (simp_all add: key_ok_def status_key_def time_ok_def Second_def ex_status_def zero_MirrorStatus_def zero_time_def)

end
