(* ===== verification/Control_Client.thy ===== *)
theory Control_Client
  imports Manager_Server
begin

section \<open>The command-line client (cmd/tunasynctl/tunasynctl.go, HTTP helpers of internal/util.go)\<close>

text \<open>
  The actions of \<open>tunasynctl\<close>.  The flags and arguments of a call are the record \<open>cli_ctx\<close>.  An action ends
  with what it has printed and, when it fails, the message of \<open>cli.Exit\<close> (always with code 1).  A network is a
  function from a request to an answer on a state \<open>'s\<close>, so that the actions can be run against any peer;
  \<open>manager_net\<close> is the manager of \<open>Manager_Server\<close> behind its routes.  Bodies are JSON documents.  The text of
  a configuration file, certificates and Go templates are parameters.

  Shown: which address is used; that a command reaches the worker and the client tells the truth about it; that
  a size is stored when the client says so; what the status filter prints; what removing a worker does; and that
  a worker without jobs is reported as a failure.
\<close>

subsection \<open>Strings\<close>

text \<open>\<open>strings.TrimSpace\<close> on ASCII white space.\<close>

definition ascii_space :: "char \<Rightarrow> bool" where
  "ascii_space c \<longleftrightarrow> c \<in> {CHR '' '', CHR 0x09, CHR 0x0A, CHR 0x0B, CHR 0x0C, CHR 0x0D}"

definition TrimSpace :: "string \<Rightarrow> string" where
  "TrimSpace s = rev (dropWhile ascii_space (rev (dropWhile ascii_space s)))"

subsection \<open>HTTP\<close>

text \<open>\<open>GetTLSConfig\<close> and \<open>CreateHTTPClient\<close>: the error, if any; \<open>readFile\<close> and \<open>validPEM\<close> stand for the file
  and the certificate library.\<close>

definition GetTLSConfig :: "(string \<Rightarrow> goerror + string) \<Rightarrow> (string \<Rightarrow> bool) \<Rightarrow> string \<Rightarrow> goerror option" where
  "GetTLSConfig readFile validPEM CAFile =
     (case readFile CAFile of
        Inl e \<Rightarrow> Some e
      | Inr caCert \<Rightarrow> if validPEM caCert then None else Some ''failed to add CA to pool'')"

definition CreateHTTPClient :: "(string \<Rightarrow> goerror + string) \<Rightarrow> (string \<Rightarrow> bool) \<Rightarrow> string \<Rightarrow> goerror option" where
  "CreateHTTPClient readFile validPEM CAFile = (if CAFile \<noteq> '''' then GetTLSConfig readFile validPEM CAFile else None)"

datatype req_body =
    NoBody
  | CmdBody ClientCmd
  | SizeBody SizeMsg
  | WorkerBody WorkerStatus
  | StatusBody MirrorStatus
  | SchedulesBody MirrorSchedules

record http_request =
  rq_Method :: string
  rq_URL :: string
  rq_Body :: req_body

datatype http_answer = NoAnswer goerror | Answer nat "goerror + json"

type_synonym 's net = "http_request \<Rightarrow> 's \<Rightarrow> http_answer \<times> 's"

definition GetJSON :: "'s net \<Rightarrow> string \<Rightarrow> (json \<Rightarrow> 'a with_err) \<Rightarrow> 'a \<Rightarrow> 's \<Rightarrow> 'a with_err \<times> 's" where
  "GetJSON net url unmarshal obj s =
     (case net \<lparr>rq_Method = ''GET'', rq_URL = url, rq_Body = NoBody\<rparr> s of (answer, s1) \<Rightarrow>
        ((case answer of
            NoAnswer e \<Rightarrow> (obj, Some e)
          | Answer code body \<Rightarrow>
              (if code \<noteq> StatusOK then (obj, Some ''HTTP status code is not 200'')
               else case body of Inl e \<Rightarrow> (obj, Some e) | Inr j \<Rightarrow> unmarshal j)), s1))"

text \<open>The bodies that the client posts always encode.\<close>

definition PostJSON :: "'s net \<Rightarrow> string \<Rightarrow> req_body \<Rightarrow> 's \<Rightarrow> http_answer \<times> 's" where
  "PostJSON net url obj = net \<lparr>rq_Method = ''POST'', rq_URL = url, rq_Body = obj\<rparr>"

text \<open>A slice decoded by \<open>json.Unmarshal\<close>: \<open>null\<close> leaves it \<open>nil\<close>, an empty array makes it empty.\<close>

definition unmarshal_slice :: "'r setter \<Rightarrow> 'r \<Rightarrow> json \<Rightarrow> 'r slice with_err" where
  "unmarshal_slice st z j = (if j = JNull then (None, None) else case decode_slice st z j of (rs, e) \<Rightarrow> (Some rs, e))"

text \<open>A slice encoded by \<open>json.Marshal\<close>.\<close>

fun marshal_elems :: "('r \<Rightarrow> goerror + json) \<Rightarrow> 'r list \<Rightarrow> goerror + json list" where
  "marshal_elems m [] = Inr []"
| "marshal_elems m (x # xs) =
     (case m x of
        Inl e \<Rightarrow> Inl e
      | Inr j \<Rightarrow> (case marshal_elems m xs of Inl e \<Rightarrow> Inl e | Inr js \<Rightarrow> Inr (j # js)))"

definition marshal_slice :: "('r \<Rightarrow> goerror + json) \<Rightarrow> 'r slice \<Rightarrow> goerror + json" where
  "marshal_slice m xs = (case xs of None \<Rightarrow> Inr JNull | Some l \<Rightarrow> map_sum id JArr (marshal_elems m l))"

subsection \<open>The status page on the wire (internal/status_web.go)\<close>

text \<open>The text format of \<open>textTime\<close> has whole seconds; \<open>JTime\<close> stands for the text, which no field of type
  \<open>time.Time\<close> ever meets.\<close>

definition whole_seconds :: "gtime \<Rightarrow> gtime" where
  "whole_seconds t = t - t mod Second"

definition textTime_MarshalJSON :: "gtime \<Rightarrow> goerror + json" where
  "textTime_MarshalJSON t = Inr (JTime (whole_seconds t))"

fun textTime_UnmarshalJSON :: "json \<Rightarrow> goerror + gtime" where
  "textTime_UnmarshalJSON (JTime t) = Inr t"
| "textTime_UnmarshalJSON _ = Inl ''parsing time''"

definition WebMirrorStatus_Marshal :: "WebMirrorStatus \<Rightarrow> goerror + json" where
  "WebMirrorStatus_Marshal m = json_struct
     [(''name'', json_string (web_Name m)),
      (''is_master'', json_bool (web_IsMaster m)),
      (''status'', map_sum (marshaler_error ''internal.SyncStatus'') id (SyncStatus_MarshalJSON (web_Status m))),
      (''last_update'', textTime_MarshalJSON (web_LastUpdate m)),
      (''last_update_ts'', stampTime_MarshalJSON (web_LastUpdateTs m)),
      (''last_started'', textTime_MarshalJSON (web_LastStarted m)),
      (''last_started_ts'', stampTime_MarshalJSON (web_LastStartedTs m)),
      (''last_ended'', textTime_MarshalJSON (web_LastEnded m)),
      (''last_ended_ts'', stampTime_MarshalJSON (web_LastEndedTs m)),
      (''next_schedule'', textTime_MarshalJSON (web_Scheduled m)),
      (''next_schedule_ts'', stampTime_MarshalJSON (web_ScheduledTs m)),
      (''upstream'', json_string (web_Upstream m)),
      (''size'', json_string (web_Size m))]"

definition set_parsed :: "(json \<Rightarrow> goerror + 'v) \<Rightarrow> ('v \<Rightarrow> 'r) \<Rightarrow> json \<Rightarrow> 'r field_res" where
  "set_parsed parse f j = (case parse j of Inl e \<Rightarrow> Abort e | Inr v \<Rightarrow> Decoded (f v))"

definition zero_WebMirrorStatus :: WebMirrorStatus where
  "zero_WebMirrorStatus = BuildWebMirrorStatus zero_MirrorStatus"

definition WebMirrorStatus_set :: "WebMirrorStatus setter" where
  "WebMirrorStatus_set k j m =
     (if k = ''name'' then set_string (\<lambda>v. m\<lparr>web_Name := v\<rparr>) m j
      else if k = ''is_master'' then set_bool (\<lambda>v. m\<lparr>web_IsMaster := v\<rparr>) m j
      else if k = ''status'' then set_parsed SyncStatus_UnmarshalJSON (\<lambda>v. m\<lparr>web_Status := v\<rparr>) j
      else if k = ''last_update'' then set_parsed textTime_UnmarshalJSON (\<lambda>v. m\<lparr>web_LastUpdate := v\<rparr>) j
      else if k = ''last_update_ts'' then set_parsed stampTime_UnmarshalJSON (\<lambda>v. m\<lparr>web_LastUpdateTs := v\<rparr>) j
      else if k = ''last_started'' then set_parsed textTime_UnmarshalJSON (\<lambda>v. m\<lparr>web_LastStarted := v\<rparr>) j
      else if k = ''last_started_ts'' then set_parsed stampTime_UnmarshalJSON (\<lambda>v. m\<lparr>web_LastStartedTs := v\<rparr>) j
      else if k = ''last_ended'' then set_parsed textTime_UnmarshalJSON (\<lambda>v. m\<lparr>web_LastEnded := v\<rparr>) j
      else if k = ''last_ended_ts'' then set_parsed stampTime_UnmarshalJSON (\<lambda>v. m\<lparr>web_LastEndedTs := v\<rparr>) j
      else if k = ''next_schedule'' then set_parsed textTime_UnmarshalJSON (\<lambda>v. m\<lparr>web_Scheduled := v\<rparr>) j
      else if k = ''next_schedule_ts'' then set_parsed stampTime_UnmarshalJSON (\<lambda>v. m\<lparr>web_ScheduledTs := v\<rparr>) j
      else if k = ''upstream'' then set_string (\<lambda>v. m\<lparr>web_Upstream := v\<rparr>) m j
      else if k = ''size'' then set_string (\<lambda>v. m\<lparr>web_Size := v\<rparr>) m j
      else Decoded m)"

subsection \<open>Configuration\<close>

record ctl_config =
  ct_ManagerAddr :: string
  ct_ManagerPort :: int
  ct_CACert :: string

record cli_ctx =
  cx_manager :: string
  cx_port :: int
  cx_caCert :: string
  cx_config :: string
  cx_worker :: string
  cx_all :: bool
  cx_status :: string
  cx_format :: string
  cx_force :: bool
  cx_args :: "string list"

record cli_files =
  cf_Stat :: "string \<Rightarrow> bool"
  cf_Home :: string
  cf_DecodeFile :: "string \<Rightarrow> ctl_config \<Rightarrow> ctl_config with_err"
  cf_ReadFile :: "string \<Rightarrow> goerror + string"
  cf_ValidPEM :: "string \<Rightarrow> bool"

definition systemCfgFile :: string where "systemCfgFile = ''/etc/tunasync/ctl.conf''"
definition userCfgFile :: "string \<Rightarrow> string" where "userCfgFile home = home @ ''/.config/tunasync/ctl.conf''"

definition loadConfig :: "cli_files \<Rightarrow> string \<Rightarrow> ctl_config \<Rightarrow> ctl_config with_err" where
  "loadConfig F cfgFile cfg = (if cfgFile \<noteq> '''' then cf_DecodeFile F cfgFile cfg else (cfg, None))"

definition load_if :: "bool \<Rightarrow> cli_files \<Rightarrow> string \<Rightarrow> ctl_config with_err \<Rightarrow> ctl_config with_err" where
  "load_if present F cfgFile r =
     (case r of (cfg, Some e) \<Rightarrow> (cfg, Some e) | (cfg, None) \<Rightarrow> if present then loadConfig F cfgFile cfg else (cfg, None))"

definition default_config :: ctl_config where
  "default_config = \<lparr>ct_ManagerAddr = ''localhost'', ct_ManagerPort = 14242, ct_CACert = ''''\<rparr>"

definition override_config :: "cli_ctx \<Rightarrow> ctl_config \<Rightarrow> ctl_config" where
  "override_config c cfg =
     (let cfg = (if cx_manager c \<noteq> '''' then cfg\<lparr>ct_ManagerAddr := cx_manager c\<rparr> else cfg);
          cfg = (if cx_port c > 0 then cfg\<lparr>ct_ManagerPort := cx_port c\<rparr> else cfg)
      in if cx_caCert c \<noteq> '''' then cfg\<lparr>ct_CACert := cx_caCert c\<rparr> else cfg)"

definition base_url :: "ctl_config \<Rightarrow> string" where
  "base_url cfg = (if ct_CACert cfg \<noteq> '''' then ''https://'' else ''http://'') @ ct_ManagerAddr cfg @ '':'' @ show_int (ct_ManagerPort cfg)"

text \<open>\<open>initialize\<close>: the base URL, or the error with which the client exits.\<close>

definition initialize :: "cli_files \<Rightarrow> cli_ctx \<Rightarrow> goerror + string" where
  "initialize F c =
     (case load_if (cx_config c \<noteq> '''') F (cx_config c)
             (load_if (cf_Stat F (userCfgFile (cf_Home F))) F (userCfgFile (cf_Home F))
               (load_if (cf_Stat F systemCfgFile) F systemCfgFile (default_config, None))) of
        (_, Some e) \<Rightarrow> Inl e
      | (cfg, None) \<Rightarrow>
          (let cfg = override_config c cfg in
           case CreateHTTPClient (cf_ReadFile F) (cf_ValidPEM F) (ct_CACert cfg) of
             Some e \<Rightarrow> Inl (''error initializing HTTP client: '' @ e)
           | None \<Rightarrow> Inr (base_url cfg)))"

subsection \<open>Actions\<close>

datatype cli_out = OutText string | OutJson json

text \<open>The message of \<open>cli.Exit\<close> if the action failed, and what was printed.\<close>

type_synonym cli_end = "string option \<times> cli_out list"

definition cli_ok :: "string \<Rightarrow> cli_end" where "cli_ok msg = (None, [OutText msg])"
definition cli_Exit :: "string \<Rightarrow> cli_end" where "cli_Exit msg = (Some msg, [])"

definition initializeWrapper :: "cli_files \<Rightarrow> (string \<Rightarrow> cli_ctx \<Rightarrow> 's \<Rightarrow> cli_end \<times> 's) \<Rightarrow> cli_ctx \<Rightarrow> 's \<Rightarrow> cli_end \<times> 's" where
  "initializeWrapper F handler c s = (case initialize F c of Inl e \<Rightarrow> (cli_Exit e, s) | Inr baseURL \<Rightarrow> handler baseURL c s)"

definition ctl_listWorkers :: "'s net \<Rightarrow> string \<Rightarrow> cli_ctx \<Rightarrow> 's \<Rightarrow> cli_end \<times> 's" where
  "ctl_listWorkers net baseURL c s =
     (case GetJSON net (baseURL @ ''/workers'') (unmarshal_slice WorkerStatus_set zero_WorkerStatus) None s of
        ((_, Some e), s1) \<Rightarrow> (cli_Exit (''Filed to correctly get informations frommanager server: '' @ e), s1)
      | ((workers, None), s1) \<Rightarrow>
          (case marshal_slice WorkerStatus_Marshal workers of
             Inl e \<Rightarrow> (cli_Exit (''Error printing out informations: '' @ e), s1)
           | Inr j \<Rightarrow> ((None, [OutJson j]), s1)))"

text \<open>The statuses named by \<open>--status\<close>.\<close>

fun parse_statuses :: "string list \<Rightarrow> goerror + SyncStatus list" where
  "parse_statuses [] = Inr []"
| "parse_statuses (s # ss) =
     (case SyncStatus_UnmarshalJSON (JStr (TrimSpace s)) of
        Inl e \<Rightarrow> Inl e
      | Inr st \<Rightarrow> (case parse_statuses ss of Inl e \<Rightarrow> Inl e | Inr sts \<Rightarrow> Inr (st # sts)))"

text \<open>The answers for the workers named on the command line, in the order they arrive; \<open>nil\<close> for a failure.\<close>

fun fetch_jobs :: "'s net \<Rightarrow> string \<Rightarrow> string list \<Rightarrow> 's \<Rightarrow> MirrorStatus slice list \<times> 's" where
  "fetch_jobs net baseURL [] s = ([], s)"
| "fetch_jobs net baseURL (workerID # ids) s =
     (case GetJSON net (baseURL @ ''/workers/'' @ workerID @ ''/jobs'') (unmarshal_slice MirrorStatus_set zero_MirrorStatus) None s of
        ((jobs, _), s1) \<Rightarrow> (case fetch_jobs net baseURL ids s1 of (rest, s2) \<Rightarrow> (jobs # rest, s2)))"

fun collect_jobs :: "'a slice list \<Rightarrow> 'a slice \<Rightarrow> 'a slice option" where
  "collect_jobs [] jobs = Some jobs"
| "collect_jobs (None # answers) jobs = None"
| "collect_jobs (Some job # answers) jobs =
     collect_jobs answers (if job = [] then jobs else Some (elems jobs @ job))"

text \<open>Printing: one line for each job through a template, or one JSON document.\<close>

fun print_template :: "('a \<Rightarrow> goerror + string) \<Rightarrow> 'a list \<Rightarrow> cli_end" where
  "print_template tpl [] = (None, [])"
| "print_template tpl (job # jobs) =
     (case tpl job of
        Inl e \<Rightarrow> cli_Exit (''Error printing out information: '' @ e)
      | Inr line \<Rightarrow> (case print_template tpl jobs of (e, out) \<Rightarrow> (e, OutText line # out)))"

definition print_jobs :: "(string \<Rightarrow> goerror + ('a \<Rightarrow> goerror + string)) \<Rightarrow> ('a \<Rightarrow> goerror + json) \<Rightarrow> cli_ctx \<Rightarrow> 'a slice \<Rightarrow> cli_end" where
  "print_jobs parse m c jobs =
     (if cx_format c \<noteq> '''' then
        (case parse (cx_format c) of
           Inl e \<Rightarrow> cli_Exit (''Error parsing format template: '' @ e)
         | Inr tpl \<Rightarrow> print_template tpl (elems jobs))
      else case marshal_slice m jobs of
        Inl e \<Rightarrow> cli_Exit (''Error printing out information: '' @ e)
      | Inr j \<Rightarrow> (None, [OutJson j]))"

record templates =
  tp_Web :: "string \<Rightarrow> goerror + (WebMirrorStatus \<Rightarrow> goerror + string)"
  tp_Job :: "string \<Rightarrow> goerror + (MirrorStatus \<Rightarrow> goerror + string)"

definition filter_jobs :: "SyncStatus list \<Rightarrow> WebMirrorStatus list \<Rightarrow> WebMirrorStatus list" where
  "filter_jobs statuses jobs = filter (\<lambda>job. web_Status job \<in> set statuses) jobs"

definition list_all_jobs :: "templates \<Rightarrow> 's net \<Rightarrow> string \<Rightarrow> cli_ctx \<Rightarrow> 's \<Rightarrow> cli_end \<times> 's" where
  "list_all_jobs T net baseURL c s =
     (case GetJSON net (baseURL @ ''/jobs'') (unmarshal_slice WebMirrorStatus_set zero_WebMirrorStatus) None s of
        ((_, Some e), s1) \<Rightarrow> (cli_Exit (''Failed to correctly get information of all jobs from manager server: '' @ e), s1)
      | ((jobs, None), s1) \<Rightarrow>
          (if cx_status c \<noteq> '''' then
             (case parse_statuses (strings_Split (CHR '','') (cx_status c)) of
                Inl e \<Rightarrow> (cli_Exit (''Error parsing status: '' @ e), s1)
              | Inr statuses \<Rightarrow> (print_jobs (tp_Web T) WebMirrorStatus_Marshal c (Some (filter_jobs statuses (elems jobs))), s1))
           else (print_jobs (tp_Web T) WebMirrorStatus_Marshal c jobs, s1)))"

text \<open>The answers for several workers arrive in any order: \<open>order\<close> is the one they are received in.\<close>

definition ctl_listJobs :: "templates \<Rightarrow> (MirrorStatus slice list \<Rightarrow> MirrorStatus slice list) \<Rightarrow> 's net \<Rightarrow> string \<Rightarrow> cli_ctx \<Rightarrow> 's \<Rightarrow> cli_end \<times> 's" where
  "ctl_listJobs T order net baseURL c s =
     (if cx_all c then list_all_jobs T net baseURL c s
      else if cx_args c = [] then (cli_Exit ''Usage Error: jobs command need at least one arguments or \"--all\" flag.'', s)
      else case fetch_jobs net baseURL (cx_args c) s of (answers, s1) \<Rightarrow>
        (case collect_jobs (order answers) None of
           None \<Rightarrow> (cli_Exit ''Failed to correctly get information of jobs from at least one manager'', s1)
         | Some jobs \<Rightarrow> (print_jobs (tp_Job T) MirrorStatus_Marshal c jobs, s1)))"

text \<open>\<open>json.Unmarshal\<close> of a body into a \<open>MirrorStatus\<close>, errors ignored: a body that could not be read is empty.\<close>

definition status_of_body :: "goerror + json \<Rightarrow> MirrorStatus" where
  "status_of_body body = (case body of Inl e \<Rightarrow> zero_MirrorStatus | Inr j \<Rightarrow> fst (MirrorStatus_Unmarshal j zero_MirrorStatus))"

text \<open>The text of a body in a message; a document is not rendered.\<close>

definition body_text :: "goerror + json \<Rightarrow> string" where
  "body_text body = (case body of Inl e \<Rightarrow> '''' | Inr j \<Rightarrow> json_raw j)"

definition ctl_updateMirrorSize :: "'s net \<Rightarrow> string \<Rightarrow> cli_ctx \<Rightarrow> 's \<Rightarrow> cli_end \<times> 's" where
  "ctl_updateMirrorSize net baseURL c s =
     (case cx_args c of
        [mirrorID, mirrorSize] \<Rightarrow>
          (case PostJSON net (baseURL @ ''/workers/'' @ cx_worker c @ ''/jobs/'' @ mirrorID @ ''/size'')
                  (SizeBody \<lparr>sm_Name = mirrorID, sm_Size = mirrorSize\<rparr>) s of
             (NoAnswer e, s1) \<Rightarrow> (cli_Exit (''Failed to send request to manager: '' @ e), s1)
           | (Answer code body, s1) \<Rightarrow>
               (if code \<noteq> StatusOK then (cli_Exit (''Manager failed to update mirror size: '' @ body_text body), s1)
                else if ms_Size (status_of_body body) \<noteq> mirrorSize
                then (cli_Exit (''Mirror size error, expecting '' @ mirrorSize @ '', manager returned '' @ ms_Size (status_of_body body)), s1)
                else (cli_ok (''Successfully updated mirror size to '' @ mirrorSize), s1)))
      | _ \<Rightarrow> (cli_Exit ''Usage: tunasynctl set-size -w <worker-id> <mirror> <size>'', s))"

text \<open>What the client makes of an answer that is not 200.\<close>

definition not_200 :: "goerror + json \<Rightarrow> cli_end" where
  "not_200 body =
     (case body of
        Inl e \<Rightarrow> cli_Exit (''Failed to parse response: '' @ e)
      | Inr j \<Rightarrow> cli_Exit (''Failed to correctly send command: HTTP status code is not 200: '' @ json_raw j))"

text \<open>A DELETE request: \<open>newRequest\<close> is the error of \<open>http.NewRequest\<close>, on which the client panics.\<close>

definition send_delete :: "(string \<Rightarrow> goerror option) \<Rightarrow> 's net \<Rightarrow> string \<Rightarrow> ((goerror + json) \<Rightarrow> cli_end) \<Rightarrow> 's \<Rightarrow> cli_end \<times> 's" where
  "send_delete newRequest net url ok s =
     (case newRequest url of
        Some e \<Rightarrow> (cli_Exit (''panic: Invalid HTTP Request: '' @ e), s)
      | None \<Rightarrow>
          (case net \<lparr>rq_Method = ''DELETE'', rq_URL = url, rq_Body = NoBody\<rparr> s of
             (NoAnswer e, s1) \<Rightarrow> (cli_Exit (''Failed to send request to manager: '' @ e), s1)
           | (Answer code body, s1) \<Rightarrow> (if code \<noteq> StatusOK then not_200 body else ok body, s1)))"

text \<open>\<open>res["message"]\<close> after decoding into a map; an error of the decoder is ignored.\<close>

definition message_of :: "goerror + json \<Rightarrow> string" where
  "message_of body =
     (case body of
        Inr (JObj fs) \<Rightarrow> (case map_of (rev fs) ''message'' of Some (JStr m) \<Rightarrow> m | _ \<Rightarrow> '''')
      | _ \<Rightarrow> '''')"

definition ctl_removeWorker :: "(string \<Rightarrow> goerror option) \<Rightarrow> 's net \<Rightarrow> string \<Rightarrow> cli_ctx \<Rightarrow> 's \<Rightarrow> cli_end \<times> 's" where
  "ctl_removeWorker newRequest net baseURL c s =
     (if cx_args c \<noteq> [] then (cli_Exit ''Usage: tunasynctl -w <worker-id>'', s)
      else if length (cx_worker c) = 0 then (cli_Exit ''Please specify the <worker-id>'', s)
      else send_delete newRequest net (baseURL @ ''/workers/'' @ cx_worker c)
        (\<lambda>body. if message_of body = ''deleted'' then cli_ok ''Successfully removed the worker'' else cli_Exit ''Failed to remove the worker'') s)"

definition ctl_flushDisabledJobs :: "(string \<Rightarrow> goerror option) \<Rightarrow> 's net \<Rightarrow> string \<Rightarrow> cli_ctx \<Rightarrow> 's \<Rightarrow> cli_end \<times> 's" where
  "ctl_flushDisabledJobs newRequest net baseURL c s =
     send_delete newRequest net (baseURL @ ''/jobs/disabled'') (\<lambda>body. cli_ok ''Successfully flushed disabled jobs'') s"

text \<open>Posting a command, for jobs and for workers.\<close>

definition post_command :: "'s net \<Rightarrow> string \<Rightarrow> ClientCmd \<Rightarrow> 's \<Rightarrow> cli_end \<times> 's" where
  "post_command net baseURL cmd s =
     (case PostJSON net (baseURL @ ''/cmd'') (CmdBody cmd) s of
        (NoAnswer e, s1) \<Rightarrow> (cli_Exit (''Failed to correctly send command: '' @ e), s1)
      | (Answer code body, s1) \<Rightarrow> (if code \<noteq> StatusOK then not_200 body else cli_ok ''Successfully send the command'', s1))"

definition job_cmd :: "CmdVerb \<Rightarrow> cli_ctx \<Rightarrow> string \<Rightarrow> string list \<Rightarrow> ClientCmd" where
  "job_cmd verb c mirrorID argsList =
     \<lparr>cc_Cmd = verb, cc_MirrorID = mirrorID, cc_WorkerID = cx_worker c, cc_Args = argsList,
      cc_Options = (if cx_force c then [(''force'', True)] else [])\<rparr>"

definition ctl_cmdJob :: "'s net \<Rightarrow> CmdVerb \<Rightarrow> string \<Rightarrow> cli_ctx \<Rightarrow> 's \<Rightarrow> cli_end \<times> 's" where
  "ctl_cmdJob net verb baseURL c s =
     (case cx_args c of
        [mirrorID] \<Rightarrow> post_command net baseURL (job_cmd verb c mirrorID []) s
      | [mirrorID, args] \<Rightarrow> post_command net baseURL (job_cmd verb c mirrorID (map TrimSpace (strings_Split (CHR '','') args))) s
      | _ \<Rightarrow> (cli_Exit ''Usage Error: cmd command receive just 1 required positional argument MIRROR and 1 optional argument WORKER'', s))"

definition ctl_cmdWorker :: "'s net \<Rightarrow> CmdVerb \<Rightarrow> string \<Rightarrow> cli_ctx \<Rightarrow> 's \<Rightarrow> cli_end \<times> 's" where
  "ctl_cmdWorker net verb baseURL c s =
     (if cx_worker c = '''' then (cli_Exit ''Please specify the worker with -w <worker-id>'', s)
      else post_command net baseURL \<lparr>cc_Cmd = verb, cc_MirrorID = '''', cc_WorkerID = cx_worker c, cc_Args = [], cc_Options = []\<rparr> s)"

text \<open>The commands of the program, by name.\<close>

definition ctl_main :: "cli_files \<Rightarrow> templates \<Rightarrow> (MirrorStatus slice list \<Rightarrow> MirrorStatus slice list) \<Rightarrow> (string \<Rightarrow> goerror option) \<Rightarrow>
    's net \<Rightarrow> string \<Rightarrow> cli_ctx \<Rightarrow> 's \<Rightarrow> (cli_end \<times> 's) option" where
  "ctl_main F T order newRequest net command c s =
     map_option (\<lambda>handler. initializeWrapper F handler c s)
       (map_of [(''list'', ctl_listJobs T order net),
                (''flush'', ctl_flushDisabledJobs newRequest net),
                (''workers'', ctl_listWorkers net),
                (''rm-worker'', ctl_removeWorker newRequest net),
                (''set-size'', ctl_updateMirrorSize net),
                (''start'', ctl_cmdJob net CmdStart),
                (''stop'', ctl_cmdJob net CmdStop),
                (''disable'', ctl_cmdJob net CmdDisable),
                (''restart'', ctl_cmdJob net CmdRestart),
                (''reload'', ctl_cmdWorker net CmdReload),
                (''ping'', ctl_cmdJob net CmdPing)] command)"

subsection \<open>The manager behind its routes\<close>

text \<open>The routes that \<open>GetTUNASyncManager\<close> installs, on the path as it is written: the identifiers of the theorems
  consist of characters that URLs do not escape.  A body of another type than the route expects is not modelled.\<close>

fun route :: "string \<Rightarrow> string list \<Rightarrow> req_body \<Rightarrow> request option" where
  "route method [p] body =
     (if method = ''GET'' then
        (if p = ''ping'' then Some GetPing else if p = ''jobs'' then Some GetJobs else if p = ''workers'' then Some GetWorkers else None)
      else if method = ''POST'' then
        (case body of
           CmdBody cmd \<Rightarrow> if p = ''cmd'' then Some (PostCmd (cmd, None)) else None
         | WorkerBody w \<Rightarrow> if p = ''workers'' then Some (PostWorkers (w, None)) else None
         | _ \<Rightarrow> None)
      else None)"
| "route method [p, q] body =
     (if method = ''DELETE'' then
        (if p = ''jobs'' \<and> q = ''disabled'' then Some DeleteDisabledJobs
         else if p = ''workers'' \<and> q \<noteq> '''' then Some (DeleteWorkerReq q) else None)
      else None)"
| "route method [p, i, q] body =
     (if p = ''workers'' \<and> i \<noteq> '''' then
        (if method = ''GET'' \<and> q = ''jobs'' then Some (GetWorkerJobs i)
         else if method = ''POST'' \<and> q = ''schedules'' then (case body of SchedulesBody sc \<Rightarrow> Some (PostSchedules i (sc, None)) | _ \<Rightarrow> None)
         else None)
      else None)"
| "route method [p, i, q, job] body =
     (if method = ''POST'' \<and> p = ''workers'' \<and> i \<noteq> '''' \<and> q = ''jobs'' \<and> job \<noteq> '''' then
        (case body of StatusBody st \<Rightarrow> Some (PostJob i job (st, None)) | _ \<Rightarrow> None)
      else None)"
| "route method [p, i, q, job, r] body =
     (if method = ''POST'' \<and> p = ''workers'' \<and> i \<noteq> '''' \<and> q = ''jobs'' \<and> job \<noteq> '''' \<and> r = ''size'' then
        (case body of SizeBody m \<Rightarrow> Some (PostJobSize i job (m, None)) | _ \<Rightarrow> None)
      else None)"
| "route method _ body = None"

text \<open>The document of a response: lists that the handlers build from \<open>nil\<close> are \<open>null\<close> when empty.\<close>

definition doc :: "goerror + json \<Rightarrow> json" where
  "doc r = (case r of Inl e \<Rightarrow> JBad | Inr j \<Rightarrow> j)"

fun body_json :: "body \<Rightarrow> json" where
  "body_json BNone = JBad"
| "body_json (BErr e) = JObj [(''error'', JStr e)]"
| "body_json (BInfo m) = JObj [(''message'', JStr m)]"
| "body_json BEmpty = JObj []"
| "body_json (BWorker w) = doc (WorkerStatus_Marshal w)"
| "body_json (BWorkers ws) = doc (marshal_slice WorkerStatus_Marshal (if ws = [] then None else Some ws))"
| "body_json (BJob m) = doc (MirrorStatus_Marshal m)"
| "body_json (BJobs ms) = doc (marshal_slice MirrorStatus_Marshal (if ms = [] then None else Some ms))"
| "body_json (BWeb ws) = doc (marshal_slice WebMirrorStatus_Marshal (Some ws))"

definition response :: "writes \<Rightarrow> http_answer" where
  "response ws = Answer (http_status ws) (Inr (case ws of [(code, b)] \<Rightarrow> body_json b | _ \<Rightarrow> JBad))"

text \<open>The state is that of the database and the commands that were posted to workers.\<close>

definition manager_net :: "'s dbAdapter \<Rightarrow> (nat \<Rightarrow> gtime) \<Rightarrow> (string \<Rightarrow> WorkerCmd \<Rightarrow> goerror option) \<Rightarrow> string \<Rightarrow>
    ('s \<times> (string \<times> WorkerCmd) list) net" where
  "manager_net D clock post baseURL rq = (\<lambda>(s, posts).
     if take (length baseURL) (rq_URL rq) \<noteq> baseURL then (NoAnswer ''no such host'', (s, posts))
     else case strings_Split (CHR ''/'') (drop (length baseURL) (rq_URL rq)) of
       '''' # path \<Rightarrow>
         (case route (rq_Method rq) path (rq_Body rq) of
            None \<Rightarrow> (Answer 404 (Inr JBad), (s, posts))
          | Some r \<Rightarrow> (case serve D clock post r s of ((ws, sent), s') \<Rightarrow> (response ws, (s', posts @ sent))))
     | _ \<Rightarrow> (Answer 404 (Inr JBad), (s, posts)))"

subsection \<open>Requests of the client at the manager\<close>

definition plain_id :: "string \<Rightarrow> bool" where
  "plain_id i \<longleftrightarrow> i \<noteq> '''' \<and> (\<forall>c\<in>set i. c \<notin> set ''/?#% '' \<and> of_char c > (32 :: nat) \<and> of_char c < (127 :: nat))"

lemma plain_id_slash: "plain_id i \<Longrightarrow> CHR ''/'' \<notin> set i \<and> i \<noteq> []"
  by (auto simp: plain_id_def)

lemma Split_worker_path:
  assumes "CHR ''/'' \<notin> set i"
  shows "strings_Split (CHR ''/'') (''/workers/'' @ i) = [[], ''workers'', i]"
    and "strings_Split (CHR ''/'') (''/workers/'' @ i @ CHR ''/'' # t) = [] # ''workers'' # i # strings_Split (CHR ''/'') t"
  using assms strings_Split_append [of "CHR ''/''" i t] by simp_all

lemma manager_net_url:
  "manager_net D clock post baseURL \<lparr>rq_Method = m, rq_URL = baseURL @ path, rq_Body = b\<rparr> (s, posts) =
     (case strings_Split (CHR ''/'') path of
        [] # segments \<Rightarrow>
         (case route m segments b of
            None \<Rightarrow> (Answer 404 (Inr JBad), (s, posts))
          | Some r \<Rightarrow> (case serve D clock post r s of ((ws, sent), s') \<Rightarrow> (response ws, (s', posts @ sent))))
      | _ \<Rightarrow> (Answer 404 (Inr JBad), (s, posts)))"
  by (simp add: manager_net_def split: list.split)

lemma manager_net_cmd:
  assumes "serve D clock post (PostCmd (cmd, None)) s = ((ws, sent), s')"
  shows "post_command (manager_net D clock post baseURL) baseURL cmd (s, posts) =
    (if http_status ws \<noteq> 200 then not_200 (Inr (case ws of [(code, b)] \<Rightarrow> body_json b | _ \<Rightarrow> JBad)) else cli_ok ''Successfully send the command'',
     (s', posts @ sent))"
  using assms by (simp add: post_command_def PostJSON_def manager_net_url response_def)

lemma cli_end_simps [simp]: "fst (cli_ok m) = None" "fst (cli_Exit m) = Some m" "fst (not_200 b) \<noteq> None" "\<exists>y. fst (not_200 b) = Some y"
  by (simp_all add: cli_ok_def cli_Exit_def not_200_def split: sum.split)

text \<open>The command that a command line stands for.\<close>

fun command_line_cmd :: "CmdVerb \<Rightarrow> cli_ctx \<Rightarrow> string list \<Rightarrow> ClientCmd option" where
  "command_line_cmd verb c [mirrorID] = Some (job_cmd verb c mirrorID [])"
| "command_line_cmd verb c [mirrorID, args] = Some (job_cmd verb c mirrorID (map TrimSpace (strings_Split (CHR '','') args)))"
| "command_line_cmd verb c _ = None"

lemma ctl_cmdJob_eq:
  "command_line_cmd verb c (cx_args c) = Some cmd \<Longrightarrow> ctl_cmdJob net verb baseURL c s = post_command net baseURL cmd s"
  by (auto simp: ctl_cmdJob_def split: list.split elim: command_line_cmd.elims)


definition ex_cx :: cli_ctx where
  "ex_cx = \<lparr>cx_manager = '''', cx_port = 0, cx_caCert = '''', cx_config = '''', cx_worker = ''w'', cx_all = False, cx_status = '''',
     cx_format = '''', cx_force = True, cx_args = [''m'', ''a, b'']\<rparr>"


text \<open>Setting a size.\<close>

lemma size_path:
  assumes "plain_id i" and "plain_id n"
  shows "route ''POST'' (tl (strings_Split (CHR ''/'') (''/workers/'' @ i @ ''/jobs/'' @ n @ ''/size''))) (SizeBody msg) = Some (PostJobSize i n (msg, None))"
    and "hd (strings_Split (CHR ''/'') (''/workers/'' @ i @ ''/jobs/'' @ n @ ''/size'')) = []"
  using assms Split_worker_path(2) [of i "''jobs/'' @ n @ ''/size''"] strings_Split_append [of "CHR ''/''" n "''size''"]
  by (simp_all add: plain_id_slash)

lemma manager_net_routed:
  assumes "hd (strings_Split (CHR ''/'') path) = []" and "route m (tl (strings_Split (CHR ''/'') path)) b = Some r"
    and "serve D clock post r s = ((ws, sent), s')"
  shows "manager_net D clock post baseURL \<lparr>rq_Method = m, rq_URL = baseURL @ path, rq_Body = b\<rparr> (s, posts) = (response ws, (s', posts @ sent))"
  using assms strings_Split_not_Nil [of "CHR ''/''" path]
  by (cases "strings_Split (CHR ''/'') path") (simp_all add: manager_net_url)

text \<open>C34.  \<open>tunasynctl set-size\<close> says that a size was set exactly when the worker is registered and the manager knows
  the mirror of that worker, and then the manager has stored that size and changed no other field of any
  status.\<close>

theorem client_reports_size:
  assumes "db_up K wrap c up s" and "time_ok (clock 0)" and "plain_id (cx_worker cx)" and "plain_id n" and "cx_args cx = [n, size']"
    and "ctl_updateMirrorSize (manager_net (kvDBAdapter K wrap) clock post baseURL) baseURL cx (s, []) = (r, (s', sent))"
  shows "(fst r = None \<longleftrightarrow> workers_of (c s) (cx_worker cx) \<noteq> None \<and> statuses_of (c s) (status_key n (cx_worker cx)) \<noteq> None) \<and>
    (fst r = None \<longrightarrow> statuses_of (c s') = (statuses_of (c s))(status_key n (cx_worker cx) \<mapsto>
      (the (statuses_of (c s) (status_key n (cx_worker cx))))\<lparr>ms_Size := size'\<rparr>)) \<and> sent = []"
proof -
  let ?D = "kvDBAdapter K wrap" and ?i = "cx_worker cx" and ?msg = "\<lparr>sm_Name = n, sm_Size = size'\<rparr>"
  obtain ws sent' s'' where h: "serve ?D clock post (PostJobSize ?i n (?msg, None)) s = ((ws, sent'), s'')" by (metis surj_pair)
  have p: "PostJSON (manager_net ?D clock post baseURL) (baseURL @ ''/workers/'' @ ?i @ ''/jobs/'' @ n @ ''/size'') (SizeBody ?msg) (s, []) =
      (response ws, (s'', sent'))"
    unfolding PostJSON_def using manager_net_routed [OF size_path(2,1) [OF assms(3,4)] h, of baseURL "[]"] by simp
  show ?thesis
  proof (cases "workers_of (c s) ?i")
    case None
    with kvdb.validated_rejects [OF assms(1)] h have "ws = returnErrJSON 400 (''invalid workerID '' @ ?i)" "sent' = []" by auto
    with None p assms(5,6) show ?thesis
      by (auto simp: ctl_updateMirrorSize_def response_def returnErrJSON_def http_status_def)
  next
    case (Some w)
    then have v: "validated ?D ?i (updateMirrorSize ?D (clock 0) ?i (?msg, None)) s =
        (case updateMirrorSize ?D (clock 0) ?i (?msg, None) s of (ws, s') \<Rightarrow> ((ws, []), s'))"
      using kvdb.validated_passes [OF assms(1)] by (simp add: split_beta)
    show ?thesis
    proof (cases "statuses_of (c s) (status_key n ?i)")
      case None
      with kvdb.updateMirrorSize_absent [OF assms(1,2), of ?msg ?i None] v h
      have "ws = returnErrJSON 500 (no_mirror_error n ?i)" "sent' = []" by (auto simp: bind_writes_def)
      with None p assms(5,6) show ?thesis
        by (auto simp: ctl_updateMirrorSize_def response_def returnErrJSON_def http_status_def)
    next
      case m: (Some m)
      with kvdb.updateMirrorSize_stores [OF assms(1,2), of ?msg ?i m None] v h
      have ws: "ws = [(200, BJob (m\<lparr>ms_Size := size'\<rparr>))]" "sent' = []"
        "statuses_of (c s'') = (statuses_of (c s))(status_key n ?i \<mapsto> m\<lparr>ms_Size := size'\<rparr>)" by (auto simp: bind_writes_def)
      have "MirrorStatus_ok (m\<lparr>ms_Size := size'\<rparr>)" using kvdb.status_wf [OF assms(1) m] by (simp add: MirrorStatus_ok_def)
      then obtain j where "MirrorStatus_Marshal (m\<lparr>ms_Size := size'\<rparr>) = Inr j" "MirrorStatus_Unmarshal j zero_MirrorStatus = (m\<lparr>ms_Size := size'\<rparr>, None)"
        by (metis MirrorStatus_Marshal_Inr MirrorStatus_roundtrip)
      with Some m p ws assms(5,6) show ?thesis
        by (auto simp: ctl_updateMirrorSize_def response_def http_status_def status_of_body_def doc_def)
    qed
  qed
qed


theorem client_reports_size_witness:
  "\<exists>out s'. ctl_updateMirrorSize (manager_net (kvDBAdapter ex_K ex_wrap) (\<lambda>_. 0) (\<lambda>_ _. None) ''http://h:1'') ''http://h:1''
      (ex_cx\<lparr>cx_args := [''m'', ''2T'']\<rparr>) (ex_db, []) = ((None, out), (s', [])) \<and>
    statuses_of (ex_c s') (status_key ''m'' ''w'') = Some (ex_status\<lparr>ms_Size := ''2T''\<rparr>)"
proof -
  let ?net = "manager_net (kvDBAdapter ex_K ex_wrap) (\<lambda>_. 0) (\<lambda>_ _. None) ''http://h:1''" and ?cx = "ex_cx\<lparr>cx_args := [''m'', ''2T'']\<rparr>"
  obtain r s' sent where r: "ctl_updateMirrorSize ?net ''http://h:1'' ?cx (ex_db, []) = (r, (s', sent))" by (metis surj_pair)
  have p: "plain_id (cx_worker ?cx)" "plain_id ''m''" "cx_args ?cx = [''m'', ''2T'']" "time_ok ((\<lambda>_ :: nat. 0) 0)"
    by (simp_all add: plain_id_def ex_cx_def time_ok_def Second_def)
  from client_reports_size [where clock = "\<lambda>_. 0", OF ex_db_up p(4,1,2,3) r]
  have "fst r = None" "sent = []" "statuses_of (ex_c s') (status_key ''m'' ''w'') = Some (ex_status\<lparr>ms_Size := ''2T''\<rparr>)"
    by (simp_all add: ex_cx_def ex_db_maps)
  with r show ?thesis by (cases r) auto
qed

text \<open>\<open>tunasynctl rm-worker\<close> removes a worker: it succeeds exactly when the worker was registered, and then the
  worker is unknown to the manager and every other worker and all statuses are as before; otherwise nothing
  changes.\<close>

theorem client_removes_worker:
  assumes "db_up K wrap c up s" and "plain_id (cx_worker cx)" and "cx_args cx = []" and "newRequest (baseURL @ ''/workers/'' @ cx_worker cx) = None"
    and "ctl_removeWorker newRequest (manager_net (kvDBAdapter K wrap) clock post baseURL) baseURL cx (s, []) = (r, (s', sent))"
  shows "(fst r = None \<longleftrightarrow> workers_of (c s) (cx_worker cx) \<noteq> None) \<and>
    workers_of (c s') = (workers_of (c s))(cx_worker cx := None) \<and> statuses_of (c s') = statuses_of (c s)"
proof -
  let ?D = "kvDBAdapter K wrap" and ?i = "cx_worker cx"
  have i: "CHR ''/'' \<notin> set ?i" "?i \<noteq> []" using plain_id_slash [OF assms(2)] by auto
  obtain ws sent' s'' where h: "serve ?D clock post (DeleteWorkerReq ?i) s = ((ws, sent'), s'')" by (metis surj_pair)
  have p: "manager_net ?D clock post baseURL \<lparr>rq_Method = ''DELETE'', rq_URL = baseURL @ ''/workers/'' @ ?i, rq_Body = NoBody\<rparr> (s, []) =
      (response ws, (s'', sent'))"
    using manager_net_routed [of "''/workers/'' @ ?i" "''DELETE''" NoBody "DeleteWorkerReq ?i", OF _ _ h, of baseURL "[]"] i Split_worker_path(1) [of ?i] by simp
  show ?thesis
  proof (cases "workers_of (c s) ?i")
    case None
    with kvdb.validated_rejects [OF assms(1)] h have "ws = returnErrJSON 400 (''invalid workerID '' @ ?i)" "s'' = s" by auto
    with None p i assms(3-5) show ?thesis
      by (auto simp: fun_upd_idem ctl_removeWorker_def send_delete_def response_def returnErrJSON_def http_status_def)
  next
    case (Some w)
    with kvdb.delete_worker [OF assms(1), of ?i] obtain t where
      "db_DeleteWorker ?D ?i s = (None, t)" "workers_of (c t) = (workers_of (c s))(?i := None)" "statuses_of (c t) = statuses_of (c s)" by auto
    with kvdb.validated_passes [OF assms(1), of ?i "deleteWorker ?D ?i"] Some h have
      "ws = [(200, BInfo ''deleted'')]" "workers_of (c s'') = (workers_of (c s))(?i := None)" "statuses_of (c s'') = statuses_of (c s)"
      by (auto simp: deleteWorker_def)
    with Some p i assms(3-5) show ?thesis
      by (auto simp: ctl_removeWorker_def send_delete_def response_def http_status_def message_of_def)
  qed
qed

theorem client_removes_worker_witness:
  "\<exists>out s' sent. ctl_removeWorker (\<lambda>_. None) (manager_net (kvDBAdapter ex_K ex_wrap) (\<lambda>_. 0) (\<lambda>_ _. None) ''http://h:1'') ''http://h:1''
      (ex_cx\<lparr>cx_args := []\<rparr>) (ex_db, []) = ((None, out), (s', sent)) \<and> workers_of (ex_c s') ''w'' = None"
proof -
  let ?net = "manager_net (kvDBAdapter ex_K ex_wrap) (\<lambda>_. 0) (\<lambda>_ _. None) ''http://h:1''" and ?cx = "ex_cx\<lparr>cx_args := []\<rparr>"
  obtain r s' sent where r: "ctl_removeWorker (\<lambda>_. None) ?net ''http://h:1'' ?cx (ex_db, []) = (r, (s', sent))" by (metis surj_pair)
  have p: "plain_id (cx_worker ?cx)" "cx_args ?cx = []" by (simp_all add: plain_id_def ex_cx_def)
  from client_removes_worker [OF ex_db_up p _ r]
  have "fst r = None" "workers_of (ex_c s') ''w'' = None" by (simp_all add: ex_cx_def ex_db_maps)
  with r show ?thesis by (cases r) auto
qed

subsection \<open>Lists\<close>

lemma marshal_elems_roundtrip:
  assumes "\<And>x. x \<in> set xs \<Longrightarrow> \<exists>j. m x = Inr j \<and> decode_struct st j z = (f x, None)"
  shows "\<exists>js. marshal_elems m xs = Inr js \<and> decode_elems st z js = (map f xs, None)"
  using assms
proof (induction xs)
  case (Cons x xs)
  from Cons.prems obtain j where "m x = Inr j" "decode_struct st j z = (f x, None)" by force
  moreover from Cons obtain js where "marshal_elems m xs = Inr js" "decode_elems st z js = (map f xs, None)" by force
  ultimately show ?case by (intro exI [of _ "j # js"]) simp
qed simp

text \<open>A job on the status page as the client sees it: times in whole seconds.\<close>

definition seen :: "WebMirrorStatus \<Rightarrow> WebMirrorStatus" where
  "seen m = m\<lparr>web_LastUpdate := whole_seconds (web_LastUpdate m), web_LastUpdateTs := whole_seconds (web_LastUpdateTs m),
     web_LastStarted := whole_seconds (web_LastStarted m), web_LastStartedTs := whole_seconds (web_LastStartedTs m),
     web_LastEnded := whole_seconds (web_LastEnded m), web_LastEndedTs := whole_seconds (web_LastEndedTs m),
     web_Scheduled := whole_seconds (web_Scheduled m), web_ScheduledTs := whole_seconds (web_ScheduledTs m)\<rparr>"

lemma seen_Status [simp]: "web_Status (seen m) = web_Status m"
  by (simp add: seen_def)

lemma fold_key_web [simp]:
  "fold_key ''last_update_ts'' = ''last_update_ts''" "fold_key ''last_started_ts'' = ''last_started_ts''"
  "fold_key ''last_ended_ts'' = ''last_ended_ts''" "fold_key ''next_schedule_ts'' = ''next_schedule_ts''"
  by code_simp+

lemma WebMirrorStatus_roundtrip:
  assumes "status_ok (web_Status m)"
  shows "\<exists>j. WebMirrorStatus_Marshal m = Inr j \<and> decode_struct WebMirrorStatus_set j z = (seen m, None)"
  using assms
  by (simp add: WebMirrorStatus_Marshal_def json_struct_def SyncStatus_MarshalJSON_ok textTime_MarshalJSON_def stampTime_MarshalJSON_def
      WebMirrorStatus_set_def set_parsed_def SyncStatus_Unmarshal_String seen_def whole_seconds_def minus_mod_eq_div_mult)


text \<open>What the statuses of \<open>--status\<close> are.\<close>

lemma parse_statuses_ok:
  "parse_statuses ss = Inr sts \<Longrightarrow> map SyncStatus_String sts = map TrimSpace ss \<and> (\<forall>st\<in>set sts. status_ok st)"
proof (induction ss arbitrary: sts)
  case (Cons s ss)
  then obtain st sts' where "SyncStatus_UnmarshalJSON (JStr (TrimSpace s)) = Inr st" "parse_statuses ss = Inr sts'" "sts = st # sts'"
    by (auto split: sum.splits)
  with Cons.IH SyncStatus_Unmarshal_sound show ?case by fastforce
qed simp

text \<open>The status names of a list, in the order of the option.\<close>

definition named_statuses :: "string \<Rightarrow> string set" where
  "named_statuses s = TrimSpace ` set (strings_Split (CHR '','') s)"

lemma filter_jobs_named:
  assumes "parse_statuses (strings_Split (CHR '','') s) = Inr sts" and "\<And>m. m \<in> set ms \<Longrightarrow> status_ok (web_Status m)"
  shows "filter_jobs sts ms = filter (\<lambda>m. SyncStatus_String (web_Status m) \<in> named_statuses s) ms"
proof -
  note P = parse_statuses_ok [OF assms(1)]
  have "SyncStatus_String st \<in> named_statuses s \<longleftrightarrow> st \<in> set sts" if "status_ok st" for st
  proof
    assume "SyncStatus_String st \<in> named_statuses s"
    then have "SyncStatus_String st \<in> set (map SyncStatus_String sts)" using P by (simp add: named_statuses_def)
    then obtain st' where "st' \<in> set sts" "SyncStatus_String st' = SyncStatus_String st" by auto
    with that P show "st \<in> set sts" by (metis SyncStatus_Unmarshal_String sum.inject(2))
  next
    assume "st \<in> set sts"
    then have "SyncStatus_String st \<in> set (map SyncStatus_String sts)" by simp
    then show "SyncStatus_String st \<in> named_statuses s" using P by (simp add: named_statuses_def)
  qed
  with assms(2) show ?thesis unfolding filter_jobs_def by (intro filter_cong) auto
qed

lemma parse_statuses_total:
  "(\<forall>x\<in>set ss. \<exists>st. status_ok st \<and> TrimSpace x = SyncStatus_String st) \<longleftrightarrow> (\<exists>sts. parse_statuses ss = Inr sts)"
proof (induction ss)
  case (Cons s ss)
  have "(\<exists>st. status_ok st \<and> TrimSpace s = SyncStatus_String st) \<longleftrightarrow> (\<exists>st. SyncStatus_UnmarshalJSON (JStr (TrimSpace s)) = Inr st)"
    by (metis SyncStatus_Unmarshal_String SyncStatus_Unmarshal_sound json.inject(3))
  with Cons show ?case by (auto split: sum.split)
qed simp

text \<open>C35.  \<open>tunasynctl list --all --status\<close> prints exactly the jobs the user asks for: with the list of all
  statuses that the manager has, in the order it sends them, those whose status is one of the names of the option
  (separated by commas, blanks around them ignored), with times in whole seconds; a name that is no status
  makes it fail.\<close>

theorem client_lists_by_status:
  assumes "db_up K wrap c up s" and "cx_all cx" and "cx_status cx \<noteq> ''''" and "cx_format cx = ''''"
    and "ctl_listJobs T order (manager_net (kvDBAdapter K wrap) clock post baseURL) baseURL cx (s, posts) = (r, s')"
  shows "\<exists>ks. distinct ks \<and> set ks = dom (statuses_of (c s)) \<and>
    (fst r = None \<longleftrightarrow> (\<forall>x\<in>set (strings_Split (CHR '','') (cx_status cx)). \<exists>st. status_ok st \<and> TrimSpace x = SyncStatus_String st)) \<and>
    (fst r = None \<longrightarrow> (\<exists>js. snd r = [OutJson (JArr js)] \<and>
      marshal_elems WebMirrorStatus_Marshal (filter (\<lambda>m. SyncStatus_String (web_Status m) \<in> named_statuses (cx_status cx))
        (map (\<lambda>k. seen (BuildWebMirrorStatus (the (statuses_of (c s) k)))) ks)) = Inr js))"
proof -
  let ?D = "kvDBAdapter K wrap" and ?st = "statuses_of (c s)"
  from kvdb.list_all [OF assms(1)] obtain ks where
    ks: "distinct ks" "set ks = dom ?st" "db_ListAllMirrorStatus ?D s = (map (\<lambda>k. the (?st k)) ks, None)" by blast
  let ?web = "map (\<lambda>k. BuildWebMirrorStatus (the (?st k))) ks"
  have ok: "status_ok (web_Status m)" if "m \<in> set ?web" for m
    using that ks(2) kvdb.status_wf [OF assms(1)] by (auto simp: MirrorStatus_ok_def BuildWebMirrorStatus_def)
  from marshal_elems_roundtrip [of ?web WebMirrorStatus_Marshal WebMirrorStatus_set zero_WebMirrorStatus seen] WebMirrorStatus_roundtrip ok
  obtain js where js: "marshal_elems WebMirrorStatus_Marshal ?web = Inr js"
    "decode_elems WebMirrorStatus_set zero_WebMirrorStatus js = (map seen ?web, None)" by meson
  have "listAllJobs ?D s = [(200, BWeb ?web)]" using ks(3) by (simp add: listAllJobs_def)
  then have "manager_net ?D clock post baseURL \<lparr>rq_Method = ''GET'', rq_URL = baseURL @ ''/jobs'', rq_Body = NoBody\<rparr> (s, posts) =
      (Answer 200 (Inr (JArr js)), (s, posts))"
    using js(1) by (simp add: manager_net_url response_def http_status_def doc_def marshal_slice_def)
  then have get: "GetJSON (manager_net ?D clock post baseURL) (baseURL @ ''/jobs'') (unmarshal_slice WebMirrorStatus_set zero_WebMirrorStatus) None (s, posts) =
      ((Some (map seen ?web), None), (s, posts))"
    using js(2) by (simp add: GetJSON_def unmarshal_slice_def)
  let ?sel = "filter (\<lambda>m. SyncStatus_String (web_Status m) \<in> named_statuses (cx_status cx)) (map seen ?web)"
  show ?thesis
  proof (cases "parse_statuses (strings_Split (CHR '','') (cx_status cx))")
    case (Inl e)
    then have "fst r \<noteq> None" using assms(2-5) get by (auto simp: ctl_listJobs_def list_all_jobs_def)
    with Inl ks parse_statuses_total [of "strings_Split (CHR '','') (cx_status cx)"] show ?thesis by (intro exI [of _ ks]) auto
  next
    case (Inr sts)
    have f: "filter_jobs sts (map seen ?web) = ?sel" by (rule filter_jobs_named [OF Inr]) (use ok in auto)
    have "\<exists>j. WebMirrorStatus_Marshal x = Inr j \<and> decode_struct WebMirrorStatus_set j zero_WebMirrorStatus = (seen x, None)" if "x \<in> set ?sel" for x
      by (rule WebMirrorStatus_roundtrip) (use that ok in auto)
    from marshal_elems_roundtrip [of ?sel WebMirrorStatus_Marshal WebMirrorStatus_set zero_WebMirrorStatus seen, OF this] obtain out where out: "marshal_elems WebMirrorStatus_Marshal ?sel = Inr out" by blast
    with Inr f assms(2-5) get have "r = (None, [OutJson (JArr out)])"
      by (auto simp: ctl_listJobs_def list_all_jobs_def print_jobs_def marshal_slice_def elems_def)
    with out ks Inr parse_statuses_total [of "strings_Split (CHR '','') (cx_status cx)"] show ?thesis
      by (intro exI [of _ ks]) (auto simp: comp_def)
  qed
qed


theorem client_lists_by_status_witness:
  "\<forall>T order. \<exists>js s'. ctl_listJobs T order (manager_net (kvDBAdapter ex_K ex_wrap) (\<lambda>_. 0) (\<lambda>_ _. None) ''http://h:1'') ''http://h:1''
      (ex_cx\<lparr>cx_all := True, cx_status := ''success, failed''\<rparr>) (ex_db, []) = ((None, [OutJson (JArr js)]), s')"
proof (intro allI)
  fix T order
  let ?net = "manager_net (kvDBAdapter ex_K ex_wrap) (\<lambda>_. 0) (\<lambda>_ _. None) ''http://h:1''"
  let ?cx = "ex_cx\<lparr>cx_all := True, cx_status := ''success, failed''\<rparr>"
  obtain r s' where r: "ctl_listJobs T order ?net ''http://h:1'' ?cx (ex_db, []) = (r, s')" by (cases "ctl_listJobs T order ?net ''http://h:1'' ?cx (ex_db, [])")
  have p: "cx_all ?cx" "cx_status ?cx \<noteq> ''''" "cx_format ?cx = ''''" by (simp_all add: ex_cx_def)
  have "\<forall>x\<in>set (strings_Split (CHR '','') (cx_status ?cx)). \<exists>st. status_ok st \<and> TrimSpace x = SyncStatus_String st"
    by (simp add: TrimSpace_def ascii_space_def) (metis SyncStatus_String.simps(2,3) status_ok_simps(2,3))
  with client_lists_by_status [OF ex_db_up p r] have "fst r = None" "\<exists>js. snd r = [OutJson (JArr js)]" by auto
  with r show "\<exists>js s'. ctl_listJobs T order ?net ''http://h:1'' ?cx (ex_db, []) = ((None, [OutJson (JArr js)]), s')" by (cases r) auto
qed

text \<open>Without \<open>--all\<close> the option \<open>--status\<close> has no effect.\<close>

theorem status_option_needs_all:
  "\<not> cx_all cx \<Longrightarrow> ctl_listJobs T order net baseURL (cx\<lparr>cx_status := x\<rparr>) s = ctl_listJobs T order net baseURL cx s"
  by (simp add: ctl_listJobs_def print_jobs_def split: prod.split option.split)

text \<open>A worker that is registered but has no jobs yet is reported as a failure: its empty list arrives as
  \<open>null\<close>.\<close>

theorem worker_without_jobs_is_a_failure:
  assumes "db_up K wrap c up s" and "plain_id i" and "workers_of (c s) i \<noteq> None"
    and "\<And>k. k \<in> dom (statuses_of (c s)) \<Longrightarrow> strings_Split (CHR ''/'') k ! 1 \<noteq> i" and "\<not> cx_all cx" and "cx_args cx = [i]"
  shows "fst (ctl_listJobs T id (manager_net (kvDBAdapter K wrap) clock post baseURL) baseURL cx (s, posts)) =
    cli_Exit ''Failed to correctly get information of jobs from at least one manager''"
proof -
  let ?D = "kvDBAdapter K wrap"
  from kvdb.list_status [OF assms(1), of i] obtain ks where
    ks: "set ks = {k \<in> dom (statuses_of (c s)). strings_Split (CHR ''/'') k ! 1 = i}"
      "db_ListMirrorStatus ?D i s = Some (map (\<lambda>k. the (statuses_of (c s) k)) ks, None)" by blast
  have "ks = []" using ks(1) assms(4) by (cases ks) (auto simp: set_eq_iff)
  then have "serve ?D clock post (GetWorkerJobs i) s = (([(200, BJobs [])], []), s)"
    using ks(2) assms(3) kvdb.validated_passes [OF assms(1), of i "\<lambda>s. (listJobsOfWorker ?D i s, s)"] by (auto simp: listJobsOfWorker_def)
  from manager_net_routed [of "''/workers/'' @ i @ ''/jobs''" "''GET''" NoBody, OF _ _ this, of baseURL posts]
  have "manager_net ?D clock post baseURL \<lparr>rq_Method = ''GET'', rq_URL = baseURL @ ''/workers/'' @ i @ ''/jobs'', rq_Body = NoBody\<rparr> (s, posts) =
      (Answer 200 (Inr JNull), (s, posts))"
    using Split_worker_path(2) [of i "''jobs''"] plain_id_slash [OF assms(2)]
    by (simp add: response_def http_status_def doc_def marshal_slice_def)
  with assms(5,6) show ?thesis
    by (simp add: ctl_listJobs_def GetJSON_def unmarshal_slice_def)
qed

subsection \<open>Which manager is addressed\<close>

text \<open>What a configuration file sets, as \<open>toml.DecodeFile\<close> documents it: the keys that are present.\<close>

type_synonym cfg_keys = "string option \<times> int option \<times> string option"

fun apply_keys :: "cfg_keys \<Rightarrow> ctl_config \<Rightarrow> ctl_config" where
  "apply_keys (addr, port, cert) cfg =
     \<lparr>ct_ManagerAddr = (case addr of None \<Rightarrow> ct_ManagerAddr cfg | Some a \<Rightarrow> a),
      ct_ManagerPort = (case port of None \<Rightarrow> ct_ManagerPort cfg | Some p \<Rightarrow> p),
      ct_CACert = (case cert of None \<Rightarrow> ct_CACert cfg | Some k \<Rightarrow> k)\<rparr>"

text \<open>The settings from the strongest source to the weakest: flags, the file of \<open>--config\<close>, the user's file, the
  system's file.\<close>

definition setting_layers :: "cli_files \<Rightarrow> (string \<Rightarrow> cfg_keys) \<Rightarrow> cli_ctx \<Rightarrow> cfg_keys list" where
  "setting_layers F keys cx =
     [(if cx_manager cx \<noteq> '''' then Some (cx_manager cx) else None, if cx_port cx > 0 then Some (cx_port cx) else None,
       if cx_caCert cx \<noteq> '''' then Some (cx_caCert cx) else None)] @
     (if cx_config cx \<noteq> '''' then [keys (cx_config cx)] else []) @
     (if cf_Stat F (userCfgFile (cf_Home F)) then [keys (userCfgFile (cf_Home F))] else []) @
     (if cf_Stat F systemCfgFile then [keys systemCfgFile] else [])"

fun strongest :: "'a option list \<Rightarrow> 'a \<Rightarrow> 'a" where
  "strongest [] d = d"
| "strongest (None # xs) d = strongest xs d"
| "strongest (Some x # xs) d = x"

lemma strongest_Cons: "strongest (x # xs) d = strongest [x] (strongest xs d)"
  by (cases x) simp_all

lemma apply_keys_sel:
  "ct_ManagerAddr (apply_keys k cfg) = strongest [fst k] (ct_ManagerAddr cfg)"
  "ct_ManagerPort (apply_keys k cfg) = strongest [fst (snd k)] (ct_ManagerPort cfg)"
  "ct_CACert (apply_keys k cfg) = strongest [snd (snd k)] (ct_CACert cfg)"
  by (cases k; simp split: option.split)+

lemma apply_files_sel:
  "ct_ManagerAddr (foldr apply_keys ks cfg) = strongest (map fst ks) (ct_ManagerAddr cfg)"
  "ct_ManagerPort (foldr apply_keys ks cfg) = strongest (map (fst \<circ> snd) ks) (ct_ManagerPort cfg)"
  "ct_CACert (foldr apply_keys ks cfg) = strongest (map (snd \<circ> snd) ks) (ct_CACert cfg)"
  by (induction ks) (simp_all add: apply_keys_sel strongest_Cons [of _ "map f xs" for f xs] del: apply_keys.simps)

lemma override_config_sel:
  "ct_ManagerAddr (override_config cx cfg) = strongest [if cx_manager cx \<noteq> '''' then Some (cx_manager cx) else None] (ct_ManagerAddr cfg)"
  "ct_ManagerPort (override_config cx cfg) = strongest [if cx_port cx > 0 then Some (cx_port cx) else None] (ct_ManagerPort cfg)"
  "ct_CACert (override_config cx cfg) = strongest [if cx_caCert cx \<noteq> '''' then Some (cx_caCert cx) else None] (ct_CACert cfg)"
  by (simp_all add: override_config_def Let_def)

lemma loadConfig_keys:
  assumes "\<And>f cfg. cf_DecodeFile F f cfg = (apply_keys (keys f) cfg, None)"
  shows "load_if present F f (cfg, None) = (if present \<and> f \<noteq> '''' then apply_keys (keys f) cfg else cfg, None)"
  using assms by (simp add: load_if_def loadConfig_def)

text \<open>The client talks to the manager it is told to: address, port and certificate are each taken from the
  strongest source that sets them, in the order flags, \<open>--config\<close>, the user's file, the system's file and the
  defaults \<open>localhost\<close> and 14242; all files are read, also when \<open>--config\<close> is given.  HTTPS is used exactly when
  there is a certificate, and a certificate that cannot be used is an error.\<close>

theorem client_address:
  assumes "\<And>f cfg. cf_DecodeFile F f cfg = (apply_keys (keys f) cfg, None)"
    and L: "L = setting_layers F keys cx" and cert: "cert = strongest (map (snd \<circ> snd) L) ''''"
  shows "initialize F cx =
    (case CreateHTTPClient (cf_ReadFile F) (cf_ValidPEM F) cert of
       Some e \<Rightarrow> Inl (''error initializing HTTP client: '' @ e)
     | None \<Rightarrow> Inr ((if cert = '''' then ''http://'' else ''https://'') @ strongest (map fst L) ''localhost'' @ '':'' @
                    show_int (strongest (map (fst \<circ> snd) L) 14242)))"
proof -
  have u: "userCfgFile (cf_Home F) \<noteq> ''''" "systemCfgFile \<noteq> ''''" by (simp_all add: userCfgFile_def systemCfgFile_def)
  let ?cfg = "foldr apply_keys (tl L) default_config"
  have cfg: "load_if (cx_config cx \<noteq> '''') F (cx_config cx)
             (load_if (cf_Stat F (userCfgFile (cf_Home F))) F (userCfgFile (cf_Home F))
               (load_if (cf_Stat F systemCfgFile) F systemCfgFile (default_config, None))) = (?cfg, None)"
    by (simp add: loadConfig_keys [of F keys, OF assms(1)] L setting_layers_def u del: apply_keys.simps)
  obtain f where Lf: "L = f # tl L" and f: "f = (if cx_manager cx \<noteq> '''' then Some (cx_manager cx) else None, if cx_port cx > 0 then Some (cx_port cx) else None,
       if cx_caCert cx \<noteq> '''' then Some (cx_caCert cx) else None)" by (simp add: L setting_layers_def)
  have strongest_L: "strongest (map g L) d = strongest [g f] (strongest (map g (tl L)) d)" for g :: "cfg_keys \<Rightarrow> 'b option" and d
    by (subst Lf, subst list.map(2), rule strongest_Cons)
  have "ct_ManagerAddr (override_config cx ?cfg) = strongest (map fst L) ''localhost''"
    "ct_ManagerPort (override_config cx ?cfg) = strongest (map (fst \<circ> snd) L) 14242"
    "ct_CACert (override_config cx ?cfg) = cert"
    unfolding cert override_config_sel apply_files_sel strongest_L by (simp_all add: f default_config_def)
  then show ?thesis using cfg by (simp add: initialize_def base_url_def Let_def split: option.split)
qed

theorem client_address_witness:
  "initialize \<lparr>cf_Stat = (\<lambda>f. True), cf_Home = ''/root'',
      cf_DecodeFile = (\<lambda>f cfg. (apply_keys (if f = systemCfgFile then (Some ''sys'', Some 80, None) else (Some ''user'', None, None)) cfg, None)),
      cf_ReadFile = (\<lambda>_. Inr ''''), cf_ValidPEM = (\<lambda>_. True)\<rparr> (ex_cx\<lparr>cx_caCert := ''ca.pem''\<rparr>) = Inr ''https://user:80''"
proof -
  let ?keys = "\<lambda>f. if f = systemCfgFile then (Some ''sys'', Some 80, None) else (Some ''user'', None, None) :: cfg_keys"
  let ?F = "\<lparr>cf_Stat = (\<lambda>f. True), cf_Home = ''/root'', cf_DecodeFile = (\<lambda>f cfg. (apply_keys (?keys f) cfg, None)),
      cf_ReadFile = (\<lambda>_. Inr ''''), cf_ValidPEM = (\<lambda>_. True)\<rparr>"
  let ?cx = "ex_cx\<lparr>cx_caCert := ''ca.pem''\<rparr>"
  have L: "setting_layers ?F ?keys ?cx = [(None, None, Some ''ca.pem''), (Some ''user'', None, None), (Some ''sys'', Some 80, None)]"
    by (simp add: setting_layers_def ex_cx_def userCfgFile_def systemCfgFile_def)
  have "show_int 80 = ''80''" by code_simp
  with client_address [of ?F ?keys, OF _ L [symmetric] refl] show ?thesis
    by (simp add: CreateHTTPClient_def GetTLSConfig_def)
qed

end
