(* ===== verification/Worker_Config.thy ===== *)
theory Worker_Config
  imports Go_Prelude
begin

section \<open>Worker configuration (worker/config.go)\<close>

text \<open>
  The configuration structs.  A slice is an optional list, because \<open>nil\<close> and the empty slice are
  different values for \<open>reflect.DeepEqual\<close> and for the test \<open>ChildMirrors == nil\<close>; the map
  \<open>Env\<close> is the list of its entries in the order of the keys.  A record cannot contain itself, so
  \<open>mirrorConfig\<close> has every field but \<open>ChildMirrors\<close>, and \<open>mirror_tree\<close> pairs it with the
  children; in \<open>Config.Mirrors\<close> the children are always \<open>nil\<close>.  \<open>mergo.Merge\<close>, the TOML
  decoder, \<open>filepath.Glob\<close> and \<open>os.Stat\<close> are parameters.
\<close>

datatype providerEnum = provRsync | provTwoStageRsync | provCommand

definition providerEnum_UnmarshalText :: "string \<Rightarrow> goerror + providerEnum" where
  "providerEnum_UnmarshalText s =
     (if s = ''command'' then Inr provCommand
      else if s = ''rsync'' then Inr provRsync
      else if s = ''two-stage-rsync'' then Inr provTwoStageRsync
      else Inl ''Invalid value to provierEnum'')"

record globalConfig =
  gc_Name :: string
  gc_LogDir :: string
  gc_MirrorDir :: string
  gc_Concurrent :: int
  gc_Interval :: int
  gc_Retry :: int
  gc_Timeout :: int
  gc_RsyncOptions :: "string slice"
  gc_ExecOnSuccess :: "string slice"
  gc_ExecOnFailure :: "string slice"
  gc_SuccessExitCodes :: "int slice"
  gc_RsyncSuccessExitCodes :: "int slice"

record managerConfig =
  mgc_APIBase :: string
  mgc_APIList :: "string slice"
  mgc_CACert :: string

definition APIBaseList :: "managerConfig \<Rightarrow> string list" where
  "APIBaseList mc = (if length (elems (mgc_APIList mc)) > 0 then elems (mgc_APIList mc) else [mgc_APIBase mc])"

record serverConfig =
  sv_Hostname :: string
  sv_Addr :: string
  sv_Port :: int
  sv_SSLCert :: string
  sv_SSLKey :: string

record cgroupConfig =
  cg_Enable :: bool
  cg_BasePath :: string
  cg_Group :: string
  cg_Subsystem :: string

record dockerConfig =
  dk_Enable :: bool
  dk_Volumes :: "string slice"
  dk_Options :: "string slice"

text \<open>\<open>MemBytes\<close>, the memory limit of a mirror: \<open>units.RAMInBytes\<close> of go-units reads its text form.  The value is
  stored even when the text is refused.\<close>

definition MemBytes_Set :: "(string \<Rightarrow> int with_err) \<Rightarrow> string \<Rightarrow> int \<Rightarrow> goerror option \<times> int" where
  "MemBytes_Set RAMInBytes v m = (case RAMInBytes v of (val, err) \<Rightarrow> (err, val))"

definition MemBytes_Type :: "int \<Rightarrow> string" where
  "MemBytes_Type m = ''bytes''"

definition MemBytes_Value :: "int \<Rightarrow> int" where
  "MemBytes_Value m = m"

definition MemBytes_UnmarshalText :: "(string \<Rightarrow> int with_err) \<Rightarrow> string \<Rightarrow> int \<Rightarrow> goerror option \<times> int" where
  "MemBytes_UnmarshalText RAMInBytes s m = (case RAMInBytes s of (val, err) \<Rightarrow> (err, val))"

text \<open>Both ways to give a limit agree, and the old value never survives.\<close>

lemma MemBytes_text: "MemBytes_Set R v m = MemBytes_UnmarshalText R v m'"
  and MemBytes_kept: "R v = (val, err) \<Longrightarrow> MemBytes_Value (snd (MemBytes_Set R v m)) = val"
  by (simp_all add: MemBytes_Set_def MemBytes_UnmarshalText_def MemBytes_Value_def split: prod.split)

record zfsConfig =
  zfs_Enable :: bool
  zfs_Zpool :: string

record btrfsSnapshotConfig =
  bt_Enable :: bool
  bt_SnapshotPath :: string

record mirrorConfig =
  mc_Name :: string
  mc_Provider :: providerEnum
  mc_Upstream :: string
  mc_Interval :: int
  mc_Retry :: int
  mc_Timeout :: int
  mc_MirrorDir :: string
  mc_MirrorSubDir :: string
  mc_LogDir :: string
  mc_Env :: "(string \<times> string) slice"
  mc_Role :: string
  mc_ExecOnSuccess :: "string slice"
  mc_ExecOnFailure :: "string slice"
  mc_ExecOnSuccessExtra :: "string slice"
  mc_ExecOnFailureExtra :: "string slice"
  mc_SuccessExitCodes :: "int slice"
  mc_RsyncSuccessExitCodes :: "int slice"
  mc_Command :: string
  mc_FailOnMatch :: string
  mc_SizePattern :: string
  mc_UseIPv6 :: bool
  mc_UseIPv4 :: bool
  mc_ExcludeFile :: string
  mc_Username :: string
  mc_Password :: string
  mc_RsyncNoTimeo :: bool
  mc_RsyncTimeout :: int
  mc_RsyncOptions :: "string slice"
  mc_RsyncOverride :: "string slice"
  mc_RsyncOverrideOnly :: bool
  mc_Stage1Profile :: string
  mc_MemoryLimit :: int
  mc_DockerImage :: string
  mc_DockerVolumes :: "string slice"
  mc_DockerOptions :: "string slice"
  mc_SnapshotPath :: string

datatype mirror_tree = MirrorTree (tree_conf: mirrorConfig) (tree_children: "mirror_tree list option")

definition zero_mirrorConfig :: mirrorConfig where
  "zero_mirrorConfig = \<lparr>mc_Name = [], mc_Provider = provRsync, mc_Upstream = [], mc_Interval = 0, mc_Retry = 0,
     mc_Timeout = 0, mc_MirrorDir = [], mc_MirrorSubDir = [], mc_LogDir = [], mc_Env = None, mc_Role = [],
     mc_ExecOnSuccess = None, mc_ExecOnFailure = None, mc_ExecOnSuccessExtra = None, mc_ExecOnFailureExtra = None,
     mc_SuccessExitCodes = None, mc_RsyncSuccessExitCodes = None, mc_Command = [], mc_FailOnMatch = [],
     mc_SizePattern = [], mc_UseIPv6 = False, mc_UseIPv4 = False, mc_ExcludeFile = [], mc_Username = [],
     mc_Password = [], mc_RsyncNoTimeo = False, mc_RsyncTimeout = 0, mc_RsyncOptions = None, mc_RsyncOverride = None,
     mc_RsyncOverrideOnly = False, mc_Stage1Profile = [], mc_MemoryLimit = 0, mc_DockerImage = [],
     mc_DockerVolumes = None, mc_DockerOptions = None, mc_SnapshotPath = []\<rparr>"

record Config =
  cf_Global :: globalConfig
  cf_Manager :: managerConfig
  cf_Server :: serverConfig
  cf_Cgroup :: cgroupConfig
  cf_ZFS :: zfsConfig
  cf_BtrfsSnapshot :: btrfsSnapshotConfig
  cf_Docker :: dockerConfig
  cf_IncludeMirrors :: string
  cf_MirrorsConf :: "mirror_tree list"
  cf_Mirrors :: "mirrorConfig list"

subsection \<open>Loading\<close>

text \<open>\<open>merge dst src\<close> is \<open>mergo.Merge(\&dst, src, mergo.WithOverride)\<close> on the fields of the record;
  a struct passed by value keeps its changes local, so the parent is an argument.\<close>

type_synonym merger = "mirrorConfig \<Rightarrow> mirrorConfig \<Rightarrow> goerror + mirrorConfig"

fun recursiveMirrors :: "merger \<Rightarrow> mirrorConfig option \<Rightarrow> mirror_tree \<Rightarrow> mirrorConfig list \<Rightarrow> goerror + mirrorConfig list"
  and recursive_children :: "merger \<Rightarrow> mirrorConfig \<Rightarrow> mirror_tree list \<Rightarrow> mirrorConfig list \<Rightarrow> goerror + mirrorConfig list" where
  "recursiveMirrors merge parent (MirrorTree mirror children) mirrors =
     (let curMir = (case parent of None \<Rightarrow> zero_mirrorConfig | Some p \<Rightarrow> p) in
      case merge curMir mirror of
        Inl e \<Rightarrow> Inl e
      | Inr curMir \<Rightarrow>
          (case children of
             None \<Rightarrow> Inr (mirrors @ [curMir])
           | Some ms \<Rightarrow> recursive_children merge curMir ms mirrors))"
| "recursive_children merge curMir [] mirrors = Inr mirrors"
| "recursive_children merge curMir (m # ms) mirrors =
     (case recursiveMirrors merge (Some curMir) m mirrors of
        Inl e \<Rightarrow> Inl e
      | Inr mirrors' \<Rightarrow> recursive_children merge curMir ms mirrors')"

fun load_mirrors :: "merger \<Rightarrow> mirror_tree list \<Rightarrow> mirrorConfig list \<Rightarrow> goerror + mirrorConfig list" where
  "load_mirrors merge [] mirrors = Inr mirrors"
| "load_mirrors merge (m # ms) mirrors =
     (case recursiveMirrors merge None m mirrors of
        Inl e \<Rightarrow> Inl e
      | Inr mirrors' \<Rightarrow> load_mirrors merge ms mirrors')"

record conf_env =
  ce_Stat :: "string \<Rightarrow> goerror option"
  ce_DecodeFile :: "string \<Rightarrow> goerror + Config"
  ce_Glob :: "string \<Rightarrow> goerror + string list"
  ce_DecodeIncluded :: "string \<Rightarrow> goerror + mirror_tree list"
  ce_Merge :: merger

fun include_mirrors :: "conf_env \<Rightarrow> string list \<Rightarrow> mirror_tree list \<Rightarrow> goerror + mirror_tree list" where
  "include_mirrors E [] conf = Inr conf"
| "include_mirrors E (f # fs) conf =
     (case ce_DecodeIncluded E f of
        Inl e \<Rightarrow> Inl e
      | Inr ms \<Rightarrow> include_mirrors E fs (conf @ ms))"

definition LoadConfig :: "conf_env \<Rightarrow> string \<Rightarrow> goerror + Config" where
  "LoadConfig E cfgFile =
     (case ce_Stat E cfgFile of
        Some e \<Rightarrow> Inl e
      | None \<Rightarrow>
          (case ce_DecodeFile E cfgFile of
             Inl e \<Rightarrow> Inl e
           | Inr cfg \<Rightarrow>
               (case (if cf_IncludeMirrors cfg \<noteq> []
                      then (case ce_Glob E (cf_IncludeMirrors cfg) of
                              Inl e \<Rightarrow> Inl e
                            | Inr includedFiles \<Rightarrow> include_mirrors E includedFiles (cf_MirrorsConf cfg))
                      else Inr (cf_MirrorsConf cfg)) of
                  Inl e \<Rightarrow> Inl e
                | Inr conf \<Rightarrow>
                    (case load_mirrors (ce_Merge E) conf (cf_Mirrors cfg) of
                       Inl e \<Rightarrow> Inl e
                     | Inr mirrors \<Rightarrow> Inr (cfg\<lparr>cf_MirrorsConf := conf, cf_Mirrors := mirrors\<rparr>)))))"

subsection \<open>Inheritance\<close>

text \<open>The documented effect of \<open>mergo.Merge\<close> with \<open>WithOverride\<close>: a field of the source that has
  not the zero value replaces the field of the destination.  Nothing is assumed of the merged map
  \<open>Env\<close>.\<close>

definition ovr :: "'a \<Rightarrow> 'a \<Rightarrow> 'a \<Rightarrow> 'a" where
  "ovr z d s = (if s = z then d else s)"

definition ovr_slice :: "'a slice \<Rightarrow> 'a slice \<Rightarrow> 'a slice" where
  "ovr_slice d s = (if elems s = [] then d else s)"

definition override_fields :: "mirrorConfig \<Rightarrow> mirrorConfig \<Rightarrow> mirrorConfig" where
  "override_fields d s = \<lparr>mc_Name = ovr [] (mc_Name d) (mc_Name s), mc_Provider = ovr provRsync (mc_Provider d) (mc_Provider s),
     mc_Upstream = ovr [] (mc_Upstream d) (mc_Upstream s), mc_Interval = ovr 0 (mc_Interval d) (mc_Interval s),
     mc_Retry = ovr 0 (mc_Retry d) (mc_Retry s), mc_Timeout = ovr 0 (mc_Timeout d) (mc_Timeout s),
     mc_MirrorDir = ovr [] (mc_MirrorDir d) (mc_MirrorDir s), mc_MirrorSubDir = ovr [] (mc_MirrorSubDir d) (mc_MirrorSubDir s),
     mc_LogDir = ovr [] (mc_LogDir d) (mc_LogDir s), mc_Env = mc_Env d, mc_Role = ovr [] (mc_Role d) (mc_Role s),
     mc_ExecOnSuccess = ovr_slice (mc_ExecOnSuccess d) (mc_ExecOnSuccess s),
     mc_ExecOnFailure = ovr_slice (mc_ExecOnFailure d) (mc_ExecOnFailure s),
     mc_ExecOnSuccessExtra = ovr_slice (mc_ExecOnSuccessExtra d) (mc_ExecOnSuccessExtra s),
     mc_ExecOnFailureExtra = ovr_slice (mc_ExecOnFailureExtra d) (mc_ExecOnFailureExtra s),
     mc_SuccessExitCodes = ovr_slice (mc_SuccessExitCodes d) (mc_SuccessExitCodes s),
     mc_RsyncSuccessExitCodes = ovr_slice (mc_RsyncSuccessExitCodes d) (mc_RsyncSuccessExitCodes s),
     mc_Command = ovr [] (mc_Command d) (mc_Command s), mc_FailOnMatch = ovr [] (mc_FailOnMatch d) (mc_FailOnMatch s),
     mc_SizePattern = ovr [] (mc_SizePattern d) (mc_SizePattern s),
     mc_UseIPv6 = ovr False (mc_UseIPv6 d) (mc_UseIPv6 s), mc_UseIPv4 = ovr False (mc_UseIPv4 d) (mc_UseIPv4 s),
     mc_ExcludeFile = ovr [] (mc_ExcludeFile d) (mc_ExcludeFile s), mc_Username = ovr [] (mc_Username d) (mc_Username s),
     mc_Password = ovr [] (mc_Password d) (mc_Password s),
     mc_RsyncNoTimeo = ovr False (mc_RsyncNoTimeo d) (mc_RsyncNoTimeo s),
     mc_RsyncTimeout = ovr 0 (mc_RsyncTimeout d) (mc_RsyncTimeout s),
     mc_RsyncOptions = ovr_slice (mc_RsyncOptions d) (mc_RsyncOptions s),
     mc_RsyncOverride = ovr_slice (mc_RsyncOverride d) (mc_RsyncOverride s),
     mc_RsyncOverrideOnly = ovr False (mc_RsyncOverrideOnly d) (mc_RsyncOverrideOnly s),
     mc_Stage1Profile = ovr [] (mc_Stage1Profile d) (mc_Stage1Profile s),
     mc_MemoryLimit = ovr 0 (mc_MemoryLimit d) (mc_MemoryLimit s), mc_DockerImage = ovr [] (mc_DockerImage d) (mc_DockerImage s),
     mc_DockerVolumes = ovr_slice (mc_DockerVolumes d) (mc_DockerVolumes s),
     mc_DockerOptions = ovr_slice (mc_DockerOptions d) (mc_DockerOptions s),
     mc_SnapshotPath = ovr [] (mc_SnapshotPath d) (mc_SnapshotPath s)\<rparr>"

definition mergo_laws :: "merger \<Rightarrow> bool" where
  "mergo_laws merge \<longleftrightarrow> (\<forall>d s. \<exists>env. merge d s = Inr ((override_fields d s)\<lparr>mc_Env := env\<rparr>))"

text \<open>The configurations on the way from the root to each leaf.\<close>

fun tree_paths :: "mirror_tree \<Rightarrow> mirrorConfig list list"
  and forest_paths :: "mirror_tree list \<Rightarrow> mirrorConfig list list" where
  "tree_paths (MirrorTree m children) =
     map ((#) m) (case children of None \<Rightarrow> [[]] | Some ms \<Rightarrow> forest_paths ms)"
| "forest_paths [] = []"
| "forest_paths (m # ms) = tree_paths m @ forest_paths ms"

text \<open>The configuration of a leaf agrees with the folded path up to \<open>Env\<close>.\<close>

definition same_conf :: "mirrorConfig \<Rightarrow> mirrorConfig \<Rightarrow> bool" where
  "same_conf a b \<longleftrightarrow> a\<lparr>mc_Env := None\<rparr> = b\<lparr>mc_Env := None\<rparr>"

lemma same_conf_refl [simp]: "same_conf a a"
  by (simp add: same_conf_def)

lemma same_conf_Env [simp]: "same_conf (a\<lparr>mc_Env := env\<rparr>) b = same_conf a b" "same_conf a (b\<lparr>mc_Env := env\<rparr>) = same_conf a b"
  by (simp_all add: same_conf_def)

lemma override_fields_Env: "override_fields (d\<lparr>mc_Env := e\<rparr>) s = (override_fields d s)\<lparr>mc_Env := e\<rparr>"
  by (simp add: override_fields_def)

lemma same_conf_override:
  assumes "same_conf a b"
  shows "same_conf (override_fields a s) (override_fields b s)"
proof -
  have "(override_fields a s)\<lparr>mc_Env := None\<rparr> = override_fields (a\<lparr>mc_Env := None\<rparr>) s" for a
    by (simp only: override_fields_Env)
  with assms show ?thesis by (simp add: same_conf_def)
qed

lemma same_conf_trans: "same_conf a b \<Longrightarrow> same_conf b c \<Longrightarrow> same_conf a c"
  by (simp add: same_conf_def)

lemma same_conf_fold: "same_conf a b \<Longrightarrow> same_conf (foldl override_fields a p) (foldl override_fields b p)"
  by (induction p arbitrary: a b) (simp_all add: same_conf_override)

lemma list_all2_map1_Cons:
  "list_all2 P (map f xs) ys \<longleftrightarrow> list_all2 (\<lambda>x. P (f x)) xs ys"
  by (simp add: list_all2_map1)

abbreviation start_conf :: "mirrorConfig option \<Rightarrow> mirrorConfig" where
  "start_conf parent \<equiv> (case parent of None \<Rightarrow> zero_mirrorConfig | Some c \<Rightarrow> c)"

lemma recursive_paths:
  assumes "mergo_laws merge"
  shows "\<exists>rs. recursiveMirrors merge parent t mirrors = Inr (mirrors @ rs) \<and>
      list_all2 (\<lambda>p r. same_conf r (foldl override_fields (start_conf parent) p)) (tree_paths t) rs"
    and "\<exists>rs. recursive_children merge cur ts mirrors = Inr (mirrors @ rs) \<and>
      list_all2 (\<lambda>p r. same_conf r (foldl override_fields cur p)) (forest_paths ts) rs"
  using assms
proof (induction merge parent t mirrors and merge cur ts mirrors rule: recursiveMirrors_recursive_children.induct)
  case (1 merge parent mirror children mirrors)
  let ?cur = "override_fields (start_conf parent) mirror"
  from 1(2) obtain env where env: "merge (start_conf parent) mirror = Inr (?cur\<lparr>mc_Env := env\<rparr>)"
    unfolding mergo_laws_def by blast
  show ?case
  proof (cases children)
    case None
    with env show ?thesis by simp
  next
    case (Some ms)
    from 1(1) [OF refl env Some 1(2)] obtain rs where
      rs: "recursive_children merge (?cur\<lparr>mc_Env := env\<rparr>) ms mirrors = Inr (mirrors @ rs)"
      "list_all2 (\<lambda>p r. same_conf r (foldl override_fields (?cur\<lparr>mc_Env := env\<rparr>) p)) (forest_paths ms) rs" by blast
    have "list_all2 (\<lambda>p r. same_conf r (foldl override_fields ?cur p)) (forest_paths ms) rs"
      using rs(2) by (rule list_all2_mono) (blast intro: same_conf_trans same_conf_fold same_conf_Env [THEN iffD2, OF same_conf_refl])
    with rs(1) env Some show ?thesis by (simp add: list_all2_map1_Cons)
  qed
next
  case (2 merge cur mirrors)
  then show ?case by simp
next
  case (3 merge cur m ms mirrors)
  from 3(1) [OF 3(3)] obtain rs where
    rs: "recursiveMirrors merge (Some cur) m mirrors = Inr (mirrors @ rs)"
    "list_all2 (\<lambda>p r. same_conf r (foldl override_fields cur p)) (tree_paths m) rs" by auto
  from 3(2) [OF rs(1) 3(3)] obtain rs' where
    "recursive_children merge cur ms (mirrors @ rs) = Inr (mirrors @ rs @ rs')"
    "list_all2 (\<lambda>p r. same_conf r (foldl override_fields cur p)) (forest_paths ms) rs'" by auto
  with rs show ?case by (auto intro!: list_all2_appendI)
qed

lemma load_mirrors_paths:
  assumes "mergo_laws merge"
  shows "\<exists>rs. load_mirrors merge ts mirrors = Inr (mirrors @ rs) \<and>
    list_all2 (\<lambda>p r. same_conf r (foldl override_fields zero_mirrorConfig p)) (forest_paths ts) rs"
proof (induction ts arbitrary: mirrors)
  case (Cons t ts)
  from recursive_paths(1) [OF assms, of None t mirrors] obtain rs where
    rs: "recursiveMirrors merge None t mirrors = Inr (mirrors @ rs)"
    "list_all2 (\<lambda>p r. same_conf r (foldl override_fields zero_mirrorConfig p)) (tree_paths t) rs" by auto
  from Cons.IH [of "mirrors @ rs"] obtain rs' where
    "load_mirrors merge ts (mirrors @ rs) = Inr (mirrors @ rs @ rs')"
    "list_all2 (\<lambda>p r. same_conf r (foldl override_fields zero_mirrorConfig p)) (forest_paths ts) rs'" by auto
  with rs show ?case by (auto intro!: list_all2_appendI)
qed simp

lemma include_mirrors_all:
  "\<forall>g\<in>set fs. ce_DecodeIncluded E g = Inr (inc g) \<Longrightarrow> include_mirrors E fs conf = Inr (conf @ concat (map inc fs))"
  by (induction fs arbitrary: conf) simp_all

subsection \<open>Properties of the configuration\<close>


definition ref_merge :: merger where
  "ref_merge d s = Inr ((override_fields d s)\<lparr>mc_Env := ovr_slice (mc_Env d) (mc_Env s)\<rparr>)"

lemma ref_merge_laws: "mergo_laws ref_merge"
  by (auto simp: mergo_laws_def ref_merge_def)

text \<open>A file with one group of two mirrors, and an included file with one mirror.\<close>

definition ex_tree :: mirror_tree where
  "ex_tree = MirrorTree (zero_mirrorConfig\<lparr>mc_Provider := provCommand, mc_Interval := 60\<rparr>)
     (Some [MirrorTree (zero_mirrorConfig\<lparr>mc_Name := ''a'', mc_Interval := 5\<rparr>) None,
            MirrorTree (zero_mirrorConfig\<lparr>mc_Name := ''b''\<rparr>) None])"

definition ex_config :: Config where
  "ex_config = \<lparr>cf_Global = \<lparr>gc_Name = ''w'', gc_LogDir = ''/log'', gc_MirrorDir = ''/data'', gc_Concurrent = 2,
       gc_Interval = 120, gc_Retry = 0, gc_Timeout = 0, gc_RsyncOptions = None, gc_ExecOnSuccess = None,
       gc_ExecOnFailure = None, gc_SuccessExitCodes = None, gc_RsyncSuccessExitCodes = None\<rparr>,
     cf_Manager = \<lparr>mgc_APIBase = ''http://m'', mgc_APIList = None, mgc_CACert = []\<rparr>,
     cf_Server = \<lparr>sv_Hostname = ''h'', sv_Addr = ''0.0.0.0'', sv_Port = 6000, sv_SSLCert = [], sv_SSLKey = []\<rparr>,
     cf_Cgroup = \<lparr>cg_Enable = False, cg_BasePath = [], cg_Group = [], cg_Subsystem = []\<rparr>,
     cf_ZFS = \<lparr>zfs_Enable = False, zfs_Zpool = []\<rparr>, cf_BtrfsSnapshot = \<lparr>bt_Enable = False, bt_SnapshotPath = []\<rparr>,
     cf_Docker = \<lparr>dk_Enable = False, dk_Volumes = None, dk_Options = None\<rparr>,
     cf_IncludeMirrors = ''*.conf'', cf_MirrorsConf = [ex_tree], cf_Mirrors = []\<rparr>"

definition ex_conf_env :: conf_env where
  "ex_conf_env = \<lparr>ce_Stat = (\<lambda>_. None), ce_DecodeFile = (\<lambda>_. Inr ex_config), ce_Glob = (\<lambda>_. Inr [''c.conf'']),
     ce_DecodeIncluded = (\<lambda>_. Inr [MirrorTree (zero_mirrorConfig\<lparr>mc_Name := ''c''\<rparr>) None]), ce_Merge = ref_merge\<rparr>"


text \<open>A nested mirror cannot go back to \<open>rsync\<close>: \<open>rsync\<close> is the zero value of the provider
  enumeration, which the merge does not regard as set, so a child that asks for \<open>rsync\<close> under a
  section with another provider gets the provider of that section.\<close>

theorem nested_rsync_ignored:
  assumes "mergo_laws merge" and "mc_Provider outer \<noteq> provRsync" and "mc_Provider inner = provRsync"
  shows "\<exists>r. load_mirrors merge [MirrorTree outer (Some [MirrorTree inner None])] [] = Inr [r] \<and>
    mc_Provider r = mc_Provider outer"
proof -
  from load_mirrors_paths [OF assms(1), of "[MirrorTree outer (Some [MirrorTree inner None])]" "[]"] obtain r where
    "load_mirrors merge [MirrorTree outer (Some [MirrorTree inner None])] [] = Inr [r]"
    "same_conf r (override_fields (override_fields zero_mirrorConfig outer) inner)"
    by (auto simp: list_all2_Cons1)
  moreover have "mc_Provider (override_fields (override_fields zero_mirrorConfig outer) inner) = mc_Provider outer"
    using assms(2,3) by (simp add: override_fields_def ovr_def)
  moreover have "mc_Provider a = mc_Provider b" if "same_conf a b" for a b
    using that unfolding same_conf_def by (metis mirrorConfig.simps(2) mirrorConfig.select_convs(2) mirrorConfig.surjective mirrorConfig.update_convs(10))
  ultimately show ?thesis by auto
qed

theorem nested_rsync_ignored_witness:
  "\<exists>r. load_mirrors ref_merge [MirrorTree (zero_mirrorConfig\<lparr>mc_Provider := provCommand\<rparr>)
      (Some [MirrorTree (zero_mirrorConfig\<lparr>mc_Name := ''a'', mc_Provider := provRsync\<rparr>) None])] [] = Inr [r] \<and> mc_Provider r = provCommand"
  using nested_rsync_ignored [OF ref_merge_laws, of "zero_mirrorConfig\<lparr>mc_Provider := provCommand\<rparr>"
      "zero_mirrorConfig\<lparr>mc_Name := ''a'', mc_Provider := provRsync\<rparr>"] by simp

end
