(* ===== verification/Layered_Context.thy ===== *)
theory Layered_Context
  imports Go_Prelude
begin

section \<open>The layered context of a provider (worker/context.go)\<close>

text \<open>
  A \<open>Context\<close> is a stack of key-value stores.  \<open>Enter\<close> pushes an empty layer, \<open>Exit\<close> pops one,
  \<open>Set\<close> writes to the top layer and \<open>Get\<close> reads the topmost layer that has the key.  The values
  have a type \<open>'v\<close>.  A provider only keeps the pointer to its top layer, so the pointers are modelled
  by values; the stores are association lists, the latest entry first.
\<close>

datatype 'v Context = Context (ctx_parent: "'v Context option") (ctx_store: "(string \<times> 'v) list")

definition NewContext :: "'v Context" where
  "NewContext = Context None []"

definition Enter :: "'v Context \<Rightarrow> 'v Context" where
  "Enter ctx = Context (Some ctx) []"

definition Exit :: "'v Context \<Rightarrow> 'v Context option with_err" where
  "Exit ctx =
     (case ctx_parent ctx of
        None \<Rightarrow> (None, Some ''Cannot exit the bottom layer context'')
      | Some parent \<Rightarrow> (Some parent, None))"

fun Get :: "string \<Rightarrow> 'v Context \<Rightarrow> 'v option" where
  "Get key (Context None store) =
     (case map_of store key of Some v \<Rightarrow> Some v | None \<Rightarrow> None)"
| "Get key (Context (Some parent) store) =
     (case map_of store key of Some v \<Rightarrow> Some v | None \<Rightarrow> Get key parent)"

definition Set :: "string \<Rightarrow> 'v \<Rightarrow> 'v Context \<Rightarrow> 'v Context" where
  "Set key v ctx = Context (ctx_parent ctx) ((key, v) # ctx_store ctx)"

subsection \<open>Contract\<close>

text \<open>A layered store: what a reader sees after each operation, and that leaving a layer undoes it.\<close>

locale layered_store =
  fixes enter :: "'c \<Rightarrow> 'c"
    and leave :: "'c \<Rightarrow> 'c option"
    and get :: "string \<Rightarrow> 'c \<Rightarrow> 'v option"
    and put :: "string \<Rightarrow> 'v \<Rightarrow> 'c \<Rightarrow> 'c"
  assumes get_enter: "get k (enter c) = get k c"
    and get_set: "get k (put k' v c) = (if k = k' then Some v else get k c)"
    and exit_enter: "leave (enter c) = Some c"
    and exit_set: "leave (put k v c) = leave c"

text \<open>Operations on a context, as the hooks perform them.\<close>

datatype 'v ctx_op = OpEnter | OpExit | OpSet string 'v

fun run_ops :: "('c \<Rightarrow> 'c) \<Rightarrow> ('c \<Rightarrow> 'c option) \<Rightarrow> (string \<Rightarrow> 'v \<Rightarrow> 'c \<Rightarrow> 'c) \<Rightarrow> 'v ctx_op list \<Rightarrow> 'c \<Rightarrow> 'c option" where
  "run_ops enter leave put [] c = Some c"
| "run_ops enter leave put (OpEnter # ops) c = run_ops enter leave put ops (enter c)"
| "run_ops enter leave put (OpExit # ops) c =
     (case leave c of None \<Rightarrow> None | Some c' \<Rightarrow> run_ops enter leave put ops c')"
| "run_ops enter leave put (OpSet k v # ops) c = run_ops enter leave put ops (put k v c)"

lemma run_ops_append:
  "run_ops enter leave put (xs @ ys) c = Option.bind (run_ops enter leave put xs c) (run_ops enter leave put ys)"
  by (induction enter leave put xs c rule: run_ops.induct) (simp_all split: option.split)

text \<open>Well-bracketed sequences: every layer that is entered is left again.\<close>

inductive balanced :: "'v ctx_op list \<Rightarrow> bool" where
  nothing: "balanced []"
| writes: "balanced ops \<Longrightarrow> balanced (OpSet k v # ops)"
| layer: "balanced inner \<Longrightarrow> balanced rest \<Longrightarrow> balanced (OpEnter # inner @ OpExit # rest)"

inductive_simps balanced_simps [simp]: "balanced []" "balanced (OpSet k v # ops)" "balanced (OpExit # ops)"

context layered_store
begin

lemma balanced_exit:
  "balanced ops \<Longrightarrow> \<exists>c'. run_ops enter leave put ops c = Some c' \<and> leave c' = leave c"
proof (induction ops arbitrary: c rule: balanced.induct)
  case (writes ops k v)
  from writes.IH [of "put k v c"] show ?case by (simp add: exit_set)
next
  case (layer inner rest)
  from layer.IH(1) [of "enter c"] obtain c1 where
    c1: "run_ops enter leave put inner (enter c) = Some c1" "leave c1 = leave (enter c)" by blast
  from layer.IH(2) [of c] obtain c2 where "run_ops enter leave put rest c = Some c2" "leave c2 = leave c" by blast
  with c1 show ?case by (simp add: run_ops_append exit_enter)
qed simp

lemma bracketed: "balanced ops \<Longrightarrow> run_ops enter leave put (OpEnter # ops @ [OpExit]) c = Some c"
  using balanced_exit [of ops "enter c"] by (auto simp: run_ops_append exit_enter)

end

lemma Get_Enter: "Get k (Enter c) = Get k c"
  by (simp add: Enter_def)

lemma Get_Set: "Get k (Set k' v c) = (if k = k' then Some v else Get k c)"
proof (cases c)
  case (Context p s)
  then show ?thesis by (cases p) (simp_all add: Set_def)
qed

lemma Exit_Enter [simp]: "Exit (Enter c) = (Some c, None)"
  by (simp add: Exit_def Enter_def)

lemma Exit_Set [simp]: "Exit (Set k v c) = Exit c"
  by (simp add: Exit_def Set_def)

interpretation ctx: layered_store Enter "\<lambda>c. fst (Exit c)" Get Set
  by unfold_locales (simp_all add: Get_Enter Get_Set)

subsection \<open>Properties of contexts\<close>

text \<open>Leaving a context restores it: after a layer is entered and any well-bracketed sequence of
  entering, leaving and writing, leaving the layer gives back the original context, whatever was
  written in between.\<close>

theorem context_restored:
  assumes "balanced ops"
  shows "run_ops Enter (\<lambda>c. fst (Exit c)) Set (OpEnter # ops @ [OpExit]) c = Some c"
  using ctx.bracketed [OF assms] .

theorem context_restored_witness:
  "run_ops Enter (\<lambda>c. fst (Exit c)) Set
     (OpEnter # ([OpSet ''log_file'' ''a'', OpEnter] @ [OpSet ''volumes'' ''b''] @ OpExit # []) @ [OpExit]) NewContext = Some NewContext"
proof (rule context_restored)
  have "balanced (OpEnter # [OpSet ''volumes'' ''b''] @ OpExit # [])" by (intro balanced.layer) simp_all
  then show "balanced ([OpSet ''log_file'' ''a'', OpEnter] @ [OpSet ''volumes'' ''b''] @ OpExit # [])" by simp
qed

text \<open>Reading sees the innermost write: a key has the value last written to it in the current or an
  enclosing layer; entering a layer changes no value, and writing changes the value of that key
  only.\<close>

theorem context_reads:
  "Get k (Enter c) = Get k c \<and> Get k (Set k' v c) = (if k = k' then Some v else Get k c) \<and>
   (Get k (NewContext :: 'v Context) = None)"
  by (simp add: Get_Enter Get_Set NewContext_def)

end
