(* ===== verification/Mirror_Job.thy ===== *)
theory Mirror_Job
  imports Messages
begin

section \<open>One run of a mirror job (worker/job.go: runHooks, runJobWrapper)\<close>

text \<open>
  The closure \<open>runJobWrapper\<close> of \<open>mirrorJob.Run\<close> is one run of a job: hooks, the provider, retries
  and the messages to the worker.  Everything it calls is behind the interfaces \<open>jobHook\<close> and
  \<open>mirrorProvider\<close>, so a provider is a record of functions on a world \<open>'w\<close>: hooks are values of
  \<open>'h\<close> with one function per hook method, and the two \<open>select\<close> statements receive the events of
  \<open>sync_start\<close> and \<open>sync_wait\<close>.  The job's state, which other goroutines change, is read through
  the world too.  A run yields how it ended (with an error value or a panic) and its trace: the messages
  sent, the hook methods called and the calls of the provider, in order.
\<close>

datatype jobState = stateNone | stateReady | statePaused | stateDisabled | stateHalting

record jobMessage =
  jm_status :: SyncStatus
  jm_name :: string
  jm_msg :: string
  jm_schedule :: bool

datatype hookAction = preJob | preExec | postExec | postSuccess | postFail

text \<open>The names the wrapper passes to \<open>runHooks\<close>.\<close>

fun hookname :: "hookAction \<Rightarrow> string" where
  "hookname preJob = ''pre-job''"
| "hookname preExec = ''pre-exec''"
| "hookname postExec = ''post-exec''"
| "hookname postSuccess = ''post-success''"
| "hookname postFail = ''post-fail''"

text \<open>What the first \<open>select\<close> receives: an error of \<open>syncDone\<close> (which is put back), the value
  \<open>nil\<close> of \<open>syncDone\<close> when the provider has already finished, or \<open>started\<close>.  What the second
  one receives: the result of the provider, the time-out or the kill.\<close>

datatype sync_start = StartError goerror | StartNil | StartOk
datatype sync_wait = SyncDone "goerror option" | SyncTimeout | SyncKill

record ('h, 'w) mirrorProvider =
  p_Name :: string
  p_Retry :: int
  p_Timeout :: duration
  p_Hooks :: "'h list"
  p_Action :: "hookAction \<Rightarrow> 'h \<Rightarrow> 'w \<Rightarrow> goerror option \<times> 'w"
  p_Start :: "'w \<Rightarrow> sync_start \<times> 'w"
  p_Wait :: "duration \<Rightarrow> 'w \<Rightarrow> sync_wait \<times> 'w"
  p_Terminate :: "'w \<Rightarrow> goerror option \<times> 'w"
  p_DataSize :: "'w \<Rightarrow> string \<times> 'w"
  p_State :: "'w \<Rightarrow> jobState \<times> 'w"

datatype 'h job_event =
    Msg jobMessage
  | Hook hookAction 'h
  | Run
  | Terminate
  | SetSize string

datatype run_end = Returned "goerror option" | Panicked

subsection \<open>Durations\<close>

text \<open>\<open>time.Duration.String\<close>: hours, minutes and seconds, leading zero units omitted, or a fraction of a
  second in the unit that makes its integral part positive.\<close>

fun trim_zeros :: "string \<Rightarrow> string" where
  "trim_zeros s = rev (dropWhile (\<lambda>c. c = CHR ''0'') (rev s))"

definition fraction :: "nat \<Rightarrow> nat \<Rightarrow> string" where
  "fraction prec v =
     (let digits = trim_zeros (replicate (prec - length (show_nat v)) (CHR ''0'') @ show_nat v)
      in if v = 0 then '''' else ''.'' @ digits)"

definition show_abs_duration :: "nat \<Rightarrow> string" where
  "show_abs_duration u =
     (if u = 0 then ''0s''
      else if u < 1000 then show_nat u @ ''ns''
      else if u < 1000000 then show_nat (u div 1000) @ fraction 3 (u mod 1000) @ [CHR 0xC2, CHR 0xB5] @ ''s''
      else if u < 1000000000 then show_nat (u div 1000000) @ fraction 6 (u mod 1000000) @ ''ms''
      else let secs = u div 1000000000; s = show_nat (secs mod 60) @ fraction 9 (u mod 1000000000) @ ''s'';
               mins = secs div 60; hours = mins div 60
           in (if mins = 0 then s
               else if hours = 0 then show_nat mins @ ''m'' @ s
               else show_nat hours @ ''h'' @ show_nat (mins mod 60) @ ''m'' @ s))"

definition Duration_String :: "duration \<Rightarrow> string" where
  "Duration_String d = (if d < 0 then ''-'' @ show_abs_duration (nat (- d)) else show_abs_duration (nat d))"

subsection \<open>Hooks\<close>

definition hook_message :: "string \<Rightarrow> hookAction \<Rightarrow> goerror \<Rightarrow> jobMessage" where
  "hook_message name a err = \<lparr>jm_status = Failed, jm_name = name,
     jm_msg = ''error exec hook '' @ hookname a @ '': '' @ err, jm_schedule = True\<rparr>"

fun runHooks :: "('h, 'w) mirrorProvider \<Rightarrow> 'h list \<Rightarrow> hookAction \<Rightarrow> 'w \<Rightarrow> goerror option \<times> 'h job_event list \<times> 'w" where
  "runHooks P [] a w = (None, [], w)"
| "runHooks P (hook # Hooks) a w =
     (case p_Action P a hook w of
        (Some err, w') \<Rightarrow> (Some err, [Hook a hook, Msg (hook_message (p_Name P) a err)], w')
      | (None, w') \<Rightarrow> (case runHooks P Hooks a w' of (e, tr, w'') \<Rightarrow> (e, Hook a hook # tr, w'')))"

subsection \<open>The run\<close>

definition never_timeout :: duration where "never_timeout = 100000 * Hour"

definition effective_timeout :: "('h, 'w) mirrorProvider \<Rightarrow> duration" where
  "effective_timeout P = (if p_Timeout P \<le> 0 then never_timeout else p_Timeout P)"

definition status_message :: "('h, 'w) mirrorProvider \<Rightarrow> SyncStatus \<Rightarrow> string \<Rightarrow> bool \<Rightarrow> jobMessage" where
  "status_message P st msg sched = \<lparr>jm_status = st, jm_name = p_Name P, jm_msg = msg, jm_schedule = sched\<rparr>"

text \<open>How one attempt ends: the loop is left, or goes on with the next retry.\<close>

datatype attempt_end = Leave run_end | NextRetry

text \<open>The part of the loop body after the post-exec hooks.\<close>

definition finish_attempt :: "('h, 'w) mirrorProvider \<Rightarrow> int \<Rightarrow> bool \<Rightarrow> goerror option \<Rightarrow> 'w \<Rightarrow> attempt_end \<times> 'h job_event list \<times> 'w" where
  "finish_attempt P retry stopASAP syncErr w =
     (case syncErr of
        None \<Rightarrow>
          (case runHooks P (rev (p_Hooks P)) postSuccess w of
             (Some e, tr, w1) \<Rightarrow> (Leave (Returned (Some e)), tr, w1)
           | (None, tr, w1) \<Rightarrow>
               (case p_DataSize P w1 of (sz, w2) \<Rightarrow>
                case p_State P w2 of (st, w3) \<Rightarrow>
                  (Leave (Returned None), tr @ [SetSize sz, Msg (status_message P Success '''' (st = stateReady))], w3)))
      | Some err \<Rightarrow>
          (case runHooks P (rev (p_Hooks P)) postFail w of
             (Some e, tr, w1) \<Rightarrow> (Leave (Returned (Some e)), tr, w1)
           | (None, tr, w1) \<Rightarrow>
               (case (if retry = p_Retry P - 1 then p_State P w1 else (stateNone, w1)) of (st, w2) \<Rightarrow>
                  (if stopASAP then Leave (Returned None) else NextRetry,
                   tr @ [Msg (status_message P Failed err (retry = p_Retry P - 1 \<and> st = stateReady))], w2))))"

text \<open>The part from the start of the provider to the post-exec hooks.\<close>

definition sync_attempt :: "('h, 'w) mirrorProvider \<Rightarrow> int \<Rightarrow> 'w \<Rightarrow> attempt_end \<times> 'h job_event list \<times> 'w" where
  "sync_attempt P retry w =
     (case p_Start P w of (start, w1) \<Rightarrow>
      if start = StartNil then (Leave Panicked, [Run], w1)
      else
        (let timeout = effective_timeout P in
         case p_Wait P timeout w1 of (ev, w2) \<Rightarrow>
         case (case ev of
                 SyncDone r \<Rightarrow> ((None, w2), [], False, (case start of StartError e \<Rightarrow> Some e | _ \<Rightarrow> r))
               | SyncTimeout \<Rightarrow> (p_Terminate P w2, [Terminate], False,
                                 Some (p_Name P @ '' timeout after '' @ Duration_String timeout))
               | SyncKill \<Rightarrow> (p_Terminate P w2, [Terminate], True, Some ''killed by manager'')) of
           ((termErr, w3), tr, stopASAP, syncErr) \<Rightarrow>
             (case termErr of
                Some e \<Rightarrow> (Leave (Returned (Some e)), Run # tr, w3)
              | None \<Rightarrow>
                  (case runHooks P (rev (p_Hooks P)) postExec w3 of
                     (Some e, tr2, w4) \<Rightarrow> (Leave (Returned (Some e)), Run # tr @ tr2, w4)
                   | (None, tr2, w4) \<Rightarrow>
                       (case finish_attempt P retry stopASAP syncErr w4 of
                          (r, tr3, w5) \<Rightarrow> (r, Run # tr @ tr2 @ tr3, w5))))))"

definition attempt :: "('h, 'w) mirrorProvider \<Rightarrow> int \<Rightarrow> 'w \<Rightarrow> attempt_end \<times> 'h job_event list \<times> 'w" where
  "attempt P retry w =
     (case runHooks P (p_Hooks P) preExec w of
        (Some e, tr, w1) \<Rightarrow> (Leave (Returned (Some e)), tr, w1)
      | (None, tr, w1) \<Rightarrow>
          (case sync_attempt P retry w1 of
             (r, tr', w2) \<Rightarrow> (r, tr @ Msg (status_message P Syncing '''' False) # tr', w2)))"

function retry_loop :: "('h, 'w) mirrorProvider \<Rightarrow> int \<Rightarrow> 'w \<Rightarrow> run_end \<times> 'h job_event list \<times> 'w" where
  "retry_loop P retry w =
     (if retry < p_Retry P then
        (case attempt P retry w of
           (Leave r, tr, w') \<Rightarrow> (r, tr, w')
         | (NextRetry, tr, w') \<Rightarrow>
             (case retry_loop P (retry + 1) w' of (r, tr', w'') \<Rightarrow> (r, tr @ tr', w'')))
      else (Returned None, [], w))"
  by pat_completeness auto
termination
  by (relation "measure (\<lambda>(P, retry, w). nat (p_Retry P - retry))") auto

declare retry_loop.simps [simp del]

definition runJobWrapper :: "('h, 'w) mirrorProvider \<Rightarrow> 'w \<Rightarrow> run_end \<times> 'h job_event list \<times> 'w" where
  "runJobWrapper P w =
     (case runHooks P (p_Hooks P) preJob w of
        (Some e, tr, w1) \<Rightarrow> (Returned (Some e), Msg (status_message P PreSyncing '''' False) # tr, w1)
      | (None, tr, w1) \<Rightarrow>
          (case retry_loop P 0 w1 of
             (r, tr', w2) \<Rightarrow> (r, Msg (status_message P PreSyncing '''' False) # tr @ tr', w2)))"

subsection \<open>Messages of a run\<close>

fun msgs :: "'h job_event list \<Rightarrow> jobMessage list" where
  "msgs [] = []"
| "msgs (Msg m # tr) = m # msgs tr"
| "msgs (_ # tr) = msgs tr"

lemma msgs_append [simp]: "msgs (tr @ tr') = msgs tr @ msgs tr'"
  by (induction tr rule: msgs.induct) simp_all

lemma runHooks_msgs:
  "runHooks P hs a w = (e, tr, w') \<Longrightarrow>
    msgs tr = (case e of None \<Rightarrow> [] | Some err \<Rightarrow> [hook_message (p_Name P) a err])"
  by (induction P hs a w arbitrary: e tr w' rule: runHooks.induct) (auto split: prod.splits option.splits)

abbreviation syncing_message :: "('h, 'w) mirrorProvider \<Rightarrow> jobMessage" where
  "syncing_message P \<equiv> status_message P Syncing '''' False"

text \<open>The messages one attempt can send, with the way it ends.\<close>

inductive attempt_msgs :: "('h, 'w) mirrorProvider \<Rightarrow> int \<Rightarrow> attempt_end \<Rightarrow> jobMessage list \<Rightarrow> bool" for P retry where
  pre_exec: "attempt_msgs P retry (Leave (Returned (Some e))) [hook_message (p_Name P) preExec e]"
| panic: "attempt_msgs P retry (Leave Panicked) [syncing_message P]"
| terminate: "attempt_msgs P retry (Leave (Returned (Some e))) [syncing_message P]"
| post_hook: "attempt_msgs P retry (Leave (Returned (Some e))) [syncing_message P, hook_message (p_Name P) a e]"
| success: "attempt_msgs P retry (Leave (Returned None)) [syncing_message P, status_message P Success '''' b]"
| failed: "(b \<longrightarrow> retry = p_Retry P - 1) \<Longrightarrow> r = NextRetry \<or> r = Leave (Returned None) \<Longrightarrow>
    attempt_msgs P retry r [syncing_message P, status_message P Failed err b]"

lemma finish_attempt_msgs:
  assumes "finish_attempt P retry stop syncErr w = (r, tr, w')"
  shows "attempt_msgs P retry r (syncing_message P # msgs tr)"
proof (cases syncErr)
  case None
  obtain e tr1 w1 where h: "runHooks P (rev (p_Hooks P)) postSuccess w = (e, tr1, w1)" by (metis prod_cases3)
  from assms None h runHooks_msgs [OF h] show ?thesis
    by (cases e) (auto simp: finish_attempt_def split: prod.splits intro: attempt_msgs.intros)
next
  case (Some err)
  obtain e tr1 w1 where h: "runHooks P (rev (p_Hooks P)) postFail w = (e, tr1, w1)" by (metis prod_cases3)
  from assms Some h runHooks_msgs [OF h] show ?thesis
    by (cases e) (auto simp: finish_attempt_def split: prod.splits if_splits intro: attempt_msgs.intros)
qed

text \<open>The stations of an attempt after the pre-exec hooks.\<close>

lemma sync_attempt_split:
  obtains (panic) w1 where "p_Start P w = (StartNil, w1)" and "sync_attempt P retry w = (Leave Panicked, [Run], w1)"
  | (terminate) start w1 ev w2 w3 e where "p_Start P w = (start, w1)" and "p_Wait P (effective_timeout P) w1 = (ev, w2)"
      and "p_Terminate P w2 = (Some e, w3)" and "sync_attempt P retry w = (Leave (Returned (Some e)), [Run, Terminate], w3)"
  | (post) start w1 ev w2 wx syncErr stop tr1 e tr2 wy where "p_Start P w = (start, w1)" and "p_Wait P (effective_timeout P) w1 = (ev, w2)"
      and "wx = w2 \<or> p_Terminate P w2 = (None, wx)" and "syncErr = None \<Longrightarrow> start = StartOk \<and> ev = SyncDone None \<and> wx = w2"
      and "stop \<Longrightarrow> ev = SyncKill" and "msgs tr1 = []" and "runHooks P (rev (p_Hooks P)) postExec wx = (e, tr2, wy)"
      and "sync_attempt P retry w = (case e of Some he \<Rightarrow> (Leave (Returned (Some he)), Run # tr1 @ tr2, wy)
             | None \<Rightarrow> (case finish_attempt P retry stop syncErr wy of (r, tr3, w5) \<Rightarrow> (r, Run # tr1 @ tr2 @ tr3, w5)))"
proof -
  obtain start w1 where s: "p_Start P w = (start, w1)" by (metis surj_pair)
  obtain ev w2 where wt: "p_Wait P (effective_timeout P) w1 = (ev, w2)" by (metis surj_pair)
  obtain te w3 where te: "p_Terminate P w2 = (te, w3)" by (metis surj_pair)
  obtain e2 tr2 wy2 where h2: "runHooks P (rev (p_Hooks P)) postExec w2 = (e2, tr2, wy2)" by (metis prod_cases3)
  obtain e3 tr3 wy3 where h3: "runHooks P (rev (p_Hooks P)) postExec w3 = (e3, tr3, wy3)" by (metis prod_cases3)
  consider (nil) "start = StartNil" | (fin) r where "start \<noteq> StartNil" "ev = SyncDone r"
    | (interrupt) stop err where "start \<noteq> StartNil" "stop \<Longrightarrow> ev = SyncKill"
        "sync_attempt P retry w = (case te of Some e \<Rightarrow> (Leave (Returned (Some e)), [Run, Terminate], w3)
          | None \<Rightarrow> (case e3 of Some he \<Rightarrow> (Leave (Returned (Some he)), Run # [Terminate] @ tr3, wy3)
            | None \<Rightarrow> (case finish_attempt P retry stop (Some err) wy3 of (r, tr, w5) \<Rightarrow> (r, Run # [Terminate] @ tr3 @ tr, w5))))"
    using s wt te h3 by (cases ev; cases "start = StartNil") (fastforce simp: sync_attempt_def Let_def split: option.split)+
  then show thesis
  proof cases
    case nil
    with s show thesis by (intro panic [of w1]) (simp_all add: sync_attempt_def)
  next
    case (fin r)
    let ?err = "case start of StartError e \<Rightarrow> Some e | _ \<Rightarrow> r"
    have "start = StartOk \<and> ev = SyncDone None \<and> w2 = w2" if "?err = None" using that fin by (cases start) simp_all
    with fin s wt h2 show thesis
      by (intro post [of start w1 ev w2 w2 ?err False "[]" e2 tr2 wy2]) (simp_all add: sync_attempt_def Let_def split: option.split)
  next
    case (interrupt stop err)
    with s wt te h3 show thesis
      by (cases te) (auto intro: terminate [of start w1 ev w2 _ w3] post [of start w1 ev w2 w3 "Some err" stop "[Terminate]" e3 tr3 wy3])
  qed
qed

lemma sync_attempt_cases:
  fixes P :: "('h, 'w) mirrorProvider"
  obtains (panic) w' where "sync_attempt P retry w = (Leave Panicked, [Run], w')" and "fst (p_Start P w) = StartNil"
  | (terminate) e w1 w' where "sync_attempt P retry w = (Leave (Returned (Some e)), [Run, Terminate], w')"
      and "p_Terminate P w1 = (Some e, w')"
  | (post_exec) e tr1 tr2 w1 w' where "sync_attempt P retry w = (Leave (Returned (Some e)), Run # tr1 @ tr2, w')"
      and "msgs tr1 = []" and "runHooks P (rev (p_Hooks P)) postExec w1 = (Some e, tr2, w')"
  | (finish) r stop syncErr tr1 tr2 tr3 w1 w2 w' where "sync_attempt P retry w = (r, Run # tr1 @ tr2 @ tr3, w')"
      and "msgs tr1 = []" and "runHooks P (rev (p_Hooks P)) postExec w1 = (None, tr2, w2)"
      and "finish_attempt P retry stop syncErr w2 = (r, tr3, w')"
      and "stop \<Longrightarrow> \<exists>t w. fst (p_Wait P t w) = SyncKill"
      and "w1 = snd (p_Wait P (effective_timeout P) (snd (p_Start P w))) \<or>
        w1 = snd (p_Terminate P (snd (p_Wait P (effective_timeout P) (snd (p_Start P w)))))"
proof (cases rule: sync_attempt_split [of P w retry])
  case (post start w1 ev w2 wx syncErr stop tr1 e tr2 wy)
  have wx: "wx = snd (p_Wait P (effective_timeout P) (snd (p_Start P w))) \<or>
      wx = snd (p_Terminate P (snd (p_Wait P (effective_timeout P) (snd (p_Start P w)))))"
    using post(1-3) by auto
  show thesis
  proof (cases e)
    case (Some he)
    with post(6-8) show thesis by (intro post_exec [of he tr1 tr2 wy wx]) simp_all
  next
    case None
    obtain r' tr3 w5 where f: "finish_attempt P retry stop syncErr wy = (r', tr3, w5)" by (metis prod_cases3)
    have "\<exists>t w. fst (p_Wait P t w) = SyncKill" if stop
      using post(5) [OF that] post(2) by (metis fst_conv)
    with None f wx post(6-8) show thesis by (intro finish [of r' tr1 tr2 tr3 w5 wx wy stop syncErr]) simp_all
  qed
qed (simp_all add: panic terminate)

lemma sync_attempt_msgs:
  assumes "sync_attempt P retry w = (r, tr, w')"
  shows "attempt_msgs P retry r (syncing_message P # msgs tr)"
proof (cases rule: sync_attempt_cases [of P retry w])
  case (post_exec e tr1 tr2 w1 w2)
  with assms runHooks_msgs [OF post_exec(3)] show ?thesis by (auto intro: attempt_msgs.intros)
next
  case (finish r1 stop syncErr tr1 tr2 tr3 w1 w2 w3)
  with assms runHooks_msgs [OF finish(3)] finish_attempt_msgs [OF finish(4)] show ?thesis by auto
qed (use assms in \<open>auto intro: attempt_msgs.intros\<close>)

lemma attempt_attempt_msgs:
  assumes "attempt P retry w = (r, tr, w')"
  shows "attempt_msgs P retry r (msgs tr)"
proof -
  obtain e tr1 w1 where h: "runHooks P (p_Hooks P) preExec w = (e, tr1, w1)" by (metis prod_cases3)
  obtain r' tr2 w2 where sy: "sync_attempt P retry w1 = (r', tr2, w2)" by (metis prod_cases3)
  from assms h sy runHooks_msgs [OF h] sync_attempt_msgs [OF sy] show ?thesis
    by (auto simp: attempt_def split: option.splits intro: attempt_msgs.intros)
qed

lemma attempt_cases:
  obtains (leave) r tr w' where "attempt P retry w = (Leave r, tr, w')" and "attempt_msgs P retry (Leave r) (msgs tr)"
  | (again) tr w' err b where "attempt P retry w = (NextRetry, tr, w')" and "(b \<longrightarrow> retry = p_Retry P - 1)"
      and "msgs tr = [syncing_message P, status_message P Failed err b]"
proof -
  obtain r tr w' where a: "attempt P retry w = (r, tr, w')" by (metis prod_cases3)
  from attempt_attempt_msgs [OF a] a that show thesis
    by (cases r) (auto elim: attempt_msgs.cases)
qed

lemma retry_loop_end: "\<not> retry < p_Retry P \<Longrightarrow> retry_loop P retry w = (Returned None, [], w)"
  by (simp add: retry_loop.simps)

lemma retry_loop_leave:
  "retry < p_Retry P \<Longrightarrow> attempt P retry w = (Leave r, tr, w') \<Longrightarrow> retry_loop P retry w = (r, tr, w')"
  by (simp add: retry_loop.simps)

lemma retry_loop_next:
  "retry < p_Retry P \<Longrightarrow> attempt P retry w = (NextRetry, tr, w') \<Longrightarrow>
    retry_loop P retry w = (case retry_loop P (retry + 1) w' of (r, tr', w'') \<Rightarrow> (r, tr @ tr', w''))"
  by (subst retry_loop.simps) simp

text \<open>Rule for properties of the messages of the loop: what holds of every attempt and is kept by another
  attempt in front holds of the loop.\<close>

lemma retry_loop_rule [consumes 1, case_names stop leave again]:
  assumes "retry_loop P retry w = (r, tr, w')"
    and "\<And>retry. \<not> retry < p_Retry P \<Longrightarrow> Q retry (Returned None) []"
    and "\<And>retry r ms. retry < p_Retry P \<Longrightarrow> attempt_msgs P retry (Leave r) ms \<Longrightarrow> Q retry r ms"
    and "\<And>retry r ms err b. retry < p_Retry P \<Longrightarrow> (b \<longrightarrow> retry = p_Retry P - 1) \<Longrightarrow>
      (\<not> retry + 1 < p_Retry P \<longrightarrow> ms = []) \<Longrightarrow> Q (retry + 1) r ms \<Longrightarrow>
      Q retry r (syncing_message P # status_message P Failed err b # ms)"
  shows "Q retry r (msgs tr)"
  using assms(1)
proof (induction P\<equiv>P retry w arbitrary: r tr w' rule: retry_loop.induct)
  case (1 retry w)
  show ?case
  proof (cases "retry < p_Retry P")
    case False
    with 1(2) assms(2) show ?thesis by (simp add: retry_loop_end)
  next
    case True
    from attempt_cases [of P retry w] show ?thesis
    proof cases
      case (leave r1 tr1 w1)
      with 1(2) True assms(3) show ?thesis by (simp add: retry_loop_leave)
    next
      case (again tr1 w1 err b)
      obtain r2 tr2 w2 where l: "retry_loop P (retry + 1) w1 = (r2, tr2, w2)" by (metis prod_cases3)
      with 1(2) retry_loop_next [OF True again(1)] have eq: "r = r2" "tr = tr1 @ tr2" by simp_all
      have "Q (retry + 1) r2 (msgs tr2)" using 1(1) [OF True again(1) [symmetric] refl refl l] .
      moreover have "\<not> retry + 1 < p_Retry P \<longrightarrow> msgs tr2 = []" using l by (auto simp: retry_loop_end)
      ultimately show ?thesis using assms(4) [OF True again(2)] again(3) eq by simp
    qed
  qed
qed

lemma attempt_msgs_simps [simp]:
  "jm_status (status_message P st msg b) = st" "jm_schedule (status_message P st msg b) = b"
  "jm_name (status_message P st msg b) = p_Name P" "jm_msg (status_message P st msg b) = msg"
  "jm_status (hook_message n a e) = Failed" "jm_schedule (hook_message n a e)" "jm_name (hook_message n a e) = n"
  by (simp_all add: status_message_def hook_message_def)

lemma retry_loop_schedule:
  assumes "retry_loop P retry w = (r, tr, w')"
  shows "\<forall>m\<in>set (butlast (msgs tr)). \<not> jm_schedule m"
  using assms by (induction rule: retry_loop_rule) (auto elim!: attempt_msgs.cases)

lemma retry_loop_syncing:
  assumes "retry_loop P retry w = (r, tr, w')"
  shows "length (filter (\<lambda>m. jm_status m = Syncing) (msgs tr)) \<le> nat (p_Retry P - retry)"
  using assms by (induction rule: retry_loop_rule) (auto elim!: attempt_msgs.cases)

lemma retry_loop_names:
  assumes "retry_loop P retry w = (r, tr, w')"
  shows "\<forall>m\<in>set (msgs tr). jm_name m = p_Name P \<and> jm_status m \<in> {Syncing, Success, Failed}"
  using assms by (induction rule: retry_loop_rule) (auto elim!: attempt_msgs.cases)

lemma retry_loop_terminal:
  assumes "retry_loop P retry w = (r, tr, w')"
  shows "retry < p_Retry P \<longrightarrow> msgs tr \<noteq> [] \<and> (r = Returned None \<longrightarrow> jm_status (last (msgs tr)) \<in> {Success, Failed})"
  using assms by (induction rule: retry_loop_rule) (auto elim!: attempt_msgs.cases)

lemma runJobWrapper_cases:
  obtains (pre_job) e tr w' where "runJobWrapper P w = (Returned (Some e), tr, w')"
      and "msgs tr = [status_message P PreSyncing '''' False, hook_message (p_Name P) preJob e]"
  | (loop) r tr0 tr w1 w' where "runJobWrapper P w = (r, Msg (status_message P PreSyncing '''' False) # tr0 @ tr, w')"
      and "msgs tr0 = []" and "retry_loop P 0 w1 = (r, tr, w')"
proof -
  obtain e tr0 w1 where h: "runHooks P (p_Hooks P) preJob w = (e, tr0, w1)" by (metis prod_cases3)
  obtain r tr w' where l: "retry_loop P 0 w1 = (r, tr, w')" by (metis prod_cases3)
  show thesis
  proof (cases e)
    case None
    with h l runHooks_msgs [OF h] show thesis by (intro loop [OF _ _ l]) (simp_all add: runJobWrapper_def)
  next
    case (Some err)
    with h runHooks_msgs [OF h] show thesis
      by (intro pre_job [of err "Msg (status_message P PreSyncing '''' False) # tr0" w1]) (simp_all add: runJobWrapper_def)
  qed
qed

subsection \<open>Properties of a run\<close>

text \<open>C25.  The messages of one run: they all carry the job's name; the first is \<open>PreSyncing\<close>, the
  others are \<open>Syncing\<close>, \<open>Success\<close> or \<open>Failed\<close>; there are at most as many \<open>Syncing\<close> as the
  provider allows retries; and at most one message, the last, asks for the job to be scheduled again,
  so that a run never schedules its job twice.\<close>

theorem runJobWrapper_messages:
  assumes "runJobWrapper P w = (r, tr, w')"
  shows "\<exists>ms. msgs tr = status_message P PreSyncing '''' False # ms \<and>
    (\<forall>m\<in>set ms. jm_name m = p_Name P \<and> jm_status m \<in> {Syncing, Success, Failed}) \<and>
    length (filter (\<lambda>m. jm_status m = Syncing) ms) \<le> nat (p_Retry P) \<and>
    (\<forall>m\<in>set (butlast (msgs tr)). \<not> jm_schedule m)"
proof (cases rule: runJobWrapper_cases [of P w])
  case (pre_job e tr1 w1)
  with assms show ?thesis by simp
next
  case (loop r1 tr0 tr1 w1 w2)
  from retry_loop_schedule [OF loop(3)] retry_loop_syncing [OF loop(3)] retry_loop_names [OF loop(3)] loop(1,2) assms
  show ?thesis by (auto simp: butlast_append)
qed

text \<open>A provider without hooks whose first attempt fails and whose second one succeeds; the world counts
  the attempts.\<close>

definition ex_provider :: "(unit, nat) mirrorProvider" where
  "ex_provider = \<lparr>p_Name = ''m'', p_Retry = 2, p_Timeout = 0, p_Hooks = [()], p_Action = (\<lambda>_ _ w. (None, w)),
     p_Start = (\<lambda>w. (StartOk, w)), p_Wait = (\<lambda>_ w. (SyncDone (if w = 0 then Some ''exit status 1'' else None), Suc w)),
     p_Terminate = (\<lambda>w. (None, w)), p_DataSize = (\<lambda>w. (''1G'', w)), p_State = (\<lambda>w. (stateReady, w))\<rparr>"

lemmas attempt_eval = attempt_def sync_attempt_def finish_attempt_def effective_timeout_def Let_def

lemma ex_provider_run: "\<exists>tr. runJobWrapper ex_provider 0 = (Returned None, tr, 2) \<and>
    map jm_status (msgs tr) = [PreSyncing, Syncing, Failed, Syncing, Success]"
proof -
  obtain tr1 where t1: "attempt ex_provider 0 0 = (NextRetry, tr1, 1)" "map jm_status (msgs tr1) = [Syncing, Failed]"
    by (simp add: ex_provider_def attempt_eval)
  obtain tr2 where t2: "attempt ex_provider 1 1 = (Leave (Returned None), tr2, 2)" "map jm_status (msgs tr2) = [Syncing, Success]"
    by (simp add: ex_provider_def attempt_eval)
  have n: "p_Retry ex_provider = 2" by (simp add: ex_provider_def)
  have "retry_loop ex_provider 1 1 = (Returned None, tr2, 2)"
    using t2(1) by (intro retry_loop_leave) (simp_all add: n)
  moreover have "retry_loop ex_provider 0 0 =
      (case retry_loop ex_provider (0 + 1) 1 of (r, tr', w'') \<Rightarrow> (r, tr1 @ tr', w''))"
    by (rule retry_loop_next [OF _ t1(1)]) (simp add: n)
  ultimately have "retry_loop ex_provider 0 0 = (Returned None, tr1 @ tr2, 2)" by simp
  moreover have "runHooks ex_provider (p_Hooks ex_provider) preJob 0 = (None, [Hook preJob ()], 0)" by (simp add: ex_provider_def)
  ultimately show ?thesis using t1(2) t2(2) by (simp add: runJobWrapper_def)
qed

theorem runJobWrapper_messages_witness:
  "\<exists>tr. runJobWrapper ex_provider 0 = (Returned None, tr, 2) \<and>
    (\<exists>ms. msgs tr = status_message ex_provider PreSyncing '''' False # ms \<and>
    (\<forall>m\<in>set ms. jm_name m = p_Name ex_provider \<and> jm_status m \<in> {Syncing, Success, Failed}) \<and>
    length (filter (\<lambda>m. jm_status m = Syncing) ms) \<le> nat (p_Retry ex_provider) \<and>
    (\<forall>m\<in>set (butlast (msgs tr)). \<not> jm_schedule m))"
proof -
  from ex_provider_run obtain tr where tr: "runJobWrapper ex_provider 0 = (Returned None, tr, 2)" by blast
  from tr runJobWrapper_messages [OF tr] show ?thesis by (intro exI [of _ tr] conjI)
qed

text \<open>A run that returns without an error has reported a result: when the provider allows at least
  one attempt and the run returns \<open>nil\<close>, its last message is \<open>Success\<close> or \<open>Failed\<close>.\<close>

theorem runJobWrapper_reports_result:
  assumes "runJobWrapper P w = (Returned None, tr, w')" and "0 < p_Retry P"
  shows "jm_status (last (msgs tr)) \<in> {Success, Failed}"
proof (cases rule: runJobWrapper_cases [of P w])
  case (pre_job e tr1 w1)
  with assms show ?thesis by simp
next
  case (loop r1 tr0 tr1 w1 w2)
  with retry_loop_terminal [OF loop(3)] assms show ?thesis by auto
qed

theorem runJobWrapper_reports_result_witness:
  "\<exists>tr. runJobWrapper ex_provider 0 = (Returned None, tr, 2) \<and> jm_status (last (msgs tr)) \<in> {Success, Failed}"
proof -
  from ex_provider_run obtain tr where tr: "runJobWrapper ex_provider 0 = (Returned None, tr, 2)" by blast
  have "0 < p_Retry ex_provider" by (simp add: ex_provider_def)
  from runJobWrapper_reports_result [OF tr this] tr show ?thesis by blast
qed

subsubsection \<open>A job that is left alone\<close>

definition left_alone :: "('h, 'w) mirrorProvider \<Rightarrow> bool" where
  "left_alone P \<longleftrightarrow> (\<forall>w. fst (p_State P w) = stateReady) \<and> (\<forall>t w. fst (p_Wait P t w) \<noteq> SyncKill) \<and>
     (\<forall>w. fst (p_Terminate P w) = None) \<and> (\<forall>w. fst (p_Start P w) \<noteq> StartNil)"

text \<open>An attempt of such a job asks for the next run, or is not the last.\<close>

definition asks_again :: "('h, 'w) mirrorProvider \<Rightarrow> int \<Rightarrow> attempt_end \<Rightarrow> jobMessage list \<Rightarrow> bool" where
  "asks_again P retry r ms \<longleftrightarrow> ms \<noteq> [] \<and>
     (case r of
        NextRetry \<Rightarrow> retry = p_Retry P - 1 \<longrightarrow> jm_schedule (last ms) \<and> jm_status (last ms) = Failed
      | Leave re \<Rightarrow> re \<noteq> Panicked \<and> jm_schedule (last ms) \<and> jm_status (last ms) \<in> {Success, Failed})"

lemma finish_attempt_left_alone:
  assumes "finish_attempt P retry False syncErr w = (r, tr, w')" and "left_alone P"
  shows "asks_again P retry r (msgs tr)"
proof (cases syncErr)
  case None
  obtain e tr1 w1 where h: "runHooks P (rev (p_Hooks P)) postSuccess w = (e, tr1, w1)" by (metis prod_cases3)
  have "st = stateReady" if "p_State P w2 = (st, w3)" for st w2 w3 using assms(2) that by (metis fst_conv left_alone_def)
  with assms None h runHooks_msgs [OF h] show ?thesis
    by (cases e) (auto simp: finish_attempt_def asks_again_def split: prod.splits)
next
  case (Some err)
  obtain e tr1 w1 where h: "runHooks P (rev (p_Hooks P)) postFail w = (e, tr1, w1)" by (metis prod_cases3)
  have "st = stateReady" if "p_State P w2 = (st, w3)" for st w2 w3 using assms(2) that by (metis fst_conv left_alone_def)
  with assms Some h runHooks_msgs [OF h] show ?thesis
    by (cases e) (auto simp: finish_attempt_def asks_again_def split: prod.splits if_splits)
qed

lemma attempt_left_alone:
  assumes "attempt P retry w = (r, tr, w')" and "left_alone P"
  shows "asks_again P retry r (msgs tr)"
proof -
  obtain e tr1 w1 where h: "runHooks P (p_Hooks P) preExec w = (e, tr1, w1)" by (metis prod_cases3)
  show ?thesis
  proof (cases e)
    case (Some err)
    with assms h runHooks_msgs [OF h] show ?thesis by (auto simp: attempt_def asks_again_def)
  next
    case None
    show ?thesis
    proof (cases rule: sync_attempt_cases [of P retry w1])
      case (panic w2)
      with assms(2) show ?thesis by (simp add: left_alone_def)
    next
      case (terminate e2 w2 w3)
      with assms(2) show ?thesis by (metis fst_conv left_alone_def option.distinct(1))
    next
      case (post_exec e2 tr2 tr3 w2 w3)
      with assms h None runHooks_msgs [OF post_exec(3)] runHooks_msgs [OF h] show ?thesis
        by (auto simp: attempt_def asks_again_def)
    next
      case (finish r2 stop syncErr tr2 tr3 tr4 w2 w3 w4)
      then have "\<not> stop" using assms(2) by (auto simp: left_alone_def)
      with finish(4) finish_attempt_left_alone [OF _ assms(2)] have "asks_again P retry r2 (msgs tr4)" by simp
      with assms h None finish(1,2) runHooks_msgs [OF finish(3)] runHooks_msgs [OF h] show ?thesis
        by (auto simp: attempt_def asks_again_def split: attempt_end.splits)
    qed
  qed
qed

lemma retry_loop_left_alone:
  assumes "left_alone P" and "retry < p_Retry P" and "retry_loop P retry w = (r, tr, w')"
  shows "r \<noteq> Panicked \<and> msgs tr \<noteq> [] \<and> jm_schedule (last (msgs tr)) \<and> jm_status (last (msgs tr)) \<in> {Success, Failed}"
  using assms(2,3)
proof (induction P\<equiv>P retry w arbitrary: r tr w' rule: retry_loop.induct)
  case (1 retry w)
  from attempt_cases [of P retry w] show ?case
  proof cases
    case (leave r1 tr1 w1)
    with 1(2,3) attempt_left_alone [OF leave(1) assms(1)] show ?thesis by (simp add: retry_loop_leave asks_again_def)
  next
    case (again tr1 w1 err b)
    obtain r2 tr2 w2 where l: "retry_loop P (retry + 1) w1 = (r2, tr2, w2)" by (metis prod_cases3)
    with 1(3) retry_loop_next [OF 1(2) again(1)] have eq: "r = r2" "tr = tr1 @ tr2" by simp_all
    show ?thesis
    proof (cases "retry + 1 < p_Retry P")
      case True
      from 1(1) [OF 1(2) again(1) [symmetric] refl refl True l] eq show ?thesis by simp
    next
      case False
      with l 1(2) attempt_left_alone [OF again(1) assms(1)] eq show ?thesis
        by (auto simp: retry_loop_end asks_again_def)
    qed
  qed
qed

text \<open>A job that is left alone schedules itself again: when the job stays ready, nobody kills it,
  terminating the provider works and at least one attempt is allowed, a run never panics, and its last
  message is \<open>Success\<close> or \<open>Failed\<close> and asks for the next run, whatever the hooks and the provider
  do.\<close>

theorem runJobWrapper_asks_again:
  assumes "left_alone P" and "0 < p_Retry P"
  shows "\<exists>e tr w'. runJobWrapper P w = (Returned e, tr, w') \<and> jm_schedule (last (msgs tr)) \<and>
    jm_status (last (msgs tr)) \<in> {Success, Failed}"
proof (cases rule: runJobWrapper_cases [of P w])
  case (pre_job e tr w')
  then show ?thesis by simp
next
  case (loop r tr0 tr w1 w')
  from retry_loop_left_alone [OF assms loop(3)] loop(1,2) show ?thesis by (cases r) auto
qed

theorem runJobWrapper_asks_again_witness:
  "\<exists>e tr w'. runJobWrapper ex_provider 0 = (Returned e, tr, w') \<and> jm_schedule (last (msgs tr)) \<and>
    jm_status (last (msgs tr)) \<in> {Success, Failed}"
  by (rule runJobWrapper_asks_again) (simp_all add: left_alone_def ex_provider_def)

text \<open>A provider that cannot be terminated takes its job out of the schedule: when the first attempt
  times out and \<open>Terminate\<close> fails, the run returns the error with \<open>Syncing\<close> as its last message, and
  no message asks for the next run.\<close>

theorem terminate_failure_unscheduled:
  assumes "0 < p_Retry P" and "p_Hooks P = []" and "p_Start P w = (StartOk, w1)"
    and "p_Wait P (effective_timeout P) w1 = (SyncTimeout, w2)" and "p_Terminate P w2 = (Some e, w3)"
  shows "\<exists>tr. runJobWrapper P w = (Returned (Some e), tr, w3) \<and> map jm_status (msgs tr) = [PreSyncing, Syncing] \<and>
    (\<forall>m\<in>set (msgs tr). \<not> jm_schedule m)"
proof -
  have a: "attempt P 0 w = (Leave (Returned (Some e)), [Msg (syncing_message P), Run, Terminate], w3)"
    using assms(2-5) by (simp add: attempt_def sync_attempt_def Let_def)
  from retry_loop_leave [OF assms(1) a] assms(2) show ?thesis by (simp add: runJobWrapper_def)
qed

theorem terminate_failure_unscheduled_witness:
  "\<exists>tr. runJobWrapper (ex_provider\<lparr>p_Hooks := [], p_Wait := (\<lambda>_ w. (SyncTimeout, w)), p_Terminate := (\<lambda>w. (Some ''no such process'', w))\<rparr>) 0 =
      (Returned (Some ''no such process''), tr, 0) \<and> map jm_status (msgs tr) = [PreSyncing, Syncing] \<and>
    (\<forall>m\<in>set (msgs tr). \<not> jm_schedule m)"
  by (rule terminate_failure_unscheduled) (simp_all add: ex_provider_def)

text \<open>A provider that finishes without an error before its start is noticed crashes the worker: the
  first \<open>select\<close> may receive the \<open>nil\<close> of \<open>syncDone\<close>, whose \<open>Error\<close> method it calls.\<close>

theorem early_success_panics:
  assumes "0 < p_Retry P" and "p_Hooks P = []" and "p_Start P w = (StartNil, w1)"
  shows "\<exists>tr. runJobWrapper P w = (Panicked, tr, w1)"
proof -
  have a: "attempt P 0 w = (Leave Panicked, [Msg (syncing_message P), Run], w1)"
    using assms(2,3) by (simp add: attempt_def sync_attempt_def)
  from retry_loop_leave [OF assms(1) a] assms(2) show ?thesis by (simp add: runJobWrapper_def)
qed

theorem early_success_panics_witness:
  "\<exists>tr. runJobWrapper (ex_provider\<lparr>p_Hooks := [], p_Start := (\<lambda>w. (StartNil, w))\<rparr>) 0 = (Panicked, tr, 0)"
  by (rule early_success_panics) (simp_all add: ex_provider_def)

subsubsection \<open>Hooks that do not fail\<close>

lemma runHooks_ok:
  assumes "\<forall>a h w. fst (p_Action P a h w) = None"
  shows "\<exists>w'. runHooks P hs a w = (None, map (Hook a) hs, w')"
proof (induction hs arbitrary: w)
  case (Cons h hs)
  obtain w1 where "p_Action P a h w = (None, w1)" using assms by (metis prod.collapse)
  moreover from Cons obtain w2 where "runHooks P hs a w1 = (None, map (Hook a) hs, w2)" by blast
  ultimately show ?case by simp
qed simp

text \<open>The order of the hooks around a successful synchronisation: after \<open>PreSyncing\<close> the pre-job and
  then the pre-exec hooks run in the order of the provider's list, then the provider, then the post-exec
  and the post-success hooks in the reverse order; the size is recorded before \<open>Success\<close> is
  reported.\<close>

theorem successful_run_trace:
  assumes "\<forall>a h w. fst (p_Action P a h w) = None" and "0 < p_Retry P"
    and "\<forall>w. fst (p_Start P w) = StartOk" and "\<forall>t w. fst (p_Wait P t w) = SyncDone None"
  shows "\<exists>sz b w'. runJobWrapper P w = (Returned None,
    [Msg (status_message P PreSyncing '''' False)] @ map (Hook preJob) (p_Hooks P) @ map (Hook preExec) (p_Hooks P) @
    [Msg (status_message P Syncing '''' False), Run] @ map (Hook postExec) (rev (p_Hooks P)) @
    map (Hook postSuccess) (rev (p_Hooks P)) @ [SetSize sz, Msg (status_message P Success '''' b)], w')"
proof -
  note hooks = runHooks_ok [OF assms(1)]
  obtain w1 where w1: "runHooks P (p_Hooks P) preJob w = (None, map (Hook preJob) (p_Hooks P), w1)" using hooks by blast
  obtain w2 where w2: "runHooks P (p_Hooks P) preExec w1 = (None, map (Hook preExec) (p_Hooks P), w2)" using hooks by blast
  obtain w3 where w3: "p_Start P w2 = (StartOk, w3)" using assms(3) by (metis prod.collapse)
  obtain w4 where w4: "p_Wait P (effective_timeout P) w3 = (SyncDone None, w4)" using assms(4) by (metis prod.collapse)
  obtain w5 where w5: "runHooks P (rev (p_Hooks P)) postExec w4 = (None, map (Hook postExec) (rev (p_Hooks P)), w5)"
    using hooks by blast
  obtain w6 where w6: "runHooks P (rev (p_Hooks P)) postSuccess w5 = (None, map (Hook postSuccess) (rev (p_Hooks P)), w6)"
    using hooks by blast
  obtain sz w7 st w8 where w8: "p_DataSize P w6 = (sz, w7)" "p_State P w7 = (st, w8)" by (metis surj_pair)
  have a: "attempt P 0 w1 = (Leave (Returned None), map (Hook preExec) (p_Hooks P) @
      [Msg (status_message P Syncing '''' False), Run] @ map (Hook postExec) (rev (p_Hooks P)) @
      map (Hook postSuccess) (rev (p_Hooks P)) @ [SetSize sz, Msg (status_message P Success '''' (st = stateReady))], w8)"
    using w2 w3 w4 w5 w6 w8 by (simp add: attempt_def sync_attempt_def finish_attempt_def Let_def)
  from retry_loop_leave [OF assms(2) a] w1 show ?thesis by (auto simp: runJobWrapper_def)
qed

theorem successful_run_trace_witness:
  "\<exists>sz b w'. runJobWrapper (ex_provider\<lparr>p_Hooks := [(), ()], p_Wait := (\<lambda>_ w. (SyncDone None, w))\<rparr>) 0 = (Returned None,
    [Msg (status_message ex_provider PreSyncing '''' False), Hook preJob (), Hook preJob (), Hook preExec (), Hook preExec (),
     Msg (status_message ex_provider Syncing '''' False), Run, Hook postExec (), Hook postExec (), Hook postSuccess (), Hook postSuccess (),
     SetSize sz, Msg (status_message ex_provider Success '''' b)], w')"
  using successful_run_trace [of "ex_provider\<lparr>p_Hooks := [(), ()], p_Wait := (\<lambda>_ w. (SyncDone None, w))\<rparr>" 0]
  by (simp add: ex_provider_def status_message_def)

text \<open>The messages of an attempt that fails without being killed.\<close>

lemma attempt_fails:
  assumes "\<forall>a h w. fst (p_Action P a h w) = None" and "\<forall>w. fst (p_Start P w) = StartOk"
    and "\<forall>t w. fst (p_Wait P t w) = SyncDone (Some err)" and "\<forall>w. fst (p_State P w) = st"
  shows "\<exists>tr w'. attempt P retry w = (NextRetry, tr, w') \<and>
    msgs tr = [syncing_message P, status_message P Failed err (retry = p_Retry P - 1 \<and> st = stateReady)]"
proof -
  note hooks = runHooks_ok [OF assms(1)]
  have no_msgs: "msgs (map (Hook a) hs) = []" for a and hs :: "'a list" by (induction hs) simp_all
  obtain w2 where w2: "runHooks P (p_Hooks P) preExec w = (None, map (Hook preExec) (p_Hooks P), w2)" using hooks by blast
  obtain w3 where w3: "p_Start P w2 = (StartOk, w3)" using assms(2) by (metis prod.collapse)
  obtain w4 where w4: "p_Wait P (effective_timeout P) w3 = (SyncDone (Some err), w4)" using assms(3) by (metis prod.collapse)
  obtain w5 where w5: "runHooks P (rev (p_Hooks P)) postExec w4 = (None, map (Hook postExec) (rev (p_Hooks P)), w5)"
    using hooks by blast
  obtain w6 where w6: "runHooks P (rev (p_Hooks P)) postFail w5 = (None, map (Hook postFail) (rev (p_Hooks P)), w6)"
    using hooks by blast
  obtain w7 where w7: "p_State P w6 = (st, w7)" using assms(4) by (metis prod.collapse)
  show ?thesis using w2 w3 w4 w5 w6 w7 by (auto simp: attempt_def sync_attempt_def finish_attempt_def Let_def no_msgs)
qed

lemma retry_loop_fails:
  assumes "\<And>retry w. \<exists>tr w'. attempt P retry w = (NextRetry, tr, w') \<and>
    msgs tr = [syncing_message P, status_message P Failed err (retry = p_Retry P - 1 \<and> st = stateReady)]"
    and "p_Retry P - retry = 1 + int n"
  shows "\<exists>tr w'. retry_loop P retry w = (Returned None, tr, w') \<and>
    msgs tr = concat (replicate n [syncing_message P, status_message P Failed err False]) @
      [syncing_message P, status_message P Failed err (st = stateReady)]"
  using assms(2)
proof (induction n arbitrary: retry w)
  case 0
  then have r: "retry < p_Retry P" "\<not> retry + 1 < p_Retry P" "retry = p_Retry P - 1" by simp_all
  from assms(1) [of retry w] obtain tr w' where "attempt P retry w = (NextRetry, tr, w')"
    "msgs tr = [syncing_message P, status_message P Failed err (retry = p_Retry P - 1 \<and> st = stateReady)]" by blast
  with r show ?case by (simp add: retry_loop_next retry_loop_end)
next
  case (Suc n)
  then have r: "retry < p_Retry P" "retry \<noteq> p_Retry P - 1" "p_Retry P - (retry + 1) = 1 + int n" by simp_all
  from assms(1) [of retry w] obtain tr w' where a: "attempt P retry w = (NextRetry, tr, w')"
    "msgs tr = [syncing_message P, status_message P Failed err (retry = p_Retry P - 1 \<and> st = stateReady)]" by blast
  from Suc.IH [OF r(3), of w'] obtain tr' w'' where "retry_loop P (retry + 1) w' = (Returned None, tr', w'')"
    "msgs tr' = concat (replicate n [syncing_message P, status_message P Failed err False]) @
      [syncing_message P, status_message P Failed err (st = stateReady)]" by blast
  with a r show ?case by (simp add: retry_loop_next)
qed

text \<open>A synchronisation that keeps failing is attempted exactly as often as the provider allows: every
  attempt reports \<open>Syncing\<close> and \<open>Failed\<close>, and only the last report asks for the next run, if the
  job is still ready.\<close>

theorem failing_run_retries:
  assumes "\<forall>a h w. fst (p_Action P a h w) = None" and "\<forall>w. fst (p_Start P w) = StartOk"
    and "\<forall>t w. fst (p_Wait P t w) = SyncDone (Some err)" and "\<forall>w. fst (p_State P w) = st" and "p_Retry P = 1 + int n"
  shows "\<exists>tr w'. runJobWrapper P w = (Returned None, tr, w') \<and>
    msgs tr = status_message P PreSyncing '''' False #
      concat (replicate n [status_message P Syncing '''' False, status_message P Failed err False]) @
      [status_message P Syncing '''' False, status_message P Failed err (st = stateReady)]"
proof -
  obtain w1 where w1: "runHooks P (p_Hooks P) preJob w = (None, map (Hook preJob) (p_Hooks P), w1)"
    using runHooks_ok [OF assms(1)] by blast
  have "p_Retry P - 0 = 1 + int n" using assms(5) by simp
  from retry_loop_fails [OF attempt_fails [OF assms(1-4)] this, of w1] w1 runHooks_msgs [OF w1] show ?thesis
    by (auto simp: runJobWrapper_def)
qed

theorem failing_run_retries_witness:
  "\<exists>tr w'. runJobWrapper (ex_provider\<lparr>p_Wait := (\<lambda>_ w. (SyncDone (Some ''x''), w))\<rparr>) 0 = (Returned None, tr, w') \<and>
    map jm_status (msgs tr) = [PreSyncing, Syncing, Failed, Syncing, Failed] \<and> map jm_schedule (msgs tr) = [False, False, False, False, True]"
  using failing_run_retries [of "ex_provider\<lparr>p_Wait := (\<lambda>_ w. (SyncDone (Some ''x''), w))\<rparr>" "''x''" stateReady 1 0]
  by (auto simp: ex_provider_def)

end
