(* ===== verification/Provider.thy ===== *)
theory Provider
  imports Worker_Config Layered_Context Mirror_Job
begin

section \<open>Mirror providers (worker/provider.go, base_provider.go, cmd_provider.go, rsync_provider.go,
  two_stage_rsync_provider.go, runner.go, docker.go)\<close>

text \<open>
  A provider is the record \<open>baseProvider\<close> with what its kind adds.  Constructors return an error or
  the provider; \<open>newMirrorProvider\<close> panics (\<open>None\<close>) where the code does.  \<open>shlex.Split\<close>,
  \<open>regexp.Compile\<close> and the template package (used for the log directory) are parameters, collected
  in \<open>prov_env\<close>; \<open>filepath.Join\<close> is defined.  Maps are lists of their entries.  The constructors of
  the rsync providers write \<open>USER\<close> and \<open>RSYNC_PASSWORD\<close> into the map they are given, which is the
  \<open>Env\<close> of the mirror's configuration; \<open>newMirrorProvider\<close> therefore also returns the
  configuration as it leaves it.
\<close>

subsection \<open>Paths\<close>

text \<open>\<open>path.Clean\<close>: the elements kept so far, last first.\<close>

fun clean_elems :: "bool \<Rightarrow> string list \<Rightarrow> string list \<Rightarrow> string list" where
  "clean_elems rooted [] acc = rev acc"
| "clean_elems rooted (e # es) acc =
     (if e = [] \<or> e = ''.'' then clean_elems rooted es acc
      else if e = ''..'' then
        (case acc of
           a # acc' \<Rightarrow> if a = ''..'' then clean_elems rooted es (e # acc) else clean_elems rooted es acc'
         | [] \<Rightarrow> if rooted then clean_elems rooted es [] else clean_elems rooted es [e])
      else clean_elems rooted es (e # acc))"

definition path_Clean :: "string \<Rightarrow> string" where
  "path_Clean p =
     (let rooted = (case p of c # _ \<Rightarrow> c = CHR ''/'' | [] \<Rightarrow> False);
          r = (if rooted then ''/'' else '''') @ strings_Join (CHR ''/'') (clean_elems rooted (strings_Split (CHR ''/'') p) [])
      in if r = '''' then ''.'' else r)"

definition filepath_Join :: "string list \<Rightarrow> string" where
  "filepath_Join es =
     (case dropWhile (\<lambda>e. e = '''') es of
        [] \<Rightarrow> ''''
      | es' \<Rightarrow> path_Clean (strings_Join (CHR ''/'') es'))"

subsection \<open>Hooks and the base provider\<close>

record dockerHook =
  dh_image :: string
  dh_volumes :: "string list"
  dh_options :: "string list"
  dh_memoryLimit :: int

datatype execOn = execOnSuccess | execOnFailure

datatype jobHook =
    LogLimiter
  | ZfsHook string
  | BtrfsSnapshotHook string
  | DockerHook dockerHook
  | CgroupHook cgroupConfig int
  | ExecPostHook execOn "string list"

text \<open>The values stored in contexts: strings, and the list of docker volumes.\<close>

datatype ctx_value = VStr string | VStrs "string list"

record baseProvider =
  bp_ctx :: "ctx_value Context option"
  bp_name :: string
  bp_interval :: duration
  bp_retry :: int
  bp_timeout :: duration
  bp_isMaster :: bool
  bp_successExitCodes :: "int slice"
  bp_cgroup :: "(cgroupConfig \<times> int) option"
  bp_zfs :: "string option"
  bp_docker :: "dockerHook option"
  bp_hooks :: "jobHook list"

definition WorkingDirKey :: string where "WorkingDirKey = ''working_dir''"
definition LogDirKey :: string where "LogDirKey = ''log_dir''"
definition LogFileKey :: string where "LogFileKey = ''log_file''"

text \<open>\<open>ctx\<close> is \<open>nil\<close> (\<open>None\<close>) after the bottom layer was left; using it then panics.\<close>

definition EnterContext :: "baseProvider \<Rightarrow> baseProvider option" where
  "EnterContext p = map_option (\<lambda>c. p\<lparr>bp_ctx := Some (Enter c)\<rparr>) (bp_ctx p)"

definition ExitContext :: "baseProvider \<Rightarrow> baseProvider option" where
  "ExitContext p = map_option (\<lambda>c. p\<lparr>bp_ctx := fst (Exit c)\<rparr>) (bp_ctx p)"

definition ctx_string :: "string \<Rightarrow> baseProvider \<Rightarrow> string option" where
  "ctx_string key p =
     (case bp_ctx p of
        None \<Rightarrow> None
      | Some c \<Rightarrow> (case Get key c of Some (VStr s) \<Rightarrow> Some s | _ \<Rightarrow> None))"

definition WorkingDir :: "baseProvider \<Rightarrow> string option" where "WorkingDir p = ctx_string WorkingDirKey p"
definition LogDir :: "baseProvider \<Rightarrow> string option" where "LogDir p = ctx_string LogDirKey p"
definition LogFile :: "baseProvider \<Rightarrow> string option" where "LogFile p = ctx_string LogFileKey p"

definition AddHook :: "jobHook \<Rightarrow> baseProvider \<Rightarrow> baseProvider" where
  "AddHook hook p =
     (let p1 = (case hook of
                  CgroupHook cg mem \<Rightarrow> p\<lparr>bp_cgroup := Some (cg, mem)\<rparr>
                | ZfsHook z \<Rightarrow> p\<lparr>bp_zfs := Some z\<rparr>
                | DockerHook d \<Rightarrow> p\<lparr>bp_docker := Some d\<rparr>
                | _ \<Rightarrow> p)
      in p1\<lparr>bp_hooks := bp_hooks p1 @ [hook]\<rparr>)"

definition SetSuccessExitCodes :: "int slice \<Rightarrow> baseProvider \<Rightarrow> baseProvider" where
  "SetSuccessExitCodes codes p =
     p\<lparr>bp_successExitCodes := (case codes of None \<Rightarrow> Some [] | Some l \<Rightarrow> Some l)\<rparr>"

definition GetSuccessExitCodes :: "baseProvider \<Rightarrow> int list" where
  "GetSuccessExitCodes p = (case bp_successExitCodes p of None \<Rightarrow> [] | Some l \<Rightarrow> l)"

definition newDockerHook :: "dockerConfig \<Rightarrow> mirrorConfig \<Rightarrow> dockerHook" where
  "newDockerHook gCfg mCfg =
     (let volumes = elems (dk_Volumes gCfg) @ elems (mc_DockerVolumes mCfg);
          volumes = (if length (mc_ExcludeFile mCfg) > 0
                     then volumes @ [mc_ExcludeFile mCfg @ '':'' @ mc_ExcludeFile mCfg @ '':ro''] else volumes)
      in \<lparr>dh_image = mc_DockerImage mCfg, dh_volumes = volumes,
          dh_options = elems (dk_Options gCfg) @ elems (mc_DockerOptions mCfg),
          dh_memoryLimit = mc_MemoryLimit mCfg\<rparr>)"

definition newBtrfsSnapshotHook :: "string \<Rightarrow> string \<Rightarrow> mirrorConfig \<Rightarrow> jobHook" where
  "newBtrfsSnapshotHook name snapshotPath mirror =
     BtrfsSnapshotHook (if mc_SnapshotPath mirror = '''' then filepath_Join [snapshotPath, name] else mc_SnapshotPath mirror)"

subsection \<open>The kinds of providers\<close>

definition defaultMaxRetry :: int where "defaultMaxRetry = 2"

definition new_base :: "string \<Rightarrow> duration \<Rightarrow> int \<Rightarrow> duration \<Rightarrow> string \<Rightarrow> string \<Rightarrow> string \<Rightarrow> baseProvider" where
  "new_base name interval retry timeout workingDir logDir logFile =
     \<lparr>bp_ctx = Some (Set LogFileKey (VStr logFile) (Set LogDirKey (VStr logDir) (Set WorkingDirKey (VStr workingDir) NewContext))),
      bp_name = name, bp_interval = interval, bp_retry = retry, bp_timeout = timeout, bp_isMaster = False,
      bp_successExitCodes = None, bp_cgroup = None, bp_zfs = None, bp_docker = None, bp_hooks = []\<rparr>"

type_synonym env = "(string \<times> string) list"

text \<open>Writing a key of a map: the entry is replaced in place, or added.\<close>

fun env_put :: "string \<Rightarrow> string \<Rightarrow> env \<Rightarrow> env" where
  "env_put k v [] = [(k, v)]"
| "env_put k v ((k', v') # e) = (if k = k' then (k, v) # e else (k', v') # env_put k v e)"

record cmdConfig =
  cc_name :: string
  cc_upstreamURL :: string
  cc_command :: string
  cc_workingDir :: string
  cc_logDir :: string
  cc_logFile :: string
  cc_interval :: duration
  cc_retry :: int
  cc_timeout :: duration
  cc_env :: "(string \<times> string) slice"
  cc_failOnMatch :: string
  cc_sizePattern :: string

record rsyncConfig =
  rc_name :: string
  rc_rsyncCmd :: string
  rc_stage1Profile :: string
  rc_upstreamURL :: string
  rc_username :: string
  rc_password :: string
  rc_excludeFile :: string
  rc_extraOptions :: "string slice"
  rc_globalOptions :: "string slice"
  rc_overriddenOptions :: "string slice"
  rc_useOverrideOnly :: bool
  rc_rsyncNeverTimeout :: bool
  rc_rsyncTimeoutValue :: int
  rc_rsyncEnv :: "(string \<times> string) slice"
  rc_workingDir :: string
  rc_logDir :: string
  rc_logFile :: string
  rc_useIPv6 :: bool
  rc_useIPv4 :: bool
  rc_interval :: duration
  rc_retry :: int
  rc_timeout :: duration

datatype 'r providerKind =
    CmdProvider cmdConfig "string list" "'r option" "'r option"
  | RsyncProvider rsyncConfig "string list"
  | TwoStageRsyncProvider rsyncConfig "string list" "string list"

record 'r provider =
  pr_base :: baseProvider
  pr_kind :: "'r providerKind"

text \<open>The third-party and template functions.\<close>

record 'r prov_env =
  pe_Split :: "string \<Rightarrow> goerror + string list"
  pe_Compile :: "string \<Rightarrow> goerror + 'r"
  pe_Template :: "string \<Rightarrow> mirrorConfig \<Rightarrow> goerror + string"

definition compile_opt :: "'r prov_env \<Rightarrow> string \<Rightarrow> string \<Rightarrow> goerror + 'r option" where
  "compile_opt E what re =
     (if length re > 0 then
        (case pe_Compile E re of Inl e \<Rightarrow> Inl (what @ '' regexp error: '' @ e) | Inr r \<Rightarrow> Inr (Some r))
      else Inr None)"

definition newCmdProvider :: "'r prov_env \<Rightarrow> cmdConfig \<Rightarrow> goerror + 'r provider" where
  "newCmdProvider E c =
     (let c = (if cc_retry c = 0 then c\<lparr>cc_retry := defaultMaxRetry\<rparr> else c);
          base = new_base (cc_name c) (cc_interval c) (cc_retry c) (cc_timeout c) (cc_workingDir c) (cc_logDir c) (cc_logFile c)
      in case pe_Split E (cc_command c) of
           Inl e \<Rightarrow> Inl e
         | Inr cmd \<Rightarrow>
             (case compile_opt E ''fail-on-match'' (cc_failOnMatch c) of
                Inl e \<Rightarrow> Inl e
              | Inr failOnMatch \<Rightarrow>
                  (case compile_opt E ''size-pattern'' (cc_sizePattern c) of
                     Inl e \<Rightarrow> Inl e
                   | Inr sizePattern \<Rightarrow>
                       Inr \<lparr>pr_base = base, pr_kind = CmdProvider c cmd failOnMatch sizePattern\<rparr>)))"

definition has_suffix_slash :: "string \<Rightarrow> bool" where
  "has_suffix_slash s \<longleftrightarrow> s \<noteq> [] \<and> last s = CHR ''/''"

text \<open>The environment of both rsync providers: the map given, with the credentials written into it.\<close>

definition rsync_env :: "rsyncConfig \<Rightarrow> env" where
  "rsync_env c =
     (let e = elems (rc_rsyncEnv c);
          e = (if rc_username c \<noteq> '''' then env_put ''USER'' (rc_username c) e else e)
      in if rc_password c \<noteq> '''' then env_put ''RSYNC_PASSWORD'' (rc_password c) e else e)"

definition rsync_base_options :: "string list" where
  "rsync_base_options = [''-aHvh'', ''--no-o'', ''--no-g'', ''--stats'', ''--filter'', ''risk .~tmp~/'', ''--exclude'', ''.~tmp~/'']"

definition rsync_delete_options :: "string list" where
  "rsync_delete_options = [''--delete'', ''--delete-after'', ''--delay-updates'']"

definition timeout_options :: "rsyncConfig \<Rightarrow> string list" where
  "timeout_options c =
     (if \<not> rc_rsyncNeverTimeout c
      then [''--timeout='' @ show_int (if rc_rsyncTimeoutValue c > 0 then rc_rsyncTimeoutValue c else 120)] else [])"

definition ip_options :: "rsyncConfig \<Rightarrow> string list" where
  "ip_options c = (if rc_useIPv6 c then [''-6''] else if rc_useIPv4 c then [''-4''] else [])"

definition exclude_options :: "rsyncConfig \<Rightarrow> string list" where
  "exclude_options c = (if rc_excludeFile c \<noteq> '''' then [''--exclude-from'', rc_excludeFile c] else [])"

definition newRsyncProvider :: "rsyncConfig \<Rightarrow> goerror + 'r provider" where
  "newRsyncProvider c =
     (if \<not> has_suffix_slash (rc_upstreamURL c) then Inl ''rsync upstream URL should ends with /''
      else
        (let c = (if rc_retry c = 0 then c\<lparr>rc_retry := defaultMaxRetry\<rparr> else c);
             base = new_base (rc_name c) (rc_interval c) (rc_retry c) (rc_timeout c) (rc_workingDir c) (rc_logDir c) (rc_logFile c);
             p = c\<lparr>rc_rsyncCmd := (if rc_rsyncCmd c = '''' then ''rsync'' else rc_rsyncCmd c), rc_rsyncEnv := Some (rsync_env c)\<rparr>;
             options = (case rc_overriddenOptions c of
                          None \<Rightarrow> rsync_base_options @ rsync_delete_options @ [''--safe-links'']
                        | Some l \<Rightarrow> l)
         in if rc_useOverrideOnly c \<and> rc_overriddenOptions c = None
            then Inl ''rsync_override_only is set but no rsync_override provided''
            else Inr \<lparr>pr_base = base, pr_kind = RsyncProvider p
                   (if rc_useOverrideOnly c then options
                    else options @ timeout_options c @ ip_options c @ exclude_options c @
                         elems (rc_globalOptions c) @ elems (rc_extraOptions c))\<rparr>))"

definition newTwoStageRsyncProvider :: "rsyncConfig \<Rightarrow> goerror + 'r provider" where
  "newTwoStageRsyncProvider c =
     (if \<not> has_suffix_slash (rc_upstreamURL c) then Inl ''rsync upstream URL should ends with /''
      else
        (let c = (if rc_retry c = 0 then c\<lparr>rc_retry := defaultMaxRetry\<rparr> else c);
             base = new_base (rc_name c) (rc_interval c) (rc_retry c) (rc_timeout c) (rc_workingDir c) (rc_logDir c) (rc_logFile c);
             p = c\<lparr>rc_rsyncCmd := (if rc_rsyncCmd c = '''' then ''rsync'' else rc_rsyncCmd c), rc_rsyncEnv := Some (rsync_env c)\<rparr>
         in Inr \<lparr>pr_base = base, pr_kind = TwoStageRsyncProvider p
              (rsync_base_options @ [''--safe-links'']) (rsync_base_options @ rsync_delete_options @ [''--safe-links''])\<rparr>))"

definition rsyncStage1Profiles :: "(string \<times> string list) list" where
  "rsyncStage1Profiles =
     [(''debian'',
       [''--include=*.diff/'', ''--include=by-hash/'', ''--exclude=*.diff/Index'', ''--exclude=Contents*'',
        ''--exclude=Packages*'', ''--exclude=Sources*'', ''--exclude=Release*'', ''--exclude=InRelease'',
        ''--exclude=i18n/*'', ''--exclude=dep11/*'', ''--exclude=installer-*/current'', ''--exclude=ls-lR*'']),
      (''debian-oldstyle'',
       [''--exclude=Packages*'', ''--exclude=Sources*'', ''--exclude=Release*'',
        ''--exclude=InRelease'', ''--exclude=i18n/*'', ''--exclude=ls-lR*'', ''--exclude=dep11/*''])]"

definition Options :: "rsyncConfig \<Rightarrow> string list \<Rightarrow> string list \<Rightarrow> int \<Rightarrow> goerror + string list" where
  "Options p stage1Options stage2Options stage =
     (case (if stage = 1 then
              (case map_of rsyncStage1Profiles (rc_stage1Profile p) of
                 None \<Rightarrow> Inl ''Invalid Stage 1 Profile''
               | Some prof \<Rightarrow> Inr (stage1Options @ prof))
            else if stage = 2 then Inr (stage2Options @ elems (rc_extraOptions p))
            else Inl (''Invalid stage: '' @ show_int stage)) of
        Inl e \<Rightarrow> Inl e
      | Inr options \<Rightarrow> Inr (options @ timeout_options p @ ip_options p @ exclude_options p))"

subsection \<open>newMirrorProvider\<close>

definition is_master_role :: "string \<Rightarrow> bool" where
  "is_master_role role \<longleftrightarrow> role \<noteq> ''slave''"

text \<open>The mirror with the global defaults filled in.\<close>

definition with_defaults :: "globalConfig \<Rightarrow> mirrorConfig \<Rightarrow> mirrorConfig" where
  "with_defaults g m =
     m\<lparr>mc_Interval := (if mc_Interval m = 0 then gc_Interval g else mc_Interval m),
       mc_Retry := (if mc_Retry m = 0 then gc_Retry g else mc_Retry m),
       mc_Timeout := (if mc_Timeout m = 0 then gc_Timeout g else mc_Timeout m)\<rparr>"

definition cmd_conf :: "mirrorConfig \<Rightarrow> string \<Rightarrow> string \<Rightarrow> cmdConfig" where
  "cmd_conf m mirrorDir logDir =
     \<lparr>cc_name = mc_Name m, cc_upstreamURL = mc_Upstream m, cc_command = mc_Command m, cc_workingDir = mirrorDir,
      cc_logDir = logDir, cc_logFile = filepath_Join [logDir, ''latest.log''], cc_interval = mc_Interval m * Minute,
      cc_retry = mc_Retry m, cc_timeout = mc_Timeout m * Second, cc_env = mc_Env m,
      cc_failOnMatch = mc_FailOnMatch m, cc_sizePattern = mc_SizePattern m\<rparr>"

definition rsync_conf :: "globalConfig \<Rightarrow> mirrorConfig \<Rightarrow> string \<Rightarrow> string \<Rightarrow> rsyncConfig" where
  "rsync_conf g m mirrorDir logDir =
     \<lparr>rc_name = mc_Name m, rc_rsyncCmd = mc_Command m, rc_stage1Profile = [], rc_upstreamURL = mc_Upstream m,
      rc_username = mc_Username m, rc_password = mc_Password m, rc_excludeFile = mc_ExcludeFile m,
      rc_extraOptions = mc_RsyncOptions m, rc_globalOptions = gc_RsyncOptions g,
      rc_overriddenOptions = mc_RsyncOverride m, rc_useOverrideOnly = mc_RsyncOverrideOnly m,
      rc_rsyncNeverTimeout = mc_RsyncNoTimeo m, rc_rsyncTimeoutValue = mc_RsyncTimeout m, rc_rsyncEnv = mc_Env m,
      rc_workingDir = mirrorDir, rc_logDir = logDir, rc_logFile = filepath_Join [logDir, ''latest.log''],
      rc_useIPv6 = mc_UseIPv6 m, rc_useIPv4 = mc_UseIPv4 m, rc_interval = mc_Interval m * Minute,
      rc_retry = mc_Retry m, rc_timeout = mc_Timeout m * Second\<rparr>"

definition two_stage_conf :: "mirrorConfig \<Rightarrow> string \<Rightarrow> string \<Rightarrow> rsyncConfig" where
  "two_stage_conf m mirrorDir logDir =
     \<lparr>rc_name = mc_Name m, rc_rsyncCmd = mc_Command m, rc_stage1Profile = mc_Stage1Profile m, rc_upstreamURL = mc_Upstream m,
      rc_username = mc_Username m, rc_password = mc_Password m, rc_excludeFile = mc_ExcludeFile m,
      rc_extraOptions = mc_RsyncOptions m, rc_globalOptions = None,
      rc_overriddenOptions = None, rc_useOverrideOnly = False,
      rc_rsyncNeverTimeout = mc_RsyncNoTimeo m, rc_rsyncTimeoutValue = mc_RsyncTimeout m, rc_rsyncEnv = mc_Env m,
      rc_workingDir = mirrorDir, rc_logDir = logDir, rc_logFile = filepath_Join [logDir, ''latest.log''],
      rc_useIPv6 = mc_UseIPv6 m, rc_useIPv4 = mc_UseIPv4 m, rc_interval = mc_Interval m * Minute,
      rc_retry = mc_Retry m, rc_timeout = mc_Timeout m * Second\<rparr>"

definition is_rsync :: "mirrorConfig \<Rightarrow> bool" where
  "is_rsync m \<longleftrightarrow> mc_Provider m = provRsync \<or> mc_Provider m = provTwoStageRsync"

text \<open>\<open>newExecPostHook\<close>: \<open>execOn\<close> is a \<open>uint8\<close>, with the two constants.\<close>

fun execOn_code :: "execOn \<Rightarrow> nat" where
  "execOn_code execOnSuccess = 0"
| "execOn_code execOnFailure = 1"

definition newExecPostHook :: "'r prov_env \<Rightarrow> nat \<Rightarrow> string \<Rightarrow> goerror + jobHook" where
  "newExecPostHook E on command =
     (case pe_Split E command of
        Inl err \<Rightarrow> Inl err
      | Inr cmd \<Rightarrow>
          (if on \<noteq> execOn_code execOnSuccess \<and> on \<noteq> execOn_code execOnFailure
           then Inl (''Invalid option for exec-on: '' @ show_int (int on))
           else Inr (ExecPostHook (if on = execOn_code execOnSuccess then execOnSuccess else execOnFailure) cmd)))"

text \<open>\<open>addHookFromCmdList\<close>; a command that does not split panics.\<close>

fun add_exec_hooks :: "'r prov_env \<Rightarrow> execOn \<Rightarrow> string list \<Rightarrow> baseProvider \<Rightarrow> baseProvider option" where
  "add_exec_hooks E on [] p = Some p"
| "add_exec_hooks E on (cmd # cmds) p =
     (case newExecPostHook E (execOn_code on) cmd of
        Inl e \<Rightarrow> None
      | Inr h \<Rightarrow> add_exec_hooks E on cmds (AddHook h p))"

definition add_hooks :: "'r prov_env \<Rightarrow> Config \<Rightarrow> mirrorConfig \<Rightarrow> baseProvider \<Rightarrow> baseProvider option" where
  "add_hooks E cfg mirror p =
     (let p = AddHook LogLimiter p;
          p = (if zfs_Enable (cf_ZFS cfg) then AddHook (ZfsHook (zfs_Zpool (cf_ZFS cfg))) p else p);
          p = (if bt_Enable (cf_BtrfsSnapshot cfg)
               then AddHook (newBtrfsSnapshotHook (bp_name p) (bt_SnapshotPath (cf_BtrfsSnapshot cfg)) mirror) p else p);
          p = (if dk_Enable (cf_Docker cfg) \<and> length (mc_DockerImage mirror) > 0
               then AddHook (DockerHook (newDockerHook (cf_Docker cfg) mirror)) p
               else if cg_Enable (cf_Cgroup cfg) then AddHook (CgroupHook (cf_Cgroup cfg) (mc_MemoryLimit mirror)) p
               else p)
      in Option.bind
           (add_exec_hooks E execOnSuccess
              (if length (elems (mc_ExecOnSuccess mirror)) > 0 then elems (mc_ExecOnSuccess mirror)
               else elems (gc_ExecOnSuccess (cf_Global cfg))) p) (\<lambda>p.
         Option.bind (add_exec_hooks E execOnSuccess (elems (mc_ExecOnSuccessExtra mirror)) p) (\<lambda>p.
         Option.bind
           (add_exec_hooks E execOnFailure
              (if length (elems (mc_ExecOnFailure mirror)) > 0 then elems (mc_ExecOnFailure mirror)
               else elems (gc_ExecOnFailure (cf_Global cfg))) p) (\<lambda>p.
         add_exec_hooks E execOnFailure (elems (mc_ExecOnFailureExtra mirror)) p))))"

definition all_exit_codes :: "globalConfig \<Rightarrow> mirrorConfig \<Rightarrow> int list" where
  "all_exit_codes g mirror =
     elems (gc_SuccessExitCodes g) @ elems (mc_SuccessExitCodes mirror) @
     (if is_rsync mirror then elems (gc_RsyncSuccessExitCodes g) @ elems (mc_RsyncSuccessExitCodes mirror) else [])"

fun dedup_loop :: "int list \<Rightarrow> int list \<Rightarrow> int list" where
  "dedup_loop [] acc = acc"
| "dedup_loop (code # codes) acc = dedup_loop codes (if code \<in> set acc then acc else acc @ [code])"

definition set_exit_codes :: "globalConfig \<Rightarrow> mirrorConfig \<Rightarrow> baseProvider \<Rightarrow> baseProvider" where
  "set_exit_codes g mirror p =
     (let codes = all_exit_codes g mirror;
          codes = (if length codes > 1 then dedup_loop codes [] else codes)
      in if length codes > 0 then SetSuccessExitCodes (Some codes) p else p)"

definition newMirrorProvider :: "'r prov_env \<Rightarrow> mirrorConfig \<Rightarrow> Config \<Rightarrow> ('r provider \<times> mirrorConfig) option" where
  "newMirrorProvider E mirror cfg =
     (let g = cf_Global cfg;
          logDir = (if mc_LogDir mirror = '''' then gc_LogDir g else mc_LogDir mirror);
          mirrorDir = (if mc_MirrorDir mirror = ''''
                       then filepath_Join [gc_MirrorDir g, mc_MirrorSubDir mirror, mc_Name mirror]
                       else mc_MirrorDir mirror);
          m = with_defaults g mirror
      in case pe_Template E logDir m of
           Inl e \<Rightarrow> None
         | Inr logDir \<Rightarrow>
             (case (case mc_Provider m of
                      provCommand \<Rightarrow> newCmdProvider E (cmd_conf m mirrorDir logDir)
                    | provRsync \<Rightarrow> newRsyncProvider (rsync_conf g m mirrorDir logDir)
                    | provTwoStageRsync \<Rightarrow> newTwoStageRsyncProvider (two_stage_conf m mirrorDir logDir)) of
                Inl e \<Rightarrow> None
              | Inr p \<Rightarrow>
                  (let base = (pr_base p)\<lparr>bp_isMaster := is_master_role (mc_Role mirror)\<rparr> in
                   case add_hooks E cfg m base of
                     None \<Rightarrow> None
                   | Some base \<Rightarrow>
                       Some (p\<lparr>pr_base := set_exit_codes g m base\<rparr>,
                         (if is_rsync mirror \<and> mc_Env mirror \<noteq> None
                          then mirror\<lparr>mc_Env := Some (rsync_env (rsync_conf g m mirrorDir logDir))\<rparr> else mirror)))))"

subsection \<open>Interface methods the worker uses\<close>

definition Name :: "'r provider \<Rightarrow> string" where "Name p = bp_name (pr_base p)"
definition Interval :: "'r provider \<Rightarrow> duration" where "Interval p = bp_interval (pr_base p)"
definition Retry :: "'r provider \<Rightarrow> int" where "Retry p = bp_retry (pr_base p)"
definition Timeout :: "'r provider \<Rightarrow> duration" where "Timeout p = bp_timeout (pr_base p)"
definition IsMaster :: "'r provider \<Rightarrow> bool" where "IsMaster p = bp_isMaster (pr_base p)"
definition Hooks :: "'r provider \<Rightarrow> jobHook list" where "Hooks p = bp_hooks (pr_base p)"

definition provider_Type :: "'r provider \<Rightarrow> providerEnum" where
  "provider_Type p =
     (case pr_kind p of
        CmdProvider _ _ _ _ \<Rightarrow> provCommand
      | RsyncProvider _ _ \<Rightarrow> provRsync
      | TwoStageRsyncProvider _ _ _ \<Rightarrow> provTwoStageRsync)"

definition Upstream :: "'r provider \<Rightarrow> string" where
  "Upstream p =
     (case pr_kind p of
        CmdProvider c _ _ _ \<Rightarrow> cc_upstreamURL c
      | RsyncProvider c _ \<Rightarrow> rc_upstreamURL c
      | TwoStageRsyncProvider c _ _ \<Rightarrow> rc_upstreamURL c)"

text \<open>The command lines: of the command provider and the rsync provider, and of a stage of the two-stage
  provider.  A provider whose context was lost panics.\<close>

definition command_line :: "'r provider \<Rightarrow> int \<Rightarrow> (goerror + string list) option" where
  "command_line p stage =
     (case pr_kind p of
        CmdProvider c command _ _ \<Rightarrow> Some (Inr command)
      | RsyncProvider c options \<Rightarrow>
          map_option (\<lambda>wd. Inr (rc_rsyncCmd c # options @ [rc_upstreamURL c, wd])) (WorkingDir (pr_base p))
      | TwoStageRsyncProvider c o1 o2 \<Rightarrow>
          (case Options c o1 o2 stage of
             Inl e \<Rightarrow> Some (Inl e)
           | Inr options \<Rightarrow>
               map_option (\<lambda>wd. Inr (rc_rsyncCmd c # options @ [rc_upstreamURL c, wd])) (WorkingDir (pr_base p))))"

subsection \<open>The command runner\<close>

text \<open>\<open>newEnviron\<close>: the lines of the process environment whose variable \<open>env\<close> does not set, then
  \<open>env\<close>.\<close>

definition newEnviron :: "string list \<Rightarrow> env \<Rightarrow> bool \<Rightarrow> string list" where
  "newEnviron os_Environ env inherit =
     (if inherit then filter (\<lambda>line. map_of env (hd (strings_Split (CHR ''='') line)) = None) os_Environ else []) @
     map (\<lambda>(k, v). k @ ''='' @ v) env"

text \<open>The argument vector of \<open>newCmdJob\<close>: in docker, through the re-exec helper of the cgroup hook, or
  directly.  An empty command panics.\<close>

definition docker_args :: "string \<Rightarrow> string \<Rightarrow> string list \<Rightarrow> dockerHook \<Rightarrow> string \<Rightarrow> env \<Rightarrow> string list \<Rightarrow> string list" where
  "docker_args user name ctx_volumes d workingDir env cmdAndArgs =
     [''docker'', ''run'', ''--rm'', ''-a'', ''STDOUT'', ''-a'', ''STDERR'', ''--name'', name,
      ''-w'', workingDir, ''-u'', user] @
     concat (map (\<lambda>vol. [''-v'', vol]) (dh_volumes d @ ctx_volumes)) @
     concat (map (\<lambda>(k, v). [''-e'', k @ ''='' @ v]) env) @
     (if dh_memoryLimit d \<noteq> 0 then [''-m'', show_int (dh_memoryLimit d)] else []) @
     dh_options d @ [dh_image d] @ cmdAndArgs"

definition dockerHook_Name :: "baseProvider \<Rightarrow> string" where
  "dockerHook_Name p = ''tunasync-job-'' @ bp_name p"

definition ctx_volumes :: "baseProvider \<Rightarrow> string list" where
  "ctx_volumes p = (case bp_ctx p of None \<Rightarrow> [] | Some c \<Rightarrow> (case Get ''volumes'' c of Some (VStrs vs) \<Rightarrow> vs | _ \<Rightarrow> []))"

definition newCmdJob_args :: "string \<Rightarrow> baseProvider \<Rightarrow> string list \<Rightarrow> string \<Rightarrow> env \<Rightarrow> string list option" where
  "newCmdJob_args user p cmdAndArgs workingDir env =
     (case bp_docker p of
        Some d \<Rightarrow> Some (docker_args user (dockerHook_Name p) (ctx_volumes p) d workingDir env cmdAndArgs)
      | None \<Rightarrow>
          (if cmdAndArgs = [] then None
           else if bp_cgroup p \<noteq> None then Some (''tunasync-exec'' # cmdAndArgs) else Some cmdAndArgs))"

text \<open>What \<open>cmdJob.Wait\<close> makes of the exit of the process: the exit code, or none when it exited
  cleanly.\<close>

definition cmdJob_Wait :: "int list \<Rightarrow> (int \<times> goerror) option \<Rightarrow> goerror option" where
  "cmdJob_Wait allowedCodes exit =
     (case exit of
        None \<Rightarrow> None
      | Some (code, err) \<Rightarrow> if code \<in> set allowedCodes then None else Some err)"

subsection \<open>Lemmas on providers\<close>

lemma AddHook_sel [simp]:
  "bp_hooks (AddHook h p) = bp_hooks p @ [h]" "bp_ctx (AddHook h p) = bp_ctx p" "bp_name (AddHook h p) = bp_name p"
  "bp_interval (AddHook h p) = bp_interval p" "bp_retry (AddHook h p) = bp_retry p" "bp_timeout (AddHook h p) = bp_timeout p"
  "bp_isMaster (AddHook h p) = bp_isMaster p" "bp_successExitCodes (AddHook h p) = bp_successExitCodes p"
  by (simp_all add: AddHook_def Let_def split: jobHook.split)

text \<open>What adding hooks keeps of a provider.\<close>

definition same_settings :: "baseProvider \<Rightarrow> baseProvider \<Rightarrow> bool" where
  "same_settings p q \<longleftrightarrow> bp_ctx p = bp_ctx q \<and> bp_name p = bp_name q \<and> bp_interval p = bp_interval q \<and>
     bp_retry p = bp_retry q \<and> bp_timeout p = bp_timeout q \<and> bp_isMaster p = bp_isMaster q \<and>
     bp_successExitCodes p = bp_successExitCodes q"

lemma same_settings_simps [simp]: "same_settings p p" "same_settings (AddHook h p) q = same_settings p q"
  by (simp_all add: same_settings_def)

lemma same_settings_trans: "same_settings p q \<Longrightarrow> same_settings q r \<Longrightarrow> same_settings p r"
  by (simp add: same_settings_def)

text \<open>The constructor fails exactly when the command does not split or \<open>execOn\<close> is neither constant.\<close>

lemma newExecPostHook_code:
  "newExecPostHook E (execOn_code on) command =
     (case pe_Split E command of Inl e \<Rightarrow> Inl e | Inr cmd \<Rightarrow> Inr (ExecPostHook on cmd))"
  by (cases on) (simp_all add: newExecPostHook_def split: sum.split)

lemma newExecPostHook_invalid: "pe_Split E command = Inr cmd \<Longrightarrow> 2 \<le> on \<Longrightarrow> \<exists>e. newExecPostHook E on command = Inl e"
  by (simp add: newExecPostHook_def)

lemma add_exec_hooks_Some:
  "add_exec_hooks E on cmds p = Some q \<Longrightarrow>
    same_settings q p \<and> (\<exists>hs. bp_hooks q = bp_hooks p @ hs \<and> (\<forall>h\<in>set hs. \<exists>command. h = ExecPostHook on command))"
proof (induction E on cmds p rule: add_exec_hooks.induct)
  case (2 E on cmd cmds p)
  then obtain command where c: "newExecPostHook E (execOn_code on) cmd = Inr (ExecPostHook on command)"
    by (auto simp: newExecPostHook_code split: sum.splits)
  with 2 have q: "same_settings q (AddHook (ExecPostHook on command) p)"
    and "\<exists>hs. bp_hooks q = bp_hooks p @ [ExecPostHook on command] @ hs \<and> (\<forall>h\<in>set hs. \<exists>command. h = ExecPostHook on command)"
    by auto
  then obtain hs where "bp_hooks q = bp_hooks p @ ExecPostHook on command # hs" "\<forall>h\<in>set hs. \<exists>command. h = ExecPostHook on command"
    by auto
  moreover have "same_settings q p" using q by (simp add: same_settings_def)
  ultimately show ?case by (intro conjI exI [of _ "ExecPostHook on command # hs"]) auto
qed simp

text \<open>The hooks of \<open>newMirrorProvider\<close>.\<close>

lemma add_hooks_Some:
  assumes "add_hooks E cfg mirror p = Some q" and "bp_hooks p = []"
  shows "same_settings q p" and "\<exists>n1 d n2. bp_hooks q = LogLimiter # n1 @ d @ n2 \<and>
    (\<forall>h\<in>set n1. (\<exists>z. h = ZfsHook z) \<or> (\<exists>s. h = BtrfsSnapshotHook s)) \<and>
    (d = [] \<or> (\<exists>x. d = [DockerHook x]) \<or> (\<exists>cg mem. d = [CgroupHook cg mem])) \<and>
    (\<forall>h\<in>set n2. \<exists>on command. h = ExecPostHook on command)"
proof -
  define p1 where "p1 = AddHook LogLimiter p"
  define p2 where "p2 = (if zfs_Enable (cf_ZFS cfg) then AddHook (ZfsHook (zfs_Zpool (cf_ZFS cfg))) p1 else p1)"
  define p3 where "p3 = (if bt_Enable (cf_BtrfsSnapshot cfg)
    then AddHook (newBtrfsSnapshotHook (bp_name p2) (bt_SnapshotPath (cf_BtrfsSnapshot cfg)) mirror) p2 else p2)"
  define p4 where "p4 = (if dk_Enable (cf_Docker cfg) \<and> length (mc_DockerImage mirror) > 0
               then AddHook (DockerHook (newDockerHook (cf_Docker cfg) mirror)) p3
               else if cg_Enable (cf_Cgroup cfg) then AddHook (CgroupHook (cf_Cgroup cfg) (mc_MemoryLimit mirror)) p3
               else p3)"
  from assms(1) obtain q1 q2 q3 xs1 xs2 xs3 xs4 where
    q: "add_exec_hooks E execOnSuccess xs1 p4 = Some q1" "add_exec_hooks E execOnSuccess xs2 q1 = Some q2"
       "add_exec_hooks E execOnFailure xs3 q2 = Some q3" "add_exec_hooks E execOnFailure xs4 q3 = Some q"
    unfolding add_hooks_def p1_def [symmetric] p2_def [symmetric] p3_def [symmetric] p4_def [symmetric] Let_def
    by (auto simp: bind_eq_Some_conv)
  note s = q [THEN add_exec_hooks_Some]
  have p: "same_settings p4 p" by (simp add: p4_def p3_def p2_def p1_def)
  show "same_settings q p" using s p by (simp add: same_settings_def)
  have "\<exists>n1 d. bp_hooks p4 = LogLimiter # n1 @ d \<and> (\<forall>h\<in>set n1. (\<exists>z. h = ZfsHook z) \<or> (\<exists>s. h = BtrfsSnapshotHook s)) \<and>
    (d = [] \<or> (\<exists>x. d = [DockerHook x]) \<or> (\<exists>cg mem. d = [CgroupHook cg mem]))"
  proof -
    have "\<exists>n1. bp_hooks p3 = LogLimiter # n1 \<and> (\<forall>h\<in>set n1. (\<exists>z. h = ZfsHook z) \<or> (\<exists>s. h = BtrfsSnapshotHook s))"
      using assms(2) by (simp add: p3_def p2_def p1_def newBtrfsSnapshotHook_def)
    then obtain n1 where "bp_hooks p3 = LogLimiter # n1" "\<forall>h\<in>set n1. (\<exists>z. h = ZfsHook z) \<or> (\<exists>s. h = BtrfsSnapshotHook s)" by blast
    then show ?thesis by (intro exI [of _ n1] exI [of _ "drop (Suc (length n1)) (bp_hooks p4)"]) (simp add: p4_def)
  qed
  then obtain n1 d where nd: "bp_hooks p4 = LogLimiter # n1 @ d" "\<forall>h\<in>set n1. (\<exists>z. h = ZfsHook z) \<or> (\<exists>s. h = BtrfsSnapshotHook s)"
    "d = [] \<or> (\<exists>x. d = [DockerHook x]) \<or> (\<exists>cg mem. d = [CgroupHook cg mem])" by blast
  from s(1) obtain h1 where h1: "bp_hooks q1 = bp_hooks p4 @ h1" "\<forall>h\<in>set h1. \<exists>command. h = ExecPostHook execOnSuccess command" by blast
  from s(2) obtain h2 where h2: "bp_hooks q2 = bp_hooks q1 @ h2" "\<forall>h\<in>set h2. \<exists>command. h = ExecPostHook execOnSuccess command" by blast
  from s(3) obtain h3 where h3: "bp_hooks q3 = bp_hooks q2 @ h3" "\<forall>h\<in>set h3. \<exists>command. h = ExecPostHook execOnFailure command" by blast
  from s(4) obtain h4 where h4: "bp_hooks q = bp_hooks q3 @ h4" "\<forall>h\<in>set h4. \<exists>command. h = ExecPostHook execOnFailure command" by blast
  have "bp_hooks q = bp_hooks p4 @ h1 @ h2 @ h3 @ h4" using h1(1) h2(1) h3(1) h4(1) by simp
  moreover have "\<forall>h\<in>set (h1 @ h2 @ h3 @ h4). \<exists>on command. h = ExecPostHook on command"
    using h1(2) h2(2) h3(2) h4(2) by auto
  ultimately show "\<exists>n1 d n2. bp_hooks q = LogLimiter # n1 @ d @ n2 \<and>
    (\<forall>h\<in>set n1. (\<exists>z. h = ZfsHook z) \<or> (\<exists>s. h = BtrfsSnapshotHook s)) \<and>
    (d = [] \<or> (\<exists>x. d = [DockerHook x]) \<or> (\<exists>cg mem. d = [CgroupHook cg mem])) \<and>
    (\<forall>h\<in>set n2. \<exists>on command. h = ExecPostHook on command)"
    using nd by (intro exI [of _ n1] exI [of _ d] exI [of _ "h1 @ h2 @ h3 @ h4"]) simp
qed

definition mirror_dir :: "Config \<Rightarrow> mirrorConfig \<Rightarrow> string" where
  "mirror_dir cfg mirror = (if mc_MirrorDir mirror = ''''
     then filepath_Join [gc_MirrorDir (cf_Global cfg), mc_MirrorSubDir mirror, mc_Name mirror] else mc_MirrorDir mirror)"

text \<open>How \<open>newMirrorProvider\<close> is put together.\<close>

lemma newMirrorProvider_cases:
  assumes "newMirrorProvider E mirror cfg = Some (p, mirror')"
  obtains logDir p0 base where
    "(case mc_Provider mirror of
        provCommand \<Rightarrow> newCmdProvider E (cmd_conf (with_defaults (cf_Global cfg) mirror) (mirror_dir cfg mirror) logDir)
      | provRsync \<Rightarrow> newRsyncProvider (rsync_conf (cf_Global cfg) (with_defaults (cf_Global cfg) mirror) (mirror_dir cfg mirror) logDir)
      | provTwoStageRsync \<Rightarrow> newTwoStageRsyncProvider (two_stage_conf (with_defaults (cf_Global cfg) mirror) (mirror_dir cfg mirror) logDir)) = Inr p0"
    and "add_hooks E cfg (with_defaults (cf_Global cfg) mirror) ((pr_base p0)\<lparr>bp_isMaster := is_master_role (mc_Role mirror)\<rparr>) = Some base"
    and "p = p0\<lparr>pr_base := set_exit_codes (cf_Global cfg) (with_defaults (cf_Global cfg) mirror) base\<rparr>"
    and "mirror' = (if is_rsync mirror \<and> mc_Env mirror \<noteq> None
      then mirror\<lparr>mc_Env := Some (rsync_env (rsync_conf (cf_Global cfg) (with_defaults (cf_Global cfg) mirror) (mirror_dir cfg mirror) logDir))\<rparr> else mirror)"
proof -
  have "mc_Provider (with_defaults g m) = mc_Provider m" for g m by (simp add: with_defaults_def)
  with assms that show thesis
    unfolding newMirrorProvider_def mirror_dir_def Let_def
    by (auto split: sum.splits option.splits)
qed

definition effective_retry :: "Config \<Rightarrow> mirrorConfig \<Rightarrow> int" where
  "effective_retry cfg mirror =
     (if mc_Retry mirror \<noteq> 0 then mc_Retry mirror
      else if gc_Retry (cf_Global cfg) \<noteq> 0 then gc_Retry (cf_Global cfg) else defaultMaxRetry)"

lemma newMirrorProvider_base:
  assumes "newMirrorProvider E mirror cfg = Some (p, mirror')"
  obtains logDir base where
    "same_settings base ((new_base (mc_Name mirror) (mc_Interval (with_defaults (cf_Global cfg) mirror) * Minute)
       (effective_retry cfg mirror) (mc_Timeout (with_defaults (cf_Global cfg) mirror) * Second)
       (mirror_dir cfg mirror) logDir (filepath_Join [logDir, ''latest.log'']))\<lparr>bp_isMaster := is_master_role (mc_Role mirror)\<rparr>)"
    and "pr_base p = set_exit_codes (cf_Global cfg) (with_defaults (cf_Global cfg) mirror) base"
    and "\<exists>n1 d n2. bp_hooks base = LogLimiter # n1 @ d @ n2 \<and>
    (\<forall>h\<in>set n1. (\<exists>z. h = ZfsHook z) \<or> (\<exists>s. h = BtrfsSnapshotHook s)) \<and>
    (d = [] \<or> (\<exists>x. d = [DockerHook x]) \<or> (\<exists>cg mem. d = [CgroupHook cg mem])) \<and>
    (\<forall>h\<in>set n2. \<exists>on command. h = ExecPostHook on command)"
proof -
  from newMirrorProvider_cases [OF assms] obtain logDir p0 base where p:
    "(case mc_Provider mirror of
        provCommand \<Rightarrow> newCmdProvider E (cmd_conf (with_defaults (cf_Global cfg) mirror) (mirror_dir cfg mirror) logDir)
      | provRsync \<Rightarrow> newRsyncProvider (rsync_conf (cf_Global cfg) (with_defaults (cf_Global cfg) mirror) (mirror_dir cfg mirror) logDir)
      | provTwoStageRsync \<Rightarrow> newTwoStageRsyncProvider (two_stage_conf (with_defaults (cf_Global cfg) mirror) (mirror_dir cfg mirror) logDir)) = Inr p0"
    "add_hooks E cfg (with_defaults (cf_Global cfg) mirror) ((pr_base p0)\<lparr>bp_isMaster := is_master_role (mc_Role mirror)\<rparr>) = Some base"
    "p = p0\<lparr>pr_base := set_exit_codes (cf_Global cfg) (with_defaults (cf_Global cfg) mirror) base\<rparr>" by metis
  have b: "pr_base p0 = new_base (mc_Name mirror) (mc_Interval (with_defaults (cf_Global cfg) mirror) * Minute)
       (effective_retry cfg mirror) (mc_Timeout (with_defaults (cf_Global cfg) mirror) * Second)
       (mirror_dir cfg mirror) logDir (filepath_Join [logDir, ''latest.log''])"
    using p(1)
    by (cases "mc_Provider mirror")
       (auto simp: newRsyncProvider_def newTwoStageRsyncProvider_def newCmdProvider_def rsync_conf_def two_stage_conf_def
         cmd_conf_def with_defaults_def effective_retry_def Let_def split: if_splits sum.splits)
  have h: "bp_hooks ((pr_base p0)\<lparr>bp_isMaster := is_master_role (mc_Role mirror)\<rparr>) = []" by (simp add: b new_base_def)
  from add_hooks_Some [OF p(2) h] p(3) b show thesis by (intro that [of base logDir]) simp_all
qed

lemma set_exit_codes_sel [simp]:
  "bp_hooks (set_exit_codes g m p) = bp_hooks p" "bp_ctx (set_exit_codes g m p) = bp_ctx p" "bp_name (set_exit_codes g m p) = bp_name p"
  "bp_interval (set_exit_codes g m p) = bp_interval p" "bp_retry (set_exit_codes g m p) = bp_retry p"
  "bp_timeout (set_exit_codes g m p) = bp_timeout p" "bp_isMaster (set_exit_codes g m p) = bp_isMaster p"
  by (simp_all add: set_exit_codes_def SetSuccessExitCodes_def Let_def)

lemma dedup_loop_set: "set (dedup_loop codes acc) = set codes \<union> set acc"
  and dedup_loop_distinct: "distinct acc \<Longrightarrow> distinct (dedup_loop codes acc)"
  by (induction codes acc rule: dedup_loop.induct) auto

lemma set_exit_codes_codes:
  assumes "bp_successExitCodes p = None"
  shows "distinct (GetSuccessExitCodes (set_exit_codes g m p))" and "set (GetSuccessExitCodes (set_exit_codes g m p)) = set (all_exit_codes g m)"
proof -
  define codes where "codes = (if length (all_exit_codes g m) > 1 then dedup_loop (all_exit_codes g m) [] else all_exit_codes g m)"
  have "GetSuccessExitCodes (set_exit_codes g m p) = codes"
    using assms by (simp add: GetSuccessExitCodes_def set_exit_codes_def SetSuccessExitCodes_def Let_def codes_def)
  moreover have "set codes = set (all_exit_codes g m)" by (simp add: codes_def dedup_loop_set)
  moreover have "distinct codes"
    by (cases "all_exit_codes g m") (auto simp: codes_def dedup_loop_distinct)
  ultimately show "distinct (GetSuccessExitCodes (set_exit_codes g m p))"
    "set (GetSuccessExitCodes (set_exit_codes g m p)) = set (all_exit_codes g m)" by simp_all
qed

lemma newMirrorProvider_names:
  assumes "newMirrorProvider E mirror cfg = Some (p, mirror')"
  shows "Name p = mc_Name mirror" and "mc_Name mirror' = mc_Name mirror"
proof -
  from newMirrorProvider_base [OF assms] obtain logDir base where
    "same_settings base ((new_base (mc_Name mirror) (mc_Interval (with_defaults (cf_Global cfg) mirror) * Minute)
       (effective_retry cfg mirror) (mc_Timeout (with_defaults (cf_Global cfg) mirror) * Second)
       (mirror_dir cfg mirror) logDir (filepath_Join [logDir, ''latest.log'']))\<lparr>bp_isMaster := is_master_role (mc_Role mirror)\<rparr>)"
    "pr_base p = set_exit_codes (cf_Global cfg) (with_defaults (cf_Global cfg) mirror) base" by metis
  then show "Name p = mc_Name mirror" by (simp add: same_settings_def new_base_def Name_def)
  from assms show "mc_Name mirror' = mc_Name mirror"
    by (auto simp: newMirrorProvider_def Let_def split: sum.splits option.splits if_splits)
qed

subsection \<open>Properties of providers\<close>

lemma newMirrorProvider_interval:
  assumes "newMirrorProvider E mirror cfg = Some (p, mirror')"
  shows "Interval p = (if mc_Interval mirror = 0 then gc_Interval (cf_Global cfg) else mc_Interval mirror) * Minute"
proof -
  from newMirrorProvider_base [OF assms] obtain logDir base where b:
    "same_settings base ((new_base (mc_Name mirror) (mc_Interval (with_defaults (cf_Global cfg) mirror) * Minute)
       (effective_retry cfg mirror) (mc_Timeout (with_defaults (cf_Global cfg) mirror) * Second)
       (mirror_dir cfg mirror) logDir (filepath_Join [logDir, ''latest.log'']))\<lparr>bp_isMaster := is_master_role (mc_Role mirror)\<rparr>)"
    "pr_base p = set_exit_codes (cf_Global cfg) (with_defaults (cf_Global cfg) mirror) base" by metis
  then show ?thesis by (simp add: same_settings_def new_base_def Interval_def with_defaults_def)
qed

text \<open>The settings of a provider: it carries the name and the role of its mirror, the interval in
  minutes and the time-out in seconds of the mirror or, where the mirror leaves them at zero, of the
  global section, and a number of attempts that is never zero.\<close>

theorem newMirrorProvider_settings:
  assumes "newMirrorProvider E mirror cfg = Some (p, mirror')"
  shows "Name p = mc_Name mirror \<and> IsMaster p = (mc_Role mirror \<noteq> ''slave'') \<and>
    Interval p = (if mc_Interval mirror = 0 then gc_Interval (cf_Global cfg) else mc_Interval mirror) * Minute \<and>
    bp_timeout (pr_base p) = (if mc_Timeout mirror = 0 then gc_Timeout (cf_Global cfg) else mc_Timeout mirror) * Second \<and>
    Retry p \<noteq> 0 \<and> (mc_Retry mirror \<noteq> 0 \<longrightarrow> Retry p = mc_Retry mirror)"
proof -
  from newMirrorProvider_base [OF assms] obtain logDir base where b:
    "same_settings base ((new_base (mc_Name mirror) (mc_Interval (with_defaults (cf_Global cfg) mirror) * Minute)
       (effective_retry cfg mirror) (mc_Timeout (with_defaults (cf_Global cfg) mirror) * Second)
       (mirror_dir cfg mirror) logDir (filepath_Join [logDir, ''latest.log'']))\<lparr>bp_isMaster := is_master_role (mc_Role mirror)\<rparr>)"
    "pr_base p = set_exit_codes (cf_Global cfg) (with_defaults (cf_Global cfg) mirror) base" by metis
  then show ?thesis
    by (simp add: same_settings_def new_base_def Name_def IsMaster_def Interval_def Retry_def is_master_role_def
        with_defaults_def effective_retry_def defaultMaxRetry_def)
qed

definition ex_env :: "string prov_env" where
  "ex_env = \<lparr>pe_Split = (\<lambda>s. Inr [s]), pe_Compile = Inr, pe_Template = (\<lambda>s m. Inr (s @ ''/'' @ mc_Name m))\<rparr>"

definition ex_rsync :: mirrorConfig where
  "ex_rsync = zero_mirrorConfig\<lparr>mc_Name := ''deb'', mc_Upstream := ''rsync://u/'', mc_RsyncSuccessExitCodes := Some [24, 23, 24],
     mc_Env := Some [(''A'', ''1'')], mc_Password := ''secret''\<rparr>"

lemma ex_rsync_provider: "\<exists>p m'. newMirrorProvider ex_env ex_rsync ex_config = Some (p, m')"
  by (simp add: newMirrorProvider_def ex_env_def ex_rsync_def ex_config_def zero_mirrorConfig_def with_defaults_def
      newRsyncProvider_def rsync_conf_def has_suffix_slash_def add_hooks_def elems_def Let_def)

theorem newMirrorProvider_settings_witness:
  "\<exists>p m'. newMirrorProvider ex_env ex_rsync ex_config = Some (p, m') \<and> Name p = ''deb'' \<and> Retry p \<noteq> 0 \<and> Interval p = 120 * Minute"
proof -
  from ex_rsync_provider obtain p m' where p: "newMirrorProvider ex_env ex_rsync ex_config = Some (p, m')" by blast
  from newMirrorProvider_settings [OF p] p show ?thesis by (simp add: ex_rsync_def zero_mirrorConfig_def ex_config_def)
qed

text \<open>Which exit codes count as success: a command that exits with an error code is reported as
  successful exactly when the code is listed for the mirror or globally, the codes for rsync counting
  only for the two rsync providers; the list the provider keeps has no duplicates.\<close>

theorem success_exit_codes:
  assumes "newMirrorProvider E mirror cfg = Some (p, mirror')"
  shows "distinct (GetSuccessExitCodes (pr_base p)) \<and>
    (cmdJob_Wait (GetSuccessExitCodes (pr_base p)) (Some (code, err)) = None \<longleftrightarrow>
      code \<in> set (elems (gc_SuccessExitCodes (cf_Global cfg))) \<or> code \<in> set (elems (mc_SuccessExitCodes mirror)) \<or>
      (mc_Provider mirror = provRsync \<or> mc_Provider mirror = provTwoStageRsync) \<and>
        (code \<in> set (elems (gc_RsyncSuccessExitCodes (cf_Global cfg))) \<or> code \<in> set (elems (mc_RsyncSuccessExitCodes mirror))))"
proof -
  from newMirrorProvider_base [OF assms] obtain logDir base where b:
    "same_settings base ((new_base (mc_Name mirror) (mc_Interval (with_defaults (cf_Global cfg) mirror) * Minute)
       (effective_retry cfg mirror) (mc_Timeout (with_defaults (cf_Global cfg) mirror) * Second)
       (mirror_dir cfg mirror) logDir (filepath_Join [logDir, ''latest.log'']))\<lparr>bp_isMaster := is_master_role (mc_Role mirror)\<rparr>)"
    "pr_base p = set_exit_codes (cf_Global cfg) (with_defaults (cf_Global cfg) mirror) base" by metis
  then have "bp_successExitCodes base = None" by (simp add: same_settings_def new_base_def)
  from set_exit_codes_codes [OF this, of "cf_Global cfg" "with_defaults (cf_Global cfg) mirror"] b(2) show ?thesis
    by (auto simp: cmdJob_Wait_def all_exit_codes_def is_rsync_def with_defaults_def)
qed

theorem success_exit_codes_witness:
  "\<exists>p m'. newMirrorProvider ex_env ex_rsync ex_config = Some (p, m') \<and>
    cmdJob_Wait (GetSuccessExitCodes (pr_base p)) (Some (24, ''exit status 24'')) = None \<and>
    cmdJob_Wait (GetSuccessExitCodes (pr_base p)) (Some (1, ''exit status 1'')) \<noteq> None"
proof -
  from ex_rsync_provider obtain p m' where p: "newMirrorProvider ex_env ex_rsync ex_config = Some (p, m')" by blast
  have codes: "elems (gc_SuccessExitCodes (cf_Global ex_config)) = []" "elems (gc_RsyncSuccessExitCodes (cf_Global ex_config)) = []"
    "elems (mc_SuccessExitCodes ex_rsync) = []" "elems (mc_RsyncSuccessExitCodes ex_rsync) = [24, 23, 24]" "mc_Provider ex_rsync = provRsync"
    by (simp_all add: ex_rsync_def zero_mirrorConfig_def ex_config_def elems_def)
  from success_exit_codes [OF p, of 24 "''exit status 24''"] success_exit_codes [OF p, of 1 "''exit status 1''"] p
  show ?thesis by (simp only: codes) simp
qed

lemma newRsyncProvider_plain:
  assumes "newRsyncProvider c = Inr p" and "rc_overriddenOptions c = None"
  obtains c' where "has_suffix_slash (rc_upstreamURL c)"
    and "pr_kind p = RsyncProvider c' (rsync_base_options @ rsync_delete_options @ [''--safe-links''] @
       timeout_options c @ ip_options c @ exclude_options c @ elems (rc_globalOptions c) @ elems (rc_extraOptions c))"
    and "rc_rsyncCmd c' = (if rc_rsyncCmd c = '''' then ''rsync'' else rc_rsyncCmd c)" and "rc_upstreamURL c' = rc_upstreamURL c"
proof -
  have opts: "timeout_options (c\<lparr>rc_retry := r\<rparr>) = timeout_options c" "ip_options (c\<lparr>rc_retry := r\<rparr>) = ip_options c"
    "exclude_options (c\<lparr>rc_retry := r\<rparr>) = exclude_options c" for r
    by (simp_all add: timeout_options_def ip_options_def exclude_options_def)
  from assms show thesis
    by (intro that [of "(if rc_retry c = 0 then c\<lparr>rc_retry := defaultMaxRetry\<rparr> else c)\<lparr>rc_rsyncCmd := (if rc_rsyncCmd c = '''' then ''rsync'' else rc_rsyncCmd c),
          rc_rsyncEnv := Some (rsync_env (if rc_retry c = 0 then c\<lparr>rc_retry := defaultMaxRetry\<rparr> else c))\<rparr>"])
       (auto simp: newRsyncProvider_def Let_def opts split: if_splits)
qed

text \<open>The rsync command line of a mirror without overrides: the program, the fixed options with the
  deletion options, the time-out, address family and exclude options, the global and then the mirror's
  own options, the upstream URL, which ends with a slash, and the working directory last.\<close>

theorem rsync_command_line:
  assumes "newMirrorProvider E mirror cfg = Some (p, mirror')" and "mc_Provider mirror = provRsync"
    and "mc_RsyncOverride mirror = None"
  shows "\<exists>c. command_line p stage = Some (Inr
      ((if mc_Command mirror = '''' then ''rsync'' else mc_Command mirror) #
       [''-aHvh'', ''--no-o'', ''--no-g'', ''--stats'', ''--filter'', ''risk .~tmp~/'', ''--exclude'', ''.~tmp~/'',
        ''--delete'', ''--delete-after'', ''--delay-updates'', ''--safe-links''] @
       timeout_options c @ ip_options c @ exclude_options c @
       elems (gc_RsyncOptions (cf_Global cfg)) @ elems (mc_RsyncOptions mirror) @ [mc_Upstream mirror, mirror_dir cfg mirror])) \<and>
    rc_rsyncNeverTimeout c = mc_RsyncNoTimeo mirror \<and> rc_rsyncTimeoutValue c = mc_RsyncTimeout mirror \<and>
    rc_useIPv6 c = mc_UseIPv6 mirror \<and> rc_useIPv4 c = mc_UseIPv4 mirror \<and> rc_excludeFile c = mc_ExcludeFile mirror \<and>
    last (mc_Upstream mirror) = CHR ''/''"
proof -
  from newMirrorProvider_cases [OF assms(1)] assms(2) obtain logDir p0 base where p:
    "newRsyncProvider (rsync_conf (cf_Global cfg) (with_defaults (cf_Global cfg) mirror) (mirror_dir cfg mirror) logDir) = Inr p0"
    "add_hooks E cfg (with_defaults (cf_Global cfg) mirror) ((pr_base p0)\<lparr>bp_isMaster := is_master_role (mc_Role mirror)\<rparr>) = Some base"
    "p = p0\<lparr>pr_base := set_exit_codes (cf_Global cfg) (with_defaults (cf_Global cfg) mirror) base\<rparr>"
    by (metis providerEnum.simps(7))
  let ?c = "rsync_conf (cf_Global cfg) (with_defaults (cf_Global cfg) mirror) (mirror_dir cfg mirror) logDir"
  have h: "bp_hooks ((pr_base p0)\<lparr>bp_isMaster := is_master_role (mc_Role mirror)\<rparr>) = []"
    using p(1) by (auto simp: newRsyncProvider_def new_base_def Let_def split: if_splits)
  from add_hooks_Some(1) [OF p(2) h] have ctx: "bp_ctx (pr_base p) = bp_ctx (pr_base p0)" by (simp add: p(3) same_settings_def)
  have wd: "WorkingDir (pr_base p) = Some (mirror_dir cfg mirror)"
    using p(1) ctx by (auto simp: newRsyncProvider_def new_base_def Let_def rsync_conf_def WorkingDir_def ctx_string_def Get_Set
        WorkingDirKey_def LogDirKey_def LogFileKey_def split: if_splits)
  have ov: "rc_overriddenOptions ?c = None" using assms(3) by (simp add: rsync_conf_def with_defaults_def)
  from newRsyncProvider_plain [OF p(1) ov] obtain c' where c': "has_suffix_slash (rc_upstreamURL ?c)"
    "pr_kind p0 = RsyncProvider c' (rsync_base_options @ rsync_delete_options @ [''--safe-links''] @
       timeout_options ?c @ ip_options ?c @ exclude_options ?c @ elems (rc_globalOptions ?c) @ elems (rc_extraOptions ?c))"
    "rc_rsyncCmd c' = (if rc_rsyncCmd ?c = '''' then ''rsync'' else rc_rsyncCmd ?c)" "rc_upstreamURL c' = rc_upstreamURL ?c" by blast
  have sel: "rc_upstreamURL ?c = mc_Upstream mirror" "rc_rsyncCmd ?c = mc_Command mirror"
    "rc_globalOptions ?c = gc_RsyncOptions (cf_Global cfg)" "rc_extraOptions ?c = mc_RsyncOptions mirror"
    by (simp_all add: rsync_conf_def with_defaults_def)
  have "command_line p stage = Some (Inr (rc_rsyncCmd c' # (rsync_base_options @ rsync_delete_options @ [''--safe-links''] @
       timeout_options ?c @ ip_options ?c @ exclude_options ?c @ elems (rc_globalOptions ?c) @ elems (rc_extraOptions ?c)) @
       [rc_upstreamURL c', mirror_dir cfg mirror]))"
    using wd c'(2) by (simp add: command_line_def p(3))
  then show ?thesis
    using c'(1) unfolding c'(3,4) sel rsync_base_options_def rsync_delete_options_def
    by (intro exI [of _ ?c]) (simp add: has_suffix_slash_def, simp add: rsync_conf_def with_defaults_def)
qed

theorem rsync_command_line_witness:
  "\<exists>p m' opts. newMirrorProvider ex_env ex_rsync ex_config = Some (p, m') \<and>
    command_line p 0 = Some (Inr (''rsync'' # opts @ [''rsync://u/'', mirror_dir ex_config ex_rsync])) \<and> ''--delete-after'' \<in> set opts"
proof -
  from ex_rsync_provider obtain p m' where p: "newMirrorProvider ex_env ex_rsync ex_config = Some (p, m')" by blast
  have m: "mc_Provider ex_rsync = provRsync" "mc_RsyncOverride ex_rsync = None" "mc_Command ex_rsync = ''''" "mc_Upstream ex_rsync = ''rsync://u/''"
    by (simp_all add: ex_rsync_def zero_mirrorConfig_def)
  from rsync_command_line [OF p m(1,2), of 0] obtain c where
    "command_line p 0 = Some (Inr (''rsync'' #
       [''-aHvh'', ''--no-o'', ''--no-g'', ''--stats'', ''--filter'', ''risk .~tmp~/'', ''--exclude'', ''.~tmp~/'',
        ''--delete'', ''--delete-after'', ''--delay-updates'', ''--safe-links''] @
       timeout_options c @ ip_options c @ exclude_options c @
       elems (gc_RsyncOptions (cf_Global ex_config)) @ elems (mc_RsyncOptions ex_rsync) @ [''rsync://u/'', mirror_dir ex_config ex_rsync]))"
    unfolding m by auto
  then show ?thesis
    using p by (intro exI [of _ p] exI [of _ m'] exI [of _ "[''-aHvh'', ''--no-o'', ''--no-g'', ''--stats'', ''--filter'', ''risk .~tmp~/'', ''--exclude'', ''.~tmp~/'',
        ''--delete'', ''--delete-after'', ''--delay-updates'', ''--safe-links''] @ timeout_options c @ ip_options c @ exclude_options c @
       elems (gc_RsyncOptions (cf_Global ex_config)) @ elems (mc_RsyncOptions ex_rsync)"]) simp
qed

lemma map_of_env_put: "map_of (env_put k v e) = (map_of e)(k \<mapsto> v)"
  by (induction k v e rule: env_put.induct) (auto simp: fun_eq_iff)

text \<open>Building an rsync provider changes the configuration it is built from: the password is written
  into the environment map of the mirror's configuration, which was not there before, so that the
  configuration differs from the file it was read from.\<close>

theorem rsync_password_leaks_into_config:
  assumes "newMirrorProvider E mirror cfg = Some (p, mirror')" and "mc_Provider mirror \<noteq> provCommand"
    and "mc_Env mirror = Some env" and "mc_Password mirror \<noteq> ''''" and "map_of env ''RSYNC_PASSWORD'' \<noteq> Some (mc_Password mirror)"
  shows "mirror' \<noteq> mirror \<and> map_of (elems (mc_Env mirror')) ''RSYNC_PASSWORD'' = Some (mc_Password mirror)"
proof -
  have "is_rsync mirror" using assms(2) by (cases "mc_Provider mirror") (simp_all add: is_rsync_def)
  with newMirrorProvider_cases [OF assms(1)] assms(3) obtain logDir where
    m: "mirror' = mirror\<lparr>mc_Env := Some (rsync_env (rsync_conf (cf_Global cfg) (with_defaults (cf_Global cfg) mirror) (mirror_dir cfg mirror) logDir))\<rparr>"
    by (metis option.distinct(1))
  have pw: "map_of (elems (mc_Env mirror')) ''RSYNC_PASSWORD'' = Some (mc_Password mirror)"
    using assms(4) by (simp add: m elems_def rsync_env_def rsync_conf_def with_defaults_def Let_def map_of_env_put)
  moreover have "map_of (elems (mc_Env mirror)) ''RSYNC_PASSWORD'' \<noteq> Some (mc_Password mirror)" using assms(3,5) by (simp add: elems_def)
  ultimately show ?thesis by metis
qed

theorem rsync_password_leaks_into_config_witness:
  "\<exists>p m'. newMirrorProvider ex_env ex_rsync ex_config = Some (p, m') \<and> m' \<noteq> ex_rsync \<and>
    map_of (elems (mc_Env m')) ''RSYNC_PASSWORD'' = Some ''secret''"
proof -
  from ex_rsync_provider obtain p m' where p: "newMirrorProvider ex_env ex_rsync ex_config = Some (p, m')" by blast
  have m: "mc_Provider ex_rsync \<noteq> provCommand" "mc_Env ex_rsync = Some [(''A'', ''1'')]" "mc_Password ex_rsync = ''secret''"
    by (simp_all add: ex_rsync_def zero_mirrorConfig_def)
  have pw: "mc_Password ex_rsync \<noteq> ''''" "map_of [(''A'', ''1'')] ''RSYNC_PASSWORD'' \<noteq> Some (mc_Password ex_rsync)" by (simp_all add: m)
  from rsync_password_leaks_into_config [OF p m(1,2) pw] p m(3) show ?thesis by auto
qed

text \<open>The environment of a command: every variable set for the job is passed with its value and no
  inherited line for the same variable remains, while the other inherited lines are kept.\<close>

theorem newEnviron_overrides:
  "set (newEnviron os_env env True) =
     {k @ ''='' @ v |k v. (k, v) \<in> set env} \<union>
     {line \<in> set os_env. hd (strings_Split (CHR ''='') line) \<notin> fst ` set env}"
  by (auto simp: newEnviron_def map_of_eq_None_iff)

end
