(* ===== verification/Job_Hooks.thy ===== *)
theory Job_Hooks
  imports Provider "HOL-Library.Multiset"
begin

section \<open>The job hooks (worker/hooks.go, loglimit_hook.go, docker.go, exec_post_hook.go, zfs_hook.go,
  btrfs_snapshot_hook.go)\<close>

text \<open>
  Every hook method is a function of what the operating system answers during the call
  (\<open>hook_answers\<close>) and of the provider, whose context it may change.  It returns the error of the
  method, the file operations it performs and the provider afterwards, or \<open>None\<close> when it panics.  The
  methods a hook does not define are those of \<open>emptyHook\<close>.  The cgroup hook only calls the cgroup
  libraries; its answer is part of \<open>hook_answers\<close>.
\<close>

datatype dir_list = DirFiles "(string \<times> gtime) list" | DirMissing | DirError goerror

datatype fs_op =
    MkdirAll string
  | RemoveFile string
  | RenameFile string string
  | Symlink string string
  | CreateSubVolume string
  | DeleteSubVolume string
  | SnapshotSubVolume string string

record hook_answers =
  ha_ReadDir :: dir_list
  ha_Lstat :: bool
  ha_Stamp :: string
  ha_NotExist :: "goerror option"
  ha_MkdirErr :: "goerror option"
  ha_DockerPs :: "nat \<Rightarrow> goerror + string"
  ha_Command :: "(string \<times> string) list \<Rightarrow> string list \<Rightarrow> goerror option"
  ha_IsSubVolume :: "goerror + bool"
  ha_CreateErr :: "goerror option"
  ha_DeleteErr :: "goerror option"
  ha_SnapshotErr :: "goerror option"
  ha_Cgroup :: "hookAction \<Rightarrow> goerror option"

type_synonym hook_result = "(goerror option \<times> fs_op list \<times> baseProvider) option"

abbreviation hook_ok :: "baseProvider \<Rightarrow> hook_result" where
  "hook_ok p \<equiv> Some (None, [], p)"

abbreviation hook_err :: "goerror \<Rightarrow> baseProvider \<Rightarrow> hook_result" where
  "hook_err e p \<equiv> Some (Some e, [], p)"

definition set_ctx :: "string \<Rightarrow> ctx_value \<Rightarrow> baseProvider \<Rightarrow> baseProvider" where
  "set_ctx k v p = p\<lparr>bp_ctx := map_option (Set k v) (bp_ctx p)\<rparr>"

subsection \<open>The log limiter\<close>

text \<open>The log files to delete: of the files with the job's name as prefix all but the nine modified last.\<close>

definition matched_logs :: "string \<Rightarrow> (string \<times> gtime) list \<Rightarrow> (string \<times> gtime) list" where
  "matched_logs name files = filter (\<lambda>f. take (length name) (fst f) = name) files"

definition old_logs :: "string \<Rightarrow> (string \<times> gtime) list \<Rightarrow> (string \<times> gtime) list" where
  "old_logs name files = drop 9 (rev (sort_key snd (matched_logs name files)))"

definition logLimiter_preExec :: "hook_answers \<Rightarrow> baseProvider \<Rightarrow> hook_result" where
  "logLimiter_preExec A p =
     (case LogFile p of
        None \<Rightarrow> None
      | Some logFile \<Rightarrow>
          (if logFile = ''/dev/null'' then hook_ok p
           else case LogDir p of
             None \<Rightarrow> None
           | Some logDir \<Rightarrow>
               (case ha_ReadDir A of
                  DirError e \<Rightarrow> hook_err e p
                | dir \<Rightarrow>
                    (let files = (case dir of DirFiles fs \<Rightarrow> fs | _ \<Rightarrow> []);
                         logFileName = bp_name p @ ''_'' @ ha_Stamp A @ ''.log'';
                         logLink = filepath_Join [logDir, ''latest''];
                         ops = (case dir of DirMissing \<Rightarrow> [MkdirAll logDir] | _ \<Rightarrow> []) @
                               map (\<lambda>f. RemoveFile (filepath_Join [logDir, fst f])) (old_logs (bp_name p) files) @
                               (if ha_Lstat A then [RemoveFile logLink] else []) @ [Symlink logFileName logLink]
                     in case EnterContext p of
                          None \<Rightarrow> None
                        | Some p1 \<Rightarrow> Some (None, ops, set_ctx LogFileKey (VStr (filepath_Join [logDir, logFileName])) p1)))))"

definition exit_context :: "fs_op list \<Rightarrow> baseProvider \<Rightarrow> hook_result" where
  "exit_context ops p = map_option (\<lambda>p'. (None, ops, p')) (ExitContext p)"

definition logLimiter_postSuccess :: "baseProvider \<Rightarrow> hook_result" where
  "logLimiter_postSuccess p = exit_context [] p"

text \<open>\<open>filepath.Base\<close> of a path that does not end in a slash.\<close>

definition filepath_Base :: "string \<Rightarrow> string" where
  "filepath_Base p = last (strings_Split (CHR ''/'') p)"

definition logLimiter_postFail :: "baseProvider \<Rightarrow> hook_result" where
  "logLimiter_postFail p =
     (case (LogFile p, LogDir p) of
        (Some logFile, Some logDir) \<Rightarrow>
          (let logFileFail = logFile @ ''.fail''; logLink = filepath_Join [logDir, ''latest''] in
           exit_context [RenameFile logFile logFileFail, RemoveFile logLink, Symlink (filepath_Base logFileFail) logLink] p)
      | _ \<Rightarrow> None)"

subsection \<open>Docker\<close>

definition dockerHook_preExec :: "hook_answers \<Rightarrow> baseProvider \<Rightarrow> hook_result" where
  "dockerHook_preExec A p =
     (case (LogDir p, LogFile p, WorkingDir p) of
        (Some logDir, Some logFile, Some workingDir) \<Rightarrow>
          (case (if ha_NotExist A \<noteq> None then ha_MkdirErr A else None) of
             Some e \<Rightarrow> hook_err (''Error making dir '' @ workingDir @ '': '' @ e) p
           | None \<Rightarrow>
               (case EnterContext p of
                  None \<Rightarrow> None
                | Some p1 \<Rightarrow>
                    Some (None, (if ha_NotExist A \<noteq> None then [MkdirAll workingDir] else []),
                          set_ctx ''volumes'' (VStrs [logDir @ '':'' @ logDir, logFile @ '':'' @ logFile, workingDir @ '':'' @ workingDir]) p1)))
      | _ \<Rightarrow> None)"

text \<open>The wait of \<open>postExec\<close> for the container to go away: the tries left when it stops.\<close>

fun docker_wait :: "(nat \<Rightarrow> goerror + string) \<Rightarrow> nat \<Rightarrow> nat" where
  "docker_wait ps 0 = 0"
| "docker_wait ps (Suc retry) =
     (case ps retry of
        Inl err \<Rightarrow> Suc retry
      | Inr out \<Rightarrow> if length out = 0 then Suc retry else docker_wait ps retry)"

definition dockerHook_postExec :: "hook_answers \<Rightarrow> baseProvider \<Rightarrow> hook_result" where
  "dockerHook_postExec A p = (let retry = docker_wait (ha_DockerPs A) 10 in exit_context [] p)"

text \<open>The log file inside the container; a value of another type panics.\<close>

definition dockerHook_LogFile :: "baseProvider \<Rightarrow> string option" where
  "dockerHook_LogFile p =
     (case bp_ctx p of
        None \<Rightarrow> None
      | Some c \<Rightarrow> (case Get (LogFileKey @ '':docker'') c of Some (VStr v) \<Rightarrow> Some v | Some _ \<Rightarrow> None | None \<Rightarrow> LogFile p))"

subsection \<open>Commands after the run, ZFS and Btrfs\<close>

definition execPostHook_Do :: "hook_answers \<Rightarrow> string \<Rightarrow> execOn \<Rightarrow> string list \<Rightarrow> baseProvider \<Rightarrow> hook_result" where
  "execPostHook_Do A upstream on command p =
     (case (WorkingDir p, LogDir p, LogFile p) of
        (Some workingDir, Some logDir, Some logFile) \<Rightarrow>
          (let exitStatus = (if on = execOnSuccess then ''success'' else ''failure'');
               env = [(''TUNASYNC_MIRROR_NAME'', bp_name p), (''TUNASYNC_WORKING_DIR'', workingDir),
                      (''TUNASYNC_UPSTREAM_URL'', upstream), (''TUNASYNC_LOG_DIR'', logDir),
                      (''TUNASYNC_LOG_FILE'', logFile), (''TUNASYNC_JOB_EXIT_STATUS'', exitStatus)]
           in Some (if command = [] then Some ''Invalid Command'' else ha_Command A env command, [], p))
      | _ \<Rightarrow> None)"

definition execPostHook_postSuccess :: "hook_answers \<Rightarrow> string \<Rightarrow> execOn \<Rightarrow> string list \<Rightarrow> baseProvider \<Rightarrow> hook_result" where
  "execPostHook_postSuccess A up on command p = (if on = execOnSuccess then execPostHook_Do A up on command p else hook_ok p)"

definition execPostHook_postFail :: "hook_answers \<Rightarrow> string \<Rightarrow> execOn \<Rightarrow> string list \<Rightarrow> baseProvider \<Rightarrow> hook_result" where
  "execPostHook_postFail A up on command p = (if on = execOnFailure then execPostHook_Do A up on command p else hook_ok p)"

lemmas execPostHook_defs [simp] = execPostHook_postSuccess_def execPostHook_postFail_def

definition zfsHook_preJob :: "hook_answers \<Rightarrow> baseProvider \<Rightarrow> hook_result" where
  "zfsHook_preJob A p =
     (case WorkingDir p of
        None \<Rightarrow> None
      | Some workingDir \<Rightarrow>
          (case ha_NotExist A of
             Some e \<Rightarrow> hook_err e p
           | None \<Rightarrow> Some (ha_Command A [] [''mountpoint'', ''-q'', workingDir], [], p)))"

definition btrfs_preJob :: "hook_answers \<Rightarrow> baseProvider \<Rightarrow> hook_result" where
  "btrfs_preJob A p =
     (case WorkingDir p of
        None \<Rightarrow> None
      | Some path \<Rightarrow>
          (if ha_NotExist A \<noteq> None then Some (ha_CreateErr A, [CreateSubVolume path], p)
           else case ha_IsSubVolume A of
             Inl e \<Rightarrow> hook_err e p
           | Inr is_sub \<Rightarrow>
               (if is_sub then hook_ok p else hook_err (''path '' @ path @ '' exists but isn'' @ [CHR 0x27] @ ''t a Btrfs subvolume'') p)))"

definition btrfs_postSuccess :: "hook_answers \<Rightarrow> string \<Rightarrow> baseProvider \<Rightarrow> hook_result" where
  "btrfs_postSuccess A snapshotPath p =
     (let create = (\<lambda>ops. case WorkingDir p of
                       None \<Rightarrow> None
                     | Some wd \<Rightarrow> Some (ha_SnapshotErr A, ops @ [SnapshotSubVolume wd snapshotPath], p))
      in if ha_NotExist A \<noteq> None then create []
         else case ha_IsSubVolume A of
           Inl e \<Rightarrow> hook_err e p
         | Inr is_sub \<Rightarrow>
             (if \<not> is_sub then hook_err (''path '' @ snapshotPath @ '' exists and isn'' @ [CHR 0x27] @ ''t a Btrfs snapshot'') p
              else case ha_DeleteErr A of
                Some e \<Rightarrow> Some (Some e, [DeleteSubVolume snapshotPath], p)
              | None \<Rightarrow> create [DeleteSubVolume snapshotPath]))"

subsection \<open>The dispatch of the interface jobHook\<close>

fun hook_action :: "hook_answers \<Rightarrow> string \<Rightarrow> hookAction \<Rightarrow> jobHook \<Rightarrow> baseProvider \<Rightarrow> hook_result" where
  "hook_action A up preExec LogLimiter p = logLimiter_preExec A p"
| "hook_action A up postSuccess LogLimiter p = logLimiter_postSuccess p"
| "hook_action A up postFail LogLimiter p = logLimiter_postFail p"
| "hook_action A up preExec (DockerHook d) p = dockerHook_preExec A p"
| "hook_action A up postExec (DockerHook d) p = dockerHook_postExec A p"
| "hook_action A up preJob (ZfsHook z) p = zfsHook_preJob A p"
| "hook_action A up preJob (BtrfsSnapshotHook s) p = btrfs_preJob A p"
| "hook_action A up postSuccess (BtrfsSnapshotHook s) p = btrfs_postSuccess A s p"
| "hook_action A up postSuccess (ExecPostHook on command) p = execPostHook_postSuccess A up on command p"
| "hook_action A up postFail (ExecPostHook on command) p = execPostHook_postFail A up on command p"
| "hook_action A up a (CgroupHook cg mem) p = Some (ha_Cgroup A a, [], p)"
| "hook_action A up a h p = hook_ok p"

subsection \<open>The hooks of a provider in a run\<close>

text \<open>On systems other than Linux the Btrfs hook is a stub (btrfs_snapshot_hook_nolinux.go): it keeps nothing of its
  configuration, and all its methods return \<open>nil\<close>.\<close>

definition nolinux_newBtrfsSnapshotHook :: "string \<Rightarrow> string \<Rightarrow> mirrorConfig \<Rightarrow> unit" where
  "nolinux_newBtrfsSnapshotHook name snapshotPath mirror = ()"

fun nolinux_btrfs_action :: "hookAction \<Rightarrow> unit \<Rightarrow> baseProvider \<Rightarrow> hook_result" where
  "nolinux_btrfs_action preJob h p = hook_ok p"
| "nolinux_btrfs_action preExec h p = hook_ok p"
| "nolinux_btrfs_action postExec h p = hook_ok p"
| "nolinux_btrfs_action postSuccess h p = hook_ok p"
| "nolinux_btrfs_action postFail h p = hook_ok p"

text \<open>Where the real hook does anything, so before the job and after a success, the stub differs from it; elsewhere the two agree.\<close>

lemma nolinux_btrfs_agrees:
  "a \<noteq> preJob \<Longrightarrow> a \<noteq> postSuccess \<Longrightarrow>
   hook_action A up a (BtrfsSnapshotHook s) p = nolinux_btrfs_action a (nolinux_newBtrfsSnapshotHook n sp m) p"
  by (cases a) simp_all

text \<open>The provider of \<open>Mirror_Job\<close> with these hooks.  Its world has the answers of the operating system
  for each hook call, the provider with its context, and a part \<open>'e\<close> for the process, on which the
  remaining operations work.  A panic of a hook is given as an error; it needs a lost context.\<close>

record 'e hook_world =
  hw_calls :: nat
  hw_base :: baseProvider
  hw_env :: 'e

record 'e process_ops =
  po_Start :: "'e \<Rightarrow> sync_start \<times> 'e"
  po_Wait :: "duration \<Rightarrow> 'e \<Rightarrow> sync_wait \<times> 'e"
  po_Terminate :: "'e \<Rightarrow> goerror option \<times> 'e"
  po_DataSize :: "'e \<Rightarrow> string \<times> 'e"
  po_State :: "'e \<Rightarrow> jobState \<times> 'e"

definition on_env :: "('e \<Rightarrow> 'a \<times> 'e) \<Rightarrow> 'e hook_world \<Rightarrow> 'a \<times> 'e hook_world" where
  "on_env f w = (case f (hw_env w) of (x, e) \<Rightarrow> (x, w\<lparr>hw_env := e\<rparr>))"

definition run_hook :: "(nat \<Rightarrow> hook_answers) \<Rightarrow> string \<Rightarrow> hookAction \<Rightarrow> jobHook \<Rightarrow> 'e hook_world \<Rightarrow> goerror option \<times> 'e hook_world" where
  "run_hook A up a h w =
     (case hook_action (A (hw_calls w)) up a h (hw_base w) of
        None \<Rightarrow> (Some ''panic'', w)
      | Some (e, ops, b) \<Rightarrow> (e, w\<lparr>hw_calls := Suc (hw_calls w), hw_base := b\<rparr>))"

definition job_provider :: "(nat \<Rightarrow> hook_answers) \<Rightarrow> 'e process_ops \<Rightarrow> 'r provider \<Rightarrow> (jobHook, 'e hook_world) mirrorProvider" where
  "job_provider A ops pr =
     \<lparr>p_Name = Name pr, p_Retry = Retry pr, p_Timeout = Timeout pr, p_Hooks = Hooks pr,
      p_Action = run_hook A (Upstream pr), p_Start = on_env (po_Start ops), p_Wait = (\<lambda>t. on_env (po_Wait ops t)),
      p_Terminate = on_env (po_Terminate ops), p_DataSize = on_env (po_DataSize ops), p_State = on_env (po_State ops)\<rparr>"

text \<open>The context of the world, and the hooks that do not touch it.\<close>

abbreviation hw_ctx :: "'e hook_world \<Rightarrow> ctx_value Context option" where
  "hw_ctx w \<equiv> bp_ctx (hw_base w)"

fun neutral :: "jobHook \<Rightarrow> bool" where
  "neutral LogLimiter = False"
| "neutral (DockerHook d) = False"
| "neutral _ = True"

text \<open>The hooks \<open>newMirrorProvider\<close> installs: the log limiter first, then at most one docker hook among
  hooks that leave the context alone.\<close>

definition hooks_shape :: "jobHook list \<Rightarrow> bool" where
  "hooks_shape hs \<longleftrightarrow> (\<exists>n1 d n2. hs = LogLimiter # n1 @ d @ n2 \<and> list_all neutral n1 \<and> list_all neutral n2 \<and>
     (d = [] \<or> (\<exists>x. d = [DockerHook x])))"

lemma hook_action_neutral:
  assumes "neutral h" and "hook_action A up a h p = Some (e, ops, p')"
  shows "bp_ctx p' = bp_ctx p"
  using assms
  by (cases h; cases a)
     (auto simp: zfsHook_preJob_def btrfs_preJob_def btrfs_postSuccess_def execPostHook_Do_def Let_def
       split: option.splits if_splits sum.splits)

lemma runHooks_append:
  "runHooks P (xs @ ys) a w =
     (case runHooks P xs a w of
        (Some e, tr, w') \<Rightarrow> (Some e, tr, w')
      | (None, tr, w') \<Rightarrow> (case runHooks P ys a w' of (e, tr', w'') \<Rightarrow> (e, tr @ tr', w'')))"
  by (induction P xs a w rule: runHooks.induct) (auto split: prod.splits option.splits)

lemma job_provider_sel [simp]:
  "p_Action (job_provider A ops pr) = run_hook A (Upstream pr)" "p_Hooks (job_provider A ops pr) = bp_hooks (pr_base pr)"
  "p_Retry (job_provider A ops pr) = Retry pr" "p_Name (job_provider A ops pr) = Name pr"
  "p_Start (job_provider A ops pr) = on_env (po_Start ops)" "p_Wait (job_provider A ops pr) t = on_env (po_Wait ops t)"
  "p_Terminate (job_provider A ops pr) = on_env (po_Terminate ops)"
  "p_DataSize (job_provider A ops pr) = on_env (po_DataSize ops)" "p_State (job_provider A ops pr) = on_env (po_State ops)"
  by (simp_all add: job_provider_def Hooks_def)

lemma hw_ctx_on_env: "on_env f w = (x, w') \<Longrightarrow> hw_ctx w' = hw_ctx w"
  by (auto simp: on_env_def split: prod.splits)

lemma runHooks_neutral:
  assumes "list_all neutral hs" and "runHooks (job_provider A ops pr) hs a w = (None, tr, w')"
  shows "hw_ctx w' = hw_ctx w"
  using assms
proof (induction hs arbitrary: w tr)
  case (Cons h hs)
  then obtain w1 tr1 where w1: "run_hook A (Upstream pr) a h w = (None, w1)"
    "runHooks (job_provider A ops pr) hs a w1 = (None, tr1, w')"
    by (auto split: prod.splits option.splits)
  have "hw_ctx w1 = hw_ctx w"
    using w1(1) Cons.prems(1) hook_action_neutral [of h]
    by (auto simp: run_hook_def split: option.splits prod.splits)
  with Cons.IH [OF _ w1(2)] Cons.prems(1) show ?case by simp
qed simp

text \<open>No hook touches the context before the job.\<close>

lemma preJob_ctx:
  "runHooks (job_provider A ops pr) hs preJob w = (None, tr, w') \<Longrightarrow> hw_ctx w' = hw_ctx w"
proof (induction hs arbitrary: w tr)
  case (Cons h hs)
  then obtain w1 tr1 where w1: "run_hook A (Upstream pr) preJob h w = (None, w1)"
    "runHooks (job_provider A ops pr) hs preJob w1 = (None, tr1, w')"
    by (auto split: prod.splits option.splits)
  have "hw_ctx w1 = hw_ctx w"
  proof (cases "neutral h")
    case True
    with w1(1) hook_action_neutral [of h] show ?thesis by (auto simp: run_hook_def split: option.splits prod.splits)
  next
    case False
    with w1(1) show ?thesis by (cases h) (auto simp: run_hook_def)
  qed
  with Cons.IH [OF w1(2)] show ?case by simp
qed simp

lemma runHooks_single:
  "runHooks P [h] a w = (None, tr, w') \<longleftrightarrow> p_Action P a h w = (None, w') \<and> tr = [Hook a h]"
  by (auto split: prod.splits option.splits)

text \<open>Running a list in which only one hook touches the context.\<close>

lemma runHooks_around:
  assumes "list_all neutral n1" and "list_all neutral n2"
    and "runHooks (job_provider A ops pr) (n1 @ d @ n2) a w = (None, tr, w')"
  obtains w1 tr1 w2 where "hw_ctx w1 = hw_ctx w" and "runHooks (job_provider A ops pr) d a w1 = (None, tr1, w2)"
    and "hw_ctx w' = hw_ctx w2"
proof -
  let ?P = "job_provider A ops pr"
  from assms(3) obtain tr1 w1 tr2 w2 tr3 where
    "runHooks ?P n1 a w = (None, tr1, w1)" "runHooks ?P d a w1 = (None, tr2, w2)" "runHooks ?P n2 a w2 = (None, tr3, w')"
    by (auto simp: runHooks_append split: prod.splits option.splits)
  with that runHooks_neutral [OF assms(1)] runHooks_neutral [OF assms(2)] show thesis by metis
qed

subsection \<open>The context through an attempt\<close>

fun exits :: "nat \<Rightarrow> 'v Context \<Rightarrow> 'v Context option" where
  "exits 0 c = Some c"
| "exits (Suc n) c = Option.bind (fst (Exit c)) (exits n)"

lemma exits_Enter [simp]: "exits (Suc n) (Enter c) = exits n c" and exits_Set [simp]: "exits (Suc n) (Set k v c) = exits (Suc n) c"
  by simp_all

lemma docker_exits:
  assumes "runHooks (job_provider A ops pr) [DockerHook x] postExec w = (None, tr, w')" and "hw_ctx w = Some c" and "exits (Suc n) c = Some c0"
  shows "\<exists>c'. hw_ctx w' = Some c' \<and> exits n c' = Some c0"
  using assms
  by (cases "fst (Exit c)") (auto simp: runHooks_single run_hook_def dockerHook_postExec_def exit_context_def ExitContext_def Let_def
      simp del: runHooks.simps)

lemma docker_enters:
  assumes "runHooks (job_provider A ops pr) [DockerHook x] preExec w = (None, tr, w')" and "hw_ctx w = Some c"
  shows "\<exists>c'. hw_ctx w' = Some c' \<and> fst (Exit c') = Some c"
  using assms
  by (auto simp: runHooks_single run_hook_def dockerHook_preExec_def EnterContext_def set_ctx_def
      simp del: runHooks.simps split: option.splits if_splits)

lemma limiter_enters:
  assumes "run_hook A up preExec LogLimiter w = (None, w')" and "hw_ctx w = Some c" and "LogFile (hw_base w) \<noteq> Some ''/dev/null''"
  shows "\<exists>c'. hw_ctx w' = Some c' \<and> fst (Exit c') = Some c"
  using assms
  by (auto simp: run_hook_def logLimiter_preExec_def EnterContext_def set_ctx_def Let_def
      split: option.splits if_splits dir_list.splits)

lemma limiter_exits:
  assumes "run_hook A up a LogLimiter w = (None, w')" and "a = postSuccess \<or> a = postFail" and "hw_ctx w = Some c" and "exits 1 c = Some c0"
  shows "hw_ctx w' = Some c0"
proof -
  have "fst (Exit c) = Some c0" using assms(4) by (cases "fst (Exit c)") simp_all
  with assms(1-3) show ?thesis
    by (auto simp: run_hook_def logLimiter_postSuccess_def logLimiter_postFail_def exit_context_def ExitContext_def Let_def
        split: option.splits)
qed

text \<open>The number of layers the hooks of a list enter.\<close>

definition layers :: "jobHook list \<Rightarrow> nat" where
  "layers hs = Suc (if \<exists>x. DockerHook x \<in> set hs then 1 else 0)"

lemma neutral_no_docker: "list_all neutral hs \<Longrightarrow> DockerHook x \<notin> set hs"
  by (auto simp: list_all_iff)

lemma layers_shape:
  assumes "list_all neutral n1" and "list_all neutral n2"
  shows "layers (LogLimiter # n1 @ n2) = 1" and "layers (LogLimiter # n1 @ DockerHook x # n2) = 2"
  using assms by (auto simp: layers_def neutral_no_docker)

lemma preExec_layers:
  assumes "hooks_shape hs" and "runHooks (job_provider A ops pr) hs preExec w = (None, tr, w')" and "hw_ctx w = Some c"
    and "LogFile (hw_base w) \<noteq> Some ''/dev/null''"
  shows "\<exists>c'. hw_ctx w' = Some c' \<and> exits (layers hs) c' = Some c"
proof -
  let ?P = "job_provider A ops pr"
  from assms(1) obtain n1 d n2 where hs: "hs = LogLimiter # n1 @ d @ n2" "list_all neutral n1" "list_all neutral n2"
    "d = [] \<or> (\<exists>x. d = [DockerHook x])" unfolding hooks_shape_def by blast
  from assms(2) hs(1) obtain w1 tr1 where w1: "run_hook A (Upstream pr) preExec LogLimiter w = (None, w1)"
    "runHooks ?P (n1 @ d @ n2) preExec w1 = (None, tr1, w')" by (auto split: prod.splits option.splits)
  from limiter_enters [OF w1(1) assms(3,4)] obtain c1 where c1: "hw_ctx w1 = Some c1" "fst (Exit c1) = Some c" by blast
  from runHooks_around [OF hs(2,3) w1(2)] obtain w2 tr2 w3 where
    w2: "hw_ctx w2 = hw_ctx w1" "runHooks ?P d preExec w2 = (None, tr2, w3)" "hw_ctx w' = hw_ctx w3" by metis
  from hs(4) show ?thesis
  proof
    assume "d = []"
    with w2 c1 layers_shape(1) [OF hs(2,3)] hs(1) show ?thesis by simp
  next
    assume "\<exists>x. d = [DockerHook x]"
    then obtain x where x: "d = [DockerHook x]" by blast
    have "hw_ctx w2 = Some c1" using w2(1) c1(1) by simp
    from docker_enters [OF w2(2) [unfolded x] this] obtain c2 where "hw_ctx w3 = Some c2" "fst (Exit c2) = Some c1" by blast
    with w2(3) c1(2) layers_shape(2) [OF hs(2,3), of x] hs(1) x show ?thesis by (simp add: numeral_2_eq_2)
  qed
qed

lemma post_layers:
  assumes "hooks_shape hs" and "hw_ctx w = Some c" and "exits (layers hs) c = Some c0"
    and "runHooks (job_provider A ops pr) (rev hs) postExec w = (None, tr, w1)" and "hw_ctx w2 = hw_ctx w1"
    and "runHooks (job_provider A ops pr) (rev hs) a w2 = (None, tr', w3)" and "a = postSuccess \<or> a = postFail"
  shows "hw_ctx w3 = Some c0"
proof -
  let ?P = "job_provider A ops pr"
  from assms(1) obtain n1 d n2 where hs: "hs = LogLimiter # n1 @ d @ n2" "list_all neutral n1" "list_all neutral n2"
    "d = [] \<or> (\<exists>x. d = [DockerHook x])" unfolding hooks_shape_def by blast
  have rev: "rev hs = rev n2 @ d @ rev n1 @ [LogLimiter]" using hs(1,4) by auto
  have neutral: "list_all neutral (rev n2)" "list_all neutral (rev n1)" using hs(2,3) by simp_all
  have split: "\<exists>tr1 v tr2. runHooks ?P (rev n2 @ d @ rev n1) b u = (None, tr1, v) \<and> runHooks ?P [LogLimiter] b v = (None, tr2, u')"
    if "runHooks ?P (rev hs) b u = (None, t, u')" for b u t u'
    using that unfolding rev append_assoc [symmetric] runHooks_append [of _ "(rev n2 @ d) @ rev n1"]
    by (auto simp del: runHooks.simps split: prod.splits option.splits)
  have lim: "hw_ctx u' = hw_ctx u" if "runHooks ?P [LogLimiter] postExec u = (None, t, u')" for u t u'
    using that by (auto simp: run_hook_def split: prod.splits option.splits)
  have doc: "hw_ctx u' = hw_ctx u" if "runHooks ?P d a u = (None, t, u')" for u t u'
    using that hs(4) assms(7) by (auto simp: run_hook_def split: prod.splits option.splits)
  from split [OF assms(4)] obtain t1 v t2 where v: "runHooks ?P (rev n2 @ d @ rev n1) postExec w = (None, t1, v)"
    "runHooks ?P [LogLimiter] postExec v = (None, t2, w1)" by blast
  from runHooks_around [OF neutral v(1)] obtain u1 t3 u2 where
    u: "hw_ctx u1 = hw_ctx w" "runHooks ?P d postExec u1 = (None, t3, u2)" "hw_ctx v = hw_ctx u2" by metis
  have "\<exists>c'. hw_ctx u2 = Some c' \<and> exits 1 c' = Some c0"
    using hs(4)
  proof
    assume "d = []"
    with u assms(2,3) layers_shape(1) [OF hs(2,3)] hs(1) show ?thesis by simp
  next
    assume "\<exists>x. d = [DockerHook x]"
    then obtain x where x: "d = [DockerHook x]" by blast
    have "hw_ctx u1 = Some c" "exits (Suc 1) c = Some c0"
      using u(1) assms(2,3) layers_shape(2) [OF hs(2,3), of x] hs(1) x by (simp_all add: numeral_2_eq_2)
    from docker_exits [OF u(2) [unfolded x] this] show ?thesis .
  qed
  with u(3) lim [OF v(2)] assms(5) obtain c' where c': "hw_ctx w2 = Some c'" "exits 1 c' = Some c0" by auto
  from split [OF assms(6)] obtain t4 y t5 where y: "runHooks ?P (rev n2 @ d @ rev n1) a w2 = (None, t4, y)"
    "runHooks ?P [LogLimiter] a y = (None, t5, w3)" by blast
  from runHooks_around [OF neutral y(1)] obtain x1 t6 x2 where
    "hw_ctx x1 = hw_ctx w2" "runHooks ?P d a x1 = (None, t6, x2)" "hw_ctx y = hw_ctx x2" by metis
  then have "hw_ctx y = Some c'" using doc c'(1) by simp
  moreover have "run_hook A (Upstream pr) a LogLimiter y = (None, w3)" using y(2) by (auto split: prod.splits option.splits)
  ultimately show ?thesis using limiter_exits assms(7) c'(2) by blast
qed

lemma hw_ctx_snd_on_env [simp]: "hw_ctx (snd (on_env f w)) = hw_ctx w"
  by (auto simp: on_env_def split: prod.splits)

lemma finish_attempt_ctx:
  assumes "finish_attempt (job_provider A ops pr) retry stop syncErr w = (r, tr, w')" and "r = NextRetry \<or> r = Leave (Returned None)"
  shows "\<exists>a tr1 w1. (a = postSuccess \<or> a = postFail) \<and> hw_ctx w' = hw_ctx w1 \<and>
    runHooks (job_provider A ops pr) (rev (bp_hooks (pr_base pr))) a w = (None, tr1, w1)"
proof -
  define a where "a = (if syncErr = None then postSuccess else postFail)"
  obtain e tr1 w1 where h: "runHooks (job_provider A ops pr) (rev (bp_hooks (pr_base pr))) a w = (e, tr1, w1)" by (metis prod_cases3)
  have "e = None \<and> hw_ctx w' = hw_ctx w1"
    using assms h unfolding a_def
    by (cases syncErr) (auto simp: finish_attempt_def split: prod.splits option.splits if_splits dest!: hw_ctx_on_env)
  with h show ?thesis unfolding a_def by (intro exI [of _ a]) (auto simp: a_def)
qed

lemma attempt_ctx:
  assumes "attempt (job_provider A ops pr) retry w = (r, tr, w')" and "r = NextRetry \<or> r = Leave (Returned None)"
    and "hooks_shape (bp_hooks (pr_base pr))" and "hw_ctx w = Some c" and "LogFile (hw_base w) \<noteq> Some ''/dev/null''"
  shows "hw_ctx w' = Some c"
proof -
  let ?P = "job_provider A ops pr" and ?hs = "bp_hooks (pr_base pr)"
  obtain e tr1 w1 where h: "runHooks ?P ?hs preExec w = (e, tr1, w1)" by (metis prod_cases3)
  with assms(1,2) have "e = None" by (auto simp: attempt_def split: option.splits)
  with h assms(1) obtain tr2 where sy: "sync_attempt ?P retry w1 = (r, tr2, w')"
    by (auto simp: attempt_def split: prod.splits)
  from preExec_layers [OF assms(3) h [unfolded \<open>e = None\<close>] assms(4,5)] obtain c1 where
    c1: "hw_ctx w1 = Some c1" "exits (layers ?hs) c1 = Some c" by blast
  show ?thesis
  proof (cases rule: sync_attempt_cases [of ?P retry w1])
    case (finish r2 stop syncErr tr3 tr4 tr5 w2 w3 w4)
    then have eq: "r2 = r" "w4 = w'" using sy by simp_all
    have "hw_ctx w2 = Some c1" using finish(6) c1(1) by auto
    from finish_attempt_ctx [OF finish(4)] assms(2) eq obtain a t w5 where
      a: "a = postSuccess \<or> a = postFail" "hw_ctx w4 = hw_ctx w5" "runHooks ?P (rev ?hs) a w3 = (None, t, w5)" by metis
    have "runHooks ?P (rev ?hs) postExec w2 = (None, tr4, w3)" using finish(3) by simp
    from post_layers [OF assms(3) \<open>hw_ctx w2 = Some c1\<close> c1(2) this refl a(3,1)] a(2) eq show ?thesis by simp
  qed (use sy assms(2) in auto)
qed

lemma LogFile_ctx: "bp_ctx p = bp_ctx q \<Longrightarrow> LogFile p = LogFile q"
  by (simp add: LogFile_def ctx_string_def)

lemma retry_loop_ctx:
  assumes "hooks_shape (bp_hooks (pr_base pr))"
  shows "retry_loop (job_provider A ops pr) retry w = (Returned None, tr, w') \<Longrightarrow> hw_ctx w = Some c \<Longrightarrow>
    LogFile (hw_base w) \<noteq> Some ''/dev/null'' \<Longrightarrow> hw_ctx w' = Some c"
proof (induction "job_provider A ops pr" retry w arbitrary: tr w' rule: retry_loop.induct)
  case (1 retry w)
  let ?P = "job_provider A ops pr"
  show ?case
  proof (cases "retry < p_Retry ?P")
    case False
    with 1(2,3) show ?thesis by (simp add: retry_loop_end)
  next
    case True
    obtain r tr1 w1 where a: "attempt ?P retry w = (r, tr1, w1)" by (metis prod_cases3)
    show ?thesis
    proof (cases r)
      case (Leave re)
      with 1(2) retry_loop_leave [OF True] a have "re = Returned None" "w' = w1" by simp_all
      with attempt_ctx [OF a _ assms 1(3,4)] Leave show ?thesis by simp
    next
      case NextRetry
      with attempt_ctx [OF a _ assms 1(3,4)] have c: "hw_ctx w1 = Some c" by simp
      from 1(2) retry_loop_next [OF True a [unfolded NextRetry]] obtain tr2 where
        l: "retry_loop ?P (retry + 1) w1 = (Returned None, tr2, w')" by (auto split: prod.splits)
      have "LogFile (hw_base w1) \<noteq> Some ''/dev/null''" using c 1(3,4) LogFile_ctx [of "hw_base w1" "hw_base w"] by simp
      with 1(1) [OF True a [unfolded NextRetry, symmetric] refl refl l c] show ?thesis by simp
    qed
  qed
qed

subsection \<open>Hooks and context of the providers of a configuration\<close>

lemma newMirrorProvider_hooks_shape:
  assumes "newMirrorProvider E mirror cfg = Some (pr, mirror')"
  shows "hooks_shape (bp_hooks (pr_base pr))"
proof -
  from newMirrorProvider_base [OF assms] obtain base n1 d n2 where
    b: "pr_base pr = set_exit_codes (cf_Global cfg) (with_defaults (cf_Global cfg) mirror) base" and
    h: "bp_hooks base = LogLimiter # n1 @ d @ n2" "\<forall>h\<in>set n1. (\<exists>z. h = ZfsHook z) \<or> (\<exists>s. h = BtrfsSnapshotHook s)"
      "d = [] \<or> (\<exists>x. d = [DockerHook x]) \<or> (\<exists>cg mem. d = [CgroupHook cg mem])"
      "\<forall>h\<in>set n2. \<exists>on command. h = ExecPostHook on command" by metis
  have n: "list_all neutral n1" "list_all neutral n2" using h(2,4) by (auto simp: list_all_iff)
  show ?thesis
  proof (cases "\<exists>cg mem. d = [CgroupHook cg mem]")
    case True
    with n h(1) b show ?thesis unfolding hooks_shape_def
      by (intro exI [of _ n1] exI [of _ "[]"] exI [of _ "d @ n2"]) auto
  next
    case False
    with n h(1,3) b show ?thesis unfolding hooks_shape_def
      by (intro exI [of _ n1] exI [of _ d] exI [of _ n2]) auto
  qed
qed

lemma clean_elems_last:
  "e \<noteq> [] \<Longrightarrow> e \<noteq> ''.'' \<Longrightarrow> e \<noteq> ''..'' \<Longrightarrow> \<exists>xs. clean_elems rooted (es @ [e]) acc = xs @ [e]"
  by (induction rooted es acc rule: clean_elems.induct) (auto split: list.split)

lemma strings_Join_snoc: "\<exists>ys. strings_Join c (xs @ [e]) = ys @ e"
proof (induction xs)
  case (Cons x xs)
  then show ?case by (cases "xs @ [e]") auto
qed simp

lemma log_file_path: "\<exists>ys. filepath_Join [d, ''latest.log''] = ys @ ''latest.log''"
proof -
  have clean: "\<exists>ys. path_Clean p = ys @ ''latest.log''" if "strings_Split (CHR ''/'') p = es @ [''latest.log'']" for p es
  proof -
    obtain xs where "clean_elems (case p of c # _ \<Rightarrow> c = CHR ''/'' | [] \<Rightarrow> False) (es @ [''latest.log'']) [] = xs @ [''latest.log'']"
      using clean_elems_last by fastforce
    moreover obtain ys where "strings_Join (CHR ''/'') (xs @ [''latest.log'']) = ys @ ''latest.log''" using strings_Join_snoc by blast
    ultimately show ?thesis using that by (simp add: path_Clean_def Let_def)
  qed
  show ?thesis
  proof (cases "d = []")
    case True
    then show ?thesis using clean [of "''latest.log''" "[]"] by (simp add: filepath_Join_def)
  next
    case False
    have "strings_Split (CHR ''/'') (d @ CHR ''/'' # ''latest.log'') = strings_Split (CHR ''/'') d @ [''latest.log'']"
      unfolding strings_Split_sep by simp
    from clean [OF this] False show ?thesis by (simp add: filepath_Join_def)
  qed
qed

lemma newMirrorProvider_LogFile:
  assumes "newMirrorProvider E mirror cfg = Some (pr, mirror')"
  shows "bp_ctx (pr_base pr) \<noteq> None" and "LogFile (pr_base pr) \<noteq> Some ''/dev/null''"
proof -
  from newMirrorProvider_base [OF assms] obtain logDir base where b:
    "same_settings base ((new_base (mc_Name mirror) (mc_Interval (with_defaults (cf_Global cfg) mirror) * Minute)
       (effective_retry cfg mirror) (mc_Timeout (with_defaults (cf_Global cfg) mirror) * Second)
       (mirror_dir cfg mirror) logDir (filepath_Join [logDir, ''latest.log'']))\<lparr>bp_isMaster := is_master_role (mc_Role mirror)\<rparr>)"
    "pr_base pr = set_exit_codes (cf_Global cfg) (with_defaults (cf_Global cfg) mirror) base" by metis
  then show "bp_ctx (pr_base pr) \<noteq> None" by (simp add: same_settings_def new_base_def)
  have "LogFile (pr_base pr) = Some (filepath_Join [logDir, ''latest.log''])"
    using b by (simp add: same_settings_def new_base_def LogFile_def ctx_string_def Get_Set)
  moreover obtain ys where "filepath_Join [logDir, ''latest.log''] = ys @ ''latest.log''" using log_file_path by blast
  moreover have "ys @ ''latest.log'' \<noteq> ''/dev/null''"
  proof
    assume "ys @ ''latest.log'' = ''/dev/null''"
    then have "last (ys @ ''latest.log'') = last ''/dev/null''" by simp
    then show False by simp
  qed
  ultimately show "LogFile (pr_base pr) \<noteq> Some ''/dev/null''" by simp
qed

subsection \<open>Properties of the hooks\<close>

text \<open>C38.  A run that ends normally leaves the provider's context as it found it: for every provider built
  from a configuration and whatever the system answers, when \<open>runJobWrapper\<close> returns \<open>nil\<close> (after a
  success or after all failed attempts) the layers the log limiter and the docker hook entered have all
  been left, so the next run starts from the same log file and volumes.\<close>

theorem run_restores_context:
  assumes "newMirrorProvider E mirror cfg = Some (pr, mirror')" and "bp_ctx (hw_base w) = bp_ctx (pr_base pr)"
    and "runJobWrapper (job_provider A ops pr) w = (Returned None, tr, w')"
  shows "bp_ctx (hw_base w') = bp_ctx (pr_base pr)"
proof -
  let ?P = "job_provider A ops pr"
  note shape = newMirrorProvider_hooks_shape [OF assms(1)] and log = newMirrorProvider_LogFile [OF assms(1)]
  obtain c where c: "bp_ctx (pr_base pr) = Some c" using log(1) by blast
  obtain e tr1 w1 where h: "runHooks ?P (bp_hooks (pr_base pr)) preJob w = (e, tr1, w1)" by (metis prod_cases3)
  with assms(3) have "e = None" by (auto simp: runJobWrapper_def split: option.splits)
  with h assms(3) obtain tr2 where l: "retry_loop ?P 0 w1 = (Returned None, tr2, w')"
    by (auto simp: runJobWrapper_def split: prod.splits)
  have "hw_ctx w1 = hw_ctx w" using preJob_ctx [OF h [unfolded \<open>e = None\<close>]] .
  with assms(2) c have c1: "hw_ctx w1 = Some c" by simp
  have "LogFile (hw_base w1) \<noteq> Some ''/dev/null''" using log(2) LogFile_ctx [of "hw_base w1" "pr_base pr"] c1 c by simp
  from retry_loop_ctx [OF shape l c1 this] c show ?thesis by simp
qed

definition ex_answers :: hook_answers where
  "ex_answers = \<lparr>ha_ReadDir = DirFiles [], ha_Lstat = False, ha_Stamp = ''2024-01-01_00_00'', ha_NotExist = None, ha_MkdirErr = None,
     ha_DockerPs = (\<lambda>_. Inr ''''), ha_Command = (\<lambda>_ _. None), ha_IsSubVolume = Inr True, ha_CreateErr = None, ha_DeleteErr = None,
     ha_SnapshotErr = None, ha_Cgroup = (\<lambda>_. None)\<rparr>"

definition ex_ops :: "unit process_ops" where
  "ex_ops = \<lparr>po_Start = (\<lambda>e. (StartOk, e)), po_Wait = (\<lambda>_ e. (SyncDone None, e)), po_Terminate = (\<lambda>e. (None, e)),
     po_DataSize = (\<lambda>e. (''1G'', e)), po_State = (\<lambda>e. (stateReady, e))\<rparr>"

lemma ex_pr_ctx:
  assumes "newMirrorProvider ex_env ex_rsync ex_config = Some (p, m')"
  shows "bp_hooks (pr_base p) = [LogLimiter]"
    and "\<exists>lf. bp_ctx (pr_base p) = Some (Set LogFileKey (VStr lf) (Set LogDirKey (VStr ''/log/deb'') (Set WorkingDirKey (VStr ''/data/deb'') NewContext)))"
  using assms
  by (auto simp: newMirrorProvider_def ex_env_def ex_rsync_def ex_config_def zero_mirrorConfig_def with_defaults_def
      newRsyncProvider_def rsync_conf_def has_suffix_slash_def add_hooks_def elems_def Let_def new_base_def
      filepath_Join_def path_Clean_def)

lemma ex_pr_runs:
  assumes "newMirrorProvider ex_env ex_rsync ex_config = Some (p, m')"
  shows "\<exists>tr w'. runJobWrapper (job_provider (\<lambda>_. ex_answers) ex_ops p) \<lparr>hw_calls = 0, hw_base = pr_base p, hw_env = ()\<rparr> = (Returned None, tr, w')"
proof -
  let ?P = "job_provider (\<lambda>_. ex_answers) ex_ops p"
  let ?w = "\<lparr>hw_calls = 0, hw_base = pr_base p, hw_env = ()\<rparr>"
  note h = ex_pr_ctx(1) [OF assms]
  from ex_pr_ctx(2) [OF assms] obtain lf where
    c: "bp_ctx (pr_base p) = Some (Set LogFileKey (VStr lf) (Set LogDirKey (VStr ''/log/deb'') (Set WorkingDirKey (VStr ''/data/deb'') NewContext)))" by blast
  have dir: "LogDir (pr_base p) = Some ''/log/deb''" "LogFile (pr_base p) = Some lf" "lf \<noteq> ''/dev/null''"
    using newMirrorProvider_LogFile(2) [OF assms] c
    by (simp_all add: LogDir_def LogFile_def ctx_string_def Get_Set LogDirKey_def LogFileKey_def)
  have "0 < p_Retry ?P"
    using assms by (auto simp: Retry_def newMirrorProvider_def ex_env_def ex_rsync_def ex_config_def zero_mirrorConfig_def with_defaults_def
      newRsyncProvider_def rsync_conf_def has_suffix_slash_def add_hooks_def elems_def Let_def new_base_def defaultMaxRetry_def)
  moreover obtain tr w' where "attempt ?P 0 (?w\<lparr>hw_calls := Suc 0\<rparr>) = (Leave (Returned None), tr, w')"
    using c dir
    by (simp add: attempt_eval h run_hook_def logLimiter_preExec_def ex_answers_def EnterContext_def set_ctx_def on_env_def ex_ops_def
        logLimiter_postSuccess_def exit_context_def ExitContext_def)
  ultimately have "retry_loop ?P 0 (?w\<lparr>hw_calls := Suc 0\<rparr>) = (Returned None, tr, w')" by (rule retry_loop_leave)
  then show ?thesis by (simp add: runJobWrapper_def h run_hook_def)
qed

theorem run_restores_context_witness:
  "\<exists>p m' tr w'. newMirrorProvider ex_env ex_rsync ex_config = Some (p, m') \<and>
    runJobWrapper (job_provider (\<lambda>_. ex_answers) ex_ops p) \<lparr>hw_calls = 0, hw_base = pr_base p, hw_env = ()\<rparr> = (Returned None, tr, w') \<and>
    bp_ctx (hw_base w') = bp_ctx (pr_base p)"
proof -
  from ex_rsync_provider obtain p m' where p: "newMirrorProvider ex_env ex_rsync ex_config = Some (p, m')" by blast
  from ex_pr_runs [OF p] obtain tr w' where
    r: "runJobWrapper (job_provider (\<lambda>_. ex_answers) ex_ops p) \<lparr>hw_calls = 0, hw_base = pr_base p, hw_env = ()\<rparr> = (Returned None, tr, w')" by blast
  have "bp_ctx (hw_base \<lparr>hw_calls = 0, hw_base = pr_base p, hw_env = ()\<rparr>) = bp_ctx (pr_base p)" by simp
  from run_restores_context [OF p this r] p r show ?thesis by blast
qed

text \<open>The log limiter keeps the newest logs: of the files with the job's prefix it deletes all but
  nine, only such files, and no deleted file was modified after a kept one.\<close>

theorem log_limiter_keeps_newest:
  "length (old_logs name files) = length (matched_logs name files) - 9 \<and>
   (\<exists>kept. mset (kept @ old_logs name files) = mset (matched_logs name files) \<and>
      (\<forall>g\<in>set kept. \<forall>f\<in>set (old_logs name files). snd f \<le> snd g))"
proof
  let ?l = "rev (sort_key snd (matched_logs name files))"
  show "length (old_logs name files) = length (matched_logs name files) - 9" by (simp add: old_logs_def)
  have "sorted_wrt (\<lambda>x y. snd y \<le> snd x) ?l"
    using sorted_sort_key [of snd "matched_logs name files"] by (simp add: sorted_wrt_rev sorted_map)
  then have "sorted_wrt (\<lambda>x y. snd y \<le> snd x) (take 9 ?l @ drop 9 ?l)" by (simp only: append_take_drop_id)
  then have "\<forall>g\<in>set (take 9 ?l). \<forall>f\<in>set (drop 9 ?l). snd f \<le> snd g" by (simp only: sorted_wrt_append) blast
  moreover have "mset (take 9 ?l @ drop 9 ?l) = mset (matched_logs name files)" by (simp only: append_take_drop_id) simp
  ultimately show "\<exists>kept. mset (kept @ old_logs name files) = mset (matched_logs name files) \<and>
      (\<forall>g\<in>set kept. \<forall>f\<in>set (old_logs name files). snd f \<le> snd g)"
    unfolding old_logs_def by blast
qed

definition ex_logs :: "(string \<times> gtime) list" where
  "ex_logs = (''deb_0'', 3) # (''pypi_0'', 1) # map (\<lambda>i. (''deb_'' @ show_nat i, int i + 10)) [1..<10]"

theorem log_limiter_keeps_newest_witness:
  "length (matched_logs ''deb'' ex_logs) = 10 \<and> length (old_logs ''deb'' ex_logs) = 1"
proof -
  have "length (matched_logs ''deb'' ex_logs) = 10"
    by (simp add: matched_logs_def ex_logs_def upt_rec)
  with log_limiter_keeps_newest [of "''deb''" ex_logs] show ?thesis by simp
qed

end
