(* ===== verification/Rsync_Util.thy ===== *)
theory Rsync_Util
  imports Go_Prelude
begin

section \<open>Log scanning and rsync exit codes (internal/util.go)\<close>

text \<open>
  The part of \<open>internal/util.go\<close> the providers rely on: the table of rsync exit codes and the
  extraction of a mirror size from a log file.  A file system is the function from a path to the
  content that \<open>os.ReadFile\<close> returns (\<open>None\<close> for an error); a compiled \<open>regexp.Regexp\<close> is
  the function \<open>FindAllSubmatch\<close> on contents, every match being the whole match followed by its
  capture groups.  The expression of \<open>ExtractSizeFromRsyncLog\<close> is fixed by the source, so its
  matcher is written out, line by line.
\<close>

type_synonym file_system = "string \<Rightarrow> string option"
type_synonym regexp = "string \<Rightarrow> string list list"

definition rsyncExitValues :: "(int \<times> string) list" where
  "rsyncExitValues =
    [(0, ''Success''),
     (1, ''Syntax or usage error''),
     (2, ''Protocol incompatibility''),
     (3, ''Errors selecting input/output files, dirs''),
     (4, ''Requested action not supported: an attempt was made to manipulate 64-bit files on a platform that cannot support them; or an option was specified that is supported by the client and not by the server.''),
     (5, ''Error starting client-server protocol''),
     (6, ''Daemon unable to append to log-file''),
     (10, ''Error in socket I/O''),
     (11, ''Error in file I/O''),
     (12, ''Error in rsync protocol data stream''),
     (13, ''Errors with program diagnostics''),
     (14, ''Error in IPC code''),
     (20, ''Received SIGUSR1 or SIGINT''),
     (21, ''Some error returned by waitpid()''),
     (22, ''Error allocating core memory buffers''),
     (23, ''Partial transfer due to error''),
     (24, ''Partial transfer due to vanished source files''),
     (25, ''The --max-delete limit stopped deletions''),
     (30, ''Timeout in data send/receive''),
     (35, ''Timeout waiting for daemon connection'')]"

text \<open>The error of a finished command: an \<open>*exec.ExitError\<close> with its exit code, or another
  error.\<close>

datatype cmd_error = ExitError int | OtherError goerror

fun TranslateRsyncErrorCode :: "cmd_error \<Rightarrow> int \<times> string" where
  "TranslateRsyncErrorCode (ExitError code) =
     (code, case map_of rsyncExitValues code of
              None \<Rightarrow> '''' | Some strerr \<Rightarrow> ''rsync error: '' @ strerr)"
| "TranslateRsyncErrorCode (OtherError e) = (0, '''')"

subsection \<open>Matches in a log file\<close>

text \<open>The error of \<open>os.ReadFile\<close> is bound to a variable of the inner scope, so an unreadable file
  yields no matches and no error.\<close>

definition FindAllSubmatchInFile :: "file_system \<Rightarrow> string \<Rightarrow> regexp \<Rightarrow> string list list with_err" where
  "FindAllSubmatchInFile fs fileName re =
     (if fileName = ''/dev/null'' then ([], Some ''invalid log file'')
      else case fs fileName of
             Some content \<Rightarrow> (re content, None)
           | None \<Rightarrow> ([], None))"

text \<open>The first capture group of the last match; indexing a match without groups panics
  (\<open>None\<close>).\<close>

definition ExtractSizeFromLog :: "file_system \<Rightarrow> string \<Rightarrow> regexp \<Rightarrow> string option" where
  "ExtractSizeFromLog fs logFile re =
     (let matches = fst (FindAllSubmatchInFile fs logFile re)
      in if matches = [] then Some ''''
         else if length (last matches) > 1 then Some (last matches ! 1) else None)"

subsection \<open>The size line of rsync\<close>

definition size_char :: "char \<Rightarrow> bool" where
  "size_char c \<longleftrightarrow> (CHR ''0'' \<le> c \<and> c \<le> CHR ''9'') \<or> c = CHR ''.''"

definition size_unit :: "char \<Rightarrow> bool" where
  "size_unit c \<longleftrightarrow> c \<in> set ''KMGTP''"

definition drop_prefix :: "string \<Rightarrow> string \<Rightarrow> string option" where
  "drop_prefix p s = (if prefix p s then Some (drop (length p) s) else None)"

text \<open>\<open>([0-9\.]+[KMGTP]?) bytes\<close> at the start of a text: the captured group.\<close>

definition match_size :: "string \<Rightarrow> string option" where
  "match_size s =
     (let ds = takeWhile size_char s; r = dropWhile size_char s in
      if ds = [] then None
      else case r of
             u # r' \<Rightarrow> if size_unit u \<and> prefix '' bytes'' r' then Some (ds @ [u])
                       else if prefix '' bytes'' r then Some ds else None
           | [] \<Rightarrow> None)"

definition match_size_line :: "string \<Rightarrow> string option" where
  "match_size_line line =
     (case drop_prefix ''Total file size: '' line of None \<Rightarrow> None | Some r \<Rightarrow> match_size r)"

definition rsync_size_re :: regexp where
  "rsync_size_re content =
     map (\<lambda>g. [''Total file size: '' @ g @ '' bytes'', g])
       (List.map_filter match_size_line (strings_Split (CHR ''\<newline>'') content))"

definition ExtractSizeFromRsyncLog :: "file_system \<Rightarrow> string \<Rightarrow> string option" where
  "ExtractSizeFromRsyncLog fs logFile = ExtractSizeFromLog fs logFile rsync_size_re"

subsection \<open>Properties\<close>

lemma map_filter_append: "List.map_filter f (xs @ ys) = List.map_filter f xs @ List.map_filter f ys"
  by (simp add: List.map_filter_def)

lemma map_filter_NoneI: "(\<And>x. x \<in> set xs \<Longrightarrow> f x = None) \<Longrightarrow> List.map_filter f xs = []"
  by (induction xs) (auto simp: List.map_filter_def)

lemma rsync_size_re_groups: "m \<in> set (rsync_size_re content) \<Longrightarrow> length m = 2"
  by (auto simp: rsync_size_re_def)

lemma ExtractSizeFromRsyncLog_total: "\<exists>s. ExtractSizeFromRsyncLog fs f = Some s"
proof -
  let ?ms = "fst (FindAllSubmatchInFile fs f rsync_size_re)"
  have "length (last ?ms) = 2" if "?ms \<noteq> []"
  proof -
    from that have "last ?ms \<in> set ?ms" by simp
    then show ?thesis
      by (auto simp: FindAllSubmatchInFile_def intro: rsync_size_re_groups split: if_splits option.splits)
  qed
  then show ?thesis
    by (simp add: ExtractSizeFromRsyncLog_def ExtractSizeFromLog_def Let_def)
qed

lemma strings_Split_lines:
  assumes "\<And>l. l \<in> set ls \<Longrightarrow> c \<notin> set l" and "ls \<noteq> []"
  shows "strings_Split c (strings_Join c ls) = ls"
  using assms
proof (induction ls rule: induct_list012)
  case 1
  then show ?case by simp
next
  case (2 x)
  then show ?case by simp
next
  case (3 x y zs)
  then show ?case by (simp add: strings_Split_append)
qed

text \<open>A number as rsync prints it: digits and dots, then at most one unit letter.\<close>

definition size_text :: "string \<Rightarrow> bool" where
  "size_text g \<longleftrightarrow> g \<noteq> [] \<and> ((\<forall>c\<in>set g. size_char c) \<or>
     (butlast g \<noteq> [] \<and> (\<forall>c\<in>set (butlast g). size_char c) \<and> size_unit (last g)))"

lemma size_unit_not_char: "size_unit c \<Longrightarrow> \<not> size_char c"
  by (auto simp: size_unit_def size_char_def less_eq_char_def)

lemma match_size_complete:
  assumes "size_text g" shows "match_size (g @ '' bytes'' @ r) = Some g"
proof (cases "\<forall>c\<in>set g. size_char c")
  case True
  with assms show ?thesis
    by (simp add: match_size_def size_text_def takeWhile_append2 dropWhile_append2 Let_def
        size_char_def size_unit_def less_eq_char_def)
next
  case False
  define ds where "ds = butlast g"
  define u where "u = last g"
  from assms False have g: "g = ds @ [u]" and ds: "ds \<noteq> []" "\<forall>c\<in>set ds. size_char c"
    and u: "size_unit u"
    by (auto simp: size_text_def ds_def u_def)
  from u have "\<not> size_char u" by (rule size_unit_not_char)
  with g ds u show ?thesis
    by (simp add: match_size_def takeWhile_append2 dropWhile_append2 Let_def)
qed

lemma match_size_line_complete:
  "size_text g \<Longrightarrow> match_size_line (''Total file size: '' @ g @ '' bytes'' @ r) = Some g"
  using match_size_complete [of g r] by (simp add: match_size_line_def drop_prefix_def)

text \<open>A log that contains a size line reports the size of the last such line: when the log is
  made of the given lines, one of which is rsync's \<open>Total file size\<close> line and none after it is, the
  extracted size is the number of that line.\<close>

theorem ExtractSizeFromRsyncLog_last:
  assumes "f \<noteq> ''/dev/null''"
    and "fs f = Some (strings_Join (CHR ''\<newline>'') (before @ (''Total file size: '' @ g @ '' bytes'' @ rest) # after))"
    and "\<forall>l\<in>set (before @ (''Total file size: '' @ g @ '' bytes'' @ rest) # after). CHR ''\<newline>'' \<notin> set l"
    and "size_text g"
    and "\<forall>l\<in>set after. match_size_line l = None"
  shows "ExtractSizeFromRsyncLog fs f = Some g"
proof -
  let ?line = "''Total file size: '' @ g @ '' bytes'' @ rest"
  have lines: "strings_Split (CHR ''\<newline>'') (strings_Join (CHR ''\<newline>'') (before @ ?line # after)) = before @ ?line # after"
    using assms(3) by (intro strings_Split_lines) auto
  have "List.map_filter match_size_line (before @ ?line # after) =
        List.map_filter match_size_line before @ [g]"
    using assms(4,5) match_size_line_complete [of g rest]
    by (simp add: map_filter_append List.map_filter_simps map_filter_NoneI)
  then show ?thesis
    using assms(1,2) lines
    by (simp add: ExtractSizeFromRsyncLog_def ExtractSizeFromLog_def FindAllSubmatchInFile_def rsync_size_re_def)
qed

theorem ExtractSizeFromRsyncLog_last_witness:
  "ExtractSizeFromRsyncLog
     (\<lambda>p. if p = ''/l'' then Some (strings_Join (CHR ''\<newline>'')
        ([''sent''] @ (''Total file size: '' @ ''1.5G'' @ '' bytes'' @ '''') # [''done''])) else None)
     ''/l'' = Some ''1.5G''"
  by (rule ExtractSizeFromRsyncLog_last [where before = "[''sent'']" and after = "[''done'']" and rest = "''''"])
    (auto simp: size_text_def size_char_def size_unit_def less_eq_char_def match_size_line_def drop_prefix_def)

end
