(* ===== verification/Provider_Run.thy ===== *)
theory Provider_Run
  imports Job_Hooks Rsync_Util
begin

section \<open>Providers at run time (worker/runner.go, Start, Run and Terminate of the providers)\<close>

text \<open>
  Starting, awaiting and terminating the command of a provider: \<open>newCmdJob\<close>, \<open>cmdJob.Start\<close>,
  \<open>Wait\<close> and \<open>Terminate\<close>, the log file, and \<open>Run\<close> of the three providers.  What the operating
  system answers is a record \<open>os_answers\<close> for each command; an operation yields an error, the events it
  causes outside the provider in their order (\<open>proc_event\<close>) and the new state of the provider, and a
  panic is \<open>None\<close>.  A compiled expression is applied through the parameter \<open>re\<close>, its
  \<open>FindAllSubmatch\<close>.

  \<open>Run\<close> of the two-stage provider releases its lock while it waits for a command.  The last part has it
  as a step system beside \<open>Terminate\<close>.

  Shown: what every \<open>Run\<close> leaves behind, when it succeeds, when it reports that it started, that the
  second stage follows a successful first one, which signals \<open>Terminate\<close> sends, that a command under a
  control group only runs inside it, and that a termination between two stages is lost and one after an exit fails.
\<close>

subsection \<open>Events and answers\<close>

datatype proc_event =
    MakeDir string
  | OpenLog string bool
  | Spawn "string list" string "string list"
  | JoinCgroup int
  | WriteCont
  | SendStarted
  | Reap
  | WriteLog string
  | CloseLog
  | Signal string int
  | DockerStop string

datatype add_result = Added | Vanished | AddFailed goerror

datatype wait_result = Exited | ExitedCode int goerror | WaitFailed goerror

record os_answers =
  oa_User :: string
  oa_Environ :: "string list"
  oa_DirExists :: bool
  oa_OpenErr :: "goerror option"
  oa_PipeErr :: "goerror option"
  oa_Start :: "goerror + int"
  oa_ClosePipeErr :: "goerror option"
  oa_AddProc :: add_result
  oa_WriteErr :: "goerror option"
  oa_Wait :: wait_result
  oa_Files :: file_system

record run_state =
  rs_running :: bool
  rs_logFd :: bool
  rs_dataSize :: string

type_synonym run_result = "(goerror option \<times> proc_event list \<times> run_state) option"

text \<open>\<open>if err := f(); err != nil { return err }\<close> followed by the rest.\<close>

definition and_then :: "(run_state \<Rightarrow> run_result) \<Rightarrow> (run_state \<Rightarrow> run_result) \<Rightarrow> run_state \<Rightarrow> run_result" where
  "and_then f g st =
     (case f st of
        None \<Rightarrow> None
      | Some (Some e, ev, st1) \<Rightarrow> Some (Some e, ev, st1)
      | Some (None, ev, st1) \<Rightarrow>
          (case g st1 of None \<Rightarrow> None | Some (e, ev', st2) \<Rightarrow> Some (e, ev @ ev', st2)))"

definition emit :: "proc_event list \<Rightarrow> run_state \<Rightarrow> run_result" where
  "emit ev st = Some (None, ev, st)"

subsection \<open>One command\<close>

text \<open>\<open>newCmdJob\<close>: the directory is made unless the command runs in docker; an error of \<open>MkdirAll\<close> is only
  logged.  In docker the process inherits the directory and environment of the worker.\<close>

definition newCmdJob :: "os_answers \<Rightarrow> baseProvider \<Rightarrow> string list \<Rightarrow> string \<Rightarrow> env \<Rightarrow>
    (proc_event list \<times> string list \<times> string \<times> string list) option" where
  "newCmdJob A p cmdAndArgs workingDir env =
     (case newCmdJob_args (oa_User A) p cmdAndArgs workingDir env of
        None \<Rightarrow> None
      | Some args \<Rightarrow>
          (if bp_docker p = None
           then Some ((if oa_DirExists A then [] else [MakeDir workingDir]), args, workingDir, newEnviron (oa_Environ A) env True)
           else Some ([], args, '''', oa_Environ A)))"

text \<open>\<open>cmdJob.Start\<close>: under a control group the child waits on a pipe until it has been added to the group.\<close>

definition cmdJob_Start :: "os_answers \<Rightarrow> baseProvider \<Rightarrow> string list \<Rightarrow> string \<Rightarrow> string list \<Rightarrow> goerror option \<times> proc_event list" where
  "cmdJob_Start A p args dir environ =
     (if bp_cgroup p \<noteq> None \<and> oa_PipeErr A \<noteq> None then (oa_PipeErr A, [])
      else case oa_Start A of
        Inl e \<Rightarrow> (Some e, [])
      | Inr pid \<Rightarrow>
          (if bp_cgroup p = None then (None, [Spawn args dir environ])
           else case oa_ClosePipeErr A of
             Some e \<Rightarrow> (Some e, [Spawn args dir environ])
           | None \<Rightarrow>
               (case oa_AddProc A of
                  AddFailed e \<Rightarrow> (Some e, [Spawn args dir environ])
                | add \<Rightarrow>
                    (let ev = Spawn args dir environ # (if add = Added then [JoinCgroup pid] else []) in
                     case oa_WriteErr A of
                       Some e \<Rightarrow> (Some e, ev)
                     | None \<Rightarrow> (None, ev @ [WriteCont])))))"

text \<open>\<open>cmdJob.Wait\<close> under \<open>baseProvider.Wait\<close>: the exit code and the error that is returned, if any.  An
  error of the process library that is not an exit status panics in the type assertion.\<close>

definition provider_Wait :: "os_answers \<Rightarrow> baseProvider \<Rightarrow> run_state \<Rightarrow> ((int \<times> goerror) option \<times> proc_event list \<times> run_state) option" where
  "provider_Wait A p st =
     (let st1 = st\<lparr>rs_running := False\<rparr> in
      case oa_Wait A of
        Exited \<Rightarrow> Some (None, [Reap], st1)
      | ExitedCode code err \<Rightarrow>
          Some (if cmdJob_Wait (GetSuccessExitCodes p) (Some (code, err)) = None then None else Some (code, err), [Reap], st1)
      | WaitFailed e \<Rightarrow> None)"

definition prepareLogFile :: "os_answers \<Rightarrow> baseProvider \<Rightarrow> bool \<Rightarrow> run_state \<Rightarrow> run_result" where
  "prepareLogFile A p app st =
     (case LogFile p of
        None \<Rightarrow> None
      | Some logFile \<Rightarrow>
          (if logFile = ''/dev/null'' then Some (None, [], st)
           else case oa_OpenErr A of
             Some e \<Rightarrow> Some (Some e, [], st)
           | None \<Rightarrow> Some (None, [OpenLog logFile app], st\<lparr>rs_logFd := True\<rparr>)))"

definition closeLogFile :: "run_state \<Rightarrow> proc_event list \<times> run_state" where
  "closeLogFile st = ((if rs_logFd st then [CloseLog] else []), st\<lparr>rs_logFd := False\<rparr>)"

text \<open>The deferred \<open>closeLogFile\<close> of a \<open>Run\<close>.\<close>

definition finally_close :: "run_result \<Rightarrow> run_result" where
  "finally_close r = map_option (\<lambda>(e, ev, st). case closeLogFile st of (ev', st') \<Rightarrow> (e, ev @ ev', st')) r"

text \<open>The part that the three providers share: the command is built, the log file opened, the process
  started and the provider marked as running.\<close>

definition launch :: "os_answers \<Rightarrow> baseProvider \<Rightarrow> string list \<Rightarrow> env \<Rightarrow> bool \<Rightarrow> run_state \<Rightarrow> run_result" where
  "launch A p command env app st =
     (case WorkingDir p of
        None \<Rightarrow> None
      | Some workingDir \<Rightarrow>
          (case newCmdJob A p command workingDir env of
             None \<Rightarrow> None
           | Some (ev, args, dir, environ) \<Rightarrow>
               and_then (emit ev) (and_then (prepareLogFile A p app)
                 (\<lambda>st1. case cmdJob_Start A p args dir environ of
                          (Some e, ev') \<Rightarrow> Some (Some e, ev', st1)
                        | (None, ev') \<Rightarrow> Some (None, ev', st1\<lparr>rs_running := True\<rparr>))) st))"

subsection \<open>The providers\<close>

definition still_running :: goerror where "still_running = ''provider is currently running''"

text \<open>The variables of the command provider, with those of the configuration written over them.\<close>

definition cmd_env :: "baseProvider \<Rightarrow> cmdConfig \<Rightarrow> env option" where
  "cmd_env p c =
     (case (WorkingDir p, LogDir p, LogFile p) of
        (Some wd, Some ld, Some lf) \<Rightarrow>
          Some (foldl (\<lambda>e (k, v). env_put k v e)
            [(''TUNASYNC_MIRROR_NAME'', bp_name p), (''TUNASYNC_WORKING_DIR'', wd), (''TUNASYNC_UPSTREAM_URL'', cc_upstreamURL c),
             (''TUNASYNC_LOG_DIR'', ld), (''TUNASYNC_LOG_FILE'', lf)] (elems (cc_env c)))
      | _ \<Rightarrow> None)"

definition cmdProvider_Start :: "os_answers \<Rightarrow> baseProvider \<Rightarrow> cmdConfig \<Rightarrow> string list \<Rightarrow> run_state \<Rightarrow> run_result" where
  "cmdProvider_Start A p c command st =
     (if rs_running st then Some (Some still_running, [], st)
      else case cmd_env p c of None \<Rightarrow> None | Some env \<Rightarrow> launch A p command env False st)"

text \<open>After the command: the expression that must not match, and the one that finds the size.\<close>

definition fail_on_match :: "('r \<Rightarrow> regexp) \<Rightarrow> os_answers \<Rightarrow> baseProvider \<Rightarrow> 'r option \<Rightarrow> run_state \<Rightarrow> run_result" where
  "fail_on_match re A p failOnMatch st =
     (case failOnMatch of
        None \<Rightarrow> Some (None, [], st)
      | Some r \<Rightarrow>
          (case LogFile p of
             None \<Rightarrow> None
           | Some logFile \<Rightarrow>
               (case FindAllSubmatchInFile (oa_Files A) logFile (re r) of
                  (_, Some err) \<Rightarrow> Some (Some err, [], st)
                | (matches, None) \<Rightarrow>
                    (if matches \<noteq> [] then Some (Some (''Fail-on-match regexp found '' @ show_nat (length matches) @ '' matches''), [], st)
                     else Some (None, [], st)))))"

definition find_size :: "('r \<Rightarrow> regexp) \<Rightarrow> os_answers \<Rightarrow> baseProvider \<Rightarrow> 'r option \<Rightarrow> run_state \<Rightarrow> run_result" where
  "find_size re A p sizePattern st =
     (case sizePattern of
        None \<Rightarrow> Some (None, [], st)
      | Some r \<Rightarrow>
          (case LogFile p of
             None \<Rightarrow> None
           | Some logFile \<Rightarrow>
               (case ExtractSizeFromLog (oa_Files A) logFile (re r) of
                  None \<Rightarrow> None
                | Some size' \<Rightarrow> Some (None, [], st\<lparr>rs_dataSize := size'\<rparr>))))"

definition cmd_await :: "os_answers \<Rightarrow> baseProvider \<Rightarrow> run_state \<Rightarrow> run_result" where
  "cmd_await A p st = map_option (\<lambda>(r, ev, st1). (map_option snd r, ev, st1)) (provider_Wait A p st)"

definition cmdProvider_Run :: "('r \<Rightarrow> regexp) \<Rightarrow> os_answers \<Rightarrow> baseProvider \<Rightarrow> cmdConfig \<Rightarrow> string list \<Rightarrow> 'r option \<Rightarrow> 'r option \<Rightarrow>
    run_state \<Rightarrow> run_result" where
  "cmdProvider_Run re A p c command failOnMatch sizePattern st =
     finally_close
       (and_then (cmdProvider_Start A p c command) (and_then (emit [SendStarted]) (and_then (cmd_await A p)
         (and_then (fail_on_match re A p failOnMatch) (find_size re A p sizePattern)))) (st\<lparr>rs_dataSize := ''''\<rparr>))"

text \<open>The rsync providers: the meaning of an exit code is written to the log.\<close>

definition rsync_await :: "os_answers \<Rightarrow> baseProvider \<Rightarrow> run_state \<Rightarrow> run_result" where
  "rsync_await A p st =
     (case provider_Wait A p st of
        None \<Rightarrow> None
      | Some (None, ev, st1) \<Rightarrow> Some (None, ev, st1)
      | Some (Some (exit, err), ev, st1) \<Rightarrow>
          (case TranslateRsyncErrorCode (ExitError exit) of
             (code, msg) \<Rightarrow> Some (Some err, ev @ (if code \<noteq> 0 \<and> rs_logFd st1 then [WriteLog (msg @ ''\<newline>'')] else []), st1)))"

definition rsync_size :: "os_answers \<Rightarrow> baseProvider \<Rightarrow> run_state \<Rightarrow> run_result" where
  "rsync_size A p st =
     (case LogFile p of
        None \<Rightarrow> None
      | Some logFile \<Rightarrow>
          (case ExtractSizeFromRsyncLog (oa_Files A) logFile of
             None \<Rightarrow> None
           | Some size' \<Rightarrow> Some (None, [], st\<lparr>rs_dataSize := size'\<rparr>)))"

definition rsyncProvider_Start :: "os_answers \<Rightarrow> baseProvider \<Rightarrow> rsyncConfig \<Rightarrow> string list \<Rightarrow> run_state \<Rightarrow> run_result" where
  "rsyncProvider_Start A p c options st =
     (if rs_running st then Some (Some still_running, [], st)
      else case WorkingDir p of
        None \<Rightarrow> None
      | Some wd \<Rightarrow> launch A p (rc_rsyncCmd c # options @ [rc_upstreamURL c, wd]) (elems (rc_rsyncEnv c)) False st)"

definition rsyncProvider_Run :: "os_answers \<Rightarrow> baseProvider \<Rightarrow> rsyncConfig \<Rightarrow> string list \<Rightarrow> run_state \<Rightarrow> run_result" where
  "rsyncProvider_Run A p c options st =
     finally_close
       (and_then (rsyncProvider_Start A p c options) (and_then (emit [SendStarted]) (and_then (rsync_await A p) (rsync_size A p)))
         (st\<lparr>rs_dataSize := ''''\<rparr>))"

text \<open>One stage of the two-stage provider; \<open>A stage\<close> are the answers for its command.\<close>

definition two_stage_launch :: "os_answers \<Rightarrow> baseProvider \<Rightarrow> rsyncConfig \<Rightarrow> string list \<Rightarrow> string list \<Rightarrow> int \<Rightarrow> run_state \<Rightarrow> run_result" where
  "two_stage_launch A p c o1 o2 stage st =
     (case Options c o1 o2 stage of
        Inl e \<Rightarrow> Some (Some e, [], st)
      | Inr options \<Rightarrow>
          (case WorkingDir p of
             None \<Rightarrow> None
           | Some wd \<Rightarrow> launch A p (rc_rsyncCmd c # options @ [rc_upstreamURL c, wd]) (elems (rc_rsyncEnv c)) (stage > 1) st))"

definition two_stage :: "(int \<Rightarrow> os_answers) \<Rightarrow> baseProvider \<Rightarrow> rsyncConfig \<Rightarrow> string list \<Rightarrow> string list \<Rightarrow> int \<Rightarrow> run_state \<Rightarrow> run_result" where
  "two_stage A p c o1 o2 stage =
     and_then (two_stage_launch (A stage) p c o1 o2 stage) (and_then (emit [SendStarted]) (rsync_await (A stage) p))"

text \<open>\<open>closeLogFile\<close> is deferred once the first stage has its options and its log file.\<close>

definition log_deferred :: "os_answers \<Rightarrow> baseProvider \<Rightarrow> rsyncConfig \<Rightarrow> string list \<Rightarrow> string list \<Rightarrow> bool" where
  "log_deferred A p c o1 o2 \<longleftrightarrow> \<not> isl (Options c o1 o2 1) \<and> (LogFile p = Some ''/dev/null'' \<or> oa_OpenErr A = None)"

text \<open>The log descriptor of the first stage is overwritten by that of the second, so \<open>closeLogFile\<close>,
  deferred once per stage, closes one file.\<close>

definition twoStageRsyncProvider_Run :: "(int \<Rightarrow> os_answers) \<Rightarrow> baseProvider \<Rightarrow> rsyncConfig \<Rightarrow> string list \<Rightarrow> string list \<Rightarrow> run_state \<Rightarrow> run_result" where
  "twoStageRsyncProvider_Run A p c o1 o2 st =
     (if rs_running st then Some (Some still_running, [], st)
      else let r = and_then (two_stage A p c o1 o2 1) (and_then (two_stage A p c o1 o2 2) (rsync_size (A 2) p)) (st\<lparr>rs_dataSize := ''''\<rparr>)
           in if log_deferred (A 1) p c o1 o2 then finally_close r else r)"

definition provider_Run :: "('r \<Rightarrow> regexp) \<Rightarrow> (int \<Rightarrow> os_answers) \<Rightarrow> baseProvider \<Rightarrow> 'r providerKind \<Rightarrow> run_state \<Rightarrow> run_result" where
  "provider_Run re A p kind =
     (case kind of
        CmdProvider c command failOnMatch sizePattern \<Rightarrow> cmdProvider_Run re (A 1) p c command failOnMatch sizePattern
      | RsyncProvider c options \<Rightarrow> rsyncProvider_Run (A 1) p c options
      | TwoStageRsyncProvider c o1 o2 \<Rightarrow> twoStageRsyncProvider_Run A p c o1 o2)"

subsection \<open>How a run goes\<close>

text \<open>The command of a provider comes up, and ends in a way that counts as success.\<close>

definition cmd_starts :: "os_answers \<Rightarrow> baseProvider \<Rightarrow> bool" where
  "cmd_starts A p \<longleftrightarrow> (LogFile p = Some ''/dev/null'' \<or> oa_OpenErr A = None) \<and> \<not> isl (oa_Start A) \<and>
     (bp_cgroup p \<noteq> None \<longrightarrow> oa_PipeErr A = None \<and> oa_ClosePipeErr A = None \<and> (\<forall>e. oa_AddProc A \<noteq> AddFailed e) \<and> oa_WriteErr A = None)"

definition cmd_succeeds :: "os_answers \<Rightarrow> baseProvider \<Rightarrow> bool" where
  "cmd_succeeds A p \<longleftrightarrow> (case oa_Wait A of Exited \<Rightarrow> True | ExitedCode code e \<Rightarrow> code \<in> set (GetSuccessExitCodes p) | WaitFailed e \<Rightarrow> False)"

definition no_wait_failure :: "os_answers \<Rightarrow> bool" where
  "no_wait_failure A \<longleftrightarrow> (\<forall>e. oa_Wait A \<noteq> WaitFailed e)"

text \<open>The context of a provider that has not lost it.\<close>

definition ctx_ok :: "baseProvider \<Rightarrow> bool" where
  "ctx_ok p \<longleftrightarrow> WorkingDir p \<noteq> None \<and> LogDir p \<noteq> None \<and> LogFile p \<noteq> None"

lemma and_then_None [simp]: "f st = Some (None, ev, st1) \<Longrightarrow> and_then f g st =
    (case g st1 of None \<Rightarrow> None | Some (e, ev', st2) \<Rightarrow> Some (e, ev @ ev', st2))"
  by (simp add: and_then_def)

lemma and_then_Some [simp]: "f st = Some (Some e, ev, st1) \<Longrightarrow> and_then f g st = Some (Some e, ev, st1)"
  by (simp add: and_then_def)

lemma and_then_emit [simp]: "and_then (emit ev) g st = (case g st of None \<Rightarrow> None | Some (e, ev', st2) \<Rightarrow> Some (e, ev @ ev', st2))"
  by (simp add: and_then_def emit_def)

text \<open>The command lines that were started, in order.\<close>

fun spawned :: "proc_event list \<Rightarrow> string list list" where
  "spawned [] = []"
| "spawned (Spawn args dir environ # ev) = args # spawned ev"
| "spawned (_ # ev) = spawned ev"

lemma spawned_append [simp]: "spawned (ev @ ev') = spawned ev @ spawned ev'"
  by (induction ev rule: spawned.induct) auto

lemma cmdJob_Start_result:
  assumes "cmdJob_Start A p args dir environ = (e, ev)"
  shows "e = None \<longleftrightarrow> \<not> isl (oa_Start A) \<and>
      (bp_cgroup p \<noteq> None \<longrightarrow> oa_PipeErr A = None \<and> oa_ClosePipeErr A = None \<and> (\<forall>e. oa_AddProc A \<noteq> AddFailed e) \<and> oa_WriteErr A = None)"
    and "spawned ev = [args] \<or> e \<noteq> None \<and> spawned ev = []"
    and "SendStarted \<notin> set ev" and "Reap \<notin> set ev" and "CloseLog \<notin> set ev"
  using assms
  by (auto simp: cmdJob_Start_def Let_def split: if_splits sum.splits option.splits add_result.splits dest: sym)

text \<open>One command: how \<open>launch\<close> and \<open>Wait\<close> evaluate.\<close>

lemma launch_result:
  assumes "ctx_ok p" and "command \<noteq> []"
  obtains e ev st' where "launch A p command env app st = Some (e, ev, st')" and "e = None \<longleftrightarrow> cmd_starts A p"
    and "rs_running st' = (e = None \<or> rs_running st)" and "rs_dataSize st' = rs_dataSize st"
    and "SendStarted \<notin> set ev" and "Reap \<notin> set ev" and "CloseLog \<notin> set ev"
    and "spawned ev = [the (newCmdJob_args (oa_User A) p command (the (WorkingDir p)) env)] \<or> e \<noteq> None \<and> spawned ev = []"
    and "rs_logFd st' = (rs_logFd st \<or> LogFile p \<noteq> Some ''/dev/null'' \<and> oa_OpenErr A = None)"
proof -
  obtain wd lf where c: "WorkingDir p = Some wd" "LogFile p = Some lf" using assms(1) by (auto simp: ctx_ok_def)
  have "newCmdJob_args (oa_User A) p command wd env \<noteq> None"
    using assms(2) by (simp add: newCmdJob_args_def split: option.split)
  then obtain args where a: "newCmdJob_args (oa_User A) p command wd env = Some args" by blast
  obtain ev0 dir environ where n: "newCmdJob A p command wd env = Some (ev0, args, dir, environ)"
    "SendStarted \<notin> set ev0" "Reap \<notin> set ev0" "CloseLog \<notin> set ev0" "spawned ev0 = []"
    using a by (cases "bp_docker p"; cases "oa_DirExists A") (simp_all add: newCmdJob_def)
  obtain e1 ev1 where s: "cmdJob_Start A p args dir environ = (e1, ev1)" by (cases "cmdJob_Start A p args dir environ")
  note S = cmdJob_Start_result [OF s]
  show thesis
  proof (cases "lf \<noteq> ''/dev/null'' \<and> oa_OpenErr A \<noteq> None")
    case True
    then obtain x where "oa_OpenErr A = Some x" by auto
    with True c n show thesis
      by (intro that [of "Some x" ev0 st]) (simp_all add: launch_def prepareLogFile_def cmd_starts_def)
  next
    case False
    define st1 where "st1 = (if lf = ''/dev/null'' then st else st\<lparr>rs_logFd := True\<rparr>)"
    define ev' where "ev' = (if lf = ''/dev/null'' then [] else [OpenLog lf app])"
    have p: "prepareLogFile A p app st = Some (None, ev', st1)"
      using False c by (auto simp: prepareLogFile_def st1_def ev'_def)
    have ok: "cmd_starts A p \<longleftrightarrow> e1 = None" using S(1) False c by (auto simp: cmd_starts_def)
    have l: "launch A p command env app st =
        Some (e1, ev0 @ ev' @ ev1, if e1 = None then st1\<lparr>rs_running := True\<rparr> else st1)"
      using c n s p by (auto simp: launch_def split: option.split)
    have st1: "rs_running st1 = rs_running st" "rs_dataSize st1 = rs_dataSize st"
      "rs_logFd st1 = (rs_logFd st \<or> lf \<noteq> ''/dev/null'' \<and> oa_OpenErr A = None)" using False by (auto simp: st1_def)
    have ev': "spawned ev' = []" "SendStarted \<notin> set ev'" "Reap \<notin> set ev'" "CloseLog \<notin> set ev'" by (simp_all add: ev'_def)
    have sp: "spawned (ev0 @ ev' @ ev1) = [the (newCmdJob_args (oa_User A) p command (the (WorkingDir p)) env)] \<or>
        e1 \<noteq> None \<and> spawned (ev0 @ ev' @ ev1) = []"
      using S(2) a c n(5) ev'(1) by simp
    show thesis
      by (rule that [OF l _ _ _ _ _ _ sp]) (auto simp: ok st1 ev' n S(3-5) c)
  qed
qed

lemma provider_Wait_result:
  assumes "no_wait_failure A"
  obtains r where "provider_Wait A p st = Some (r, [Reap], st\<lparr>rs_running := False\<rparr>)" and "r = None \<longleftrightarrow> cmd_succeeds A p"
  using assms that
  by (cases "oa_Wait A") (auto simp: provider_Wait_def no_wait_failure_def cmd_succeeds_def cmdJob_Wait_def)

lemma rsync_await_result:
  assumes "no_wait_failure A"
  obtains e ev where "rsync_await A p st = Some (e, Reap # ev, st\<lparr>rs_running := False\<rparr>)" and "e = None \<longleftrightarrow> cmd_succeeds A p"
    and "SendStarted \<notin> set ev" and "Reap \<notin> set ev" and "CloseLog \<notin> set ev" and "spawned ev = []"
proof -
  obtain r where r: "provider_Wait A p st = Some (r, [Reap], st\<lparr>rs_running := False\<rparr>)" "r = None \<longleftrightarrow> cmd_succeeds A p"
    by (rule provider_Wait_result [OF assms])
  then show thesis
  proof (cases r)
    case None
    with r show thesis by (intro that [of None "[]"]) (simp_all add: rsync_await_def)
  next
    case (Some x)
    obtain code err where x: "x = (code, err)" by (cases x)
    with r Some show thesis
      by (intro that [of "Some err" "if code \<noteq> 0 \<and> rs_logFd st then [WriteLog (snd (TranslateRsyncErrorCode (ExitError code)) @ ''\<newline>'')] else []"])
         (auto simp: rsync_await_def)
  qed
qed

lemma finally_close_Some:
  "finally_close (Some (e, ev, st)) = Some (e, ev @ (if rs_logFd st then [CloseLog] else []), st\<lparr>rs_logFd := False\<rparr>)"
  by (simp add: finally_close_def closeLogFile_def)

text \<open>What every \<open>Run\<close> promises: it returns, an error exactly when the run failed, with the process reaped and
  the log closed; a failed run has no size.\<close>

definition run_promise :: "bool \<Rightarrow> bool \<Rightarrow> run_result \<Rightarrow> bool" where
  "run_promise begun succeeds r \<longleftrightarrow> (\<exists>e ev st'. r = Some (e, ev, st') \<and> (e = None \<longleftrightarrow> succeeds) \<and> \<not> rs_running st' \<and> \<not> rs_logFd st' \<and>
     (e \<noteq> None \<longrightarrow> rs_dataSize st' = '''') \<and> (SendStarted \<in> set ev \<longleftrightarrow> begun) \<and> count_list ev Reap = count_list ev SendStarted)"

lemma run_promiseI:
  assumes "r = Some (e, ev, st')" and "e = None \<longleftrightarrow> succeeds" and "\<not> rs_running st'" and "e \<noteq> None \<Longrightarrow> rs_dataSize st' = ''''"
    and "SendStarted \<in> set ev \<longleftrightarrow> begun" and "count_list ev Reap = count_list ev SendStarted"
  shows "run_promise begun succeeds (finally_close r)"
proof -
  have "finally_close r = Some (e, ev @ (if rs_logFd st' then [CloseLog] else []), st'\<lparr>rs_logFd := False\<rparr>)"
    using assms(1) by (simp add: finally_close_Some)
  then show ?thesis using assms(2-) unfolding run_promise_def
    by (intro exI [of _ e] exI [of _ "ev @ (if rs_logFd st' then [CloseLog] else [])"] exI [of _ "st'\<lparr>rs_logFd := False\<rparr>"]) auto
qed

lemma count_none [simp]: "x \<notin> set xs \<Longrightarrow> count_list xs x = 0"
  by (induction xs) auto

definition no_match :: "('r \<Rightarrow> regexp) \<Rightarrow> os_answers \<Rightarrow> baseProvider \<Rightarrow> 'r option \<Rightarrow> bool" where
  "no_match re A p failOnMatch \<longleftrightarrow>
     (case failOnMatch of None \<Rightarrow> True | Some r \<Rightarrow> FindAllSubmatchInFile (oa_Files A) (the (LogFile p)) (re r) = ([], None))"

definition size_found :: "('r \<Rightarrow> regexp) \<Rightarrow> os_answers \<Rightarrow> baseProvider \<Rightarrow> 'r option \<Rightarrow> bool" where
  "size_found re A p sizePattern \<longleftrightarrow>
     (case sizePattern of None \<Rightarrow> True | Some r \<Rightarrow> ExtractSizeFromLog (oa_Files A) (the (LogFile p)) (re r) \<noteq> None)"

lemma fail_on_match_result:
  assumes "ctx_ok p"
  obtains e where "fail_on_match re A p f st = Some (e, [], st)" and "e = None \<longleftrightarrow> no_match re A p f"
proof (cases f)
  case None
  then show thesis using that [of None] by (simp add: fail_on_match_def no_match_def)
next
  case (Some r)
  obtain lf where lf: "LogFile p = Some lf" using assms by (auto simp: ctx_ok_def)
  obtain ms e where m: "FindAllSubmatchInFile (oa_Files A) lf (re r) = (ms, e)" by (cases "FindAllSubmatchInFile (oa_Files A) lf (re r)")
  have "e \<noteq> None \<Longrightarrow> ms = []" using m by (auto simp: FindAllSubmatchInFile_def split: if_splits option.splits)
  with Some lf m show thesis
    using that [of e] that [of "Some (''Fail-on-match regexp found '' @ show_nat (length ms) @ '' matches'')"]
    by (cases e; cases "ms = []") (auto simp: fail_on_match_def no_match_def)
qed

lemma find_size_result:
  assumes "ctx_ok p" and "size_found re A p f"
  obtains s where "find_size re A p f st = Some (None, [], st\<lparr>rs_dataSize := s\<rparr>)"
proof (cases f)
  case None
  then have "find_size re A p f st = Some (None, [], st\<lparr>rs_dataSize := rs_dataSize st\<rparr>)" by (simp add: find_size_def)
  then show thesis by (rule that)
next
  case (Some r)
  with assms show thesis using that by (auto simp: find_size_def ctx_ok_def size_found_def)
qed

lemma cmdProvider_Run_promise:
  assumes "ctx_ok p" and "no_wait_failure A" and "\<not> rs_running st" and "command \<noteq> []" and "size_found re A p sizePattern"
  shows "run_promise (cmd_starts A p) (cmd_starts A p \<and> cmd_succeeds A p \<and> no_match re A p failOnMatch)
    (cmdProvider_Run re A p c command failOnMatch sizePattern st)"
proof -
  let ?st = "st\<lparr>rs_dataSize := ''''\<rparr>"
  obtain env where env: "cmd_env p c = Some env" using assms(1) by (auto simp: cmd_env_def ctx_ok_def)
  obtain e ev st1 where l: "launch A p command env False ?st = Some (e, ev, st1)" "e = None \<longleftrightarrow> cmd_starts A p"
    "rs_running st1 = (e = None \<or> rs_running ?st)" "rs_dataSize st1 = ''''" "SendStarted \<notin> set ev" "Reap \<notin> set ev"
    by (rule launch_result [OF assms(1,4), of A env False ?st]) simp
  have s: "cmdProvider_Start A p c command ?st = Some (e, ev, st1)" using assms(3) env l(1) by (simp add: cmdProvider_Start_def)
  show ?thesis
  proof (cases "e = None")
    case False
    with s show ?thesis unfolding cmdProvider_Run_def
      by (intro run_promiseI [of _ e ev st1]) (use l assms(3) in auto)
  next
    case True
    let ?st2 = "st1\<lparr>rs_running := False\<rparr>"
    obtain r where w: "provider_Wait A p st1 = Some (r, [Reap], ?st2)" "r = None \<longleftrightarrow> cmd_succeeds A p" by (rule provider_Wait_result [OF assms(2)])
    obtain e2 where f: "fail_on_match re A p failOnMatch ?st2 = Some (e2, [], ?st2)" "e2 = None \<longleftrightarrow> no_match re A p failOnMatch"
      by (rule fail_on_match_result [OF assms(1)])
    obtain sz where z: "find_size re A p sizePattern ?st2 = Some (None, [], ?st2\<lparr>rs_dataSize := sz\<rparr>)" by (rule find_size_result [OF assms(1,5)])
    have aw: "cmd_await A p st1 = Some (map_option snd r, [Reap], ?st2)" using w(1) by (simp add: cmd_await_def)
    show ?thesis
    proof (cases "r = None \<and> e2 = None")
      case ok: True
      then show ?thesis unfolding cmdProvider_Run_def
        by (intro run_promiseI [of _ None "ev @ [SendStarted, Reap]" "?st2\<lparr>rs_dataSize := sz\<rparr>"])
           (use True s aw f z l w(2) in auto)
    next
      case bad: False
      then show ?thesis unfolding cmdProvider_Run_def
        by (intro run_promiseI [of _ "if r = None then e2 else map_option snd r" "ev @ [SendStarted, Reap]" ?st2])
           (use True s aw f l w(2) in \<open>auto split: option.splits\<close>)
    qed
  qed
qed


lemma rsyncProvider_Run_promise:
  assumes "ctx_ok p" and "no_wait_failure A" and "\<not> rs_running st"
  shows "run_promise (cmd_starts A p) (cmd_starts A p \<and> cmd_succeeds A p) (rsyncProvider_Run A p c options st)"
proof -
  let ?st = "st\<lparr>rs_dataSize := ''''\<rparr>"
  obtain wd lf where wd: "WorkingDir p = Some wd" "LogFile p = Some lf" using assms(1) by (auto simp: ctx_ok_def)
  let ?cmd = "rc_rsyncCmd c # options @ [rc_upstreamURL c, wd]"
  obtain e ev st1 where l: "launch A p ?cmd (elems (rc_rsyncEnv c)) False ?st = Some (e, ev, st1)" "e = None \<longleftrightarrow> cmd_starts A p"
    "rs_running st1 = (e = None \<or> rs_running ?st)" "rs_dataSize st1 = ''''" "SendStarted \<notin> set ev" "Reap \<notin> set ev"
    by (rule launch_result [OF assms(1), of ?cmd A "elems (rc_rsyncEnv c)" False ?st]) simp_all
  have s: "rsyncProvider_Start A p c options ?st = Some (e, ev, st1)"
    using assms(3) wd l(1) by (simp add: rsyncProvider_Start_def)
  obtain e2 ev2 where w: "rsync_await A p st1 = Some (e2, Reap # ev2, st1\<lparr>rs_running := False\<rparr>)" "e2 = None \<longleftrightarrow> cmd_succeeds A p"
    "SendStarted \<notin> set ev2" "Reap \<notin> set ev2" by (rule rsync_await_result [OF assms(2)])
  obtain sz where z: "ExtractSizeFromRsyncLog (oa_Files A) lf = Some sz" using ExtractSizeFromRsyncLog_total by blast
  consider "e \<noteq> None" | "e = None" "e2 \<noteq> None" | "e = None" "e2 = None" by blast
  then show ?thesis
  proof cases
    case 1
    with s show ?thesis unfolding rsyncProvider_Run_def
      by (intro run_promiseI [of _ e ev st1]) (use l assms(3) in auto)
  next
    case 2
    with s w(1) show ?thesis unfolding rsyncProvider_Run_def
      by (intro run_promiseI [of _ e2 "ev @ SendStarted # Reap # ev2" "st1\<lparr>rs_running := False\<rparr>"]) (use l w(2-) in auto)
  next
    case 3
    with s w(1) wd z show ?thesis unfolding rsyncProvider_Run_def
      by (intro run_promiseI [of _ None "ev @ SendStarted # Reap # ev2" "st1\<lparr>rs_running := False, rs_dataSize := sz\<rparr>"])
         (use l w(2-) in \<open>auto simp: rsync_size_def\<close>)
  qed
qed

text \<open>One stage: it succeeds when it has options, its command comes up and ends well.\<close>

definition stage_begins :: "os_answers \<Rightarrow> baseProvider \<Rightarrow> rsyncConfig \<Rightarrow> string list \<Rightarrow> string list \<Rightarrow> int \<Rightarrow> bool" where
  "stage_begins A p c o1 o2 stage \<longleftrightarrow> \<not> isl (Options c o1 o2 stage) \<and> cmd_starts A p"

definition stage_command :: "os_answers \<Rightarrow> baseProvider \<Rightarrow> rsyncConfig \<Rightarrow> string list \<Rightarrow> string list \<Rightarrow> int \<Rightarrow> string list" where
  "stage_command A p c o1 o2 stage = the (newCmdJob_args (oa_User A) p
     (rc_rsyncCmd c # projr (Options c o1 o2 stage) @ [rc_upstreamURL c, the (WorkingDir p)]) (the (WorkingDir p)) (elems (rc_rsyncEnv c)))"

lemma two_stage_result:
  assumes "ctx_ok p" and "no_wait_failure (A stage)" and "\<not> rs_running st"
  obtains e ev st' where "two_stage A p c o1 o2 stage st = Some (e, ev, st')"
    and "e = None \<longleftrightarrow> stage_begins (A stage) p c o1 o2 stage \<and> cmd_succeeds (A stage) p"
    and "\<not> rs_running st'" and "rs_dataSize st' = rs_dataSize st"
    and "SendStarted \<in> set ev \<longleftrightarrow> stage_begins (A stage) p c o1 o2 stage" and "count_list ev Reap = count_list ev SendStarted"
    and "spawned ev = [stage_command (A stage) p c o1 o2 stage] \<or> e \<noteq> None \<and> spawned ev = []"
    and "rs_logFd st' \<Longrightarrow> rs_logFd st \<or> \<not> isl (Options c o1 o2 stage) \<and> oa_OpenErr (A stage) = None"
proof -
  obtain wd where wd: "WorkingDir p = Some wd" using assms(1) by (auto simp: ctx_ok_def)
  show thesis
  proof (cases "Options c o1 o2 stage")
    case (Inl e)
    then have "two_stage_launch (A stage) p c o1 o2 stage st = Some (Some e, [], st)" by (simp add: two_stage_launch_def)
    with Inl assms(3) show thesis
      by (intro that [of "Some e" "[]" st]) (simp_all add: two_stage_def stage_begins_def)
  next
    case (Inr options)
    let ?A = "A stage" and ?cmd = "rc_rsyncCmd c # options @ [rc_upstreamURL c, wd]"
    obtain e ev st1 where l: "launch ?A p ?cmd (elems (rc_rsyncEnv c)) (stage > 1) st = Some (e, ev, st1)" "e = None \<longleftrightarrow> cmd_starts ?A p"
      "rs_running st1 = (e = None \<or> rs_running st)" "rs_dataSize st1 = rs_dataSize st" "SendStarted \<notin> set ev" "Reap \<notin> set ev"
      "spawned ev = [stage_command ?A p c o1 o2 stage] \<or> e \<noteq> None \<and> spawned ev = []"
      "rs_logFd st1 = (rs_logFd st \<or> LogFile p \<noteq> Some ''/dev/null'' \<and> oa_OpenErr ?A = None)"
      by (rule launch_result [OF assms(1), of ?cmd ?A "elems (rc_rsyncEnv c)" "stage > 1" st]) (simp_all add: stage_command_def Inr wd)
    have s: "two_stage_launch ?A p c o1 o2 stage st = Some (e, ev, st1)" using Inr wd l(1) by (simp add: two_stage_launch_def)
    obtain e2 ev2 where w: "rsync_await ?A p st1 = Some (e2, Reap # ev2, st1\<lparr>rs_running := False\<rparr>)" "e2 = None \<longleftrightarrow> cmd_succeeds ?A p"
      "SendStarted \<notin> set ev2" "Reap \<notin> set ev2" "spawned ev2 = []" by (rule rsync_await_result [OF assms(2)])
    show thesis
    proof (cases e)
      case (Some x)
      with s have "two_stage A p c o1 o2 stage st = Some (Some x, ev, st1)" by (simp add: two_stage_def)
      then show thesis by (rule that) (use Some l Inr assms(3) in \<open>auto simp: stage_begins_def\<close>)
    next
      case None
      with s w(1) have "two_stage A p c o1 o2 stage st = Some (e2, ev @ SendStarted # Reap # ev2, st1\<lparr>rs_running := False\<rparr>)"
        by (simp add: two_stage_def)
      then show thesis by (rule that) (use None l w(2-) Inr in \<open>auto simp: stage_begins_def\<close>)
    qed
  qed
qed


text \<open>The stages of the two-stage provider in a row, before its log is closed.\<close>

lemma two_stages_result:
  assumes "ctx_ok p" and "no_wait_failure (A 1)" and "no_wait_failure (A 2)" and "\<not> rs_running st" and "\<not> rs_logFd st"
    and first: "first \<longleftrightarrow> stage_begins (A 1) p c o1 o2 1 \<and> cmd_succeeds (A 1) p"
  obtains e ev st' where
      "and_then (two_stage A p c o1 o2 1) (and_then (two_stage A p c o1 o2 2) (rsync_size (A 2) p)) st = Some (e, ev, st')"
    and "e = None \<longleftrightarrow> first \<and> stage_begins (A 2) p c o1 o2 2 \<and> cmd_succeeds (A 2) p"
    and "\<not> rs_running st'" and "e \<noteq> None \<Longrightarrow> rs_dataSize st' = rs_dataSize st"
    and "SendStarted \<in> set ev \<longleftrightarrow> stage_begins (A 1) p c o1 o2 1" and "count_list ev Reap = count_list ev SendStarted"
    and "prefix (spawned ev) [stage_command (A 1) p c o1 o2 1, stage_command (A 2) p c o1 o2 2]"
    and "length (spawned ev) = 2 \<Longrightarrow> first" and "rs_logFd st' \<Longrightarrow> log_deferred (A 1) p c o1 o2"
proof -
  obtain e1 ev1 st1 where s1: "two_stage A p c o1 o2 1 st = Some (e1, ev1, st1)"
    "e1 = None \<longleftrightarrow> first" "\<not> rs_running st1" "rs_dataSize st1 = rs_dataSize st"
    "SendStarted \<in> set ev1 \<longleftrightarrow> stage_begins (A 1) p c o1 o2 1" "count_list ev1 Reap = count_list ev1 SendStarted"
    "spawned ev1 = [stage_command (A 1) p c o1 o2 1] \<or> e1 \<noteq> None \<and> spawned ev1 = []"
    "rs_logFd st1 \<longrightarrow> log_deferred (A 1) p c o1 o2"
    by (rule two_stage_result [where A = A and stage = 1 and st = st, OF assms(1,2,4)])
       (use assms(5) first in \<open>auto simp: log_deferred_def\<close>)
  obtain e2 ev2 st2 where s2: "two_stage A p c o1 o2 2 st1 = Some (e2, ev2, st2)"
    "e2 = None \<longleftrightarrow> stage_begins (A 2) p c o1 o2 2 \<and> cmd_succeeds (A 2) p" "\<not> rs_running st2" "rs_dataSize st2 = rs_dataSize st1"
    "count_list ev2 Reap = count_list ev2 SendStarted"
    "spawned ev2 = [stage_command (A 2) p c o1 o2 2] \<or> e2 \<noteq> None \<and> spawned ev2 = []"
    by (rule two_stage_result [where A = A and stage = 2 and st = st1, OF assms(1,3) s1(3)])
  have started: "first \<Longrightarrow> SendStarted \<in> set ev1 \<and> log_deferred (A 1) p c o1 o2"
    using first s1(5) by (auto simp: log_deferred_def stage_begins_def cmd_starts_def)
  obtain lf where "LogFile p = Some lf" using assms(1) by (auto simp: ctx_ok_def)
  moreover obtain sz where "ExtractSizeFromRsyncLog (oa_Files (A 2)) lf = Some sz" using ExtractSizeFromRsyncLog_total by blast
  ultimately have lf: "LogFile p = Some lf" "ExtractSizeFromRsyncLog (oa_Files (A 2)) lf = Some sz" by auto
  consider "e1 \<noteq> None" | "e1 = None" "e2 \<noteq> None" | "e1 = None" "e2 = None" by blast
  then show thesis
  proof cases
    case 1
    with s1 show thesis by (intro that [of e1 ev1 st1]) auto
  next
    case 2
    then show thesis
      by (intro that [of e2 "ev1 @ ev2" st2]) (use 2 s1 s2 started in auto)
  next
    case 3
    then show thesis
      by (intro that [of None "ev1 @ ev2" "st2\<lparr>rs_dataSize := sz\<rparr>"]) (use 3 s1 s2 started lf in \<open>auto simp: rsync_size_def\<close>)
  qed
qed

lemma deferred_close:
  assumes "r = Some (e, ev, st)" and "rs_logFd st \<Longrightarrow> deferred"
  shows "(if deferred then finally_close r else r) = Some (e, ev @ (if rs_logFd st then [CloseLog] else []), st\<lparr>rs_logFd := False\<rparr>)"
  using assms by (cases deferred) (auto simp: finally_close_Some)

lemma twoStageRsyncProvider_Run_result:
  assumes "ctx_ok p" and "no_wait_failure (A 1)" and "no_wait_failure (A 2)" and "\<not> rs_running st" and "\<not> rs_logFd st"
    and first: "first \<longleftrightarrow> stage_begins (A 1) p c o1 o2 1 \<and> cmd_succeeds (A 1) p"
  shows "run_promise (stage_begins (A 1) p c o1 o2 1) (first \<and> stage_begins (A 2) p c o1 o2 2 \<and> cmd_succeeds (A 2) p)
      (twoStageRsyncProvider_Run A p c o1 o2 st)"
    and "\<exists>e ev st'. twoStageRsyncProvider_Run A p c o1 o2 st = Some (e, ev, st') \<and>
      prefix (spawned ev) [stage_command (A 1) p c o1 o2 1, stage_command (A 2) p c o1 o2 2] \<and> (length (spawned ev) = 2 \<longrightarrow> first)"
proof -
  let ?st = "st\<lparr>rs_dataSize := ''''\<rparr>"
  obtain e ev st' where r: "and_then (two_stage A p c o1 o2 1) (and_then (two_stage A p c o1 o2 2) (rsync_size (A 2) p)) ?st = Some (e, ev, st')"
    "e = None \<longleftrightarrow> first \<and> stage_begins (A 2) p c o1 o2 2 \<and> cmd_succeeds (A 2) p"
    "\<not> rs_running st'" "e \<noteq> None \<longrightarrow> rs_dataSize st' = ''''"
    "SendStarted \<in> set ev \<longleftrightarrow> stage_begins (A 1) p c o1 o2 1" "count_list ev Reap = count_list ev SendStarted"
    "prefix (spawned ev) [stage_command (A 1) p c o1 o2 1, stage_command (A 2) p c o1 o2 2]"
    "length (spawned ev) = 2 \<longrightarrow> first" "rs_logFd st' \<longrightarrow> log_deferred (A 1) p c o1 o2"
    by (rule two_stages_result [where st = ?st, OF assms(1-3) _ _ first]) (use assms(4,5) in auto)
  have run: "twoStageRsyncProvider_Run A p c o1 o2 st =
      Some (e, ev @ (if rs_logFd st' then [CloseLog] else []), st'\<lparr>rs_logFd := False\<rparr>)"
    using assms(4) deferred_close [OF r(1)] r(9) by (simp add: twoStageRsyncProvider_Run_def)
  show "run_promise (stage_begins (A 1) p c o1 o2 1) (first \<and> stage_begins (A 2) p c o1 o2 2 \<and> cmd_succeeds (A 2) p)
      (twoStageRsyncProvider_Run A p c o1 o2 st)"
    unfolding run_promise_def run using r(2-6) by auto
  show "\<exists>e ev st'. twoStageRsyncProvider_Run A p c o1 o2 st = Some (e, ev, st') \<and>
      prefix (spawned ev) [stage_command (A 1) p c o1 o2 1, stage_command (A 2) p c o1 o2 2] \<and> (length (spawned ev) = 2 \<longrightarrow> first)"
    unfolding run using r(7,8) by auto
qed


subsection \<open>The outcome of a run\<close>

text \<open>When the first command of a run comes up, and when the run is a success.\<close>

fun run_begins :: "(int \<Rightarrow> os_answers) \<Rightarrow> baseProvider \<Rightarrow> 'r providerKind \<Rightarrow> bool" where
  "run_begins A p (CmdProvider c command failOnMatch sizePattern) = cmd_starts (A 1) p"
| "run_begins A p (RsyncProvider c options) = cmd_starts (A 1) p"
| "run_begins A p (TwoStageRsyncProvider c o1 o2) = stage_begins (A 1) p c o1 o2 1"

fun run_succeeds :: "('r \<Rightarrow> regexp) \<Rightarrow> (int \<Rightarrow> os_answers) \<Rightarrow> baseProvider \<Rightarrow> 'r providerKind \<Rightarrow> bool" where
  "run_succeeds re A p (CmdProvider c command failOnMatch sizePattern) =
     (cmd_starts (A 1) p \<and> cmd_succeeds (A 1) p \<and> no_match re (A 1) p failOnMatch)"
| "run_succeeds re A p (RsyncProvider c options) = (cmd_starts (A 1) p \<and> cmd_succeeds (A 1) p)"
| "run_succeeds re A p (TwoStageRsyncProvider c o1 o2) =
     ((stage_begins (A 1) p c o1 o2 1 \<and> cmd_succeeds (A 1) p) \<and> stage_begins (A 2) p c o1 o2 2 \<and> cmd_succeeds (A 2) p)"

text \<open>What keeps a run from panicking: the command is not empty, a size expression has a group where it
  matches.\<close>

fun runnable :: "('r \<Rightarrow> regexp) \<Rightarrow> (int \<Rightarrow> os_answers) \<Rightarrow> baseProvider \<Rightarrow> 'r providerKind \<Rightarrow> bool" where
  "runnable re A p (CmdProvider c command failOnMatch sizePattern) = (command \<noteq> [] \<and> size_found re (A 1) p sizePattern)"
| "runnable re A p _ = True"

lemma provider_Run_promise:
  assumes "ctx_ok p" and "no_wait_failure (A 1)" and "no_wait_failure (A 2)" and "\<not> rs_running st" and "\<not> rs_logFd st" and "runnable re A p kind"
  shows "run_promise (run_begins A p kind) (run_succeeds re A p kind) (provider_Run re A p kind st)"
  using assms(6) cmdProvider_Run_promise [where st = st and re = re, OF assms(1,2,4)] rsyncProvider_Run_promise [where st = st, OF assms(1,2,4)]
    twoStageRsyncProvider_Run_result(1) [where st = st, OF assms(1-5) refl]
  by (cases kind) (simp_all add: provider_Run_def)


definition ex_os :: os_answers where
  "ex_os = \<lparr>oa_User = ''0:0'', oa_Environ = [''LANG=C'', ''USER=root''], oa_DirExists = False, oa_OpenErr = None, oa_PipeErr = None, oa_Start = Inr 42,
     oa_ClosePipeErr = None, oa_AddProc = Added, oa_WriteErr = None, oa_Wait = ExitedCode 24 ''exit status 24'',
     oa_Files = (\<lambda>f. None)\<rparr>"

definition ex_base :: baseProvider where
  "ex_base = \<lparr>bp_ctx = Some (Set LogFileKey (VStr ''/log/deb/latest.log'') (Set LogDirKey (VStr ''/log/deb'') (Set WorkingDirKey (VStr ''/data/deb'') NewContext))),
     bp_name = ''deb'', bp_interval = 0, bp_retry = 1, bp_timeout = 0, bp_isMaster = True, bp_successExitCodes = Some [24],
     bp_cgroup = None, bp_zfs = None, bp_docker = None, bp_hooks = []\<rparr>"

definition ex_cmd :: cmdConfig where
  "ex_cmd = \<lparr>cc_name = ''deb'', cc_upstreamURL = ''https://deb'', cc_command = ''sync.sh -v'', cc_workingDir = ''/data/deb'', cc_logDir = ''/log/deb'',
     cc_logFile = ''/log/deb/latest.log'', cc_interval = 0, cc_retry = 1, cc_timeout = 0, cc_env = Some [(''LANG'', ''en'')],
     cc_failOnMatch = '''', cc_sizePattern = ''''\<rparr>"


lemma ex_base_ctx:
  "ctx_ok ex_base" "LogFile ex_base = Some ''/log/deb/latest.log''" "WorkingDir ex_base = Some ''/data/deb''" "LogDir ex_base = Some ''/log/deb''"
  by (simp_all add: ctx_ok_def ex_base_def WorkingDir_def LogFile_def LogDir_def ctx_string_def Get_Set WorkingDirKey_def LogFileKey_def LogDirKey_def)

lemma ex_os_ok: "no_wait_failure ex_os" "cmd_starts ex_os ex_base" "cmd_succeeds ex_os ex_base"
  by (simp_all add: no_wait_failure_def cmd_starts_def cmd_succeeds_def ex_os_def ex_base_def GetSuccessExitCodes_def)


text \<open>C31.  The two-stage provider starts its commands in order, and each at most once: those that were
  started are a prefix of the command of stage 1 and the command of stage 2, and the second is only started
  when the first ended with success.\<close>

theorem two_stage_order:
  assumes "ctx_ok p" and "no_wait_failure (A 1)" and "no_wait_failure (A 2)" and "\<not> rs_running st" and "\<not> rs_logFd st"
  shows "\<exists>e ev st'. twoStageRsyncProvider_Run A p c o1 o2 st = Some (e, ev, st') \<and>
    prefix (spawned ev) [stage_command (A 1) p c o1 o2 1, stage_command (A 2) p c o1 o2 2] \<and>
    (length (spawned ev) = 2 \<longrightarrow> stage_begins (A 1) p c o1 o2 1 \<and> cmd_succeeds (A 1) p)"
  by (rule twoStageRsyncProvider_Run_result(2) [OF assms refl])

definition ex_rc :: rsyncConfig where
  "ex_rc = two_stage_conf ex_rsync ''/log/deb'' ''/data/deb''"

theorem two_stage_order_witness:
  "\<exists>e ev st'. twoStageRsyncProvider_Run (\<lambda>_. ex_os) ex_base ex_rc [] [] \<lparr>rs_running = False, rs_logFd = False, rs_dataSize = ''''\<rparr> = Some (e, ev, st') \<and>
    prefix (spawned ev) [stage_command ex_os ex_base ex_rc [] [] 1, stage_command ex_os ex_base ex_rc [] [] 2]"
  using two_stage_order [OF ex_base_ctx(1), of "\<lambda>_. ex_os" "\<lparr>rs_running = False, rs_logFd = False, rs_dataSize = ''''\<rparr>" ex_rc "[]" "[]"]
  by (auto simp: ex_os_ok)

subsection \<open>Terminate\<close>

text \<open>\<open>cmdJob.Terminate\<close>: in docker the container is stopped; otherwise the process gets SIGTERM and, when it
  has not finished after two seconds, SIGKILL.  \<open>pid\<close> is the process of the command, \<open>killErr\<close> the
  answer to the first signal and \<open>inTime\<close> whether \<open>finished\<close> was closed first.\<close>

definition errProcessNotStarted :: goerror where "errProcessNotStarted = ''Process Not Started''"

definition cmdJob_Terminate :: "goerror option \<Rightarrow> bool \<Rightarrow> baseProvider \<Rightarrow> int option \<Rightarrow> goerror option \<times> proc_event list" where
  "cmdJob_Terminate killErr inTime p pid =
     (case pid of
        None \<Rightarrow> (Some errProcessNotStarted, [])
      | Some n \<Rightarrow>
          (if bp_docker p \<noteq> None then (None, [DockerStop (''tunasync-job-'' @ bp_name p)])
           else case killErr of
             Some e \<Rightarrow> (Some e, [])
           | None \<Rightarrow> (None, Signal ''SIGTERM'' n # (if inTime then [] else [Signal ''SIGKILL'' n]))))"

definition provider_Terminate :: "goerror option \<Rightarrow> bool \<Rightarrow> baseProvider \<Rightarrow> int option \<Rightarrow> run_state \<Rightarrow> goerror option \<times> proc_event list" where
  "provider_Terminate killErr inTime p pid st = (if rs_running st then cmdJob_Terminate killErr inTime p pid else (None, []))"

text \<open>\<open>Terminate\<close> never kills a process that is not running and never uses SIGKILL first: nothing is
  signalled unless the provider is running, a process is signalled with SIGTERM, and SIGKILL follows it exactly
  when the process did not finish in time; a container is stopped instead.  It fails only when SIGTERM could
  not be sent or the command has no process.\<close>

theorem terminate_signals:
  "provider_Terminate killErr inTime p pid st = (e, ev) \<Longrightarrow>
    (\<not> rs_running st \<longrightarrow> e = None \<and> ev = []) \<and>
    (Signal ''SIGKILL'' n \<in> set ev \<longleftrightarrow> Signal ''SIGTERM'' n \<in> set ev \<and> \<not> inTime) \<and>
    (bp_docker p \<noteq> None \<longrightarrow> set ev \<subseteq> {DockerStop (''tunasync-job-'' @ bp_name p)}) \<and>
    (e \<noteq> None \<longrightarrow> ev = [] \<and> (pid = None \<or> killErr = e))"
  by (auto simp: provider_Terminate_def cmdJob_Terminate_def split: if_splits option.splits)

theorem terminate_signals_witness:
  "Signal ''SIGKILL'' 42 \<in> set (snd (provider_Terminate None False ex_base (Some 42) \<lparr>rs_running = True, rs_logFd = True, rs_dataSize = ''''\<rparr>))"
proof -
  let ?r = "provider_Terminate None False ex_base (Some 42) \<lparr>rs_running = True, rs_logFd = True, rs_dataSize = ''''\<rparr>"
  have "Signal ''SIGTERM'' 42 \<in> set (snd ?r)" by (simp add: provider_Terminate_def cmdJob_Terminate_def ex_base_def)
  with terminate_signals [of None False ex_base "Some 42" _ "fst ?r" "snd ?r" 42] show ?thesis by simp
qed


subsection \<open>Runs and terminations of a two-stage provider beside each other\<close>

text \<open>The lock of the provider is held by \<open>Run\<close> except while it waits for a command, and by \<open>Terminate\<close>.
  A goroutine \<open>i\<close> that calls \<open>Run\<close> is in one of the phases below: it wants the lock, starts the command
  of a stage (holding the lock), waits for it, has seen it exit (with success or not) while the flag is still set,
  has cleared the flag and wants the lock back, or has returned.  The goroutines share the lock, \<open>isRunning\<close>, the current command (the goroutine that
  started it) and, for the theorems, what each \<open>Terminate\<close> did.\<close>

datatype run_phase = Calling | Starting int | Waiting int | Dead int bool | Reaped int bool | Ended bool

fun starting :: "run_phase \<Rightarrow> bool" where
  "starting (Starting stage) = True"
| "starting _ = False"

fun alive :: "run_phase \<Rightarrow> bool" where
  "alive (Waiting stage) = True"
| "alive _ = False"

fun dead :: "run_phase \<Rightarrow> bool" where
  "dead (Dead stage ok) = True"
| "dead _ = False"

fun ended :: "run_phase \<Rightarrow> bool" where
  "ended (Ended ok) = True"
| "ended _ = False"

datatype lock_holder = RunOf nat | Terminating

datatype term_act = Signalled nat | NoSuchProcess nat | NotRunning

record twostage_state =
  ts_phase :: "nat \<Rightarrow> run_phase"
  ts_lock :: "lock_holder option"
  ts_isRunning :: bool
  ts_cmd :: nat
  ts_terms :: "term_act list"

inductive twostage_step :: "twostage_state \<Rightarrow> twostage_state \<Rightarrow> bool" where
  refuse: "ts_phase s i = Calling \<Longrightarrow> ts_lock s = None \<Longrightarrow> ts_isRunning s \<Longrightarrow>
    twostage_step s (s\<lparr>ts_phase := (ts_phase s)(i := Ended False)\<rparr>)"
| enter: "ts_phase s i = Calling \<Longrightarrow> ts_lock s = None \<Longrightarrow> \<not> ts_isRunning s \<Longrightarrow>
    twostage_step s (s\<lparr>ts_phase := (ts_phase s)(i := Starting 1), ts_lock := Some (RunOf i)\<rparr>)"
| start_fails: "ts_phase s i = Starting stage \<Longrightarrow>
    twostage_step s (s\<lparr>ts_phase := (ts_phase s)(i := Ended False), ts_lock := None\<rparr>)"
| start: "ts_phase s i = Starting stage \<Longrightarrow>
    twostage_step s (s\<lparr>ts_phase := (ts_phase s)(i := Waiting stage), ts_isRunning := True, ts_cmd := i, ts_lock := None\<rparr>)"
| exit: "ts_phase s i = Waiting stage \<Longrightarrow>
    twostage_step s (s\<lparr>ts_phase := (ts_phase s)(i := Dead stage ok)\<rparr>)"
| clear_flag: "ts_phase s i = Dead stage ok \<Longrightarrow>
    twostage_step s (s\<lparr>ts_phase := (ts_phase s)(i := Reaped stage ok), ts_isRunning := False\<rparr>)"
| next_stage: "ts_phase s i = Reaped 1 True \<Longrightarrow> ts_lock s = None \<Longrightarrow>
    twostage_step s (s\<lparr>ts_phase := (ts_phase s)(i := Starting 2), ts_lock := Some (RunOf i)\<rparr>)"
| finish: "ts_phase s i = Reaped stage ok \<Longrightarrow> stage = 2 \<or> \<not> ok \<Longrightarrow> ts_lock s = None \<Longrightarrow>
    twostage_step s (s\<lparr>ts_phase := (ts_phase s)(i := Ended ok)\<rparr>)"
| terminate: "ts_lock s = None \<Longrightarrow> ts_isRunning s \<Longrightarrow> alive (ts_phase s (ts_cmd s)) \<Longrightarrow>
    twostage_step s (s\<lparr>ts_terms := ts_terms s @ [Signalled (ts_cmd s)], ts_lock := Some Terminating\<rparr>)"
| terminate_gone: "ts_lock s = None \<Longrightarrow> ts_isRunning s \<Longrightarrow> \<not> alive (ts_phase s (ts_cmd s)) \<Longrightarrow>
    twostage_step s (s\<lparr>ts_terms := ts_terms s @ [NoSuchProcess (ts_cmd s)]\<rparr>)"
| terminated: "ts_lock s = Some Terminating \<Longrightarrow>
    twostage_step s (s\<lparr>ts_lock := None\<rparr>)"
| terminate_idle: "ts_lock s = None \<Longrightarrow> \<not> ts_isRunning s \<Longrightarrow>
    twostage_step s (s\<lparr>ts_terms := ts_terms s @ [NotRunning]\<rparr>)"

inductive twostage_reach :: "twostage_state \<Rightarrow> twostage_state \<Rightarrow> bool" for s0 where
  init: "twostage_reach s0 s0"
| step: "twostage_reach s0 s \<Longrightarrow> twostage_step s s' \<Longrightarrow> twostage_reach s0 s'"

lemma reach_four: "twostage_step a b \<Longrightarrow> twostage_step b c \<Longrightarrow> twostage_step c d \<Longrightarrow> twostage_step d e \<Longrightarrow> twostage_reach a e"
  by (meson twostage_reach.intros)

text \<open>\<open>n\<close> goroutines call \<open>Run\<close>, nothing has happened yet.\<close>

definition twostage_init :: "nat \<Rightarrow> twostage_state" where
  "twostage_init n = \<lparr>ts_phase = (\<lambda>i. if i < n then Calling else Ended False), ts_lock = None, ts_isRunning = False, ts_cmd = 0, ts_terms = []\<rparr>"

text \<open>Only the goroutine that holds the lock starts a command.\<close>

lemma starting_holds_lock:
  assumes "twostage_reach (twostage_init n) s"
  shows "ts_lock s = Some (RunOf i) \<longleftrightarrow> starting (ts_phase s i)"
  using assms
proof (induction arbitrary: i rule: twostage_reach.induct)
  case init
  then show ?case by (simp add: twostage_init_def)
next
  case (step s s')
  have unique: "starting (ts_phase s i) \<Longrightarrow> starting (ts_phase s j) \<Longrightarrow> i = j" for i j
    using step(3) [of i] step(3) [of j] by simp
  from step(2) step(3) show ?case
    by (cases rule: twostage_step.cases) (auto, (metis unique starting.simps(1))+)
qed

text \<open>A lone \<open>Run\<close>: the flag says whether its command is alive or has just exited.\<close>

lemma lone_run_flag:
  assumes "twostage_reach (twostage_init 1) s"
  shows "(ts_isRunning s \<longleftrightarrow> alive (ts_phase s 0) \<or> dead (ts_phase s 0)) \<and> ts_cmd s = 0 \<and> (\<forall>i > 0. ended (ts_phase s i))"
  using assms
proof (induction rule: twostage_reach.induct)
  case init
  then show ?case by (simp add: twostage_init_def)
next
  case (step s s')
  have only: "\<not> ended (ts_phase s i) \<Longrightarrow> i = 0" for i using step(3) by (cases "i = 0") auto
  from step(2) step(3) show ?case
    by (cases rule: twostage_step.cases) (auto, (metis only alive.simps dead.simps ended.simps)+)
qed

text \<open>While one \<open>Run\<close> of a two-stage provider is under way, \<open>Terminate\<close> finds the provider running only when
  there is a command: it is alive, or has exited with the flag not cleared yet.\<close>

theorem running_flag_sound:
  assumes "twostage_reach (twostage_init 1) s" and "ts_lock s = None" and "ts_isRunning s"
  shows "alive (ts_phase s (ts_cmd s)) \<or> dead (ts_phase s (ts_cmd s))"
  using lone_run_flag [OF assms(1)] assms(3) by simp

text \<open>In that moment \<open>Terminate\<close> signals a process that is gone and fails, although nothing is left to
  terminate.\<close>

theorem terminate_after_exit_fails:
  "\<exists>s. twostage_reach (twostage_init 1) s \<and> ts_terms s = [NoSuchProcess 0] \<and> ts_phase s 0 = Dead 1 True"
proof -
  let ?s0 = "twostage_init 1"
  let ?s1 = "?s0\<lparr>ts_phase := (ts_phase ?s0)(0 := Starting 1), ts_lock := Some (RunOf 0)\<rparr>"
  let ?s2 = "?s1\<lparr>ts_phase := (ts_phase ?s1)(0 := Waiting 1), ts_isRunning := True, ts_cmd := 0, ts_lock := None\<rparr>"
  let ?s3 = "?s2\<lparr>ts_phase := (ts_phase ?s2)(0 := Dead 1 True)\<rparr>"
  let ?s4 = "?s3\<lparr>ts_terms := ts_terms ?s3 @ [NoSuchProcess (ts_cmd ?s3)]\<rparr>"
  have "twostage_step ?s0 ?s1" by (rule enter) (simp_all add: twostage_init_def)
  moreover have "twostage_step ?s1 ?s2" by (rule start) simp
  moreover have "twostage_step ?s2 ?s3" by (rule exit) simp
  moreover have "twostage_step ?s3 ?s4" by (rule terminate_gone) simp_all
  ultimately have "twostage_reach ?s0 ?s4" by (rule reach_four)
  then show ?thesis by (intro exI [of _ ?s4]) (simp add: twostage_init_def)
qed

theorem running_flag_sound_witness:
  "\<exists>s. twostage_reach (twostage_init 1) s \<and> ts_isRunning s \<and> (alive (ts_phase s (ts_cmd s)) \<or> dead (ts_phase s (ts_cmd s)))"
proof -
  let ?s1 = "(twostage_init 1)\<lparr>ts_phase := (ts_phase (twostage_init 1))(0 := Starting 1), ts_lock := Some (RunOf 0)\<rparr>"
  let ?s2 = "?s1\<lparr>ts_phase := (ts_phase ?s1)(0 := Waiting 1), ts_isRunning := True, ts_cmd := 0, ts_lock := None\<rparr>"
  have "twostage_step (twostage_init 1) ?s1" by (rule enter) (simp_all add: twostage_init_def)
  moreover have "twostage_step ?s1 ?s2" by (rule start) simp
  ultimately have r: "twostage_reach (twostage_init 1) ?s2" by (blast intro: twostage_reach.intros)
  with running_flag_sound [OF r] show ?thesis by (intro exI [of _ ?s2]) simp
qed

text \<open>Between the stages the command of the first has been reaped and the lock is free: a \<open>Terminate\<close> that
  gets it before \<open>Run\<close> does finds nothing to signal and reports success, and the second stage starts
  afterwards.\<close>

lemma between_stages:
  "twostage_reach (twostage_init (Suc n))
     ((twostage_init (Suc n))\<lparr>ts_phase := (ts_phase (twostage_init (Suc n)))(0 := Reaped 1 True)\<rparr>)"
proof -
  let ?s0 = "twostage_init (Suc n)"
  let ?s1 = "?s0\<lparr>ts_phase := (ts_phase ?s0)(0 := Starting 1), ts_lock := Some (RunOf 0)\<rparr>"
  let ?s2 = "?s1\<lparr>ts_phase := (ts_phase ?s1)(0 := Waiting 1), ts_isRunning := True, ts_cmd := 0, ts_lock := None\<rparr>"
  let ?d = "?s2\<lparr>ts_phase := (ts_phase ?s2)(0 := Dead 1 True)\<rparr>"
  let ?s3 = "?d\<lparr>ts_phase := (ts_phase ?d)(0 := Reaped 1 True), ts_isRunning := False\<rparr>"
  have "twostage_step ?s0 ?s1" by (rule enter) (simp_all add: twostage_init_def)
  moreover have "twostage_step ?s1 ?s2" by (rule start) simp
  moreover have "twostage_step ?s2 ?d" by (rule exit) simp
  moreover have "twostage_step ?d ?s3" by (rule clear_flag) simp
  ultimately have "twostage_reach ?s0 ?s3" by (rule reach_four)
  moreover have "?s3 = ?s0\<lparr>ts_phase := (ts_phase ?s0)(0 := Reaped 1 True)\<rparr>" by (simp add: twostage_init_def)
  ultimately show ?thesis by (simp only:)
qed

theorem terminate_between_stages_is_lost:
  "\<exists>s. twostage_reach (twostage_init 1) s \<and> ts_terms s = [NotRunning] \<and> ts_phase s 0 = Waiting 2"
proof -
  let ?s0 = "twostage_init (Suc 0)"
  let ?s1 = "?s0\<lparr>ts_phase := (ts_phase ?s0)(0 := Reaped 1 True)\<rparr>"
  let ?s2 = "?s1\<lparr>ts_terms := ts_terms ?s1 @ [NotRunning]\<rparr>"
  let ?s3 = "?s2\<lparr>ts_phase := (ts_phase ?s2)(0 := Starting 2), ts_lock := Some (RunOf 0)\<rparr>"
  let ?s4 = "?s3\<lparr>ts_phase := (ts_phase ?s3)(0 := Waiting 2), ts_isRunning := True, ts_cmd := 0, ts_lock := None\<rparr>"
  have "twostage_reach ?s0 ?s1" by (rule between_stages)
  moreover have "twostage_step ?s1 ?s2" by (rule terminate_idle) (simp_all add: twostage_init_def)
  moreover have "twostage_step ?s2 ?s3" by (rule next_stage) (simp_all add: twostage_init_def)
  moreover have "twostage_step ?s3 ?s4" by (rule start) simp
  ultimately have "twostage_reach ?s0 ?s4" by (blast intro: twostage_reach.step)
  then show ?thesis by (intro exI [of _ ?s4]) (simp add: twostage_init_def)
qed

text \<open>The second stage does not look at \<open>isRunning\<close> again, so another \<open>Run\<close> that gets the lock between the
  stages is not refused, and two commands of the provider are alive at once.\<close>

theorem two_commands_at_once:
  "\<exists>s. twostage_reach (twostage_init 2) s \<and> ts_phase s 0 = Waiting 2 \<and> ts_phase s 1 = Waiting 1"
proof -
  let ?s0 = "twostage_init (Suc 1)"
  let ?s1 = "?s0\<lparr>ts_phase := (ts_phase ?s0)(0 := Reaped 1 True)\<rparr>"
  let ?s2 = "?s1\<lparr>ts_phase := (ts_phase ?s1)(1 := Starting 1), ts_lock := Some (RunOf 1)\<rparr>"
  let ?s3 = "?s2\<lparr>ts_phase := (ts_phase ?s2)(1 := Waiting 1), ts_isRunning := True, ts_cmd := 1, ts_lock := None\<rparr>"
  let ?s4 = "?s3\<lparr>ts_phase := (ts_phase ?s3)(0 := Starting 2), ts_lock := Some (RunOf 0)\<rparr>"
  let ?s5 = "?s4\<lparr>ts_phase := (ts_phase ?s4)(0 := Waiting 2), ts_isRunning := True, ts_cmd := 0, ts_lock := None\<rparr>"
  have "twostage_reach ?s0 ?s1" by (rule between_stages)
  moreover have "twostage_step ?s1 ?s2" by (rule enter) (simp_all add: twostage_init_def)
  moreover have "twostage_step ?s2 ?s3" by (rule start) simp
  moreover have "twostage_step ?s3 ?s4" by (rule next_stage) (simp_all add: twostage_init_def)
  moreover have "twostage_step ?s4 ?s5" by (rule start) simp
  ultimately have "twostage_reach ?s0 ?s5" by (blast intro: twostage_reach.step)
  moreover have "ts_phase ?s5 0 = Waiting 2 \<and> ts_phase ?s5 1 = Waiting 1" by simp
  ultimately show ?thesis by (metis numeral_2_eq_2 One_nat_def)
qed

end
