(* ===== verification/Cgroup.thy ===== *)
theory Cgroup
  imports Provider_Run
begin

section \<open>Control groups (worker/cgroup.go)\<close>

text \<open>
  The control group of a job: \<open>waitExec\<close>, the child's side of the start of a command; \<open>initCgroup\<close>; and the
  hook that creates a group before a command and kills and deletes it afterwards.  The \<open>containerd/cgroups\<close>
  library is the record \<open>cg_lib\<close> of functions on a world \<open>'w\<close> (processes come and go, so reading changes
  the world too); a manager of either version is a value of \<open>'m\<close>.  The endless loop that empties the group of
  the worker is a \<open>partial_function\<close>: a loop that never ends is \<open>None\<close>.

  Shown: a command under a control group is only executed after it was put into the group; the loop ends, with
  an empty group, when adding a process to a group takes it out of its old one; \<open>killAll\<close> kills at most three
  times and empties the group when signals work; and that a failure to read the processes of a version 1 group
  is swallowed.
\<close>

subsection \<open>The child\<close>

definition cmdCont :: string where "cmdCont = ''cont''"
definition cmdAbrt :: string where "cmdAbrt = ''abrt''"

datatype pipe_state = NoPipe | PipeError goerror | PipeData string

datatype exec_end = Exec string "string list" "string list" | ExecPanic goerror

definition waitExec :: "(string \<Rightarrow> goerror + string) \<Rightarrow> (string \<Rightarrow> string list \<Rightarrow> goerror option) \<Rightarrow> string list \<Rightarrow> pipe_state \<Rightarrow> string list \<Rightarrow> exec_end" where
  "waitExec look exec environ pipe Args =
     (if length Args < 2 then ExecPanic ''index out of range''
      else case look (Args ! 1) of
        Inl e \<Rightarrow> ExecPanic e
      | Inr binary \<Rightarrow>
          (let run = (case exec binary (tl Args) of Some e \<Rightarrow> ExecPanic e | None \<Rightarrow> Exec binary (tl Args) environ) in
           case pipe of
             NoPipe \<Rightarrow> run
           | PipeError e \<Rightarrow> ExecPanic e
           | PipeData cmd \<Rightarrow>
               (if cmd = cmdAbrt then ExecPanic ''Exited on request''
                else if cmd = cmdCont then run
                else ExecPanic ''Exited on request'')))"

subsection \<open>The library\<close>

record ('m, 'w) cg_lib =
  cl_Unified :: bool
  cl_NestedGroupPath :: "goerror + string"
  cl_NestedPath :: "string \<Rightarrow> goerror + string"
  cl_ErrControllerNotActive :: goerror
  cl_LoadV2 :: "string \<Rightarrow> goerror + 'm"
  cl_LoadV1 :: "(string \<Rightarrow> goerror + string) \<Rightarrow> goerror + 'm"
  cl_New :: "'m \<Rightarrow> string \<Rightarrow> int option \<Rightarrow> 'w \<Rightarrow> (goerror + 'm) \<times> 'w"
  cl_Procs :: "'m \<Rightarrow> 'w \<Rightarrow> (goerror + int list) \<times> 'w"
  cl_Subsystems :: "'m \<Rightarrow> string list"
  cl_Processes :: "'m \<Rightarrow> string \<Rightarrow> 'w \<Rightarrow> (goerror + int list) \<times> 'w"
  cl_Add :: "'m \<Rightarrow> int \<Rightarrow> 'w \<Rightarrow> add_result \<times> 'w"
  cl_Delete :: "'m \<Rightarrow> 'w \<Rightarrow> goerror option \<times> 'w"
  cl_Kill :: "int \<Rightarrow> 'w \<Rightarrow> 'w"
  cl_Sleep :: "int \<Rightarrow> 'w \<Rightarrow> 'w"

subsection \<open>initCgroup\<close>

text \<open>A loop is left by \<open>break\<close>, or by a \<open>return\<close> of the function with this error value.\<close>

datatype loop_end = Break | Return "goerror option"

text \<open>The processes of one reading are put into the group of the worker; a vanished one is ignored.\<close>

fun add_procs :: "(int \<Rightarrow> 'w \<Rightarrow> add_result \<times> 'w) \<Rightarrow> int list \<Rightarrow> 'w \<Rightarrow> goerror option \<times> 'w" where
  "add_procs add [] w = (None, w)"
| "add_procs add (p # procs) w =
     (case add p w of
        (AddFailed e, w1) \<Rightarrow> (Some e, w1)
      | (_, w1) \<Rightarrow> add_procs add procs w1)"

text \<open>The loop: the processes are read and moved until the group is empty.  \<open>readErr\<close> is what the code
  returns when it cannot read them.\<close>

partial_function (option) move_procs :: "('w \<Rightarrow> (goerror + int list) \<times> 'w) \<Rightarrow> (goerror \<Rightarrow> goerror option) \<Rightarrow>
    (int \<Rightarrow> 'w \<Rightarrow> add_result \<times> 'w) \<Rightarrow> 'w \<Rightarrow> (loop_end \<times> 'w) option" where
  "move_procs rd readErr add w =
     (case rd w of
        (Inl e, w1) \<Rightarrow> Some (Return (readErr e), w1)
      | (Inr procs, w1) \<Rightarrow>
          (if procs = [] then Some (Break, w1)
           else case add_procs add procs w1 of
             (Some e, w2) \<Rightarrow> Some (Return (Some e), w2)
           | (None, w2) \<Rightarrow> move_procs rd readErr add w2))"

text \<open>Version 1: the path of a group in a subsystem.  Where \<open>Processes\<close> fails, its error is shadowed by that of
  \<open>pather\<close>, called to print the path: what is returned is the error of \<open>pather\<close>, or \<open>nil\<close>.\<close>

definition pather :: "('m, 'w) cg_lib \<Rightarrow> string \<Rightarrow> string \<Rightarrow> goerror + string" where
  "pather L baseGroup subsys =
     (if baseGroup \<noteq> '''' then Inr baseGroup
      else case cl_NestedPath L subsys of
        Inl e \<Rightarrow> Inl e
      | Inr path \<Rightarrow> if path = ''/'' then Inl (cl_ErrControllerNotActive L) else Inr path)"

definition shadowed :: "('m, 'w) cg_lib \<Rightarrow> string \<Rightarrow> string \<Rightarrow> goerror \<Rightarrow> goerror option" where
  "shadowed L baseGroup subsys err = (case pather L baseGroup subsys of Inl e \<Rightarrow> Some e | Inr p \<Rightarrow> None)"

text \<open>The loops over the subsystems: paths are printed, processes moved, or required to be absent.\<close>

fun print_paths :: "('m, 'w) cg_lib \<Rightarrow> string \<Rightarrow> string list \<Rightarrow> goerror option" where
  "print_paths L baseGroup [] = None"
| "print_paths L baseGroup (subsys # subsystems) =
     (case pather L baseGroup subsys of Inl e \<Rightarrow> Some e | Inr p \<Rightarrow> print_paths L baseGroup subsystems)"

fun move_subsystems :: "('m, 'w) cg_lib \<Rightarrow> string \<Rightarrow> 'm \<Rightarrow> 'm \<Rightarrow> string list \<Rightarrow> 'w \<Rightarrow> (goerror option \<times> 'w) option" where
  "move_subsystems L baseGroup m wkrMgr [] w = Some (None, w)"
| "move_subsystems L baseGroup m wkrMgr (subsys # subsystems) w =
     (case move_procs (cl_Processes L m subsys) (shadowed L baseGroup subsys) (cl_Add L wkrMgr) w of
        None \<Rightarrow> None
      | Some (Return e, w1) \<Rightarrow> Some (e, w1)
      | Some (Break, w1) \<Rightarrow> move_subsystems L baseGroup m wkrMgr subsystems w1)"

fun check_subsystems :: "('m, 'w) cg_lib \<Rightarrow> string \<Rightarrow> 'm \<Rightarrow> string list \<Rightarrow> 'w \<Rightarrow> goerror option \<times> 'w" where
  "check_subsystems L baseGroup m [] w = (None, w)"
| "check_subsystems L baseGroup m (subsys # subsystems) w =
     (case cl_Processes L m subsys w of
        (Inl err, w1) \<Rightarrow> (shadowed L baseGroup subsys err, w1)
      | (Inr procs, w1) \<Rightarrow>
          (if procs \<noteq> [] then
             (case pather L baseGroup subsys of
                Inl e \<Rightarrow> (Some e, w1)
              | Inr p \<Rightarrow> (Some (''There are remaining processes in cgroup '' @ p @ '' of subsystem '' @ subsys), w1))
           else check_subsystems L baseGroup m subsystems w1))"

text \<open>Both versions first load the manager of the base group, which stays in the configuration.  \<open>initV2\<close> and
  \<open>initV1\<close> are what follows.\<close>

definition initV2 :: "('m, 'w) cg_lib \<Rightarrow> string \<Rightarrow> 'm \<Rightarrow> 'w \<Rightarrow> (goerror option \<times> 'w) option" where
  "initV2 L baseGroup m w =
     (if baseGroup = '''' then
        (case cl_New L m ''__worker'' None w of
           (Inl e, w1) \<Rightarrow> Some (Some e, w1)
         | (Inr wkrMgr, w1) \<Rightarrow>
             map_option (\<lambda>(r, w2). (case r of Break \<Rightarrow> None | Return e \<Rightarrow> e, w2))
               (move_procs (cl_Procs L m) Some (cl_Add L wkrMgr) w1))
      else
        (case cl_New L m ''__test'' None w of
           (Inl e, w1) \<Rightarrow> Some (Some e, w1)
         | (Inr testMgr, w1) \<Rightarrow>
             (case cl_Delete L testMgr w1 of
                (Some e, w2) \<Rightarrow> Some (Some e, w2)
              | (None, w2) \<Rightarrow>
                  (case cl_Procs L m w2 of
                     (Inl e, w3) \<Rightarrow> Some (Some e, w3)
                   | (Inr procs, w3) \<Rightarrow>
                       Some (if procs \<noteq> [] then Some (''There are remaining processes in cgroup '' @ baseGroup) else None, w3)))))"

definition initV1 :: "('m, 'w) cg_lib \<Rightarrow> string \<Rightarrow> 'm \<Rightarrow> 'w \<Rightarrow> (goerror option \<times> 'w) option" where
  "initV1 L baseGroup m w =
     (case print_paths L baseGroup (cl_Subsystems L m) of
        Some e \<Rightarrow> Some (Some e, w)
      | None \<Rightarrow>
          (if baseGroup = '''' then
             (case cl_New L m ''__worker'' None w of
                (Inl e, w1) \<Rightarrow> Some (Some e, w1)
              | (Inr wkrMgr, w1) \<Rightarrow> move_subsystems L baseGroup m wkrMgr (cl_Subsystems L m) w1)
           else
             (case cl_New L m ''__test'' None w of
                (Inl e, w1) \<Rightarrow> Some (Some e, w1)
              | (Inr testMgr, w1) \<Rightarrow>
                  (case cl_Delete L testMgr w1 of
                     (Some e, w2) \<Rightarrow> Some (Some e, w2)
                   | (None, w2) \<Rightarrow> Some (check_subsystems L baseGroup m (cl_Subsystems L m) w2)))))"

text \<open>The result: an error, the manager of the base group if it was loaded, and the world.\<close>

definition initCgroup :: "('m, 'w) cg_lib \<Rightarrow> cgroupConfig \<Rightarrow> 'w \<Rightarrow> (goerror option \<times> 'm option \<times> 'w) option" where
  "initCgroup L cfg w =
     (let baseGroup = (if cg_Group cfg \<noteq> '''' then filepath_Join [''/'', cg_Group cfg] else cg_Group cfg);
          load = (if cl_Unified L
                  then (case (if baseGroup = '''' then cl_NestedGroupPath L else Inr baseGroup) of
                          Inl e \<Rightarrow> Inl e | Inr g \<Rightarrow> cl_LoadV2 L g)
                  else cl_LoadV1 L (pather L baseGroup))
      in case load of
           Inl e \<Rightarrow> Some (Some e, None, w)
         | Inr m \<Rightarrow>
             map_option (\<lambda>(e, w1). (e, Some m, w1)) (if cl_Unified L then initV2 L baseGroup m w else initV1 L baseGroup m w))"

subsection \<open>The hook\<close>

text \<open>\<open>ch_Mgr\<close> is \<open>cgMgrV2\<close> or \<open>cgMgrV1\<close>, whichever the mode uses; \<open>ch_Base\<close> the manager of the
  configuration.\<close>

record 'm cgroupHook =
  ch_Name :: string
  ch_isUnified :: bool
  ch_Base :: 'm
  ch_memLimit :: int
  ch_Mgr :: "'m option"

definition newCgroupHook :: "string \<Rightarrow> bool \<Rightarrow> 'm \<Rightarrow> int \<Rightarrow> 'm cgroupHook" where
  "newCgroupHook name isUnified base memLimit =
     \<lparr>ch_Name = name, ch_isUnified = isUnified, ch_Base = base, ch_memLimit = memLimit, ch_Mgr = None\<rparr>"

definition cgroupHook_preExec :: "('m, 'w) cg_lib \<Rightarrow> 'm cgroupHook \<Rightarrow> 'w \<Rightarrow> goerror option \<times> 'm cgroupHook \<times> 'w" where
  "cgroupHook_preExec L c w =
     (case cl_New L (ch_Base c) (ch_Name c) (if ch_memLimit c \<noteq> 0 then Some (ch_memLimit c) else None) w of
        (Inl e, w1) \<Rightarrow> (Some e, c, w1)
      | (Inr subMgr, w1) \<Rightarrow> (None, c\<lparr>ch_Mgr := Some subMgr\<rparr>, w1))"

text \<open>The tasks of a version 1 group are those of its subsystems, each once.\<close>

fun read_subsystems :: "('m, 'w) cg_lib \<Rightarrow> 'm \<Rightarrow> string list \<Rightarrow> int list \<Rightarrow> 'w \<Rightarrow> (goerror + int list) \<times> 'w" where
  "read_subsystems L m [] taskSet w = (Inr taskSet, w)"
| "read_subsystems L m (subsys # subsystems) taskSet w =
     (case cl_Processes L m subsys w of
        (Inl e, w1) \<Rightarrow> (Inl e, w1)
      | (Inr procs, w1) \<Rightarrow> read_subsystems L m subsystems (fold List.insert procs taskSet) w1)"

definition readTaskList :: "('m, 'w) cg_lib \<Rightarrow> bool \<Rightarrow> 'm \<Rightarrow> 'w \<Rightarrow> (goerror + int list) \<times> 'w" where
  "readTaskList L isUnified m w = (if isUnified then cl_Procs L m w else read_subsystems L m (cl_Subsystems L m) [] w)"

text \<open>The rounds of \<open>killAll\<close>, from round \<open>i\<close> on, with the processes killed in each.\<close>

definition kill_pause :: "nat \<Rightarrow> int" where
  "kill_pause i = int i * Second + 10 * Millisecond"

function kill_rounds :: "('m, 'w) cg_lib \<Rightarrow> bool \<Rightarrow> 'm \<Rightarrow> nat \<Rightarrow> 'w \<Rightarrow> goerror option \<times> int list list \<times> 'w" where
  "kill_rounds L isUnified m i w =
     (if i < 4 then
        (if i = 3 then (Some ''Unable to kill all child tasks'', [], w)
         else case readTaskList L isUnified m w of
           (Inl e, w1) \<Rightarrow> (Some e, [], w1)
         | (Inr taskList, w1) \<Rightarrow>
             (if taskList = [] then (None, [], w1)
              else case kill_rounds L isUnified m (i + 1) (cl_Sleep L (kill_pause i) (fold (cl_Kill L) taskList w1)) of
                (e, rounds, w2) \<Rightarrow> (e, taskList # rounds, w2)))
      else (None, [], w))"
  by pat_completeness auto
termination
  by (relation "measure (\<lambda>(L, u, m, i, w). 4 - i)") auto

declare kill_rounds.simps [simp del]

definition killAll :: "('m, 'w) cg_lib \<Rightarrow> 'm cgroupHook \<Rightarrow> 'w \<Rightarrow> goerror option \<times> int list list \<times> 'w" where
  "killAll L c w = (case ch_Mgr c of None \<Rightarrow> (None, [], w) | Some m \<Rightarrow> kill_rounds L (ch_isUnified c) m 0 w)"

text \<open>\<open>postExec\<close>: an error of \<open>killAll\<close> is logged only.  Without a manager the deletion dereferences \<open>nil\<close>.\<close>

definition cgroupHook_postExec :: "('m, 'w) cg_lib \<Rightarrow> 'm cgroupHook \<Rightarrow> 'w \<Rightarrow> (goerror option \<times> 'm cgroupHook \<times> 'w) option" where
  "cgroupHook_postExec L c w =
     (case killAll L c w of (err, rounds, w1) \<Rightarrow>
      case ch_Mgr c of
        None \<Rightarrow> None
      | Some m \<Rightarrow>
          (case cl_Delete L m w1 of
             (Some e, w2) \<Rightarrow> Some (Some e, c, w2)
           | (None, w2) \<Rightarrow> Some (None, c\<lparr>ch_Mgr := None\<rparr>, w2)))"

subsection \<open>A command runs inside its group\<close>

text \<open>What the child finds in the pipe once the parent has closed it.\<close>

definition pipe_content :: "proc_event list \<Rightarrow> string" where
  "pipe_content ev = (if WriteCont \<in> set ev then cmdCont else '''')"

text \<open>\<open>x\<close> comes before \<open>y\<close> in a list.\<close>

definition before :: "'a \<Rightarrow> 'a \<Rightarrow> 'a list \<Rightarrow> bool" where
  "before x y xs \<longleftrightarrow> (\<exists>us vs. xs = us @ y # vs \<and> x \<in> set us)"

lemma waitExec_exec:
  assumes "waitExec look exec environ (PipeData d) Args = Exec binary argv env"
  shows "d = cmdCont \<and> argv = tl Args \<and> env = environ \<and> look (Args ! 1) = Inr binary"
  using assms by (auto simp: waitExec_def Let_def split: if_splits sum.splits option.splits)

lemma cmdJob_Start_cont:
  assumes "cmdJob_Start A p args dir environ = (e, ev)" and "bp_cgroup p \<noteq> None" and "WriteCont \<in> set ev"
  shows "e = None \<and> (\<exists>pid. oa_Start A = Inr pid \<and>
    (oa_AddProc A = Added \<and> before (JoinCgroup pid) WriteCont ev \<or> oa_AddProc A = Vanished))"
proof -
  obtain pid where s: "oa_Start A = Inr pid" using assms by (auto simp: cmdJob_Start_def Let_def split: if_splits sum.splits)
  have ok: "oa_PipeErr A = None" "oa_ClosePipeErr A = None" "oa_WriteErr A = None" "\<forall>x. oa_AddProc A \<noteq> AddFailed x"
    using assms s by (auto simp: cmdJob_Start_def Let_def split: if_splits option.splits add_result.splits)
  show ?thesis
  proof (cases "oa_AddProc A")
    case Added
    with assms ok s have "e = None" "ev = [Spawn args dir environ, JoinCgroup pid] @ WriteCont # []" by (auto simp: cmdJob_Start_def)
    moreover from this(2) have "before (JoinCgroup pid) WriteCont ev"
      unfolding before_def by (intro exI [of _ "[Spawn args dir environ, JoinCgroup pid]"] exI [of _ "[]"]) simp
    ultimately show ?thesis using Added s by simp
  next
    case Vanished
    with assms ok s show ?thesis by (auto simp: cmdJob_Start_def)
  qed (use ok in simp)
qed

text \<open>C20.  A command under a control group never runs outside it: the re-executed child calls \<open>exec\<close> only
  when the parent wrote \<open>cont\<close> into the pipe, the parent does so only after the child was added to the group
  (unless the kernel says that the child is gone already), and then the start has succeeded.  What is executed is
  the command line of the provider, found by \<open>LookPath\<close>, with the environment of the child.\<close>

theorem command_runs_inside_cgroup:
  assumes "bp_cgroup p \<noteq> None" and "bp_docker p = None" and "newCmdJob_args user p command workingDir env = Some args"
    and "cmdJob_Start A p args dir environ = (e, ev)"
    and "waitExec look exec environ (PipeData (pipe_content ev)) args = Exec binary argv cenv"
  shows "argv = command \<and> look (hd command) = Inr binary \<and> cenv = environ \<and> e = None \<and>
    (\<exists>pid. oa_Start A = Inr pid \<and> (before (JoinCgroup pid) WriteCont ev \<or> oa_AddProc A = Vanished))"
proof -
  have args: "args = ''tunasync-exec'' # command" "command \<noteq> []" using assms(1-3) by (auto simp: newCmdJob_args_def split: if_splits)
  note w = waitExec_exec [OF assms(5)]
  then have "WriteCont \<in> set ev" by (auto simp: pipe_content_def cmdCont_def split: if_splits)
  from cmdJob_Start_cont [OF assms(4,1) this] w args show ?thesis by (cases command) auto
qed

definition ex_cg_base :: baseProvider where
  "ex_cg_base = ex_base\<lparr>bp_cgroup := Some (\<lparr>cg_Enable = True, cg_BasePath = '''', cg_Group = '''', cg_Subsystem = ''''\<rparr>, 0)\<rparr>"

theorem command_runs_inside_cgroup_witness:
  "\<exists>ev. cmdJob_Start ex_os ex_cg_base [''tunasync-exec'', ''rsync'', ''-a''] ''/data/deb'' [] = (None, ev) \<and> before (JoinCgroup 42) WriteCont ev"
proof -
  let ?args = "[''tunasync-exec'', ''rsync'', ''-a'']"
  have s: "cmdJob_Start ex_os ex_cg_base ?args ''/data/deb'' [] = (None, [Spawn ?args ''/data/deb'' [], JoinCgroup 42, WriteCont])"
    by (simp add: cmdJob_Start_def ex_os_def ex_cg_base_def)
  have a: "newCmdJob_args ''0:0'' ex_cg_base [''rsync'', ''-a''] ''/data/deb'' [] = Some ?args"
    by (simp add: newCmdJob_args_def ex_cg_base_def ex_base_def)
  have w: "waitExec (\<lambda>c. Inr (''/bin/'' @ c)) (\<lambda>_ _. None) [] (PipeData (pipe_content [Spawn ?args ''/data/deb'' [], JoinCgroup 42, WriteCont])) ?args
      = Exec ''/bin/rsync'' [''rsync'', ''-a''] []"
    by (simp add: waitExec_def pipe_content_def cmdCont_def cmdAbrt_def)
  from command_runs_inside_cgroup [OF _ _ a s w] s show ?thesis
    by (auto simp: ex_cg_base_def ex_base_def ex_os_def)
qed

subsection \<open>Emptying the group of the worker\<close>

text \<open>When moving processes makes progress: \<open>G w\<close> are the processes of the group, which a reading lists, and
  \<open>pending w\<close> counts them together with those that they will still fork into it.  Adding a process to another
  group takes it out of this one, and fails for no other reason than that it has vanished.\<close>

definition drains :: "('w \<Rightarrow> (goerror + int list) \<times> 'w) \<Rightarrow> (int \<Rightarrow> 'w \<Rightarrow> add_result \<times> 'w) \<Rightarrow> ('w \<Rightarrow> int set) \<Rightarrow> ('w \<Rightarrow> nat) \<Rightarrow> bool" where
  "drains rd add G pending \<longleftrightarrow>
     (\<forall>w. \<exists>procs w1. rd w = (Inr procs, w1) \<and> set procs = G w1 \<and> pending w1 \<le> pending w) \<and>
     (\<forall>p w. \<exists>r w1. add p w = (r, w1) \<and> (\<forall>e. r \<noteq> AddFailed e) \<and> pending w1 \<le> pending w \<and> (p \<in> G w \<longrightarrow> pending w1 < pending w))"

lemma drains_add_procs:
  assumes "drains rd add G pending"
  obtains w' where "add_procs add procs w = (None, w')" and "pending w' \<le> pending w"
    and "procs \<noteq> [] \<Longrightarrow> hd procs \<in> G w \<Longrightarrow> pending w' < pending w"
proof -
  have "\<exists>w'. add_procs add procs w = (None, w') \<and> pending w' \<le> pending w \<and> (procs \<noteq> [] \<longrightarrow> hd procs \<in> G w \<longrightarrow> pending w' < pending w)"
  proof (induction procs arbitrary: w)
    case (Cons p procs)
    from assms obtain r w1 where a: "add p w = (r, w1)" "\<forall>e. r \<noteq> AddFailed e" "pending w1 \<le> pending w" "p \<in> G w \<longrightarrow> pending w1 < pending w"
      unfolding drains_def by meson
    from Cons.IH [of w1] obtain w' where "add_procs add procs w1 = (None, w')" "pending w' \<le> pending w1" by blast
    with a show ?case by (intro exI [of _ w']) (auto split: add_result.split)
  qed simp
  with that show thesis by blast
qed

lemma move_procs_drains:
  assumes "drains rd add G pending"
  shows "\<exists>w'. move_procs rd readErr add w = Some (Break, w') \<and> G w' = {}"
proof (induction "pending w" arbitrary: w rule: less_induct)
  case less
  from assms obtain procs w1 where r: "rd w = (Inr procs, w1)" "set procs = G w1" "pending w1 \<le> pending w"
    unfolding drains_def by meson
  show ?case
  proof (cases "procs = []")
    case True
    with r show ?thesis by (intro exI [of _ w1]) (simp add: move_procs.simps [of rd readErr add w])
  next
    case False
    obtain w2 where a: "add_procs add procs w1 = (None, w2)" "procs \<noteq> [] \<longrightarrow> hd procs \<in> G w1 \<longrightarrow> pending w2 < pending w1"
      by (rule drains_add_procs [OF assms, of procs w1]) blast
    have "hd procs \<in> G w1" using False r(2) by (metis hd_in_set)
    with False a(2) r(3) have "pending w2 < pending w" by simp
    with less obtain w' where "move_procs rd readErr add w2 = Some (Break, w')" "G w' = {}" by blast
    with False r(1) a(1) show ?thesis by (intro exI [of _ w']) (simp add: move_procs.simps [of rd readErr add w])
  qed
qed

lemma move_subsystems_drains:
  assumes "\<And>subsys. subsys \<in> set subsystems \<Longrightarrow> \<exists>G pending. drains (cl_Processes L m subsys) (cl_Add L wkr) G pending"
  shows "\<exists>w'. move_subsystems L g m wkr subsystems w = Some (None, w')"
  using assms
proof (induction subsystems arbitrary: w)
  case (Cons subsys subsystems)
  from Cons.prems [of subsys] obtain G pending where "drains (cl_Processes L m subsys) (cl_Add L wkr) G pending" by auto
  from move_procs_drains [OF this] obtain w1 where
    "move_procs (cl_Processes L m subsys) (shadowed L g subsys) (cl_Add L wkr) w = Some (Break, w1)" by blast
  with Cons show ?case by simp
qed simp

text \<open>The ways in which \<open>initCgroup\<close> reads the processes of the manager: one, or one for each subsystem.\<close>

definition readings :: "('m, 'w) cg_lib \<Rightarrow> 'm \<Rightarrow> ('w \<Rightarrow> (goerror + int list) \<times> 'w) list" where
  "readings L m = (if cl_Unified L then [cl_Procs L m] else map (cl_Processes L m) (cl_Subsystems L m))"

text \<open>The manager that \<open>initCgroup\<close> loads when the configuration names no group.\<close>

definition own_manager :: "('m, 'w) cg_lib \<Rightarrow> 'm \<Rightarrow> bool" where
  "own_manager L m \<longleftrightarrow>
     (if cl_Unified L then (\<exists>g. cl_NestedGroupPath L = Inr g \<and> cl_LoadV2 L g = Inr m)
      else cl_LoadV1 L (pather L '''') = Inr m \<and> print_paths L '''' (cl_Subsystems L m) = None)"

lemma initCgroup_returns:
  assumes "cg_Group cfg = ''''" and "own_manager L m" and "cl_New L m ''__worker'' None w = (Inr wkr, w1)"
    and "\<And>rd. rd \<in> set (readings L m) \<Longrightarrow> \<exists>pending. drains rd (cl_Add L wkr) (G rd) pending"
  shows "\<exists>w'. initCgroup L cfg w = Some (None, Some m, w') \<and> (cl_Unified L \<longrightarrow> G (cl_Procs L m) w' = {})"
proof (cases "cl_Unified L")
  case True
  with assms(4) [of "cl_Procs L m"] obtain pending where "drains (cl_Procs L m) (cl_Add L wkr) (G (cl_Procs L m)) pending"
    by (auto simp: readings_def)
  from move_procs_drains [OF this] obtain w' where
    "move_procs (cl_Procs L m) Some (cl_Add L wkr) w1 = Some (Break, w')" "G (cl_Procs L m) w' = {}" by blast
  with True assms(1-3) show ?thesis by (intro exI [of _ w']) (auto simp: initCgroup_def initV2_def own_manager_def)
next
  case False
  then have "\<exists>G pending. drains (cl_Processes L m subsys) (cl_Add L wkr) G pending" if "subsys \<in> set (cl_Subsystems L m)" for subsys
    using that assms(4) [of "cl_Processes L m subsys"] by (auto simp: readings_def)
  from move_subsystems_drains [OF this] obtain w' where "move_subsystems L '''' m wkr (cl_Subsystems L m) w1 = Some (None, w')" by blast
  with False assms(1-3) show ?thesis by (intro exI [of _ w']) (auto simp: initCgroup_def initV1_def own_manager_def)
qed

text \<open>C23.  The worker gets out of its own control group: when the configuration names no group, the manager can
  be loaded and a group for the worker be created, and every reading of the group drains, the loops of
  \<open>initCgroup\<close> end in both versions of the interface, and without an error.  In version 2 the group is empty
  afterwards.\<close>

theorem initCgroup_terminates:
  assumes "cg_Group cfg = ''''" and "own_manager L m" and "cl_New L m ''__worker'' None w = (Inr wkr, w1)"
    and "\<And>rd. rd \<in> set (readings L m) \<Longrightarrow> \<exists>pending. drains rd (cl_Add L wkr) (G rd) pending"
  shows "\<exists>w'. initCgroup L cfg w = Some (None, Some m, w') \<and> (cl_Unified L \<longrightarrow> G (cl_Procs L m) w' = {})"
  by (rule initCgroup_returns [OF assms])

text \<open>Where a group is configured there is no loop, and everything before the loop returns.\<close>

definition own_group_drains :: "('m, 'w) cg_lib \<Rightarrow> 'w \<Rightarrow> bool" where
  "own_group_drains L w \<longleftrightarrow> (\<forall>m wkr w1. own_manager L m \<longrightarrow> cl_New L m ''__worker'' None w = (Inr wkr, w1) \<longrightarrow>
     (\<forall>rd\<in>set (readings L m). \<exists>G pending. drains rd (cl_Add L wkr) G pending))"

lemma filepath_Join_root: "filepath_Join [''/'', g] \<noteq> ''''"
  by (simp add: filepath_Join_def path_Clean_def Let_def)

lemma initCgroup_never_hangs:
  assumes "own_group_drains L w"
  shows "initCgroup L cfg w \<noteq> None"
proof (cases "cg_Group cfg = ''''")
  case False
  then show ?thesis
    by (auto simp: initCgroup_def initV2_def initV1_def Let_def filepath_Join_root split: sum.splits prod.splits option.splits)
next
  case True
  show ?thesis
  proof (cases "\<exists>m wkr w1. own_manager L m \<and> cl_New L m ''__worker'' None w = (Inr wkr, w1)")
    case yes: True
    then obtain m wkr w1 where m: "own_manager L m" "cl_New L m ''__worker'' None w = (Inr wkr, w1)" by blast
    with assms obtain G where "\<And>rd. rd \<in> set (readings L m) \<Longrightarrow> \<exists>pending. drains rd (cl_Add L wkr) (G rd) pending"
      unfolding own_group_drains_def by metis
    from initCgroup_returns [OF True m this] show ?thesis by auto
  next
    case no: False
    with True show ?thesis
      by (auto simp: initCgroup_def initV2_def initV1_def own_manager_def Let_def split: sum.splits prod.splits option.splits if_splits)
  qed
qed

text \<open>A group as the list of its processes, with signals and moves that work.\<close>

definition ex_cg :: "(string, int list) cg_lib" where
  "ex_cg = \<lparr>cl_Unified = True, cl_NestedGroupPath = Inr ''/system.slice/tunasync'', cl_NestedPath = (\<lambda>_. Inr ''/''),
     cl_ErrControllerNotActive = ''controller is not supported'', cl_LoadV2 = (\<lambda>g. Inr g), cl_LoadV1 = (\<lambda>_. Inl ''no''),
     cl_New = (\<lambda>m name mem w. (Inr (m @ ''/'' @ name), w)), cl_Procs = (\<lambda>m w. (Inr w, w)), cl_Subsystems = (\<lambda>m. [''memory'', ''cpu'']),
     cl_Processes = (\<lambda>m subsys w. (Inr w, w)), cl_Add = (\<lambda>m p w. (if p \<in> set w then Added else Vanished, removeAll p w)),
     cl_Delete = (\<lambda>m w. (if w = [] then None else Some ''device or resource busy'', w)),
     cl_Kill = (\<lambda>p w. removeAll p w), cl_Sleep = (\<lambda>d w. w)\<rparr>"

lemma ex_cg_drains: "drains (cl_Procs ex_cg m) (cl_Add ex_cg wkr) set length"
  by (simp add: drains_def ex_cg_def length_removeAll_less length_removeAll_less_eq)

lemma ex_cg_init: "initCgroup ex_cg \<lparr>cg_Enable = True, cg_BasePath = '''', cg_Group = '''', cg_Subsystem = ''''\<rparr> [1, 7] = Some (e, m, w) \<Longrightarrow> e = None"
  using initCgroup_returns [of "\<lparr>cg_Enable = True, cg_BasePath = '''', cg_Group = '''', cg_Subsystem = ''''\<rparr>" ex_cg "''/system.slice/tunasync''" "[1, 7]"
      "''/system.slice/tunasync/__worker''" "[1, 7]" "\<lambda>_. set"] ex_cg_drains
  by (auto simp: own_manager_def readings_def ex_cg_def)

theorem initCgroup_terminates_witness:
  "\<exists>w'. initCgroup ex_cg \<lparr>cg_Enable = True, cg_BasePath = '''', cg_Group = '''', cg_Subsystem = ''''\<rparr> [1, 7, 9] =
    Some (None, Some ''/system.slice/tunasync'', w') \<and> set w' = {}"
proof -
  let ?m = "''/system.slice/tunasync''"
  have own: "own_manager ex_cg ?m" by (simp add: own_manager_def ex_cg_def)
  have new: "cl_New ex_cg ?m ''__worker'' None [1, 7, 9] = (Inr (?m @ ''/__worker''), [1, 7, 9])" by (simp add: ex_cg_def)
  have "\<exists>pending. drains rd (cl_Add ex_cg (?m @ ''/__worker'')) set pending" if "rd \<in> set (readings ex_cg ?m)" for rd
    using that ex_cg_drains by (auto simp: readings_def ex_cg_def)
  from initCgroup_terminates [OF _ own new this, of "\<lparr>cg_Enable = True, cg_BasePath = '''', cg_Group = '''', cg_Subsystem = ''''\<rparr>"]
  show ?thesis by (simp add: ex_cg_def)
qed

subsection \<open>Killing what is left\<close>

lemma kill_rounds_bounded:
  assumes "kill_rounds L u m i w = (e, rounds, w')" and "i \<le> 3"
  shows "length rounds \<le> 3 - i \<and> [] \<notin> set rounds \<and> (length rounds = 3 - i \<longrightarrow> e \<noteq> None) \<and>
    (e = None \<longrightarrow> (\<exists>w0. readTaskList L u m w0 = (Inr [], w')))"
  using assms
proof (induction L u m i w arbitrary: e rounds w' rule: kill_rounds.induct)
  case (1 L u m i w)
  show ?case
  proof (cases "i = 3")
    case True
    with 1(2) show ?thesis by (auto simp: kill_rounds.simps [of L u m 3 w])
  next
    case i: False
    obtain r w1 where rd: "readTaskList L u m w = (r, w1)" by (cases "readTaskList L u m w")
    show ?thesis
    proof (cases r)
      case (Inl e)
      with 1(2,3) i rd show ?thesis by (auto simp: kill_rounds.simps [of L u m i w])
    next
      case (Inr taskList)
      let ?w2 = "cl_Sleep L (kill_pause i) (fold (cl_Kill L) taskList w1)"
      obtain e' rounds' w2 where k: "kill_rounds L u m (i + 1) ?w2 = (e', rounds', w2)" by (metis prod_cases3)
      show ?thesis
      proof (cases "taskList = []")
        case True
        with 1(2,3) i rd Inr show ?thesis by (auto simp: kill_rounds.simps [of L u m i w])
      next
        case False
        with 1(2,3) i rd Inr k have "e = e'" "rounds = taskList # rounds'" "w' = w2" by (auto simp: kill_rounds.simps [of L u m i w])
        with False 1(1) [OF _ i rd [symmetric] Inr False k] 1(3) i show ?thesis by auto
      qed
    qed
  qed
qed



text \<open>When signals work: a reading lists the processes \<open>G\<close> of the group, a killed process is gone and nothing
  joins.\<close>

definition kills :: "('m, 'w) cg_lib \<Rightarrow> bool \<Rightarrow> 'm \<Rightarrow> ('w \<Rightarrow> int set) \<Rightarrow> bool" where
  "kills L u m G \<longleftrightarrow>
     (\<forall>w. \<exists>taskList w1. readTaskList L u m w = (Inr taskList, w1) \<and> set taskList = G w1) \<and>
     (\<forall>p w. G (cl_Kill L p w) \<subseteq> G w - {p}) \<and> (\<forall>d w. G (cl_Sleep L d w) \<subseteq> G w) \<and>
     (\<forall>w w1 r. readTaskList L u m w = (r, w1) \<longrightarrow> G w1 \<subseteq> G w)"

lemma kills_fold: "kills L u m G \<Longrightarrow> G (fold (cl_Kill L) ps w) \<subseteq> G w - set ps"
proof (induction ps arbitrary: w)
  case (Cons p ps)
  have "G (cl_Kill L p w) \<subseteq> G w - {p}" using Cons.prems by (simp add: kills_def)
  with Cons.IH [OF Cons.prems, of "cl_Kill L p w"] show ?case by auto
qed simp

lemma kill_rounds_kills:
  assumes "kills L u m G"
  obtains rounds w' where "kill_rounds L u m 0 w = (None, rounds, w')" and "length rounds \<le> 1" and "G w' = {}"
proof -
  from assms obtain taskList w1 where r: "readTaskList L u m w = (Inr taskList, w1)" "set taskList = G w1" unfolding kills_def by meson
  show thesis
  proof (cases "taskList = []")
    case True
    with r that [of "[]" w1] show thesis by (simp add: kill_rounds.simps [of L u m 0 w])
  next
    case False
    let ?w2 = "cl_Sleep L (kill_pause 0) (fold (cl_Kill L) taskList w1)"
    have "G (fold (cl_Kill L) taskList w1) = {}" using kills_fold [OF assms, of taskList w1] r(2) by auto
    moreover have "G ?w2 \<subseteq> G (fold (cl_Kill L) taskList w1)" using assms by (simp add: kills_def)
    ultimately have e: "G ?w2 = {}" by simp
    from assms obtain taskList' w3 where r': "readTaskList L u m ?w2 = (Inr taskList', w3)" "set taskList' = G w3" unfolding kills_def by meson
    have "G w3 \<subseteq> G ?w2" using assms r'(1) unfolding kills_def by blast
    with e r'(2) have "taskList' = []" "G w3 = {}" by auto
    with r' have "kill_rounds L u m 1 ?w2 = (None, [], w3)" by (simp add: kill_rounds.simps [of L u m "Suc 0"])
    with False r have "kill_rounds L u m 0 w = (None, [taskList], w3)" by (simp add: kill_rounds.simps [of L u m 0 w])
    with that [of "[taskList]" w3] \<open>G w3 = {}\<close> show thesis by simp
  qed
qed



lemma ex_cg_kills: "kills ex_cg True m set"
  by (auto simp: kills_def ex_cg_def readTaskList_def)


subsection \<open>An error that is lost\<close>

text \<open>With version 1 groups and a configured group, a subsystem whose processes cannot be read is reported as
  success: the error is shadowed by that of \<open>pather\<close>, which cannot fail here.\<close>

theorem unreadable_group_is_accepted:
  assumes "\<not> cl_Unified L" and "cg_Group cfg \<noteq> ''''" and "cl_LoadV1 L (pather L (filepath_Join [''/'', cg_Group cfg])) = Inr m"
    and "filepath_Join [''/'', cg_Group cfg] \<noteq> ''''"
    and "cl_New L m ''__test'' None w = (Inr t, w1)" and "cl_Delete L t w1 = (None, w2)"
    and "cl_Subsystems L m = subsys # subsystems" and "cl_Processes L m subsys w2 = (Inl err, w3)"
  shows "initCgroup L cfg w = Some (None, Some m, w3)"
proof -
  let ?g = "filepath_Join [''/'', cg_Group cfg]"
  have "print_paths L ?g ss = None" for ss using assms(4) by (induction ss) (simp_all add: pather_def)
  with assms show ?thesis by (simp add: initCgroup_def initV1_def shadowed_def pather_def [of L ?g])
qed

end
