(* ===== verification/Schedule_Queue.thy ===== *)
theory Schedule_Queue
  imports Go_Prelude
begin

section \<open>The schedule queue of a worker (worker/schedule.go)\<close>

text \<open>
  A \<open>scheduleQueue\<close> is a skip list of jobs ordered by their next start and the set of names of the
  scheduled jobs.  The skip list is third-party code: a record of the operations the queue calls, whose
  documented behaviour (an ordered map, one value per key) is \<open>skiplist_laws\<close>.  A job is a value of a
  type \<open>'j\<close> with the function \<open>nm\<close> for its \<open>Name()\<close>; \<open>time.Now()\<close> is an argument of
  \<open>Pop\<close>.  The mutex makes every operation atomic.  The locale \<open>job_queue\<close> is the contract the
  worker relies on: a map from instants to jobs in which every job has at most one instant.
\<close>

record ('l, 'j) skiplist =
  sl_New :: 'l
  sl_Items :: "'l \<Rightarrow> (gtime \<times> 'j) list"
  sl_Set :: "gtime \<Rightarrow> 'j \<Rightarrow> 'l \<Rightarrow> 'l"
  sl_Delete :: "gtime \<Rightarrow> 'l \<Rightarrow> 'l"

record 'l scheduleQueue =
  q_list :: 'l
  q_jobs :: "string \<rightharpoonup> bool"

record jobScheduleInfo =
  jsi_jobName :: string
  jsi_nextScheduled :: gtime

text \<open>The order of the keys that \<open>newScheduleQueue\<close> passes to the skip list; \<open>Before\<close> on instants.\<close>

definition timeLessThan :: "gtime \<Rightarrow> gtime \<Rightarrow> bool" where
  "timeLessThan l r \<longleftrightarrow> l < r"

definition newScheduleQueue :: "('l, 'j) skiplist \<Rightarrow> 'l scheduleQueue" where
  "newScheduleQueue S = \<lparr>q_list = sl_New S, q_jobs = Map.empty\<rparr>"

fun get_jobs_loop :: "('j \<Rightarrow> string) \<Rightarrow> (gtime \<times> 'j) list \<Rightarrow> jobScheduleInfo list \<Rightarrow> jobScheduleInfo list" where
  "get_jobs_loop nm [] jobs = jobs"
| "get_jobs_loop nm ((key, cj) # cur) jobs =
     get_jobs_loop nm cur (jobs @ [\<lparr>jsi_jobName = nm cj, jsi_nextScheduled = key\<rparr>])"

definition GetJobs :: "('l, 'j) skiplist \<Rightarrow> ('j \<Rightarrow> string) \<Rightarrow> 'l scheduleQueue \<Rightarrow> jobScheduleInfo list" where
  "GetJobs S nm q = get_jobs_loop nm (sl_Items S (q_list q)) []"

fun remove_loop :: "('l, 'j) skiplist \<Rightarrow> ('j \<Rightarrow> string) \<Rightarrow> string \<Rightarrow> (gtime \<times> 'j) list \<Rightarrow> 'l scheduleQueue \<Rightarrow> bool \<times> 'l scheduleQueue" where
  "remove_loop S nm name [] q = (False, q)"
| "remove_loop S nm name ((key, cj) # cur) q =
     (if nm cj = name
      then (True, q\<lparr>q_list := sl_Delete S key (q_list q), q_jobs := (q_jobs q)(name := None)\<rparr>)
      else remove_loop S nm name cur q)"

definition unsafeRemove :: "('l, 'j) skiplist \<Rightarrow> ('j \<Rightarrow> string) \<Rightarrow> string \<Rightarrow> 'l scheduleQueue \<Rightarrow> bool \<times> 'l scheduleQueue" where
  "unsafeRemove S nm name q = remove_loop S nm name (sl_Items S (q_list q)) q"

definition Remove :: "('l, 'j) skiplist \<Rightarrow> ('j \<Rightarrow> string) \<Rightarrow> string \<Rightarrow> 'l scheduleQueue \<Rightarrow> bool \<times> 'l scheduleQueue" where
  "Remove S nm name q = unsafeRemove S nm name q"

definition AddJob :: "('l, 'j) skiplist \<Rightarrow> ('j \<Rightarrow> string) \<Rightarrow> gtime \<Rightarrow> 'j \<Rightarrow> 'l scheduleQueue \<Rightarrow> 'l scheduleQueue" where
  "AddJob S nm schedTime job q =
     (let q1 = (case q_jobs q (nm job) of Some _ \<Rightarrow> snd (unsafeRemove S nm (nm job) q) | None \<Rightarrow> q);
          q2 = q1\<lparr>q_jobs := (q_jobs q1)(nm job \<mapsto> True)\<rparr>
      in q2\<lparr>q_list := sl_Set S schedTime job (q_list q2)\<rparr>)"

definition Pop :: "('l, 'j) skiplist \<Rightarrow> ('j \<Rightarrow> string) \<Rightarrow> gtime \<Rightarrow> 'l scheduleQueue \<Rightarrow> 'j option \<times> 'l scheduleQueue" where
  "Pop S nm now q =
     (case sl_Items S (q_list q) of
        [] \<Rightarrow> (None, q)
      | (t, job) # _ \<Rightarrow>
          (if t < now
           then (Some job, q\<lparr>q_list := sl_Delete S t (q_list q), q_jobs := (q_jobs q)(nm job := None)\<rparr>)
           else (None, q)))"

subsection \<open>The contract\<close>

text \<open>What a map from instants to jobs looks like after a job is taken out.\<close>

definition without :: "('j \<Rightarrow> string) \<Rightarrow> string \<Rightarrow> (gtime \<rightharpoonup> 'j) \<Rightarrow> gtime \<rightharpoonup> 'j" where
  "without nm name m = (\<lambda>t. case m t of Some j \<Rightarrow> if nm j = name then None else Some j | None \<Rightarrow> None)"

definition unique_names :: "('j \<Rightarrow> string) \<Rightarrow> (gtime \<rightharpoonup> 'j) \<Rightarrow> bool" where
  "unique_names nm m \<longleftrightarrow> (\<forall>t t' j j'. m t = Some j \<longrightarrow> m t' = Some j' \<longrightarrow> nm j = nm j' \<longrightarrow> t = t')"

lemma without_apply: "without nm name m t = Some j \<longleftrightarrow> m t = Some j \<and> nm j \<noteq> name"
  by (auto simp: without_def split: option.splits)

lemma without_absent: "\<forall>t j. m t = Some j \<longrightarrow> nm j \<noteq> name \<Longrightarrow> without nm name m = m"
  by (rule ext) (auto simp: without_def split: option.splits)

lemma without_single: "unique_names nm m \<Longrightarrow> m t = Some j \<Longrightarrow> without nm (nm j) m = m(t := None)"
  by (rule ext) (auto simp: without_def unique_names_def split: option.splits)

lemma unique_names_without: "unique_names nm m \<Longrightarrow> unique_names nm (without nm name m)"
  by (auto simp: unique_names_def without_apply)

lemma unique_names_insert: "unique_names nm m \<Longrightarrow> unique_names nm ((without nm (nm j) m)(t \<mapsto> j))"
  by (auto simp: unique_names_def without_apply)

lemma unique_names_delete: "unique_names nm m \<Longrightarrow> unique_names nm (m(t := None))"
  by (auto simp: unique_names_def)

locale job_queue =
  fixes nm :: "'j \<Rightarrow> string"
    and add :: "gtime \<Rightarrow> 'j \<Rightarrow> 'q \<Rightarrow> 'q"
    and pop :: "gtime \<Rightarrow> 'q \<Rightarrow> 'j option \<times> 'q"
    and remove :: "string \<Rightarrow> 'q \<Rightarrow> bool \<times> 'q"
    and jobs :: "'q \<Rightarrow> jobScheduleInfo list"
    and slots :: "'q \<Rightarrow> gtime \<rightharpoonup> 'j"
    and inv :: "'q \<Rightarrow> bool"
  assumes finite_slots: "inv q \<Longrightarrow> finite (dom (slots q))"
    and names_unique: "inv q \<Longrightarrow> unique_names nm (slots q)"
    and add: "inv q \<Longrightarrow> inv (add t j q) \<and> slots (add t j q) = (without nm (nm j) (slots q))(t \<mapsto> j)"
    and remove: "inv q \<Longrightarrow> inv (snd (remove n q)) \<and> slots (snd (remove n q)) = without nm n (slots q) \<and>
      (fst (remove n q) \<longleftrightarrow> (\<exists>t j. slots q t = Some j \<and> nm j = n))"
    and pop_none: "inv q \<Longrightarrow> (\<forall>t\<in>dom (slots q). now \<le> t) \<Longrightarrow> pop now q = (None, q)"
    and pop_due: "inv q \<Longrightarrow> slots q t = Some j \<Longrightarrow> t < now \<Longrightarrow> (\<forall>t'\<in>dom (slots q). t \<le> t') \<Longrightarrow>
      fst (pop now q) = Some j \<and> inv (snd (pop now q)) \<and> slots (snd (pop now q)) = (slots q)(t := None)"
    and jobs: "inv q \<Longrightarrow> sorted (map jsi_nextScheduled (jobs q)) \<and> distinct (map jsi_nextScheduled (jobs q)) \<and>
      set (jobs q) = {\<lparr>jsi_jobName = nm j, jsi_nextScheduled = t\<rparr> |t j. slots q t = Some j}"

text \<open>Popping \<open>n\<close> times.\<close>

fun pop_times :: "nat \<Rightarrow> ('q \<Rightarrow> 'j option \<times> 'q) \<Rightarrow> 'q \<Rightarrow> 'j list \<times> 'q" where
  "pop_times 0 pop q = ([], q)"
| "pop_times (Suc n) pop q =
     (case pop q of
        (None, q') \<Rightarrow> pop_times n pop q'
      | (Some j, q') \<Rightarrow> (case pop_times n pop q' of (js, q'') \<Rightarrow> (j # js, q'')))"

context job_queue
begin

lemma jobs_Cons:
  assumes "inv q" and "slots q t = Some j" and "\<forall>t'\<in>dom (slots q). t \<le> t'" and "inv q'" and "slots q' = (slots q)(t := None)"
  shows "jobs q = \<lparr>jsi_jobName = nm j, jsi_nextScheduled = t\<rparr> # jobs q'"
proof -
  let ?e = "\<lparr>jsi_jobName = nm j, jsi_nextScheduled = t\<rparr>"
  note q = jobs [OF assms(1)] and q' = jobs [OF assms(4)]
  have later: "t < jsi_nextScheduled e" if "e \<in> set (jobs q')" for e
    using that q' assms(3,5) by (force simp: order_less_le)
  have "set (jobs q) = insert ?e {\<lparr>jsi_jobName = nm i, jsi_nextScheduled = u\<rparr> |u i. slots q' u = Some i}"
    using q assms(2,5) by (auto split: if_splits) (metis option.inject)
  then have "set (jobs q) = set (?e # jobs q')" using q' by simp
  moreover have "inj_on jsi_nextScheduled (set (jobs q) \<union> set (?e # jobs q'))"
    using conjunct1 [OF conjunct2 [OF q]] calculation by (simp only: distinct_map Un_absorb)
  moreover have "sorted (map jsi_nextScheduled (?e # jobs q'))" "distinct (map jsi_nextScheduled (?e # jobs q'))"
    using q' later by (auto simp: less_imp_le)
  ultimately show ?thesis using q by (intro map_sorted_distinct_set_unique [of jsi_nextScheduled]) simp_all
qed

lemma first_slot:
  assumes "inv q" and "slots q t \<noteq> None"
  obtains t0 j0 where "slots q t0 = Some j0" and "\<forall>t'\<in>dom (slots q). t0 \<le> t'" and "t0 \<le> t"
proof -
  let ?t = "Min (dom (slots q))"
  have fin: "finite (dom (slots q))" using finite_slots [OF assms(1)] .
  have "?t \<in> dom (slots q)" using fin assms(2) by (intro Min_in) auto
  then obtain j0 where "slots q ?t = Some j0" by auto
  moreover have "\<forall>t'\<in>dom (slots q). ?t \<le> t'" using fin by simp
  moreover have "?t \<le> t" using fin assms(2) by (intro Min_le) auto
  ultimately show thesis by (rule that)
qed

lemma pop_step:
  assumes "inv q"
  shows "inv (snd (pop now q)) \<and>
    (fst (pop now q) = None \<and> snd (pop now q) = q \<and> (\<forall>t\<in>dom (slots q). now \<le> t) \<or>
     (\<exists>t j. fst (pop now q) = Some j \<and> slots q t = Some j \<and> t < now \<and> (\<forall>t'\<in>dom (slots q). t \<le> t') \<and>
        slots (snd (pop now q)) = (slots q)(t := None)))"
proof (cases "\<forall>t\<in>dom (slots q). now \<le> t")
  case True
  then show ?thesis using pop_none [OF assms True] assms by simp
next
  case False
  then obtain u where u: "slots q u \<noteq> None" "u < now" by force
  from first_slot [OF assms u(1)] obtain t j where t: "slots q t = Some j" "\<forall>t'\<in>dom (slots q). t \<le> t'" "t \<le> u" by blast
  then have "t < now" using u(2) by simp
  with pop_due [OF assms t(1) this t(2)] t show ?thesis by blast
qed

lemma drain:
  assumes "inv q" and "\<forall>t\<in>dom (slots q). t < now" and "card (dom (slots q)) = n"
  shows "map nm (fst (pop_times n (pop now) q)) = map jsi_jobName (jobs q) \<and>
    slots (snd (pop_times n (pop now) q)) = Map.empty"
  using assms
proof (induction n arbitrary: q)
  case 0
  then have "slots q = Map.empty" using finite_slots by auto
  moreover from this jobs [OF 0(1)] have "jobs q = []" by simp
  ultimately show ?case by simp
next
  case (Suc n)
  then obtain t where "slots q t \<noteq> None" by (metis card.empty dom_eq_empty_conv nat.distinct(1))
  from first_slot [OF Suc.prems(1) this] obtain t j where
    t: "slots q t = Some j" "\<forall>t'\<in>dom (slots q). t \<le> t'" by blast
  then have now: "t < now" using Suc.prems(2) by auto
  obtain q' where q': "pop now q = (Some j, q')" "inv q'" "slots q' = (slots q)(t := None)"
    using pop_due [OF Suc.prems(1) t(1) now t(2)] by (metis prod.collapse)
  have "t \<in> dom (slots q)" using t(1) by auto
  then have "card (dom (slots q')) = n" using Suc.prems(3) q'(3) by simp
  moreover have "\<forall>t\<in>dom (slots q'). t < now" using Suc.prems(2) q'(3) by auto
  ultimately have "map nm (fst (pop_times n (pop now) q')) = map jsi_jobName (jobs q') \<and>
    slots (snd (pop_times n (pop now) q')) = Map.empty" using Suc.IH q'(2) by blast
  with q'(1) jobs_Cons [OF Suc.prems(1) t q'(2,3)] show ?case
    by (cases "pop_times n (pop now) q'") simp
qed

end

subsection \<open>The contract holds of the queue\<close>

text \<open>The documented behaviour of the skip list: an ordered map.\<close>

definition skiplist_laws :: "('l, 'j) skiplist \<Rightarrow> ('l \<Rightarrow> bool) \<Rightarrow> bool" where
  "skiplist_laws S ok \<longleftrightarrow>
     ok (sl_New S) \<and> sl_Items S (sl_New S) = [] \<and>
     (\<forall>l. ok l \<longrightarrow> sorted_wrt timeLessThan (map fst (sl_Items S l))) \<and>
     (\<forall>l t j. ok l \<longrightarrow> ok (sl_Set S t j l) \<and> map_of (sl_Items S (sl_Set S t j l)) = (map_of (sl_Items S l))(t \<mapsto> j)) \<and>
     (\<forall>l t. ok l \<longrightarrow> ok (sl_Delete S t l) \<and> map_of (sl_Items S (sl_Delete S t l)) = (map_of (sl_Items S l))(t := None))"

definition q_slots :: "('l, 'j) skiplist \<Rightarrow> 'l scheduleQueue \<Rightarrow> gtime \<rightharpoonup> 'j" where
  "q_slots S q = map_of (sl_Items S (q_list q))"

text \<open>Every job in the skip list is registered in \<open>jobs\<close>, under a name no other job of the list has.\<close>

definition queue_inv :: "('l, 'j) skiplist \<Rightarrow> ('l \<Rightarrow> bool) \<Rightarrow> ('j \<Rightarrow> string) \<Rightarrow> 'l scheduleQueue \<Rightarrow> bool" where
  "queue_inv S ok nm q \<longleftrightarrow> skiplist_laws S ok \<and> ok (q_list q) \<and> unique_names nm (q_slots S q) \<and>
     (\<forall>t j. q_slots S q t = Some j \<longrightarrow> q_jobs q (nm j) \<noteq> None)"

lemma sorted_timeLessThan: "sorted_wrt timeLessThan ts \<longleftrightarrow> sorted ts \<and> distinct ts"
  by (simp add: timeLessThan_def [abs_def] strict_sorted_iff)

lemma skiplist_lawsD:
  assumes "skiplist_laws S ok"
  shows "ok (sl_New S)" and "sl_Items S (sl_New S) = []"
    and "ok l \<Longrightarrow> sorted (map fst (sl_Items S l))" and "ok l \<Longrightarrow> distinct (map fst (sl_Items S l))"
    and "ok l \<Longrightarrow> ok (sl_Set S t j l)" and "ok l \<Longrightarrow> map_of (sl_Items S (sl_Set S t j l)) = (map_of (sl_Items S l))(t \<mapsto> j)"
    and "ok l \<Longrightarrow> ok (sl_Delete S t l)" and "ok l \<Longrightarrow> map_of (sl_Items S (sl_Delete S t l)) = (map_of (sl_Items S l))(t := None)"
  using assms by (simp_all add: skiplist_laws_def sorted_timeLessThan)

lemma queue_invD:
  assumes "queue_inv S ok nm q"
  shows "skiplist_laws S ok" and "ok (q_list q)" and "unique_names nm (q_slots S q)"
    and "q_slots S q t = Some j \<Longrightarrow> q_jobs q (nm j) \<noteq> None"
  using assms by (auto simp: queue_inv_def)

text \<open>Only the names of the queued jobs matter.\<close>

lemma queue_inv_cong:
  assumes "\<And>t j. q_slots S q t = Some j \<Longrightarrow> nm' j = nm j"
  shows "queue_inv S ok nm' q \<longleftrightarrow> queue_inv S ok nm q"
proof -
  have "unique_names nm' (q_slots S q) \<longleftrightarrow> unique_names nm (q_slots S q)"
    unfolding unique_names_def by (auto dest: assms) (metis assms)+
  then show ?thesis by (auto simp: queue_inv_def assms)
qed

lemma newScheduleQueue_inv: "skiplist_laws S ok \<Longrightarrow> queue_inv S ok nm (newScheduleQueue S)"
  by (simp add: queue_inv_def newScheduleQueue_def q_slots_def unique_names_def skiplist_lawsD)

lemma get_jobs_loop_map:
  "get_jobs_loop nm cur jobs = jobs @ map (\<lambda>(t, j). \<lparr>jsi_jobName = nm j, jsi_nextScheduled = t\<rparr>) cur"
  by (induction nm cur jobs rule: get_jobs_loop.induct) auto

lemma remove_loop_cases:
  "remove_loop S nm name cur q =
     (case find (\<lambda>(t, j). nm j = name) cur of
        None \<Rightarrow> (False, q)
      | Some (t, j) \<Rightarrow> (True, q\<lparr>q_list := sl_Delete S t (q_list q), q_jobs := (q_jobs q)(name := None)\<rparr>))"
  by (induction S nm name cur q rule: remove_loop.induct) auto

lemma unsafeRemove_refines:
  assumes "queue_inv S ok nm q"
  shows "queue_inv S ok nm (snd (unsafeRemove S nm name q))"
    and "q_slots S (snd (unsafeRemove S nm name q)) = without nm name (q_slots S q)"
    and "fst (unsafeRemove S nm name q) \<longleftrightarrow> (\<exists>t j. q_slots S q t = Some j \<and> nm j = name)"
proof -
  note q = queue_invD [OF assms]
  note d = skiplist_lawsD(4) [OF q(1,2)]
  have "queue_inv S ok nm (snd (unsafeRemove S nm name q)) \<and>
    q_slots S (snd (unsafeRemove S nm name q)) = without nm name (q_slots S q) \<and>
    (fst (unsafeRemove S nm name q) \<longleftrightarrow> (\<exists>t j. q_slots S q t = Some j \<and> nm j = name))"
  proof (cases "find (\<lambda>(t, j). nm j = name) (sl_Items S (q_list q))")
    case None
    then have "\<forall>t j. q_slots S q t = Some j \<longrightarrow> nm j \<noteq> name"
      by (auto simp: find_None_iff q_slots_def dest: map_of_SomeD)
    with None assms show ?thesis
      by (auto simp: unsafeRemove_def remove_loop_cases without_absent)
  next
    case (Some tj)
    obtain t j where tj: "tj = (t, j)" by (cases tj)
    from Some tj have tj': "(t, j) \<in> set (sl_Items S (q_list q))" "nm j = name"
      by (auto simp: find_Some_iff in_set_conv_nth)
    then have slot: "q_slots S q t = Some j" using d by (simp add: q_slots_def)
    let ?q = "q\<lparr>q_list := sl_Delete S t (q_list q), q_jobs := (q_jobs q)(name := None)\<rparr>"
    have s: "q_slots S ?q = (q_slots S q)(t := None)"
      using skiplist_lawsD(8) [OF q(1,2)] by (simp add: q_slots_def)
    have "queue_inv S ok nm ?q"
      using q slot tj'(2) skiplist_lawsD(7) [OF q(1,2)]
      by (auto simp: queue_inv_def s unique_names_delete unique_names_def split: if_splits)
    moreover have "q_slots S ?q = without nm name (q_slots S q)"
      using without_single [OF q(3) slot] tj'(2) s by simp
    ultimately show ?thesis using Some tj tj'(2) slot
      by (auto simp: unsafeRemove_def remove_loop_cases)
  qed
  then show "queue_inv S ok nm (snd (unsafeRemove S nm name q))"
    and "q_slots S (snd (unsafeRemove S nm name q)) = without nm name (q_slots S q)"
    and "fst (unsafeRemove S nm name q) \<longleftrightarrow> (\<exists>t j. q_slots S q t = Some j \<and> nm j = name)" by simp_all
qed

lemma AddJob_refines:
  assumes "queue_inv S ok nm q"
  shows "queue_inv S ok nm (AddJob S nm t j q)"
    and "q_slots S (AddJob S nm t j q) = (without nm (nm j) (q_slots S q))(t \<mapsto> j)"
proof -
  define q1 where "q1 = (case q_jobs q (nm j) of Some _ \<Rightarrow> snd (unsafeRemove S nm (nm j) q) | None \<Rightarrow> q)"
  have "queue_inv S ok nm q1 \<and> q_slots S q1 = without nm (nm j) (q_slots S q)"
  proof (cases "q_jobs q (nm j)")
    case None
    with queue_invD(4) [OF assms] have "\<forall>t j'. q_slots S q t = Some j' \<longrightarrow> nm j' \<noteq> nm j" by metis
    with None assms show ?thesis by (simp add: q1_def without_absent)
  next
    case (Some b)
    with unsafeRemove_refines(1,2) [OF assms] show ?thesis by (simp add: q1_def)
  qed
  then have q1: "queue_inv S ok nm q1" and s1: "q_slots S q1 = without nm (nm j) (q_slots S q)" by simp_all
  note q = queue_invD [OF q1]
  have add: "AddJob S nm t j q = q1\<lparr>q_jobs := (q_jobs q1)(nm j \<mapsto> True), q_list := sl_Set S t j (q_list q1)\<rparr>"
    by (simp add: AddJob_def q1_def Let_def)
  show s: "q_slots S (AddJob S nm t j q) = (without nm (nm j) (q_slots S q))(t \<mapsto> j)"
    using skiplist_lawsD(6) [OF q(1,2)] s1 unfolding add by (simp add: q_slots_def)
  show "queue_inv S ok nm (AddJob S nm t j q)"
    unfolding queue_inv_def s using q(1,2,4) skiplist_lawsD(5) [OF q(1,2)] unique_names_insert [OF queue_invD(3) [OF assms]] s1
    by (auto simp: add)
qed

lemma q_jobs_AddJob: "n \<noteq> nm j \<Longrightarrow> q_jobs (AddJob S nm t j q) n = q_jobs q n"
  by (cases "find (\<lambda>(t, i). nm i = nm j) (sl_Items S (q_list q))")
     (auto simp: AddJob_def Let_def unsafeRemove_def remove_loop_cases split: option.split)

lemma items_hd:
  assumes "queue_inv S ok nm q" and "q_slots S q t = Some j" and "\<forall>t'\<in>dom (q_slots S q). t \<le> t'"
  obtains xs where "sl_Items S (q_list q) = (t, j) # xs"
proof -
  note q = queue_invD [OF assms(1)]
  note sd = skiplist_lawsD(3,4) [OF q(1,2)]
  obtain t' j' xs where i: "sl_Items S (q_list q) = (t', j') # xs"
    using assms(2) by (cases "sl_Items S (q_list q)") (auto simp: q_slots_def)
  have "(t, j) \<in> set (sl_Items S (q_list q))" using assms(2) by (simp add: q_slots_def map_of_SomeD)
  then have "t' \<le> t" using sd(1) i by auto
  moreover have "t \<le> t'" using assms(3) i by (auto simp: q_slots_def)
  ultimately show thesis using that i assms(2) by (simp add: q_slots_def)
qed

lemma Pop_due_refines:
  assumes "queue_inv S ok nm q" and "q_slots S q t = Some j" and "t < now" and "\<forall>t'\<in>dom (q_slots S q). t \<le> t'"
  shows "fst (Pop S nm now q) = Some j" and "queue_inv S ok nm (snd (Pop S nm now q))"
    and "q_slots S (snd (Pop S nm now q)) = (q_slots S q)(t := None)"
proof -
  note q = queue_invD [OF assms(1)]
  from items_hd [OF assms(1,2,4)] obtain xs where i: "sl_Items S (q_list q) = (t, j) # xs" .
  let ?q = "q\<lparr>q_list := sl_Delete S t (q_list q), q_jobs := (q_jobs q)(nm j := None)\<rparr>"
  have pop: "Pop S nm now q = (Some j, ?q)" using i assms(3) by (simp add: Pop_def)
  have s: "q_slots S ?q = (q_slots S q)(t := None)" using skiplist_lawsD(8) [OF q(1,2)] by (simp add: q_slots_def)
  show "fst (Pop S nm now q) = Some j" and "q_slots S (snd (Pop S nm now q)) = (q_slots S q)(t := None)"
    using pop s by simp_all
  show "queue_inv S ok nm (snd (Pop S nm now q))"
    using q assms(2) skiplist_lawsD(7) [OF q(1,2)]
    by (auto simp: pop queue_inv_def s unique_names_delete unique_names_def split: if_splits)
qed

lemma Pop_none_refines:
  assumes "\<forall>t\<in>dom (q_slots S q). now \<le> t"
  shows "Pop S nm now q = (None, q)"
  using assms by (auto simp: Pop_def q_slots_def split: list.split)

lemma GetJobs_refines:
  assumes "queue_inv S ok nm q"
  shows "sorted (map jsi_nextScheduled (GetJobs S nm q))" and "distinct (map jsi_nextScheduled (GetJobs S nm q))"
    and "set (GetJobs S nm q) = {\<lparr>jsi_jobName = nm j, jsi_nextScheduled = t\<rparr> |t j. q_slots S q t = Some j}"
proof -
  note q = queue_invD [OF assms]
  note sd = skiplist_lawsD(3,4) [OF q(1,2)]
  have "map jsi_nextScheduled (GetJobs S nm q) = map fst (sl_Items S (q_list q))"
    by (auto simp: GetJobs_def get_jobs_loop_map)
  then show "sorted (map jsi_nextScheduled (GetJobs S nm q))" "distinct (map jsi_nextScheduled (GetJobs S nm q))"
    using sd by simp_all
  show "set (GetJobs S nm q) = {\<lparr>jsi_jobName = nm j, jsi_nextScheduled = t\<rparr> |t j. q_slots S q t = Some j}"
    using sd(2) by (force simp: GetJobs_def get_jobs_loop_map q_slots_def)
qed

interpretation sq: job_queue nm "AddJob S nm" "Pop S nm" "Remove S nm" "GetJobs S nm" "q_slots S" "queue_inv S ok nm"
  for S ok nm
proof
  fix q t now n j
  assume q: "queue_inv S ok nm q"
  show "finite (dom (q_slots S q))" by (simp add: q_slots_def finite_dom_map_of)
  show "unique_names nm (q_slots S q)" using queue_invD(3) [OF q] .
  show "queue_inv S ok nm (AddJob S nm t j q) \<and> q_slots S (AddJob S nm t j q) = (without nm (nm j) (q_slots S q))(t \<mapsto> j)"
    using AddJob_refines [OF q] by simp
  show "queue_inv S ok nm (snd (Remove S nm n q)) \<and> q_slots S (snd (Remove S nm n q)) = without nm n (q_slots S q) \<and>
    (fst (Remove S nm n q) \<longleftrightarrow> (\<exists>t j. q_slots S q t = Some j \<and> nm j = n))"
    using unsafeRemove_refines [OF q] by (simp add: Remove_def)
  show "Pop S nm now q = (None, q)" if "\<forall>t\<in>dom (q_slots S q). now \<le> t"
    using that by (rule Pop_none_refines)
  show "fst (Pop S nm now q) = Some j \<and> queue_inv S ok nm (snd (Pop S nm now q)) \<and>
      q_slots S (snd (Pop S nm now q)) = (q_slots S q)(t := None)"
    if "q_slots S q t = Some j" "t < now" "\<forall>t'\<in>dom (q_slots S q). t \<le> t'"
    using Pop_due_refines [OF q that] by simp
  show "sorted (map jsi_nextScheduled (GetJobs S nm q)) \<and> distinct (map jsi_nextScheduled (GetJobs S nm q)) \<and>
      set (GetJobs S nm q) = {\<lparr>jsi_jobName = nm j, jsi_nextScheduled = t\<rparr> |t j. q_slots S q t = Some j}"
    using GetJobs_refines [OF q] by simp
qed

subsection \<open>Properties of the queue\<close>

text \<open>The reference skip list of the witnesses: a list sorted by its keys.\<close>

fun ref_set :: "gtime \<Rightarrow> 'j \<Rightarrow> (gtime \<times> 'j) list \<Rightarrow> (gtime \<times> 'j) list" where
  "ref_set t j [] = [(t, j)]"
| "ref_set t j ((u, i) # l) = (if t < u then (t, j) # (u, i) # l else if t = u then (t, j) # l else (u, i) # ref_set t j l)"

definition ref_skiplist :: "((gtime \<times> 'j) list, 'j) skiplist" where
  "ref_skiplist = \<lparr>sl_New = [], sl_Items = (\<lambda>l. l), sl_Set = ref_set, sl_Delete = (\<lambda>t. filter (\<lambda>e. fst e \<noteq> t))\<rparr>"

definition ref_sorted :: "(gtime \<times> 'j) list \<Rightarrow> bool" where
  "ref_sorted l \<longleftrightarrow> sorted (map fst l) \<and> distinct (map fst l)"

lemma set_ref_set: "fst ` set (ref_set t j l) = insert t (fst ` set l)"
  by (induction t j l rule: ref_set.induct) auto

lemma ref_set_sorted: "ref_sorted l \<Longrightarrow> ref_sorted (ref_set t j l)"
proof (induction t j l rule: ref_set.induct)
  case (2 t j u i l)
  have "fst ` set (ref_set t j l) = insert t (fst ` set l)" by (rule set_ref_set)
  then have "\<forall>x\<in>set (ref_set t j l). fst x = t \<or> fst x \<in> fst ` set l" by auto
  moreover have "ref_sorted l" using 2(2) by (simp add: ref_sorted_def)
  ultimately show ?case using 2 by (force simp: ref_sorted_def)
qed (simp add: ref_sorted_def)

lemma map_of_ref_set: "ref_sorted l \<Longrightarrow> map_of (ref_set t j l) = (map_of l)(t \<mapsto> j)"
  by (induction t j l rule: ref_set.induct) (auto simp: ref_sorted_def fun_eq_iff)

lemma ref_skiplist_laws: "skiplist_laws ref_skiplist ref_sorted"
proof -
  have "ref_sorted (filter (\<lambda>e. fst e \<noteq> t) l)" if "ref_sorted l" for t and l :: "(gtime \<times> 'a) list"
    using that by (induction l) (auto simp: ref_sorted_def)
  moreover have "map_of (filter (\<lambda>e. fst e \<noteq> t) l) = (map_of l)(t := None)" for t and l :: "(gtime \<times> 'a) list"
    by (induction l) (auto simp: fun_eq_iff)
  ultimately show ?thesis
    by (auto simp: skiplist_laws_def ref_skiplist_def ref_set_sorted map_of_ref_set) (auto simp: ref_sorted_def sorted_timeLessThan)
qed

definition ex_queue :: "(gtime \<times> string) list scheduleQueue" where
  "ex_queue = AddJob ref_skiplist id 5 ''b'' (AddJob ref_skiplist id 3 ''a'' (newScheduleQueue ref_skiplist))"

lemma ex_queue_inv: "queue_inv ref_skiplist ref_sorted id ex_queue"
  unfolding ex_queue_def by (intro conjunct1 [OF sq.add] newScheduleQueue_inv ref_skiplist_laws)

lemma ex_queue_slots: "q_slots ref_skiplist ex_queue = [3 \<mapsto> ''a'', 5 \<mapsto> ''b'']"
proof -
  have q0: "queue_inv ref_skiplist ref_sorted id (newScheduleQueue ref_skiplist)"
    "q_slots ref_skiplist (newScheduleQueue ref_skiplist) = (Map.empty :: gtime \<rightharpoonup> string)"
    by (simp_all add: newScheduleQueue_inv [OF ref_skiplist_laws]) (simp add: q_slots_def newScheduleQueue_def ref_skiplist_def)
  from sq.add [OF q0(1), of 3 "''a''"] q0(2)
  have q1: "queue_inv ref_skiplist ref_sorted id (AddJob ref_skiplist id 3 ''a'' (newScheduleQueue ref_skiplist))"
    "q_slots ref_skiplist (AddJob ref_skiplist id 3 ''a'' (newScheduleQueue ref_skiplist)) = [3 \<mapsto> ''a'']"
    by (auto simp: without_def fun_eq_iff)
  from sq.add [OF q1(1), of 5 "''b''"] q1(2) show ?thesis by (auto simp: ex_queue_def without_def fun_eq_iff)
qed

text \<open>C17.  \<open>AddJob\<close> schedules a job exactly once: afterwards the job has the one start it was given,
  a previous start of the same job is gone, and every other job keeps its start, unless that was the
  same instant.\<close>

theorem AddJob_reschedules:
  assumes "queue_inv S ok nm q"
  shows "queue_inv S ok nm (AddJob S nm t j q) \<and>
    (\<forall>e. e \<in> set (GetJobs S nm (AddJob S nm t j q)) \<longleftrightarrow>
       e = \<lparr>jsi_jobName = nm j, jsi_nextScheduled = t\<rparr> \<or>
       e \<in> set (GetJobs S nm q) \<and> jsi_jobName e \<noteq> nm j \<and> jsi_nextScheduled e \<noteq> t)"
proof -
  from sq.add [OF assms, of t j] have inv: "queue_inv S ok nm (AddJob S nm t j q)"
    and s: "q_slots S (AddJob S nm t j q) = (without nm (nm j) (q_slots S q))(t \<mapsto> j)" by simp_all
  from GetJobs_refines(3) [OF inv] GetJobs_refines(3) [OF assms] inv show ?thesis
    unfolding s by (auto simp: without_apply split: if_splits)
qed

theorem AddJob_reschedules_witness:
  "queue_inv ref_skiplist ref_sorted id (AddJob ref_skiplist id 9 ''a'' ex_queue) \<and>
   (\<forall>e. e \<in> set (GetJobs ref_skiplist id (AddJob ref_skiplist id 9 ''a'' ex_queue)) \<longleftrightarrow>
      e = \<lparr>jsi_jobName = ''a'', jsi_nextScheduled = 9\<rparr> \<or>
      e \<in> set (GetJobs ref_skiplist id ex_queue) \<and> jsi_jobName e \<noteq> ''a'' \<and> jsi_nextScheduled e \<noteq> 9)"
  using AddJob_reschedules [OF ex_queue_inv, of 9 "''a''"] by simp

text \<open>C18.  Jobs start in the order of their schedule: once all scheduled jobs are due, popping as often
  as there are jobs returns each of them once, in the order of \<open>GetJobs\<close>, which is the order of
  their starts, and leaves the queue empty.\<close>

theorem Pop_in_schedule_order:
  assumes "queue_inv S ok nm q" and "\<forall>t\<in>dom (q_slots S q). t < now"
  shows "sorted (map jsi_nextScheduled (GetJobs S nm q)) \<and>
    map nm (fst (pop_times (length (GetJobs S nm q)) (Pop S nm now) q)) = map jsi_jobName (GetJobs S nm q) \<and>
    GetJobs S nm (snd (pop_times (length (GetJobs S nm q)) (Pop S nm now) q)) = []"
proof -
  note q = queue_invD [OF assms(1)]
  have "dom (q_slots S q) = set (map fst (sl_Items S (q_list q)))" by (simp add: q_slots_def dom_map_of_conv_image_fst)
  then have "card (dom (q_slots S q)) = length (map fst (sl_Items S (q_list q)))"
    using skiplist_lawsD(4) [OF q(1,2)] by (metis distinct_card)
  then have n: "card (dom (q_slots S q)) = length (GetJobs S nm q)"
    by (simp add: GetJobs_def get_jobs_loop_map)
  from sq.drain [OF assms n] GetJobs_refines(1) [OF assms(1)] show ?thesis
    by (auto simp: GetJobs_def get_jobs_loop_map q_slots_def)
qed

theorem Pop_in_schedule_order_witness:
  "fst (pop_times (length (GetJobs ref_skiplist id ex_queue)) (Pop ref_skiplist id 8) ex_queue) = [''a'', ''b'']"
proof -
  have "GetJobs ref_skiplist id ex_queue = [\<lparr>jsi_jobName = ''a'', jsi_nextScheduled = 3\<rparr>, \<lparr>jsi_jobName = ''b'', jsi_nextScheduled = 5\<rparr>]"
    by (simp add: GetJobs_def ex_queue_def AddJob_def Let_def ref_skiplist_def newScheduleQueue_def)
  then show ?thesis
    using Pop_in_schedule_order [OF ex_queue_inv, of 8] ex_queue_slots by (simp split: if_splits)
qed

text \<open>\<open>Pop\<close> never starts a job early and never takes one out silently: it returns nothing and
  changes nothing exactly when no job is due, and otherwise returns the earliest job, which was due, and
  removes only that one.\<close>

theorem Pop_only_due:
  assumes "queue_inv S ok nm q"
  shows "(case Pop S nm now q of
      (None, q') \<Rightarrow> q' = q \<and> (\<forall>t\<in>dom (q_slots S q). now \<le> t)
    | (Some j, q') \<Rightarrow> \<exists>t. q_slots S q t = Some j \<and> t < now \<and> (\<forall>t'\<in>dom (q_slots S q). t \<le> t') \<and>
        queue_inv S ok nm q' \<and> q_slots S q' = (q_slots S q)(t := None))"
  using sq.pop_step [OF assms, of now] by (cases "Pop S nm now q") auto

theorem Pop_only_due_witness:
  "\<exists>q'. Pop ref_skiplist id 4 ex_queue = (Some ''a'', q') \<and> q_slots ref_skiplist q' = [5 \<mapsto> ''b'']"
proof -
  have p: "fst (Pop ref_skiplist id 4 ex_queue) = Some ''a''"
    by (simp add: Pop_def ex_queue_def AddJob_def Let_def ref_skiplist_def newScheduleQueue_def)
  with Pop_only_due [OF ex_queue_inv, of 4] show ?thesis
    by (cases "Pop ref_skiplist id 4 ex_queue") (auto simp: ex_queue_slots fun_eq_iff split: if_splits)
qed

text \<open>Two jobs given the same instant: the second replaces the first, which is then in no slot of
  the queue (it will never be popped) although its name is still marked as scheduled.\<close>

theorem AddJob_same_instant_drops:
  assumes "queue_inv S ok nm q" and "nm i \<noteq> nm j"
  shows "let q' = AddJob S nm t j (AddJob S nm t i q) in
    (\<forall>e\<in>set (GetJobs S nm q'). jsi_jobName e \<noteq> nm i) \<and> q_jobs q' (nm i) = Some True"
proof -
  let ?q1 = "AddJob S nm t i q" and ?q2 = "AddJob S nm t j (AddJob S nm t i q)"
  from sq.add [OF assms(1), of t i] have q1: "queue_inv S ok nm ?q1"
    "q_slots S ?q1 = (without nm (nm i) (q_slots S q))(t \<mapsto> i)" by simp_all
  from sq.add [OF q1(1), of t j] have q2: "queue_inv S ok nm ?q2"
    "q_slots S ?q2 = (without nm (nm j) (q_slots S ?q1))(t \<mapsto> j)" by simp_all
  have "nm k \<noteq> nm i" if "q_slots S ?q2 u = Some k" for u k
    using that assms(2) unfolding q2(2) q1(2) by (auto simp: without_apply split: if_splits)
  then have "\<forall>e\<in>set (GetJobs S nm ?q2). jsi_jobName e \<noteq> nm i"
    unfolding GetJobs_refines(3) [OF q2(1)] by fastforce
  moreover have "q_jobs ?q1 (nm i) = Some True" by (simp add: AddJob_def Let_def)
  then have "q_jobs ?q2 (nm i) = Some True" using assms(2) by (simp add: q_jobs_AddJob)
  ultimately show ?thesis by simp
qed

theorem AddJob_same_instant_drops_witness:
  "let q' = AddJob ref_skiplist id 7 ''c'' (AddJob ref_skiplist id 7 ''d'' ex_queue) in
    (\<forall>e\<in>set (GetJobs ref_skiplist id q'). jsi_jobName e \<noteq> ''d'') \<and> q_jobs q' ''d'' = Some True"
  using AddJob_same_instant_drops [OF ex_queue_inv, of "''d''" "''c''" 7] by simp

end
