(* ===== verification/Config_Diff.thy ===== *)
theory Config_Diff
  imports Worker_Config "HOL-Library.Multiset"
begin

section \<open>Differences of configurations (worker/config_diff.go)\<close>

text \<open>
  The difference that drives the hot reload of a worker: \<open>diffMirrorConfig\<close> sorts both lists by name,
  appends a sentinel whose name should be greater than all others and walks the two lists.
  \<open>sort.Sort\<close> with \<open>sortableMirrorList\<close> is \<open>sort_key mc_Name\<close>, strings compare byte by byte
  (\<open>HOL-Library.List_Lexorder\<close> over \<open>Char_ord\<close>); \<open>reflect.DeepEqual\<close> on these structs is
  equality.  The explicit \<open>panic\<close> is the result \<open>None\<close>.  The walk is proved equal to a reference
  difference without sentinel, which is then characterised.
\<close>

datatype diffOp = diffDelete | diffAdd | diffModify

record mirrorCfgTrans =
  diffOp :: diffOp
  mirCfg :: mirrorConfig

definition mirrorCfgTrans_String :: "mirrorCfgTrans \<Rightarrow> string" where
  "mirrorCfgTrans_String t =
     (let op = (if diffOp t = diffDelete then ''Del'' else ''Add'') in
      ''{'' @ op @ '', '' @ mc_Name (mirCfg t) @ ''}'')"

definition sort_mirrors :: "mirrorConfig list \<Rightarrow> mirrorConfig list" where
  "sort_mirrors l = sort_key mc_Name l"

fun diff_loop :: "mirrorConfig list \<Rightarrow> mirrorConfig list \<Rightarrow> mirrorCfgTrans list \<Rightarrow> mirrorCfgTrans list" where
  "diff_loop (old # os) (new # ns) operations =
     (if mc_Name new < mc_Name old
      then diff_loop (old # os) ns (operations @ [\<lparr>diffOp = diffAdd, mirCfg = new\<rparr>])
      else if mc_Name old < mc_Name new
      then diff_loop os (new # ns) (operations @ [\<lparr>diffOp = diffDelete, mirCfg = old\<rparr>])
      else diff_loop os ns (if old \<noteq> new then operations @ [\<lparr>diffOp = diffModify, mirCfg = new\<rparr>] else operations))"
| "diff_loop _ _ operations = operations"

definition diffMirrorConfig :: "mirrorConfig list \<Rightarrow> mirrorConfig list \<Rightarrow> mirrorCfgTrans list option" where
  "diffMirrorConfig oldList newList =
     (let oList = sort_mirrors oldList; nList = sort_mirrors newList in
      if length oList \<noteq> 0 \<and> length nList \<noteq> 0 then
        (let lastOld = last oList; lastNew = last nList;
             maxName = (if mc_Name lastNew > mc_Name lastOld then mc_Name lastNew else mc_Name lastOld);
             nil_conf = zero_mirrorConfig\<lparr>mc_Name := ''~'' @ maxName\<rparr>
         in if mc_Name nil_conf \<le> maxName then None
            else Some (diff_loop (oList @ [nil_conf]) (nList @ [nil_conf]) []))
      else Some (map (\<lambda>c. \<lparr>diffOp = diffDelete, mirCfg = c\<rparr>) oList @ map (\<lambda>c. \<lparr>diffOp = diffAdd, mirCfg = c\<rparr>) nList))"

subsection \<open>The reference difference\<close>

abbreviation Del :: "mirrorConfig \<Rightarrow> mirrorCfgTrans" where "Del c \<equiv> \<lparr>diffOp = diffDelete, mirCfg = c\<rparr>"
abbreviation Add :: "mirrorConfig \<Rightarrow> mirrorCfgTrans" where "Add c \<equiv> \<lparr>diffOp = diffAdd, mirCfg = c\<rparr>"
abbreviation Mod :: "mirrorConfig \<Rightarrow> mirrorCfgTrans" where "Mod c \<equiv> \<lparr>diffOp = diffModify, mirCfg = c\<rparr>"

fun diff_ref :: "mirrorConfig list \<Rightarrow> mirrorConfig list \<Rightarrow> mirrorCfgTrans list" where
  "diff_ref [] ns = map Add ns"
| "diff_ref os [] = map Del os"
| "diff_ref (old # os) (new # ns) =
     (if mc_Name new < mc_Name old then Add new # diff_ref (old # os) ns
      else if mc_Name old < mc_Name new then Del old # diff_ref os (new # ns)
      else (if old \<noteq> new then [Mod new] else []) @ diff_ref os ns)"


lemma diff_loop_sentinel:
  assumes "\<forall>c\<in>set os \<union> set ns. mc_Name c < mc_Name N"
  shows "diff_loop (os @ [N]) (ns @ [N]) ops = ops @ diff_ref os ns"
  using assms
proof (induction os ns arbitrary: ops rule: diff_ref.induct)
  case (1 ns)
  then show ?case
  proof (induction ns arbitrary: ops)
    case (Cons n ns)
    then show ?case by simp
  qed simp
next
  case (2 v va)
  then have "diff_loop (os @ [N]) [N] ops = ops @ map Del os" if "set os \<subseteq> set (v # va)" for os ops
    using that by (induction os arbitrary: ops) (auto dest: less_asym)
  from this [of "v # va"] show ?case by simp
next
  case (3 old os new ns)
  then show ?case by auto
qed

definition names :: "mirrorConfig list \<Rightarrow> string list" where
  "names l = map mc_Name l"

definition trans_names :: "mirrorCfgTrans list \<Rightarrow> string list" where
  "trans_names ops = map (\<lambda>t. mc_Name (mirCfg t)) ops"

text \<open>Which operation belongs in the difference of two sets of configurations.\<close>

definition diff_member :: "mirrorConfig set \<Rightarrow> mirrorConfig set \<Rightarrow> mirrorCfgTrans \<Rightarrow> bool" where
  "diff_member os ns t =
     (case diffOp t of
        diffDelete \<Rightarrow> mirCfg t \<in> os \<and> mc_Name (mirCfg t) \<notin> mc_Name ` ns
      | diffAdd \<Rightarrow> mirCfg t \<in> ns \<and> mc_Name (mirCfg t) \<notin> mc_Name ` os
      | diffModify \<Rightarrow> mirCfg t \<in> ns \<and> (\<exists>c\<in>os. mc_Name c = mc_Name (mirCfg t) \<and> c \<noteq> mirCfg t))"

lemma trans_eq_iff: "t = \<lparr>diffOp = d, mirCfg = c\<rparr> \<longleftrightarrow> diffOp t = d \<and> mirCfg t = c"
  by (cases t) auto

lemma diff_member_simps:
  "diff_member {} ns t \<longleftrightarrow> diffOp t = diffAdd \<and> mirCfg t \<in> ns"
  "diff_member os {} t \<longleftrightarrow> diffOp t = diffDelete \<and> mirCfg t \<in> os"
  by (auto simp: diff_member_def split: diffOp.splits)

lemma diff_member_Add:
  assumes "mc_Name new \<notin> mc_Name ` os" and "mc_Name new \<notin> mc_Name ` ns"
  shows "diff_member os (insert new ns) t \<longleftrightarrow> t = Add new \<or> diff_member os ns t"
  using assms by (auto simp: diff_member_def trans_eq_iff image_iff split: diffOp.splits)

lemma diff_member_Del:
  assumes "mc_Name old \<notin> mc_Name ` os" and "mc_Name old \<notin> mc_Name ` ns"
  shows "diff_member (insert old os) ns t \<longleftrightarrow> t = Del old \<or> diff_member os ns t"
  using assms by (auto simp: diff_member_def trans_eq_iff image_iff split: diffOp.splits)

lemma diff_member_Mod:
  assumes "mc_Name old \<notin> mc_Name ` os" and "mc_Name old \<notin> mc_Name ` ns" and "mc_Name old = mc_Name new"
  shows "diff_member (insert old os) (insert new ns) t \<longleftrightarrow> (old \<noteq> new \<and> t = Mod new) \<or> diff_member os ns t"
  using assms by (auto simp: diff_member_def trans_eq_iff image_iff split: diffOp.splits)

lemma diff_ref_exact:
  assumes "sorted_wrt (<) (names os)" and "sorted_wrt (<) (names ns)"
  shows "t \<in> set (diff_ref os ns) \<longleftrightarrow> diff_member (set os) (set ns) t"
  using assms
proof (induction os ns rule: diff_ref.induct)
  case (1 ns)
  then show ?case by (auto simp: diff_member_simps trans_eq_iff)
next
  case (2 v va)
  then show ?case by (auto simp: diff_member_simps trans_eq_iff)
next
  case (3 old os new ns)
  consider "mc_Name new < mc_Name old" | "mc_Name old < mc_Name new" | "mc_Name old = mc_Name new" by fastforce
  then show ?case
  proof cases
    case 1
    with 3 have "mc_Name new \<notin> mc_Name ` set (old # os)" "mc_Name new \<notin> mc_Name ` set ns"
      by (auto simp: names_def)
    from diff_member_Add [OF this] 1 3 show ?thesis by (simp add: names_def)
  next
    case 2
    with 3 have "mc_Name old \<notin> mc_Name ` set os" "mc_Name old \<notin> mc_Name ` set (new # ns)"
      by (auto simp: names_def)
    from diff_member_Del [OF this] 2 3 show ?thesis by (simp add: names_def less_asym)
  next
    case 3: 3
    with "3.prems" have "mc_Name old \<notin> mc_Name ` set os" "mc_Name old \<notin> mc_Name ` set ns"
      by (auto simp: names_def)
    from diff_member_Mod [OF this 3] 3 "3.IH"(3) "3.prems" show ?thesis by (auto simp: names_def)
  qed
qed

lemma diff_ref_mem: "t \<in> set (diff_ref os ns) \<Longrightarrow> mirCfg t \<in> set os \<union> set ns"
  by (induction os ns rule: diff_ref.induct) (auto split: if_splits)

lemma diff_ref_above:
  assumes "t \<in> set (diff_ref os ns)" and "\<forall>c\<in>set os. x < mc_Name c" and "\<forall>c\<in>set ns. x < mc_Name c"
  shows "x < mc_Name (mirCfg t)"
  using diff_ref_mem [OF assms(1)] assms(2,3) by blast

lemma diff_ref_sorted:
  assumes "sorted_wrt (<) (names os)" and "sorted_wrt (<) (names ns)"
  shows "sorted_wrt (<) (trans_names (diff_ref os ns))"
  using assms
proof (induction os ns rule: diff_ref.induct)
  case (3 old os new ns)
  from "3.prems" have os: "\<forall>c\<in>set os. mc_Name old < mc_Name c" and ns: "\<forall>c\<in>set ns. mc_Name new < mc_Name c"
    by (auto simp: names_def)
  consider "mc_Name new < mc_Name old" | "mc_Name old < mc_Name new" | "mc_Name old = mc_Name new" by fastforce
  then show ?case
  proof cases
    case 1
    then have "\<forall>c\<in>set (old # os). mc_Name new < mc_Name c" using os by (auto dest: less_trans)
    then have "\<forall>t\<in>set (diff_ref (old # os) ns). mc_Name new < mc_Name (mirCfg t)" using ns diff_ref_above by blast
    with 1 3 show ?thesis by (simp add: names_def trans_names_def)
  next
    case 2
    then have "\<forall>c\<in>set (new # ns). mc_Name old < mc_Name c" using ns by (auto dest: less_trans)
    then have "\<forall>t\<in>set (diff_ref os (new # ns)). mc_Name old < mc_Name (mirCfg t)" using os diff_ref_above by blast
    with 2 3 show ?thesis by (simp add: names_def trans_names_def less_asym)
  next
    case eq: 3
    then have "\<forall>t\<in>set (diff_ref os ns). mc_Name new < mc_Name (mirCfg t)" using os ns diff_ref_above by auto
    with eq 3 show ?thesis by (simp add: names_def trans_names_def)
  qed
qed (simp_all add: names_def trans_names_def comp_def)

subsection \<open>The sorted lists and the sentinel\<close>

lemma set_sort_mirrors [simp]: "set (sort_mirrors l) = set l"
  by (simp add: sort_mirrors_def)

lemma sort_mirrors_Nil [simp]: "sort_mirrors l = [] \<longleftrightarrow> l = []"
  by (metis set_sort_mirrors set_empty)

lemma sort_mirrors_of_Nil [simp]: "sort_mirrors [] = []"
  by (simp only: sort_mirrors_Nil)

lemma names_sort_mirrors: "names (sort_mirrors l) = sort (names l)"
  unfolding names_def sort_mirrors_def by (rule properties_for_sort [symmetric]) simp_all

lemma sort_mirrors_strict: "distinct (names l) \<Longrightarrow> sorted_wrt (<) (names (sort_mirrors l))"
  by (simp add: names_sort_mirrors strict_sorted_iff)

text \<open>With distinct names every sorting by name gives the same list.\<close>

lemma sort_mirrors_unique:
  assumes "distinct (names l)" and "mset l' = mset l" and "sorted (names l')"
  shows "l' = sort_mirrors l"
proof -
  have "set l' = set l" using assms(2) by (metis set_mset_mset)
  moreover have "distinct (names l')" using assms(1,2) by (simp add: names_def distinct_map) (metis mset_eq_setD mset_eq_imp_distinct_iff)
  moreover have "sorted (names (sort_mirrors l))" "distinct (names (sort_mirrors l))"
    using assms(1) by (simp_all add: names_sort_mirrors)
  ultimately show ?thesis using assms(1,3)
    by (intro map_sorted_distinct_set_unique [of mc_Name]) (auto simp: names_def distinct_map)
qed

lemma last_sort_mirrors: "c \<in> set l \<Longrightarrow> mc_Name c \<le> mc_Name (last (sort_mirrors l))"
proof -
  assume "c \<in> set l"
  then obtain i where i: "i < length (sort_mirrors l)" "sort_mirrors l ! i = c" by (metis in_set_conv_nth set_sort_mirrors)
  have "sorted (map mc_Name (sort_mirrors l))" by (simp add: sort_mirrors_def)
  with i have "map mc_Name (sort_mirrors l) ! i \<le> map mc_Name (sort_mirrors l) ! (length (sort_mirrors l) - 1)"
    by (intro sorted_nth_mono) auto
  with i show ?thesis by (metis One_nat_def diff_less last_conv_nth length_0_conv length_greater_0_conv less_nat_zero_code
      nth_map zero_less_one)
qed

text \<open>The greatest name of the two lists.\<close>

definition max_name :: "mirrorConfig list \<Rightarrow> mirrorConfig list \<Rightarrow> string" where
  "max_name os ns = max (mc_Name (last (sort_mirrors os))) (mc_Name (last (sort_mirrors ns)))"

lemma max_name_ge: "c \<in> set os \<union> set ns \<Longrightarrow> mc_Name c \<le> max_name os ns"
  unfolding max_name_def using last_sort_mirrors by (metis UnE max.coboundedI1 max.coboundedI2)

lemma max_name_in: "os \<noteq> [] \<Longrightarrow> ns \<noteq> [] \<Longrightarrow> max_name os ns \<in> mc_Name ` (set os \<union> set ns)"
  unfolding max_name_def max_def
  by (metis (full_types) UnCI image_eqI last_in_set set_sort_mirrors sort_mirrors_Nil)

lemma diffMirrorConfig_ref:
  "diffMirrorConfig os ns =
     (if os \<noteq> [] \<and> ns \<noteq> [] \<and> ''~'' @ max_name os ns \<le> max_name os ns then None
      else Some (diff_ref (sort_mirrors os) (sort_mirrors ns)))"
proof (cases "os \<noteq> [] \<and> ns \<noteq> []")
  case True
  have m: "(if mc_Name (last (sort_mirrors ns)) > mc_Name (last (sort_mirrors os)) then mc_Name (last (sort_mirrors ns))
      else mc_Name (last (sort_mirrors os))) = max_name os ns"
    by (auto simp: max_name_def max_def)
  let ?N = "zero_mirrorConfig\<lparr>mc_Name := ''~'' @ max_name os ns\<rparr>"
  have "diff_loop (sort_mirrors os @ [?N]) (sort_mirrors ns @ [?N]) [] = diff_ref (sort_mirrors os) (sort_mirrors ns)"
    if "\<not> ''~'' @ max_name os ns \<le> max_name os ns"
  proof -
    have "\<forall>c\<in>set (sort_mirrors os) \<union> set (sort_mirrors ns). mc_Name c < mc_Name ?N"
      using that max_name_ge [of _ os ns] by (fastforce simp: not_le intro: le_less_trans)
    from diff_loop_sentinel [OF this, of "[]"] show ?thesis by simp
  qed
  with True show ?thesis by (simp add: diffMirrorConfig_def Let_def m)
next
  case False
  then have none: "\<not> (length (sort_mirrors os) \<noteq> 0 \<and> length (sort_mirrors ns) \<noteq> 0)" by auto
  have "diff_ref l [] = map Del l" for l by (cases l) simp_all
  then have "diff_ref (sort_mirrors os) (sort_mirrors ns) = map Del (sort_mirrors os) @ map Add (sort_mirrors ns)"
    using False by auto
  with False none show ?thesis unfolding diffMirrorConfig_def Let_def by (simp only: if_False) auto
qed

lemma diffMirrorConfig_Some:
  assumes "distinct (names os)" and "distinct (names ns)" and "diffMirrorConfig os ns = Some ops"
  shows "sorted_wrt (<) (trans_names ops)" and "t \<in> set ops \<longleftrightarrow> diff_member (set os) (set ns) t"
proof -
  from assms(3) have ops: "ops = diff_ref (sort_mirrors os) (sort_mirrors ns)"
    by (simp add: diffMirrorConfig_ref split: if_splits)
  note so = sort_mirrors_strict [OF assms(1)] and sn = sort_mirrors_strict [OF assms(2)]
  show "sorted_wrt (<) (trans_names ops)" using diff_ref_sorted [OF so sn] ops by simp
  show "t \<in> set ops \<longleftrightarrow> diff_member (set os) (set ns) t" using diff_ref_exact [OF so sn] ops by simp
qed

subsection \<open>Applying a difference\<close>

text \<open>What the worker does with an operation, on the map from names to configurations.\<close>

definition apply_trans :: "mirrorCfgTrans \<Rightarrow> (string \<rightharpoonup> mirrorConfig) \<Rightarrow> string \<rightharpoonup> mirrorConfig" where
  "apply_trans t m = (if diffOp t = diffDelete then m(mc_Name (mirCfg t) := None) else m(mc_Name (mirCfg t) \<mapsto> mirCfg t))"

definition conf_map :: "mirrorConfig list \<Rightarrow> string \<rightharpoonup> mirrorConfig" where
  "conf_map l = map_of (map (\<lambda>c. (mc_Name c, c)) l)"

lemma conf_map_Some: "distinct (names l) \<Longrightarrow> conf_map l k = Some c \<longleftrightarrow> c \<in> set l \<and> mc_Name c = k"
  by (auto simp: conf_map_def names_def comp_def image_iff dest: map_of_SomeD)

lemma conf_map_None: "conf_map l k = None \<longleftrightarrow> k \<notin> mc_Name ` set l"
  by (force simp: conf_map_def map_of_eq_None_iff)

lemma apply_trans_same: "apply_trans t m (mc_Name (mirCfg t)) = (if diffOp t = diffDelete then None else Some (mirCfg t))"
  by (simp add: apply_trans_def)

lemma fold_apply_trans_other: "k \<notin> set (trans_names ops) \<Longrightarrow> fold apply_trans ops m k = m k"
  by (induction ops arbitrary: m) (auto simp: trans_names_def apply_trans_def)

lemma fold_apply_trans:
  assumes "distinct (trans_names ops)" and "t \<in> set ops"
  shows "fold apply_trans ops m (mc_Name (mirCfg t)) = (if diffOp t = diffDelete then None else Some (mirCfg t))"
  using assms
proof (induction ops arbitrary: m)
  case (Cons u ops)
  then have "mc_Name (mirCfg u) \<notin> set (trans_names ops)" "distinct (trans_names ops)" by (auto simp: trans_names_def)
  with Cons fold_apply_trans_other [of _ ops] show ?case by (auto simp: apply_trans_same)
qed simp

subsection \<open>Properties of the difference\<close>

text \<open>C16.  A reload reaches the new configuration: for lists without repeated names, applying the
  operations of \<open>diffMirrorConfig\<close> in order to the old mirrors gives exactly the new mirrors.\<close>

theorem diffMirrorConfig_apply:
  assumes "distinct (names oldList)" and "distinct (names newList)" and "diffMirrorConfig oldList newList = Some ops"
  shows "fold apply_trans ops (conf_map oldList) = conf_map newList"
proof
  fix k
  note mem = diffMirrorConfig_Some(2) [OF assms]
  have d: "distinct (trans_names ops)" using diffMirrorConfig_Some(1) [OF assms] by (simp add: strict_sorted_iff)
  show "fold apply_trans ops (conf_map oldList) k = conf_map newList k"
  proof (cases "k \<in> set (trans_names ops)")
    case True
    then obtain t where t: "t \<in> set ops" "k = mc_Name (mirCfg t)" by (auto simp: trans_names_def)
    with mem have "diff_member (set oldList) (set newList) t" by simp
    then have "conf_map newList k = (if diffOp t = diffDelete then None else Some (mirCfg t))"
      using t(2) assms(2) by (auto simp: diff_member_def conf_map_Some conf_map_None split: diffOp.splits)
    with fold_apply_trans [OF d t(1)] t(2) show ?thesis by simp
  next
    case False
    then have "\<not> diff_member (set oldList) (set newList) t" if "mc_Name (mirCfg t) = k" for t
      using mem that by (auto simp: trans_names_def)
    then have none: "\<not> diff_member (set oldList) (set newList) \<lparr>diffOp = d, mirCfg = c\<rparr>" if "mc_Name c = k" for d c
      using that by simp
    have old: "c \<in> set newList" if "c \<in> set oldList" "mc_Name c = k" for c
    proof -
      from none [of c diffDelete] that obtain c' where "c' \<in> set newList" "mc_Name c' = k"
        by (auto simp: diff_member_def)
      with none [of c' diffModify] that show ?thesis by (auto simp: diff_member_def)
    qed
    have new: "c \<in> set oldList" if "c \<in> set newList" "mc_Name c = k" for c
    proof -
      from none [of c diffAdd] that obtain c' where "c' \<in> set oldList" "mc_Name c' = k"
        by (auto simp: diff_member_def)
      with none [of c diffModify] that show ?thesis by (auto simp: diff_member_def)
    qed
    have "conf_map oldList k = Some c \<longleftrightarrow> conf_map newList k = Some c" for c
      using old new by (auto simp: conf_map_Some [OF assms(1)] conf_map_Some [OF assms(2)])
    then have "conf_map oldList k = conf_map newList k" by (metis option.exhaust)
    with fold_apply_trans_other [OF False] show ?thesis by simp
  qed
qed

definition ex_old :: "mirrorConfig list" where
  "ex_old = [zero_mirrorConfig\<lparr>mc_Name := ''b''\<rparr>, zero_mirrorConfig\<lparr>mc_Name := ''a''\<rparr>]"

definition ex_new :: "mirrorConfig list" where
  "ex_new = [zero_mirrorConfig\<lparr>mc_Name := ''c''\<rparr>, zero_mirrorConfig\<lparr>mc_Name := ''a'', mc_Interval := 9\<rparr>]"

lemma ex_diff: "diffMirrorConfig ex_old ex_new = Some [\<lparr>diffOp = diffModify, mirCfg = zero_mirrorConfig\<lparr>mc_Name := ''a'', mc_Interval := 9\<rparr>\<rparr>,
    \<lparr>diffOp = diffDelete, mirCfg = zero_mirrorConfig\<lparr>mc_Name := ''b''\<rparr>\<rparr>, \<lparr>diffOp = diffAdd, mirCfg = zero_mirrorConfig\<lparr>mc_Name := ''c''\<rparr>\<rparr>]"
  by (simp add: diffMirrorConfig_def ex_old_def ex_new_def sort_mirrors_def Let_def less_char_def)
     (simp add: zero_mirrorConfig_def)

lemma ex_distinct: "distinct (names ex_old)" "distinct (names ex_new)"
  by (simp_all add: names_def ex_old_def ex_new_def)

theorem diffMirrorConfig_apply_witness:
  "fold apply_trans (the (diffMirrorConfig ex_old ex_new)) (conf_map ex_old) = conf_map ex_new"
  using diffMirrorConfig_apply [OF ex_distinct ex_diff] by (simp add: ex_diff)

text \<open>The difference is minimal and ordered: every mirror is named at most once, in the order of the
  names; a deletion is exactly an old mirror whose name is gone, an addition exactly a new mirror whose
  name is new, a modification exactly a new mirror whose old configuration differs.  In particular an
  unchanged mirror is left alone.\<close>

theorem diffMirrorConfig_minimal:
  assumes "distinct (names oldList)" and "distinct (names newList)" and "diffMirrorConfig oldList newList = Some ops"
  shows "sorted_wrt (<) (map (\<lambda>t. mc_Name (mirCfg t)) ops) \<and>
    (\<forall>c. \<lparr>diffOp = diffDelete, mirCfg = c\<rparr> \<in> set ops \<longleftrightarrow> c \<in> set oldList \<and> mc_Name c \<notin> mc_Name ` set newList) \<and>
    (\<forall>c. \<lparr>diffOp = diffAdd, mirCfg = c\<rparr> \<in> set ops \<longleftrightarrow> c \<in> set newList \<and> mc_Name c \<notin> mc_Name ` set oldList) \<and>
    (\<forall>c. \<lparr>diffOp = diffModify, mirCfg = c\<rparr> \<in> set ops \<longleftrightarrow>
       c \<in> set newList \<and> (\<exists>c'\<in>set oldList. mc_Name c' = mc_Name c \<and> c' \<noteq> c))"
  using diffMirrorConfig_Some [OF assms] by (simp add: trans_names_def diff_member_def)

theorem diffMirrorConfig_minimal_witness:
  "sorted_wrt (<) (map (\<lambda>t. mc_Name (mirCfg t)) (the (diffMirrorConfig ex_old ex_new)))"
  using diffMirrorConfig_minimal [OF ex_distinct ex_diff] by (simp add: ex_diff)

lemma tilde_greater: "\<forall>x\<in>set m. x \<le> CHR ''~'' \<Longrightarrow> m < CHR ''~'' # m"
  by (induction m) auto

lemma diffMirrorConfig_ascii:
  assumes "oldList \<noteq> []" and "newList \<noteq> []" and "\<forall>n\<in>set (names oldList) \<union> set (names newList). \<forall>x\<in>set n. x \<le> CHR ''~''"
  shows "diffMirrorConfig oldList newList \<noteq> None"
proof -
  have "max_name oldList newList \<in> set (names oldList) \<union> set (names newList)"
    using max_name_in [OF assms(1,2)] by (simp add: names_def image_Un)
  with assms(3) have "\<forall>x\<in>set (max_name oldList newList). x \<le> CHR ''~''" by (rule bspec)
  from tilde_greater [OF this] show ?thesis by (simp add: diffMirrorConfig_ref not_le)
qed

lemma tilde_not_greater: "CHR ''~'' < x \<Longrightarrow> x # xs \<le> m \<Longrightarrow> CHR ''~'' # m \<le> m"
  by (cases m) auto

text \<open>When the difference panics: a reload between two non-empty configurations succeeds if the
  names consist of characters up to the tilde, as ASCII names do, and panics if some name starts with a
  byte above the tilde, as every name with a non-ASCII first letter does.\<close>

theorem diffMirrorConfig_panics:
  assumes "oldList \<noteq> []" and "newList \<noteq> []"
  shows "((\<forall>c\<in>set oldList \<union> set newList. \<forall>x\<in>set (mc_Name c). x \<le> CHR ''~'') \<longrightarrow> diffMirrorConfig oldList newList \<noteq> None) \<and>
    ((\<exists>c\<in>set oldList \<union> set newList. \<exists>x xs. mc_Name c = x # xs \<and> CHR ''~'' < x) \<longrightarrow> diffMirrorConfig oldList newList = None)"
proof (intro conjI impI)
  assume "\<forall>c\<in>set oldList \<union> set newList. \<forall>x\<in>set (mc_Name c). x \<le> CHR ''~''"
  then show "diffMirrorConfig oldList newList \<noteq> None" by (intro diffMirrorConfig_ascii assms) (auto simp: names_def)
next
  let ?m = "max_name oldList newList"
  assume "\<exists>c\<in>set oldList \<union> set newList. \<exists>x xs. mc_Name c = x # xs \<and> CHR ''~'' < x"
  then obtain c x xs where c: "c \<in> set oldList \<union> set newList" "mc_Name c = x # xs" "CHR ''~'' < x" by blast
  from tilde_not_greater [OF c(3)] max_name_ge [OF c(1)] c(2) have "CHR ''~'' # ?m \<le> ?m" by simp
  with assms show "diffMirrorConfig oldList newList = None" by (simp add: diffMirrorConfig_ref)
qed

theorem diffMirrorConfig_panics_witness:
  "diffMirrorConfig ex_old [zero_mirrorConfig\<lparr>mc_Name := [CHR 0xE6, CHR 0xB8, CHR 0x85]\<rparr>] = None"
  using diffMirrorConfig_panics [of ex_old "[zero_mirrorConfig\<lparr>mc_Name := [CHR 0xE6, CHR 0xB8, CHR 0x85]\<rparr>]"]
  by (simp add: ex_old_def less_char_def)

end
