(* ===== verification/Job_Control.thy ===== *)
theory Job_Control
  imports Mirror_Job
begin

section \<open>The control loop of mirror jobs (worker/job.go: Run, runJob)\<close>

text \<open>
  \<open>mirrorJob.Run\<close> is a goroutine that receives control actions and starts, for every run of the
  job, a goroutine \<open>runJob\<close>, which takes a slot of the worker's semaphore before it calls
  \<open>runJobWrapper\<close>.  Here the goroutines of all jobs of a worker run side by side: a system state holds
  the jobs' states and control channels, the semaphore and a list of calls of \<open>Run\<close> (\<open>runner\<close>),
  each with the \<open>runJob\<close> goroutines it has started (\<open>inner\<close>, the last one first).  A label names
  which goroutine makes the next step; \<open>step\<close> executes it, or yields \<open>None\<close> where that goroutine
  is blocked.  The calls of the worker that reach into this system (\<open>go job.Run\<close>, a send on
  \<open>ctrlChan\<close>, \<open>SetState\<close>) are labels too.  \<open>runJobWrapper\<close> itself is modelled in
  \<open>Mirror_Job\<close>; here it is the interval between entering and leaving it.

  Shown by induction on the sequence of steps: the semaphore counts exactly the goroutines that hold a
  slot, the wait group counts the calls of \<open>Run\<close> that have begun and not returned, one call of
  \<open>Run\<close> never has two runs at a time and has none when it returns, and no more runs are in progress
  than the configured limit plus the number of forced starts.
\<close>

datatype ctrlAction = jobStart | jobStop | jobDisable | jobRestart | jobPing | jobHalt | jobForceStart

text \<open>Where a \<open>runJob\<close> goroutine is: at its \<open>select\<close>, inside the wrapper (with a slot of the
  semaphore or past it), at the deferred receive that gives the slot back, at the send on
  \<open>jobDone\<close> after a kill, or at its end.\<close>

datatype inner_pc = Acquiring | Wrapping bool | Releasing | SendingDone | Gone

record inner =
  ig_pc :: inner_pc
  ig_killed :: bool
  ig_done :: bool

text \<open>Where \<open>Run\<close> is: before its first statement, at the head of the loop, at the \<open>select\<close> labelled
  \<open>_wait_for_job\<close>, at \<open><-jobDone\<close> after closing \<open>kill\<close>, at the receive at the end of the loop
  body, or returned.\<close>

datatype after_kill = ThenRecv | ThenReturn | ThenHead
datatype run_pc = Entry | Head | Select | WaitDone after_kill | Recv | Exited

record runner =
  rn_job :: nat
  rn_pc :: run_pc
  rn_bypass :: bool
  rn_inner :: "inner list"

record sys =
  sy_state :: "nat \<Rightarrow> jobState"
  sy_ctrl :: "nat \<Rightarrow> ctrlAction list"
  sy_disabled :: "nat \<Rightarrow> bool option"
  sy_sem :: nat
  sy_cap :: nat
  sy_wg :: nat
  sy_panic :: bool
  sy_runs :: "runner list"

datatype label =
    GoRun nat
  | SendCtrl nat ctrlAction
  | SetState nat jobState
  | Outer nat
  | Ctrl nat
  | Acquire nat nat
  | Bypass nat nat
  | Killed nat nat
  | WrapDone nat nat
  | Release nat nat

definition upd_run :: "nat \<Rightarrow> (runner \<Rightarrow> runner) \<Rightarrow> sys \<Rightarrow> sys" where
  "upd_run i f s = s\<lparr>sy_runs := (sy_runs s)[i := f (sy_runs s ! i)]\<rparr>"

definition upd_inner :: "nat \<Rightarrow> (inner \<Rightarrow> inner) \<Rightarrow> runner \<Rightarrow> runner" where
  "upd_inner k f r = r\<lparr>rn_inner := (rn_inner r)[k := f (rn_inner r ! k)]\<rparr>"

definition set_state :: "nat \<Rightarrow> jobState \<Rightarrow> sys \<Rightarrow> sys" where
  "set_state j st s = s\<lparr>sy_state := (sy_state s)(j := st)\<rparr>"

definition close_kill :: "runner \<Rightarrow> runner" where
  "close_kill r = upd_inner 0 (\<lambda>g. g\<lparr>ig_killed := True\<rparr>) r"

text \<open>A receive from \<open>jobDone\<close> succeeds when the channel is closed or \<open>runJob\<close> is sending on it.\<close>

definition done_ready :: "runner \<Rightarrow> bool" where
  "done_ready r \<longleftrightarrow> (case rn_inner r of [] \<Rightarrow> False | g # _ \<Rightarrow> ig_done g \<or> ig_pc g = SendingDone)"

definition recv_done :: "runner \<Rightarrow> runner" where
  "recv_done r = upd_inner 0 (\<lambda>g. if ig_done g then g else g\<lparr>ig_pc := Gone\<rparr>) r"

text \<open>\<open>return\<close>: the deferred function closes \<open>m.disabled\<close> (closing a closed channel panics) and
  leaves the wait group.\<close>

definition exit_run :: "nat \<Rightarrow> sys \<Rightarrow> sys" where
  "exit_run i s =
     (let j = rn_job (sy_runs s ! i) in
      upd_run i (\<lambda>r. r\<lparr>rn_pc := Exited\<rparr>)
        (s\<lparr>sy_panic := (sy_panic s \<or> sy_disabled s j \<noteq> Some False),
           sy_disabled := (sy_disabled s)(j := Some True), sy_wg := sy_wg s - 1\<rparr>))"

definition goto :: "nat \<Rightarrow> run_pc \<Rightarrow> sys \<Rightarrow> sys" where
  "goto i pc s = upd_run i (\<lambda>r. r\<lparr>rn_pc := pc\<rparr>) s"

definition outer_step :: "sys \<Rightarrow> nat \<Rightarrow> sys option" where
  "outer_step s i =
     (let r = sy_runs s ! i; j = rn_job r in
      case rn_pc r of
        Entry \<Rightarrow> Some (goto i Head (s\<lparr>sy_wg := Suc (sy_wg s), sy_disabled := (sy_disabled s)(j := Some False)\<rparr>))
      | Head \<Rightarrow>
          (if sy_state s j = stateReady
           then Some (upd_run i (\<lambda>r. r\<lparr>rn_pc := Select,
                  rn_inner := \<lparr>ig_pc = Acquiring, ig_killed = False, ig_done = False\<rparr> # rn_inner r\<rparr>) s)
           else Some (goto i Recv s))
      | Select \<Rightarrow> if done_ready r then Some (goto i Recv (upd_run i recv_done s)) else None
      | WaitDone c \<Rightarrow>
          (if done_ready r
           then (let s' = upd_run i recv_done s in
                 case c of ThenRecv \<Rightarrow> Some (goto i Recv s')
                 | ThenHead \<Rightarrow> Some (goto i Head s')
                 | ThenReturn \<Rightarrow> Some (exit_run i s'))
           else None)
      | Recv \<Rightarrow> None
      | Exited \<Rightarrow> None)"

text \<open>The two \<open>switch\<close> statements on a received action.\<close>

definition kill_and :: "nat \<Rightarrow> after_kill \<Rightarrow> sys \<Rightarrow> sys" where
  "kill_and i c s = goto i (WaitDone c) (upd_run i close_kill s)"

definition offer_bypass :: "nat \<Rightarrow> sys \<Rightarrow> sys" where
  "offer_bypass i s = upd_run i (\<lambda>r. r\<lparr>rn_bypass := True\<rparr>) s"

fun ctrl_in_select :: "nat \<Rightarrow> nat \<Rightarrow> ctrlAction \<Rightarrow> sys \<Rightarrow> sys" where
  "ctrl_in_select i j jobStop s = kill_and i ThenRecv (set_state j statePaused s)"
| "ctrl_in_select i j jobDisable s = kill_and i ThenReturn (set_state j stateDisabled s)"
| "ctrl_in_select i j jobRestart s = kill_and i ThenHead (set_state j stateReady s)"
| "ctrl_in_select i j jobForceStart s = set_state j stateReady (offer_bypass i s)"
| "ctrl_in_select i j jobStart s = set_state j stateReady s"
| "ctrl_in_select i j jobHalt s = kill_and i ThenReturn (set_state j stateHalting s)"
| "ctrl_in_select i j jobPing s = exit_run i (upd_run i close_kill s)"

fun ctrl_in_recv :: "nat \<Rightarrow> nat \<Rightarrow> ctrlAction \<Rightarrow> sys \<Rightarrow> sys" where
  "ctrl_in_recv i j jobStop s = goto i Head (set_state j statePaused s)"
| "ctrl_in_recv i j jobDisable s = exit_run i (set_state j stateDisabled s)"
| "ctrl_in_recv i j jobForceStart s = goto i Head (set_state j stateReady (offer_bypass i s))"
| "ctrl_in_recv i j jobRestart s = goto i Head (set_state j stateReady s)"
| "ctrl_in_recv i j jobStart s = goto i Head (set_state j stateReady s)"
| "ctrl_in_recv i j jobPing s = exit_run i s"
| "ctrl_in_recv i j jobHalt s = exit_run i s"

definition ctrl_step :: "sys \<Rightarrow> nat \<Rightarrow> sys option" where
  "ctrl_step s i =
     (let r = sy_runs s ! i; j = rn_job r in
      case sy_ctrl s j of
        [] \<Rightarrow> None
      | a # rest \<Rightarrow>
          (let s' = s\<lparr>sy_ctrl := (sy_ctrl s)(j := rest)\<rparr> in
           if rn_pc r = Select then Some (ctrl_in_select i j a s')
           else if rn_pc r = Recv then Some (ctrl_in_recv i j a s')
           else None))"

text \<open>The \<open>select\<close> of \<open>runJob\<close>, the end of the wrapper (which closes \<open>jobDone\<close>) and the deferred
  release of the slot.\<close>

definition set_pc :: "inner_pc \<Rightarrow> inner \<Rightarrow> inner" where
  "set_pc pc g = g\<lparr>ig_pc := pc\<rparr>"

fun inner_step :: "sys \<Rightarrow> label \<Rightarrow> sys option" where
  "inner_step s (Acquire i k) =
     (if ig_pc (rn_inner (sy_runs s ! i) ! k) = Acquiring \<and> sy_sem s < sy_cap s
      then Some (upd_run i (upd_inner k (set_pc (Wrapping True))) (s\<lparr>sy_sem := Suc (sy_sem s)\<rparr>)) else None)"
| "inner_step s (Bypass i k) =
     (if ig_pc (rn_inner (sy_runs s ! i) ! k) = Acquiring \<and> rn_bypass (sy_runs s ! i)
      then Some (upd_run i (\<lambda>r. upd_inner k (set_pc (Wrapping False)) (r\<lparr>rn_bypass := False\<rparr>)) s) else None)"
| "inner_step s (Killed i k) =
     (let g = rn_inner (sy_runs s ! i) ! k in
      if ig_pc g = Acquiring \<and> ig_killed g
      then Some (upd_run i (upd_inner k (set_pc SendingDone)) s) else None)"
| "inner_step s (WrapDone i k) =
     (case ig_pc (rn_inner (sy_runs s ! i) ! k) of
        Wrapping b \<Rightarrow>
          Some (upd_run i (upd_inner k (\<lambda>g. g\<lparr>ig_pc := (if b then Releasing else Gone), ig_done := True\<rparr>)) s)
      | _ \<Rightarrow> None)"
| "inner_step s (Release i k) =
     (if ig_pc (rn_inner (sy_runs s ! i) ! k) = Releasing
      then Some (upd_run i (upd_inner k (set_pc Gone)) (s\<lparr>sy_sem := sy_sem s - 1\<rparr>)) else None)"
| "inner_step s _ = None"

text \<open>The \<open>runJob\<close> goroutine a label belongs to.\<close>

fun inner_of :: "label \<Rightarrow> (nat \<times> nat) option" where
  "inner_of (Acquire i k) = Some (i, k)"
| "inner_of (Bypass i k) = Some (i, k)"
| "inner_of (Killed i k) = Some (i, k)"
| "inner_of (WrapDone i k) = Some (i, k)"
| "inner_of (Release i k) = Some (i, k)"
| "inner_of _ = None"

text \<open>One step; \<open>ctrlChan\<close> has a buffer of one action.  After a panic the process is gone.\<close>

definition step :: "sys \<Rightarrow> label \<Rightarrow> sys option" where
  "step s l =
     (if sy_panic s then None else
      case l of
        GoRun j \<Rightarrow> Some (s\<lparr>sy_runs := sy_runs s @ [\<lparr>rn_job = j, rn_pc = Entry, rn_bypass = False, rn_inner = []\<rparr>]\<rparr>)
      | SendCtrl j a \<Rightarrow> if sy_ctrl s j = [] then Some (s\<lparr>sy_ctrl := (sy_ctrl s)(j := [a])\<rparr>) else None
      | SetState j st \<Rightarrow> Some (set_state j st s)
      | Outer i \<Rightarrow> if i < length (sy_runs s) then outer_step s i else None
      | Ctrl i \<Rightarrow> if i < length (sy_runs s) then ctrl_step s i else None
      | _ \<Rightarrow> (case inner_of l of
                Some (i, k) \<Rightarrow> if i < length (sy_runs s) \<and> k < length (rn_inner (sy_runs s ! i)) then inner_step s l else None
              | None \<Rightarrow> None))"

text \<open>The worker before any job runs, and a sequence of steps.\<close>

definition init_sys :: "nat \<Rightarrow> sys" where
  "init_sys cap = \<lparr>sy_state = (\<lambda>_. stateNone), sy_ctrl = (\<lambda>_. []), sy_disabled = (\<lambda>_. None), sy_sem = 0,
     sy_cap = cap, sy_wg = 0, sy_panic = False, sy_runs = []\<rparr>"

fun steps :: "sys \<Rightarrow> label list \<Rightarrow> sys option" where
  "steps s [] = Some s"
| "steps s (l # ls) = (case step s l of None \<Rightarrow> None | Some s' \<Rightarrow> steps s' ls)"


subsection \<open>Counting goroutines\<close>

fun holds_slot :: "inner_pc \<Rightarrow> bool" where
  "holds_slot (Wrapping b) = b"
| "holds_slot Releasing = True"
| "holds_slot _ = False"

fun in_wrapper :: "inner_pc \<Rightarrow> bool" where
  "in_wrapper (Wrapping _) = True"
| "in_wrapper _ = False"

fun settled :: "inner_pc \<Rightarrow> bool" where
  "settled Releasing = True"
| "settled Gone = True"
| "settled _ = False"

definition count_pc :: "(inner_pc \<Rightarrow> bool) \<Rightarrow> runner \<Rightarrow> nat" where
  "count_pc P r = (\<Sum>g\<leftarrow>rn_inner r. of_bool (P (ig_pc g)))"

definition alive :: "runner \<Rightarrow> nat" where
  "alive r = of_bool (rn_pc r \<noteq> Entry \<and> rn_pc r \<noteq> Exited)"

definition total :: "(runner \<Rightarrow> nat) \<Rightarrow> sys \<Rightarrow> nat" where
  "total f s = (\<Sum>r\<leftarrow>sy_runs s. f r)"

definition wrapping :: "sys \<Rightarrow> nat" where
  "wrapping s = total (count_pc in_wrapper) s"

lemma ball_update: "\<forall>x\<in>set xs. P x \<Longrightarrow> P y \<Longrightarrow> \<forall>x\<in>set (xs[i := y]). P x"
  using set_update_subset_insert by fastforce

text \<open>What a step does to the list of runners: it is kept, a runner that has not begun is added, or one
  runner is replaced.\<close>

lemma upd_fields [simp]:
  "sy_runs (upd_run i f s) = (sy_runs s)[i := f (sy_runs s ! i)]"
  "sy_state (upd_run i f s) = sy_state s" "sy_ctrl (upd_run i f s) = sy_ctrl s"
  "sy_sem (upd_run i f s) = sy_sem s" "sy_cap (upd_run i f s) = sy_cap s" "sy_wg (upd_run i f s) = sy_wg s"
  "sy_disabled (upd_run i f s) = sy_disabled s" "sy_panic (upd_run i f s) = sy_panic s"
  "sy_runs (set_state j st s) = sy_runs s" "sy_ctrl (set_state j st s) = sy_ctrl s"
  "sy_sem (set_state j st s) = sy_sem s" "sy_cap (set_state j st s) = sy_cap s" "sy_wg (set_state j st s) = sy_wg s"
  "sy_state (set_state j st s) = (sy_state s)(j := st)"
  "sy_disabled (set_state j st s) = sy_disabled s" "sy_panic (set_state j st s) = sy_panic s"
  by (simp_all add: upd_run_def set_state_def)

lemma upd_inner_fields [simp]:
  "rn_pc (upd_inner k f r) = rn_pc r" "rn_job (upd_inner k f r) = rn_job r" "rn_bypass (upd_inner k f r) = rn_bypass r"
  "rn_inner (upd_inner k f r) = (rn_inner r)[k := f (rn_inner r ! k)]"
  by (simp_all add: upd_inner_def)

lemma set_pc_fields [simp]:
  "ig_pc (set_pc pc g) = pc" "ig_killed (set_pc pc g) = ig_killed g" "ig_done (set_pc pc g) = ig_done g"
  by (simp_all add: set_pc_def)

lemma upd_run_twice [simp]: "upd_run i f (upd_run i g s) = upd_run i (\<lambda>r. f (g r)) s"
  by (cases "i < length (sy_runs s)") (simp_all add: upd_run_def list_update_beyond)

lemmas control_defs = outer_step_def ctrl_step_def goto_def kill_and_def offer_bypass_def exit_run_def Let_def

lemma total_update:
  assumes "i < length (sy_runs s)" and "sy_runs s' = (sy_runs s)[i := r]"
  shows "total f s' + f (sy_runs s ! i) = total f s + f r"
  using sum_list_update_nat [OF assms(1)] assms(2) by (simp add: total_def)

lemma count_pc_update:
  assumes "k < length (rn_inner r)" and "rn_inner r' = (rn_inner r)[k := g]"
  shows "count_pc P r' + of_bool (P (ig_pc (rn_inner r ! k))) = count_pc P r + of_bool (P (ig_pc g))"
  unfolding count_pc_def assms(2) by (rule sum_list_update_nat [OF assms(1)])


lemma count_pc_simps [simp]:
  "count_pc P (r\<lparr>rn_pc := pc\<rparr>) = count_pc P r" "count_pc P (r\<lparr>rn_bypass := b\<rparr>) = count_pc P r"
  "count_pc P (r\<lparr>rn_pc := pc, rn_inner := g # rn_inner r\<rparr>) = of_bool (P (ig_pc g)) + count_pc P r"
  by (simp_all add: count_pc_def)

lemma count_close_kill [simp]: "count_pc P (close_kill r) = count_pc P r"
  by (cases "rn_inner r") (simp_all add: count_pc_def close_kill_def)

lemma count_recv_done: "done_ready r \<Longrightarrow> P Gone = P SendingDone \<Longrightarrow> count_pc P (recv_done r) = count_pc P r"
  by (cases "rn_inner r") (auto simp: count_pc_def recv_done_def done_ready_def)

lemma kill_done_fields [simp]:
  "rn_pc (close_kill r) = rn_pc r" "rn_job (close_kill r) = rn_job r" "rn_bypass (close_kill r) = rn_bypass r"
  "rn_pc (recv_done r) = rn_pc r" "rn_job (recv_done r) = rn_job r" "rn_bypass (recv_done r) = rn_bypass r"
  by (simp_all add: close_kill_def recv_done_def)

text \<open>The effect of a step of \<open>Run\<close>: only its own runner changes, no slot is taken or given back, and
  the wait group follows.\<close>

definition run_effect :: "nat \<Rightarrow> sys \<Rightarrow> sys \<Rightarrow> bool" where
  "run_effect i s s' \<longleftrightarrow>
     sy_runs s' = (sy_runs s)[i := sy_runs s' ! i] \<and> sy_sem s' = sy_sem s \<and> sy_cap s' = sy_cap s \<and>
     (\<forall>P. P Gone = P SendingDone \<and> \<not> P Acquiring \<longrightarrow> count_pc P (sy_runs s' ! i) = count_pc P (sy_runs s ! i)) \<and>
     sy_wg s' + alive (sy_runs s ! i) = sy_wg s + alive (sy_runs s' ! i)"

lemma outer_effect:
  assumes "outer_step s i = Some s'" and "i < length (sy_runs s)" and "alive (sy_runs s ! i) \<le> sy_wg s"
  shows "run_effect i s s'"
proof (cases "rn_pc (sy_runs s ! i)")
  case (WaitDone c)
  then show ?thesis using assms
    by (cases c) (auto simp: run_effect_def control_defs count_recv_done alive_def split: if_splits)
qed (use assms in \<open>auto simp: run_effect_def control_defs count_recv_done alive_def split: if_splits\<close>)

lemma ctrl_effect:
  assumes "ctrl_step s i = Some s'" and "i < length (sy_runs s)" and "alive (sy_runs s ! i) \<le> sy_wg s"
  shows "run_effect i s s'"
proof -
  from assms(1) obtain a rest where a: "sy_ctrl s (rn_job (sy_runs s ! i)) = a # rest"
    by (auto simp: ctrl_step_def Let_def split: list.splits)
  with assms show ?thesis
    by (cases a; cases "rn_pc (sy_runs s ! i)")
       (auto simp: run_effect_def control_defs count_recv_done alive_def)
qed

subsection \<open>Invariants\<close>

text \<open>A predicate kept by every step whose label is allowed holds after every sequence of such steps.\<close>

locale step_invariant =
  fixes allowed :: "label \<Rightarrow> bool" and inv :: "sys \<Rightarrow> bool"
  assumes keep: "allowed l \<Longrightarrow> inv s \<Longrightarrow> step s l = Some s' \<Longrightarrow> inv s'"
begin

lemma steps_keep: "list_all allowed ls \<Longrightarrow> inv s \<Longrightarrow> steps s ls = Some s' \<Longrightarrow> inv s'"
  by (induction ls arbitrary: s) (auto split: option.splits dest: keep)

end

definition counts_ok :: "sys \<Rightarrow> bool" where
  "counts_ok s \<longleftrightarrow> sy_sem s = total (count_pc holds_slot) s \<and> sy_sem s \<le> sy_cap s \<and> sy_wg s = total alive s"

lemma total_ge: "i < length (sy_runs s) \<Longrightarrow> f (sy_runs s ! i) \<le> total f s"
  by (simp add: total_def member_le_sum_list)

lemma run_effect_total:
  assumes "run_effect i s s'" and "i < length (sy_runs s)" and "P Gone = P SendingDone" and "\<not> P Acquiring"
  shows "total (count_pc P) s' = total (count_pc P) s"
proof -
  from assms(1) have u: "sy_runs s' = (sy_runs s)[i := sy_runs s' ! i]" by (simp add: run_effect_def)
  from total_update [OF assms(2) u, of "count_pc P"] assms(1,3,4) show ?thesis by (simp add: run_effect_def)
qed

lemma run_effect_counts:
  assumes "run_effect i s s'" and "i < length (sy_runs s)" and "counts_ok s"
  shows "counts_ok s'"
proof -
  let ?r' = "sy_runs s' ! i"
  from assms(1) have u: "sy_runs s' = (sy_runs s)[i := ?r']" by (simp add: run_effect_def)
  have "total (count_pc holds_slot) s' = total (count_pc holds_slot) s" by (rule run_effect_total [OF assms(1,2)]) simp_all
  with total_update [OF assms(2) u, of alive] assms(1,3) show ?thesis by (auto simp: run_effect_def counts_ok_def)
qed

text \<open>A step of \<open>runJob\<close>: its own goroutine moves to another point, and the semaphore follows.\<close>

definition inner_effect :: "nat \<Rightarrow> nat \<Rightarrow> inner_pc \<Rightarrow> sys \<Rightarrow> sys \<Rightarrow> bool" where
  "inner_effect i k pc s s' \<longleftrightarrow>
     (let r = sy_runs s ! i; r' = sy_runs s' ! i in
      sy_runs s' = (sy_runs s)[i := r'] \<and> rn_job r' = rn_job r \<and> rn_pc r' = rn_pc r \<and>
      (\<exists>g'. rn_inner r' = (rn_inner r)[k := g'] \<and> ig_pc g' = pc \<and> ig_killed g' = ig_killed (rn_inner r ! k) \<and>
        (ig_done g' \<longleftrightarrow> ig_done (rn_inner r ! k) \<or> in_wrapper (ig_pc (rn_inner r ! k)))) \<and>
      sy_cap s' = sy_cap s \<and> sy_wg s' = sy_wg s \<and> sy_state s' = sy_state s \<and> sy_ctrl s' = sy_ctrl s \<and>
      sy_panic s' = sy_panic s \<and> sy_disabled s' = sy_disabled s)"

text \<open>The possible moves, with what they do to the semaphore and to the offer to bypass it.\<close>

definition inner_move :: "nat \<Rightarrow> nat \<Rightarrow> inner_pc \<Rightarrow> sys \<Rightarrow> sys \<Rightarrow> bool" where
  "inner_move i k pc s s' \<longleftrightarrow>
     (let g = rn_inner (sy_runs s ! i) ! k; b = rn_bypass (sy_runs s ! i); b' = rn_bypass (sy_runs s' ! i) in
      ig_pc g = Acquiring \<and> pc = Wrapping True \<and> sy_sem s < sy_cap s \<and> sy_sem s' = Suc (sy_sem s) \<and> b' = b \<or>
      ig_pc g = Acquiring \<and> pc = Wrapping False \<and> sy_sem s' = sy_sem s \<and> b \<and> \<not> b' \<or>
      ig_pc g = Acquiring \<and> pc = SendingDone \<and> sy_sem s' = sy_sem s \<and> ig_killed g \<and> b' = b \<or>
      ig_pc g = Wrapping True \<and> pc = Releasing \<and> sy_sem s' = sy_sem s \<and> b' = b \<or>
      ig_pc g = Wrapping False \<and> pc = Gone \<and> sy_sem s' = sy_sem s \<and> b' = b \<or>
      ig_pc g = Releasing \<and> pc = Gone \<and> sy_sem s' = sy_sem s - 1 \<and> b' = b)"

lemma inner_step_effect:
  assumes "inner_step s l = Some s'" and "inner_of l = Some (i, k)" and "i < length (sy_runs s)" and "k < length (rn_inner (sy_runs s ! i))"
  shows "\<exists>pc. inner_effect i k pc s s' \<and> inner_move i k pc s s'"
proof -
  have e: "inner_effect i k (ig_pc (f (rn_inner (sy_runs s ! i) ! k))) s (upd_run i (\<lambda>r. upd_inner k f (h r)) (s\<lparr>sy_sem := n\<rparr>))"
    if "\<And>g. ig_killed (f g) = ig_killed g" "ig_done (f (rn_inner (sy_runs s ! i) ! k)) \<longleftrightarrow> ig_done (rn_inner (sy_runs s ! i) ! k) \<or> in_wrapper (ig_pc (rn_inner (sy_runs s ! i) ! k))"
      "rn_inner (h (sy_runs s ! i)) = rn_inner (sy_runs s ! i)" "rn_job (h (sy_runs s ! i)) = rn_job (sy_runs s ! i)" "rn_pc (h (sy_runs s ! i)) = rn_pc (sy_runs s ! i)" for f h n
    using that assms(3) by (auto simp: inner_effect_def Let_def)
  show ?thesis
  proof (cases l)
    case (Acquire i' k')
    then show ?thesis using assms e [of "set_pc (Wrapping True)" id "Suc (sy_sem s)"] by (auto split: if_splits simp: inner_move_def Let_def)
  next
    case (Bypass i' k')
    then show ?thesis using assms e [of "set_pc (Wrapping False)" "\<lambda>r. r\<lparr>rn_bypass := False\<rparr>" "sy_sem s"] by (auto split: if_splits simp: inner_move_def Let_def)
  next
    case (Killed i' k')
    then show ?thesis using assms e [of "set_pc SendingDone" id "sy_sem s"] by (auto split: if_splits simp: inner_move_def Let_def)
  next
    case (WrapDone i' k')
    then show ?thesis using assms e [of "\<lambda>g. g\<lparr>ig_pc := Releasing, ig_done := True\<rparr>" id "sy_sem s"]
        e [of "\<lambda>g. g\<lparr>ig_pc := Gone, ig_done := True\<rparr>" id "sy_sem s"] by (auto split: inner_pc.splits if_splits simp: inner_move_def Let_def)
  next
    case (Release i' k')
    then show ?thesis using assms e [of "set_pc Gone" id "sy_sem s - 1"] by (auto split: if_splits simp: inner_move_def Let_def)
  qed (use assms in auto)
qed

lemma inner_effect_count:
  assumes "inner_effect i k pc s s'" and "i < length (sy_runs s)" and "k < length (rn_inner (sy_runs s ! i))"
  shows "total (count_pc P) s' + of_bool (P (ig_pc (rn_inner (sy_runs s ! i) ! k))) = total (count_pc P) s + of_bool (P pc)"
    and "total alive s' = total alive s"
proof -
  let ?r = "sy_runs s ! i" and ?r' = "sy_runs s' ! i"
  from assms(1) obtain g' where u: "sy_runs s' = (sy_runs s)[i := ?r']" and g: "rn_inner ?r' = (rn_inner ?r)[k := g']" "ig_pc g' = pc"
    and pc: "rn_pc ?r' = rn_pc ?r" by (auto simp: inner_effect_def Let_def)
  note t = total_update [OF assms(2) u]
  from t [of "count_pc P"] count_pc_update [OF assms(3) g(1), of P]
  show "total (count_pc P) s' + of_bool (P (ig_pc (rn_inner ?r ! k))) = total (count_pc P) s + of_bool (P pc)"
    unfolding g(2) by linarith
  from t [of alive] pc show "total alive s' = total alive s" by (simp add: alive_def)
qed

text \<open>The ways a step can be made.\<close>

lemma step_cases:
  assumes "step s l = Some s'"
  obtains
    (go) j where "l = GoRun j" "s' = s\<lparr>sy_runs := sy_runs s @ [\<lparr>rn_job = j, rn_pc = Entry, rn_bypass = False, rn_inner = []\<rparr>]\<rparr>"
  | (send) j a where "l = SendCtrl j a" "sy_ctrl s j = []" "s' = s\<lparr>sy_ctrl := (sy_ctrl s)(j := [a])\<rparr>"
  | (state) j st where "l = SetState j st" "s' = set_state j st s"
  | (outer) i where "l = Outer i" "i < length (sy_runs s)" "outer_step s i = Some s'"
  | (ctrl) i where "l = Ctrl i" "i < length (sy_runs s)" "ctrl_step s i = Some s'"
  | (inner) i k where "inner_of l = Some (i, k)" "i < length (sy_runs s)" "k < length (rn_inner (sy_runs s ! i))" "inner_step s l = Some s'"
  using assms by (cases l) (auto simp: step_def split: if_splits)

lemma counts_ok_step:
  assumes "counts_ok s" and "step s l = Some s'"
  shows "counts_ok s'"
  using assms(2)
proof (cases rule: step_cases)
  case (go j)
  with assms(1) show ?thesis by (simp add: counts_ok_def total_def count_pc_def alive_def)
next
  case (send j a)
  with assms(1) show ?thesis by (simp add: counts_ok_def total_def)
next
  case (state j st)
  with assms(1) show ?thesis by (simp add: counts_ok_def total_def)
next
  case (outer i)
  have "alive (sy_runs s ! i) \<le> sy_wg s" using assms(1) total_ge [OF outer(2), of alive] by (simp add: counts_ok_def)
  from run_effect_counts [OF outer_effect [OF outer(3,2) this] outer(2) assms(1)] show ?thesis .
next
  case (ctrl i)
  have "alive (sy_runs s ! i) \<le> sy_wg s" using assms(1) total_ge [OF ctrl(2), of alive] by (simp add: counts_ok_def)
  from run_effect_counts [OF ctrl_effect [OF ctrl(3,2) this] ctrl(2) assms(1)] show ?thesis .
next
  case (inner i k)
  from inner_step_effect [OF inner(4,1,2,3)] obtain pc where e: "inner_effect i k pc s s'"
    and m: "inner_move i k pc s s'" by blast
  have same: "sy_cap s' = sy_cap s" "sy_wg s' = sy_wg s" using e by (simp_all add: inner_effect_def Let_def)
  from m assms(1) inner_effect_count(1) [OF e inner(2,3), of holds_slot] inner_effect_count(2) [OF e inner(2,3)] same
  show ?thesis by (auto simp: counts_ok_def inner_move_def Let_def)
qed

interpretation counts: step_invariant "\<lambda>_. True" counts_ok
  by unfold_locales (rule counts_ok_step)

lemma counts_ok_init: "counts_ok (init_sys cap)"
  by (simp add: counts_ok_def init_sys_def total_def)

text \<open>The forced starts: those in a channel, those offered to a run and those in the wrapper.\<close>

definition pending_force :: "sys \<Rightarrow> nat set" where
  "pending_force s = {j. jobForceStart \<in> set (sy_ctrl s j)}"

definition past_limit :: "inner_pc \<Rightarrow> bool" where
  "past_limit pc \<longleftrightarrow> pc = Wrapping False"

definition forced :: "sys \<Rightarrow> nat" where
  "forced s = total (count_pc past_limit) s + total (\<lambda>r. of_bool (rn_bypass r)) s + card (pending_force s)"

definition chans_ok :: "sys \<Rightarrow> bool" where
  "chans_ok s \<longleftrightarrow> (\<forall>j. length (sy_ctrl s j) \<le> 1) \<and> finite (pending_force s)"

fun is_force :: "label \<Rightarrow> bool" where
  "is_force (SendCtrl j jobForceStart) = True"
| "is_force _ = False"

lemma outer_bypass:
  assumes "outer_step s i = Some s'" and "i < length (sy_runs s)"
  shows "rn_bypass (sy_runs s' ! i) = rn_bypass (sy_runs s ! i)" and "sy_ctrl s' = sy_ctrl s"
proof -
  have "rn_bypass (sy_runs s' ! i) = rn_bypass (sy_runs s ! i) \<and> sy_ctrl s' = sy_ctrl s"
  proof (cases "rn_pc (sy_runs s ! i)")
    case (WaitDone c)
    then show ?thesis using assms by (cases c) (auto simp: control_defs split: if_splits)
  qed (use assms in \<open>auto simp: control_defs split: if_splits\<close>)
  then show "rn_bypass (sy_runs s' ! i) = rn_bypass (sy_runs s ! i)" and "sy_ctrl s' = sy_ctrl s" by simp_all
qed

lemma ctrl_bypass:
  assumes "ctrl_step s i = Some s'" and "i < length (sy_runs s)"
  obtains a rest where "sy_ctrl s (rn_job (sy_runs s ! i)) = a # rest"
    and "sy_ctrl s' = (sy_ctrl s)(rn_job (sy_runs s ! i) := rest)"
    and "rn_bypass (sy_runs s' ! i) \<longleftrightarrow> rn_bypass (sy_runs s ! i) \<or> a = jobForceStart"
proof -
  from assms(1) obtain a rest where a: "sy_ctrl s (rn_job (sy_runs s ! i)) = a # rest"
    by (auto simp: ctrl_step_def Let_def split: list.splits)
  with assms have "sy_ctrl s' = (sy_ctrl s)(rn_job (sy_runs s ! i) := rest) \<and>
    (rn_bypass (sy_runs s' ! i) \<longleftrightarrow> rn_bypass (sy_runs s ! i) \<or> a = jobForceStart)"
    by (cases a; cases "rn_pc (sy_runs s ! i)") (auto simp: control_defs)
  with a that show thesis by blast
qed

lemma forced_step:
  assumes "counts_ok s" and "chans_ok s" and "step s l = Some s'"
  shows "chans_ok s' \<and> forced s' \<le> forced s + of_bool (is_force l)"
  using assms(3)
proof (cases rule: step_cases)
  case (go j)
  with assms(2) show ?thesis by (simp add: chans_ok_def forced_def pending_force_def total_def count_pc_def)
next
  case (send j a)
  have p: "pending_force s' = (if a = jobForceStart then insert j (pending_force s) else pending_force s)"
    using send(2,3) by (auto simp: pending_force_def)
  have f: "is_force l \<longleftrightarrow> a = jobForceStart" using send(1) by (cases a) simp_all
  have "card (insert j (pending_force s)) \<le> Suc (card (pending_force s))"
    using assms(2) by (simp add: chans_ok_def card_insert_if)
  with p f send assms(2) show ?thesis by (auto simp: chans_ok_def forced_def total_def)
next
  case (state j st)
  with assms(2) show ?thesis by (simp add: chans_ok_def forced_def pending_force_def total_def)
next
  case (outer i)
  have "alive (sy_runs s ! i) \<le> sy_wg s" using assms(1) total_ge [OF outer(2), of alive] by (simp add: counts_ok_def)
  note e = outer_effect [OF outer(3,2) this] and b = outer_bypass [OF outer(3,2)]
  from e have u: "sy_runs s' = (sy_runs s)[i := sy_runs s' ! i]" by (simp add: run_effect_def)
  from total_update [OF outer(2) u, of "\<lambda>r. of_bool (rn_bypass r)"] b
    run_effect_total [OF e outer(2), of past_limit] assms(2)
  show ?thesis by (simp add: forced_def chans_ok_def pending_force_def past_limit_def)
next
  case (ctrl i)
  have "alive (sy_runs s ! i) \<le> sy_wg s" using assms(1) total_ge [OF ctrl(2), of alive] by (simp add: counts_ok_def)
  note e = ctrl_effect [OF ctrl(3,2) this]
  from e have u: "sy_runs s' = (sy_runs s)[i := sy_runs s' ! i]" by (simp add: run_effect_def)
  let ?j = "rn_job (sy_runs s ! i)"
  from ctrl_bypass [OF ctrl(3,2)] obtain a rest where a: "sy_ctrl s ?j = a # rest"
    "sy_ctrl s' = (sy_ctrl s)(?j := rest)" "rn_bypass (sy_runs s' ! i) \<longleftrightarrow> rn_bypass (sy_runs s ! i) \<or> a = jobForceStart" .
  have "length (sy_ctrl s ?j) \<le> 1" using assms(2) by (simp add: chans_ok_def)
  with a(1) have r: "rest = []" by simp
  have p: "pending_force s' = pending_force s - {?j}" "?j \<in> pending_force s \<longleftrightarrow> a = jobForceStart"
    using a(1,2) r by (auto simp: pending_force_def)
  have "card (pending_force s') + of_bool (a = jobForceStart) = card (pending_force s)"
    using p assms(2) card_Suc_Diff1 [of "pending_force s" ?j] by (cases "a = jobForceStart") (simp_all add: chans_ok_def)
  with total_update [OF ctrl(2) u, of "\<lambda>r. of_bool (rn_bypass r)"] a(3)
    run_effect_total [OF e ctrl(2), of past_limit] assms(2) a(2) r p(1)
  show ?thesis by (auto simp: forced_def chans_ok_def past_limit_def split: if_splits)
next
  case (inner i k)
  from inner_step_effect [OF inner(4,1,2,3)] obtain pc where e: "inner_effect i k pc s s'"
    and mv: "inner_move i k pc s s'" by blast
  from mv have m: "of_bool (past_limit pc) + of_bool (rn_bypass (sy_runs s' ! i)) \<le>
      of_bool (past_limit (ig_pc (rn_inner (sy_runs s ! i) ! k))) + (of_bool (rn_bypass (sy_runs s ! i)) :: nat)"
    by (auto simp: inner_move_def past_limit_def Let_def)
  from e have u: "sy_runs s' = (sy_runs s)[i := sy_runs s' ! i]" "sy_ctrl s' = sy_ctrl s" by (simp_all add: inner_effect_def Let_def)
  from total_update [OF inner(2) u(1), of "\<lambda>r. of_bool (rn_bypass r)"] inner_effect_count(1) [OF e inner(2,3), of past_limit] m u(2) assms(2)
  show ?thesis by (simp add: forced_def chans_ok_def pending_force_def)
qed

lemma forced_steps:
  assumes "counts_ok s" and "chans_ok s" and "steps s ls = Some s'"
  shows "forced s' \<le> forced s + length (filter is_force ls)"
  using assms
proof (induction ls arbitrary: s)
  case (Cons l ls)
  then obtain s1 where s1: "step s l = Some s1" "steps s1 ls = Some s'" by (auto split: option.splits)
  from forced_step [OF Cons.prems(1,2) s1(1)] Cons.IH [OF counts_ok_step [OF Cons.prems(1) s1(1)] _ s1(2)]
  show ?case by auto
qed simp

lemma cap_step: "step s l = Some s' \<Longrightarrow> counts_ok s \<Longrightarrow> sy_cap s' = sy_cap s"
proof (cases rule: step_cases, assumption)
  fix i assume i: "l = Outer i" "i < length (sy_runs s)" "outer_step s i = Some s'" and c: "counts_ok s"
  from c total_ge [OF i(2), of alive] outer_effect [OF i(3,2)] show ?thesis by (simp add: counts_ok_def run_effect_def)
next
  fix i assume i: "l = Ctrl i" "i < length (sy_runs s)" "ctrl_step s i = Some s'" and c: "counts_ok s"
  from c total_ge [OF i(2), of alive] ctrl_effect [OF i(3,2)] show ?thesis by (simp add: counts_ok_def run_effect_def)
next
  fix i k assume "inner_of l = Some (i, k)" "i < length (sy_runs s)" "k < length (rn_inner (sy_runs s ! i))" "inner_step s l = Some s'"
  from inner_step_effect [OF this(4,1,2,3)] show ?thesis by (auto simp: inner_effect_def Let_def)
qed simp_all

lemma cap_steps: "steps s ls = Some s' \<Longrightarrow> counts_ok s \<Longrightarrow> sy_cap s' = sy_cap s"
proof (induction ls arbitrary: s)
  case (Cons l ls)
  then show ?case by (auto split: option.splits) (metis cap_step counts_ok_step)
qed simp

text \<open>Every call of \<open>Run\<close> has at most one \<open>runJob\<close> goroutine that may still be before or inside the
  wrapper, and has none outside the two places where it waits for it.  Nothing in the worker sends
  \<open>jobPing\<close>, the one action on which \<open>Run\<close> returns without waiting.\<close>

fun current_ok :: "bool \<Rightarrow> inner list \<Rightarrow> bool" where
  "current_ok killed [] = False"
| "current_ok killed (g # gs) =
     (ig_killed g = killed \<and> (ig_done g \<longleftrightarrow> settled (ig_pc g)) \<and> (ig_pc g = SendingDone \<longrightarrow> killed) \<and>
      (\<forall>g\<in>set gs. settled (ig_pc g)))"

definition run_ok :: "runner \<Rightarrow> bool" where
  "run_ok r =
     (case rn_pc r of
        Select \<Rightarrow> current_ok False (rn_inner r)
      | WaitDone _ \<Rightarrow> current_ok True (rn_inner r)
      | _ \<Rightarrow> (\<forall>g\<in>set (rn_inner r). settled (ig_pc g)))"

definition runs_ok :: "sys \<Rightarrow> bool" where
  "runs_ok s \<longleftrightarrow> (\<forall>r\<in>set (sy_runs s). run_ok r) \<and> (\<forall>j. jobPing \<notin> set (sy_ctrl s j))"

fun not_ping :: "label \<Rightarrow> bool" where
  "not_ping (SendCtrl j jobPing) = False"
| "not_ping _ = True"

lemma runs_ok_update:
  assumes "runs_ok s" and "sy_runs s' = (sy_runs s)[i := r]" and "run_ok r" and "\<forall>j. set (sy_ctrl s' j) \<subseteq> set (sy_ctrl s j)"
  shows "runs_ok s'"
  unfolding runs_ok_def assms(2) using assms(1,3,4) ball_update [of "sy_runs s" run_ok r i]
  by (simp add: runs_ok_def) blast

lemma current_close_kill: "current_ok False (rn_inner r) \<Longrightarrow> current_ok True (rn_inner (close_kill r))"
  by (cases "rn_inner r") (auto simp: close_kill_def)

lemma settled_recv_done:
  "current_ok b (rn_inner r) \<Longrightarrow> done_ready r \<Longrightarrow> \<forall>g\<in>set (rn_inner (recv_done r)). settled (ig_pc g)"
  by (cases "rn_inner r") (auto simp: recv_done_def done_ready_def)

lemma outer_run_ok:
  assumes "outer_step s i = Some s'" and "i < length (sy_runs s)" and "run_ok (sy_runs s ! i)"
  shows "run_ok (sy_runs s' ! i)"
proof (cases "rn_pc (sy_runs s ! i)")
  case (WaitDone c)
  then show ?thesis using assms settled_recv_done [of True]
    by (cases c) (auto simp: control_defs run_ok_def split: if_splits)
qed (use assms settled_recv_done [of False] in \<open>auto simp: control_defs run_ok_def split: if_splits\<close>)

lemma ctrl_run_ok:
  assumes "ctrl_step s i = Some s'" and "i < length (sy_runs s)" and "run_ok (sy_runs s ! i)"
    and "jobPing \<notin> set (sy_ctrl s (rn_job (sy_runs s ! i)))"
  shows "run_ok (sy_runs s' ! i)"
proof -
  from assms(1) obtain a rest where a: "sy_ctrl s (rn_job (sy_runs s ! i)) = a # rest"
    by (auto simp: ctrl_step_def Let_def split: list.splits)
  with assms current_close_kill show ?thesis
    by (cases a; cases "rn_pc (sy_runs s ! i)") (auto simp: control_defs run_ok_def)
qed

lemma current_inner:
  assumes "current_ok b gs" and "k < length gs" and "ig_killed g' = ig_killed (gs ! k)"
    and "ig_done g' \<longleftrightarrow> ig_done (gs ! k) \<or> in_wrapper (ig_pc (gs ! k))"
    and "settled (ig_pc (gs ! k)) \<longrightarrow> settled (ig_pc g')"
    and "settled (ig_pc g') \<longrightarrow> settled (ig_pc (gs ! k)) \<or> in_wrapper (ig_pc (gs ! k))"
    and "in_wrapper (ig_pc (gs ! k)) \<longrightarrow> settled (ig_pc g')"
    and "ig_pc g' = SendingDone \<longrightarrow> ig_killed (gs ! k)"
  shows "current_ok b (gs[k := g'])"
proof (cases gs)
  case (Cons g rest)
  show ?thesis
  proof (cases k)
    case 0
    with Cons assms show ?thesis by auto
  next
    case (Suc k')
    then have "k' < length rest" "gs ! k = rest ! k'" using Cons assms(2) by auto
    moreover from this have "settled (ig_pc (rest ! k'))" using Cons assms(1) by simp
    ultimately have "settled (ig_pc g')" using assms(5) by simp
    with Cons Suc assms(1) ball_update [of rest "\<lambda>g. settled (ig_pc g)" g' k'] show ?thesis by auto
  qed
qed (use assms in simp)

lemma inner_run_ok:
  assumes "inner_effect i k pc s s'" and "inner_move i k pc s s'" and "k < length (rn_inner (sy_runs s ! i))" and "run_ok (sy_runs s ! i)"
  shows "run_ok (sy_runs s' ! i)"
proof -
  let ?r = "sy_runs s ! i" and ?r' = "sy_runs s' ! i"
  let ?g = "rn_inner ?r ! k"
  from assms(1) obtain g' where g': "rn_inner ?r' = (rn_inner ?r)[k := g']" "ig_pc g' = pc" "ig_killed g' = ig_killed ?g"
    "ig_done g' \<longleftrightarrow> ig_done ?g \<or> in_wrapper (ig_pc ?g)" "rn_pc ?r' = rn_pc ?r" by (auto simp: inner_effect_def Let_def)
  have m: "settled (ig_pc ?g) \<longrightarrow> settled (ig_pc g')" "settled (ig_pc g') \<longrightarrow> settled (ig_pc ?g) \<or> in_wrapper (ig_pc ?g)"
    "in_wrapper (ig_pc ?g) \<longrightarrow> settled (ig_pc g')" "ig_pc g' = SendingDone \<longrightarrow> ig_killed ?g"
    using assms(2) g'(2) by (auto simp: inner_move_def Let_def)
  have "\<forall>g\<in>set (rn_inner ?r'). settled (ig_pc g)" if "\<forall>g\<in>set (rn_inner ?r). settled (ig_pc g)"
    unfolding g'(1)
  proof (rule ball_update [OF that])
    from that nth_mem [OF assms(3)] have "settled (ig_pc ?g)" by blast
    with m(1) show "settled (ig_pc g')" by blast
  qed
  moreover have "current_ok b (rn_inner ?r')" if "current_ok b (rn_inner ?r)" for b
    unfolding g'(1) by (rule current_inner [OF that assms(3) g'(3,4) m])
  ultimately show ?thesis using assms(4) unfolding run_ok_def g'(5) by (cases "rn_pc ?r") simp_all
qed

lemma runs_ok_step:
  assumes "not_ping l" and "runs_ok s" and "step s l = Some s'"
  shows "runs_ok s'"
  using assms(3)
proof (cases rule: step_cases)
  case (go j)
  with assms(2) show ?thesis by (auto simp: runs_ok_def run_ok_def)
next
  case (send j a)
  with assms(1,2) show ?thesis by (cases a) (auto simp: runs_ok_def)
next
  case (state j st)
  with assms(2) show ?thesis by (simp add: runs_ok_def)
next
  case (outer i)
  have r: "run_ok (sy_runs s ! i)" using assms(2) outer(2) by (simp add: runs_ok_def)
  from outer(3,2) have "sy_runs s' = (sy_runs s)[i := sy_runs s' ! i]"
    by (auto simp: control_defs split: run_pc.splits after_kill.splits if_splits)
  from runs_ok_update [OF assms(2) this outer_run_ok [OF outer(3,2) r]] outer_bypass(2) [OF outer(3,2)] show ?thesis by simp
next
  case (ctrl i)
  let ?j = "rn_job (sy_runs s ! i)"
  have r: "run_ok (sy_runs s ! i)" "jobPing \<notin> set (sy_ctrl s ?j)" using assms(2) ctrl(2) by (simp_all add: runs_ok_def)
  from ctrl_bypass [OF ctrl(3,2)] obtain a rest where a: "sy_ctrl s ?j = a # rest" "sy_ctrl s' = (sy_ctrl s)(?j := rest)" .
  have u: "sy_runs s' = (sy_runs s)[i := sy_runs s' ! i]"
    using a(1) ctrl(3,2) by (cases a; cases "rn_pc (sy_runs s ! i)") (auto simp: control_defs)
  have "\<forall>j. set (sy_ctrl s' j) \<subseteq> set (sy_ctrl s j)" using a by auto
  with runs_ok_update [OF assms(2) u ctrl_run_ok [OF ctrl(3,2) r]] show ?thesis by blast
next
  case (inner i k)
  from inner_step_effect [OF inner(4,1,2,3)] obtain pc where e: "inner_effect i k pc s s'" "inner_move i k pc s s'" by blast
  from e(1) have u: "sy_runs s' = (sy_runs s)[i := sy_runs s' ! i]" "sy_ctrl s' = sy_ctrl s" by (simp_all add: inner_effect_def Let_def)
  have "run_ok (sy_runs s ! i)" using assms(2) inner(2) by (simp add: runs_ok_def)
  from runs_ok_update [OF assms(2) u(1) inner_run_ok [OF e inner(3) this]] u(2) show ?thesis by simp
qed

interpretation runs: step_invariant not_ping runs_ok
  by unfold_locales (rule runs_ok_step)

lemma runs_ok_init: "runs_ok (init_sys cap)"
  by (simp add: runs_ok_def init_sys_def)

subsection \<open>Properties\<close>

lemma count_pc_mono: "(\<And>pc. P pc \<Longrightarrow> Q pc \<or> R pc) \<Longrightarrow> count_pc P r \<le> count_pc Q r + count_pc R r"
proof -
  assume "\<And>pc. P pc \<Longrightarrow> Q pc \<or> R pc"
  then have "(\<Sum>g\<leftarrow>gs. of_bool (P (ig_pc g))) \<le>
      (\<Sum>g\<leftarrow>gs. of_bool (Q (ig_pc g))) + (\<Sum>g\<leftarrow>gs. of_bool (R (ig_pc g)) :: nat)" for gs
    by (induction gs) (auto simp: of_bool_def)
  then show ?thesis by (simp add: count_pc_def)
qed

lemma wrapping_le: "wrapping s \<le> total (count_pc holds_slot) s + total (count_pc past_limit) s"
proof -
  have "count_pc in_wrapper r \<le> count_pc holds_slot r + count_pc past_limit r" for r
    by (rule count_pc_mono) (auto simp: past_limit_def elim: in_wrapper.elims)
  then show ?thesis unfolding wrapping_def total_def by (induction "sy_runs s" arbitrary: s) (auto simp: sum_list_addf [symmetric] intro: sum_list_mono)
qed

lemma settled_count: "\<forall>g\<in>set gs. settled (ig_pc g) \<Longrightarrow> (\<Sum>g\<leftarrow>gs. of_bool (in_wrapper (ig_pc g))) = (0 :: nat)"
proof (induction gs)
  case (Cons g gs)
  then show ?case by (cases "ig_pc g") auto
qed simp

lemma count_settled: "\<forall>g\<in>set (rn_inner r). settled (ig_pc g) \<Longrightarrow> count_pc in_wrapper r = 0"
  by (simp only: count_pc_def settled_count)

lemma count_current: "current_ok b (rn_inner r) \<Longrightarrow> count_pc in_wrapper r \<le> 1"
  by (cases "rn_inner r") (simp_all add: count_pc_def settled_count)

lemma run_ok_counts:
  assumes "run_ok r"
  shows "count_pc in_wrapper r \<le> 1" and "rn_pc r \<in> {Entry, Head, Recv, Exited} \<Longrightarrow> count_pc in_wrapper r = 0"
  using assms count_current [of _ r] count_settled [of r] by (auto simp: run_ok_def split: run_pc.splits)

text \<open>C6.  The concurrency limit: in every interleaving of the worker's commands, the calls of
  \<open>Run\<close> and the goroutines they start, the number of runs in progress (goroutines inside
  \<open>runJobWrapper\<close>) is at most the configured limit plus the number of forced starts sent so far;
  without forced starts it never exceeds the limit.\<close>

theorem concurrency_limit:
  assumes "steps (init_sys cap) ls = Some s"
  shows "wrapping s \<le> cap + length (filter is_force ls)"
proof -
  have c: "counts_ok s" using counts.steps_keep [OF _ counts_ok_init assms] by (simp add: list_all_iff)
  have "chans_ok (init_sys cap)" "forced (init_sys cap) = 0"
    by (simp_all add: chans_ok_def init_sys_def forced_def pending_force_def total_def)
  with forced_steps [OF counts_ok_init _ assms] have "forced s \<le> length (filter is_force ls)" by simp
  moreover have "sy_cap s = cap" using cap_steps [OF assms counts_ok_init] by (simp add: init_sys_def)
  ultimately show ?thesis using c wrapping_le [of s] by (auto simp: counts_ok_def forced_def)
qed

text \<open>A worker with one slot and two jobs, the second started by force.\<close>

definition ex_trace :: "label list" where
  "ex_trace =
     [GoRun 0, GoRun 1, Outer 0, Outer 0, Outer 1, Outer 1, SendCtrl 0 jobStart, Ctrl 0, Outer 0, Acquire 0 0,
      SendCtrl 1 jobForceStart, Ctrl 1, Outer 1, Bypass 1 0]"

lemmas exec_defs = step_def control_defs init_sys_def upd_run_def upd_inner_def set_state_def set_pc_def
  close_kill_def done_ready_def recv_done_def

lemma ex_trace_runs: "\<exists>s. steps (init_sys 1) ex_trace = Some s \<and> wrapping s = 2"
  by (simp add: ex_trace_def exec_defs wrapping_def total_def count_pc_def)

theorem concurrency_limit_witness:
  "\<exists>s. steps (init_sys 1) ex_trace = Some s \<and> wrapping s = 2 \<and> wrapping s \<le> 1 + length (filter is_force ex_trace)"
  using ex_trace_runs concurrency_limit [of 1 ex_trace] by blast



text \<open>Where \<open>Run\<close> goes on after it has killed its run.\<close>

fun resume_pc :: "after_kill \<Rightarrow> run_pc" where
  "resume_pc ThenRecv = Recv"
| "resume_pc ThenHead = Head"
| "resume_pc ThenReturn = Exited"

lemma outer_resumes:
  assumes "\<not> sy_panic s" and "i < length (sy_runs s)" and "rn_pc (sy_runs s ! i) = WaitDone c" and "done_ready (sy_runs s ! i)"
  shows "\<exists>s'. steps s [Outer i] = Some s' \<and> rn_pc (sy_runs s' ! i) = resume_pc c"
  using assms by (cases c) (simp_all add: step_def control_defs)


definition ex_kill :: "label list" where
  "ex_kill = [GoRun 0, Outer 0, Outer 0, SendCtrl 0 jobStart, Ctrl 0, Outer 0, SendCtrl 0 jobDisable, Ctrl 0]"


definition ex_double_start :: "label list" where
  "ex_double_start =
     [SetState 0 stateDisabled, GoRun 0, SendCtrl 0 jobStart, GoRun 0,
      Outer 0, Outer 0, Outer 1, Outer 1, Ctrl 0, Outer 0, Acquire 0 0,
      SendCtrl 0 jobStart, Ctrl 1, Outer 1, Acquire 1 0]"

definition ex_halt :: "label list" where
  "ex_halt = [SendCtrl 0 jobHalt, Ctrl 0, WrapDone 0 0, Outer 0, Release 0 0]"

text \<open>Two start commands for a disabled job: as the worker calls \<open>go job.Run\<close> whenever the
  state it reads is \<open>stateDisabled\<close>, and the state only changes when the new goroutine has received
  its first command, a second command that arrives before that starts a second goroutine.  Both then
  run the same job at the same time, and a single \<open>jobHalt\<close> leaves the wait group at one.\<close>

theorem double_start_overlaps:
  "\<exists>s s'. steps (init_sys 4) ex_double_start = Some s \<and> map rn_job (sy_runs s) = [0, 0] \<and>
     map (count_pc in_wrapper) (sy_runs s) = [1, 1] \<and>
     steps s ex_halt = Some s' \<and> sy_wg s' = 1 \<and> sy_ctrl s' 0 = [] \<and> wrapping s' = 1"
  by (simp add: ex_double_start_def ex_halt_def exec_defs count_pc_def wrapping_def total_def)

definition ex_late_bypass :: "label list" where
  "ex_late_bypass =
     [GoRun 0, GoRun 1, Outer 0, Outer 0, Outer 1, Outer 1, SendCtrl 0 jobStart, Ctrl 0, Outer 0, Acquire 0 0,
      SendCtrl 0 jobForceStart, Ctrl 0, WrapDone 0 0, Outer 0, Release 0 0,
      SendCtrl 1 jobStart, Ctrl 1, Outer 1, Acquire 1 0,
      SendCtrl 0 jobStart, Ctrl 0, Outer 0, Bypass 0 0]"

text \<open>A forced start of a job that is already running is remembered: the token stays in
  \<open>bypassSemaphore\<close>, and a later run, started in the ordinary way while every slot is taken by another
  job, uses it to pass the limit.\<close>

theorem force_token_survives:
  "\<exists>s. steps (init_sys 1) ex_late_bypass = Some s \<and> wrapping s = 2 \<and> sy_sem s = 1"
  by (simp add: ex_late_bypass_def exec_defs count_pc_def wrapping_def total_def)

end
