(* ===== verification/Worker_Core.thy ===== *)
theory Worker_Core
  imports Schedule_Queue Config_Diff Provider Job_Control
begin

section \<open>The worker (worker/worker.go)\<close>

text \<open>
  The handlers of a worker: creation, the HTTP commands of the manager, the schedule loop, the hot
  reload of the configuration, halting, and the reports to the managers.  Jobs are pointers in the code
  (the map \<open>jobs\<close> and the schedule queue share them), so the worker has a store \<open>wk_heap\<close> from
  addresses to jobs; the queue holds addresses, and the name of a queued job is read through the store.

  A handler is a function of the worker that returns its answer, the effects it has outside the worker
  in their order (\<open>effect\<close>: goroutines started, control actions sent, reports posted) and the new
  worker.  Handlers hold the lock \<open>L\<close>, so they are atomic here; the message handler only holds it for
  its lookup and is split there (\<open>message_check\<close>, \<open>message_finish\<close>); what a job's own goroutine does between them is \<open>Job_Control\<close>, from which
  \<open>disableJob\<close> takes that the job is disabled when the wait for \<open>job.disabled\<close> is over.
  The iteration order of the map \<open>jobs\<close>, the clock, the answers of HTTP requests and the functions
  of \<open>prov_env\<close> are parameters; a panic of \<open>newMirrorProvider\<close> or \<open>diffMirrorConfig\<close> is \<open>None\<close>.

  Shown: an invariant of the worker under every handler and every change a job's goroutine can make
  (every name is bound to a job of that name, the queue holds only current jobs, each at most once,
  and never a disabled one), what a reload makes of every job, the answer and effects of every
  command, what a status message does, and where the jobs stand after start-up.
\<close>

subsection \<open>Jobs\<close>

record 'r mirrorJob =
  mj_provider :: "'r provider"
  mj_state :: jobState
  mj_size :: string

definition newMirrorJob :: "'r provider \<Rightarrow> 'r mirrorJob" where
  "newMirrorJob p = \<lparr>mj_provider = p, mj_state = stateNone, mj_size = ''''\<rparr>"

definition job_Name :: "'r mirrorJob \<Rightarrow> string" where
  "job_Name j = Name (mj_provider j)"

fun state_number :: "jobState \<Rightarrow> nat" where
  "state_number stateNone = 0"
| "state_number stateReady = 1"
| "state_number statePaused = 2"
| "state_number stateDisabled = 3"
| "state_number stateHalting = 4"

definition SetProvider :: "'r provider \<Rightarrow> 'r mirrorJob \<Rightarrow> goerror + 'r mirrorJob" where
  "SetProvider p j =
     (if mj_state j \<noteq> stateNone \<and> mj_state j \<noteq> stateDisabled
      then Inl (''Provider cannot be switched when job state is '' @ show_nat (state_number (mj_state j)))
      else Inr (j\<lparr>mj_provider := p\<rparr>))"

subsection \<open>The worker and its effects\<close>

datatype payload = PStatus MirrorStatus | PSchedules MirrorSchedules | PWorker WorkerStatus

datatype effect =
    Go nat
  | SendTo nat ctrlAction
  | AwaitDisabled nat
  | AwaitJobsDone
  | CloseExit
  | Sighup
  | Post string payload

record ('r, 'l) Worker =
  wk_cfg :: Config
  wk_heap :: "nat \<Rightarrow> 'r mirrorJob"
  wk_next :: nat
  wk_jobs :: "string \<rightharpoonup> nat"
  wk_schedule :: "'l scheduleQueue"

definition nm :: "('r, 'l) Worker \<Rightarrow> nat \<Rightarrow> string" where
  "nm w i = job_Name (wk_heap w i)"

definition upd_job :: "nat \<Rightarrow> ('r mirrorJob \<Rightarrow> 'r mirrorJob) \<Rightarrow> ('r, 'l) Worker \<Rightarrow> ('r, 'l) Worker" where
  "upd_job i f w = w\<lparr>wk_heap := (wk_heap w)(i := f (wk_heap w i))\<rparr>"

definition SetState :: "nat \<Rightarrow> jobState \<Rightarrow> ('r, 'l) Worker \<Rightarrow> ('r, 'l) Worker" where
  "SetState i st w = upd_job i (\<lambda>j. j\<lparr>mj_state := st\<rparr>) w"

definition add_job :: "('l, nat) skiplist \<Rightarrow> gtime \<Rightarrow> nat \<Rightarrow> ('r, 'l) Worker \<Rightarrow> ('r, 'l) Worker" where
  "add_job S t i w = w\<lparr>wk_schedule := AddJob S (nm w) t i (wk_schedule w)\<rparr>"

definition remove_job :: "('l, nat) skiplist \<Rightarrow> string \<Rightarrow> ('r, 'l) Worker \<Rightarrow> ('r, 'l) Worker" where
  "remove_job S name w = w\<lparr>wk_schedule := snd (Remove S (nm w) name (wk_schedule w))\<rparr>"

text \<open>\<open>w.jobs[provider.Name()] = newMirrorJob(provider)\<close>: the address of the new job.\<close>

definition create_job :: "'r provider \<Rightarrow> ('r, 'l) Worker \<Rightarrow> nat \<times> ('r, 'l) Worker" where
  "create_job p w =
     (let i = wk_next w in
      (i, w\<lparr>wk_heap := (wk_heap w)(i := newMirrorJob p), wk_next := Suc i, wk_jobs := (wk_jobs w)(Name p \<mapsto> i)\<rparr>))"

subsection \<open>Creation\<close>

text \<open>The loop of \<open>initJobs\<close>; the mirrors done so far carry the environments the constructors left in
  them.\<close>

fun init_loop :: "'r prov_env \<Rightarrow> mirrorConfig list \<Rightarrow> mirrorConfig list \<Rightarrow> ('r, 'l) Worker \<Rightarrow> ('r, 'l) Worker option" where
  "init_loop E ready [] w = Some (w\<lparr>wk_cfg := (wk_cfg w)\<lparr>cf_Mirrors := ready\<rparr>\<rparr>)"
| "init_loop E ready (mirror # ms) w =
     (case newMirrorProvider E mirror (wk_cfg w) of
        None \<Rightarrow> None
      | Some (p, mirror') \<Rightarrow> init_loop E (ready @ [mirror']) ms (snd (create_job p w)))"

definition initJobs :: "'r prov_env \<Rightarrow> ('r, 'l) Worker \<Rightarrow> ('r, 'l) Worker option" where
  "initJobs E w = init_loop E [] (cf_Mirrors (wk_cfg w)) w"

text \<open>\<open>Some None\<close> is the result \<open>nil\<close>, after an error of the HTTP client or of the control groups;
  \<open>h\<close> is the store before the worker exists.\<close>

definition NewTUNASyncWorker :: "'r prov_env \<Rightarrow> ('l, nat) skiplist \<Rightarrow> goerror option \<Rightarrow> goerror option \<Rightarrow>
    (nat \<Rightarrow> 'r mirrorJob) \<Rightarrow> Config \<Rightarrow> ('r, 'l) Worker option option" where
  "NewTUNASyncWorker E S clientErr cgroupErr h cfg =
     (let cfg = (if gc_Retry (cf_Global cfg) = 0
                 then cfg\<lparr>cf_Global := (cf_Global cfg)\<lparr>gc_Retry := defaultMaxRetry\<rparr>\<rparr> else cfg);
          w = \<lparr>wk_cfg = cfg, wk_heap = h, wk_next = 0, wk_jobs = Map.empty, wk_schedule = newScheduleQueue S\<rparr>
      in if mgc_CACert (cf_Manager cfg) \<noteq> '''' \<and> clientErr \<noteq> None then Some None
         else if cg_Enable (cf_Cgroup cfg) \<and> cgroupErr \<noteq> None then Some None
         else map_option Some (initJobs E w))"

subsection \<open>Reports to the managers\<close>

definition worker_Name :: "('r, 'l) Worker \<Rightarrow> string" where
  "worker_Name w = gc_Name (cf_Global (wk_cfg w))"

definition URL :: "('r, 'l) Worker \<Rightarrow> string" where
  "URL w =
     (let s = cf_Server (wk_cfg w);
          proto = (if sv_SSLCert s = '''' \<and> sv_SSLKey s = '''' then ''http'' else ''https'')
      in proto @ ''://'' @ sv_Hostname s @ '':'' @ show_int (sv_Port s) @ ''/'')"

text \<open>\<open>answer url k\<close> says whether the \<open>k\<close>-th attempt to register at \<open>url\<close> succeeds.\<close>

fun register_retries :: "(nat \<Rightarrow> bool) \<Rightarrow> string \<Rightarrow> WorkerStatus \<Rightarrow> nat \<Rightarrow> effect list" where
  "register_retries answer url msg 0 = []"
| "register_retries answer url msg (Suc retry) =
     Post url (PWorker msg) # (if answer (9 - retry) then [] else register_retries answer url msg retry)"

definition worker_registerWorker :: "(string \<Rightarrow> nat \<Rightarrow> bool) \<Rightarrow> ('r, 'l) Worker \<Rightarrow> effect list" where
  "worker_registerWorker answer w =
     (let msg = zero_WorkerStatus\<lparr>ws_ID := worker_Name w, ws_URL := URL w\<rparr> in
      concat (map (\<lambda>root. let url = root @ ''/workers'' in register_retries (answer url) url msg 10)
        (APIBaseList (cf_Manager (wk_cfg w)))))"

definition updateStatus :: "('r, 'l) Worker \<Rightarrow> nat \<Rightarrow> jobMessage \<Rightarrow> effect list" where
  "updateStatus w i jobMsg =
     (let p = mj_provider (wk_heap w i);
          smsg = zero_MirrorStatus\<lparr>ms_Name := jm_name jobMsg, ms_Worker := worker_Name w, ms_IsMaster := IsMaster p,
            ms_Status := jm_status jobMsg, ms_Upstream := Upstream p,
            ms_Size := (if length (mj_size (wk_heap w i)) \<noteq> 0 then mj_size (wk_heap w i) else ''unknown''),
            ms_ErrorMsg := jm_msg jobMsg\<rparr>
      in map (\<lambda>root. Post (root @ ''/workers/'' @ worker_Name w @ ''/jobs/'' @ jm_name jobMsg) (PStatus smsg))
           (APIBaseList (cf_Manager (wk_cfg w))))"

definition updateSchedInfo :: "('r, 'l) Worker \<Rightarrow> jobScheduleInfo list \<Rightarrow> effect list" where
  "updateSchedInfo w schedInfo =
     (let s = map (\<lambda>sched. \<lparr>sc_MirrorName = jsi_jobName sched, sc_NextSchedule = jsi_nextScheduled sched\<rparr>) schedInfo in
      map (\<lambda>root. Post (root @ ''/workers/'' @ worker_Name w @ ''/schedules'') (PSchedules s))
        (APIBaseList (cf_Manager (wk_cfg w))))"

definition report_schedule :: "('l, nat) skiplist \<Rightarrow> ('r, 'l) Worker \<Rightarrow> effect list" where
  "report_schedule S w = updateSchedInfo w (GetJobs S (nm w) (wk_schedule w))"

text \<open>\<open>get url\<close> is what \<open>GetJSON\<close> leaves in the list, an empty or partial one after an error.\<close>

definition fetchJobStatus :: "(string \<Rightarrow> MirrorStatus list) \<Rightarrow> ('r, 'l) Worker \<Rightarrow> MirrorStatus list" where
  "fetchJobStatus get w = get (hd (APIBaseList (cf_Manager (wk_cfg w))) @ ''/workers/'' @ worker_Name w @ ''/jobs'')"

subsection \<open>Commands\<close>

definition disableJob :: "('l, nat) skiplist \<Rightarrow> nat \<Rightarrow> ('r, 'l) Worker \<Rightarrow> effect list \<times> ('r, 'l) Worker" where
  "disableJob S i w =
     (let w1 = remove_job S (nm w i) w in
      if mj_state (wk_heap w1 i) \<noteq> stateDisabled
      then ([SendTo i jobDisable, AwaitDisabled i], SetState i stateDisabled w1)
      else ([], w1))"

definition job_command :: "('l, nat) skiplist \<Rightarrow> WorkerCmd \<Rightarrow> nat \<Rightarrow> ('r, 'l) Worker \<Rightarrow> (nat \<times> string) \<times> effect list \<times> ('r, 'l) Worker" where
  "job_command S cmd i w =
     (let w1 = remove_job S (nm w i) w;
          disabled = (mj_state (wk_heap w1 i) = stateDisabled);
          started = (if (wc_Cmd cmd = CmdStart \<or> wc_Cmd cmd = CmdRestart) \<and> disabled then [Go i] else [])
      in case wc_Cmd cmd of
           CmdStart \<Rightarrow> ((200, ''OK''), started @ [SendTo i (if wc_option cmd ''force'' then jobForceStart else jobStart)], w1)
         | CmdRestart \<Rightarrow> ((200, ''OK''), started @ [SendTo i jobRestart], w1)
         | CmdStop \<Rightarrow> ((200, ''OK''), (if disabled then [] else [SendTo i jobStop]), w1)
         | CmdDisable \<Rightarrow> (case disableJob S i w1 of (es, w2) \<Rightarrow> ((200, ''OK''), es, w2))
         | CmdPing \<Rightarrow> ((200, ''OK''), [], w1)
         | _ \<Rightarrow> ((406, ''Invalid Command''), [], w1))"

definition handle_command :: "('l, nat) skiplist \<Rightarrow> WorkerCmd with_err \<Rightarrow> ('r, 'l) Worker \<Rightarrow> (nat \<times> string) \<times> effect list \<times> ('r, 'l) Worker" where
  "handle_command S req w =
     (case req of (cmd, err) \<Rightarrow>
      if err \<noteq> None then ((400, ''Invalid request''), [], w)
      else if wc_MirrorID cmd = '''' \<and> wc_Cmd cmd \<noteq> CmdReload then ((406, ''Invalid Command''), [], w)
      else
        (let es = (if wc_MirrorID cmd = '''' then [Sighup] else []) in
         case wk_jobs w (wc_MirrorID cmd) of
           None \<Rightarrow> ((404, ''Mirror ``'' @ wc_MirrorID cmd @ [CHR 0x27, CHR 0x27] @ '' not found''), es, w)
         | Some i \<Rightarrow> (case job_command S cmd i w of (r, es', w') \<Rightarrow> (r, es @ es', w'))))"

subsection \<open>Reload\<close>

text \<open>A provider built from an element of the new list writes its credentials into the environment map of
  that element.\<close>

fun share_env :: "mirrorConfig \<Rightarrow> mirrorConfig \<Rightarrow> mirrorConfig list \<Rightarrow> mirrorConfig list" where
  "share_env m m' [] = []"
| "share_env m m' (c # cs) = (if c = m then m' # cs else c # share_env m m' cs)"

text \<open>The first loop: deletions and modifications.  \<open>clock k\<close> is the time of the \<open>k\<close>-th operation.\<close>

definition reload_delete :: "('l, nat) skiplist \<Rightarrow> string \<Rightarrow> nat \<Rightarrow> ('r, 'l) Worker \<Rightarrow> effect list \<times> ('r, 'l) Worker" where
  "reload_delete S name i w =
     (case disableJob S i w of (es, w1) \<Rightarrow> (es, w1\<lparr>wk_jobs := (wk_jobs w1)(name := None)\<rparr>))"

definition reload_modify :: "'r prov_env \<Rightarrow> ('l, nat) skiplist \<Rightarrow> gtime \<Rightarrow> mirrorConfig \<Rightarrow> nat \<Rightarrow> ('r, 'l) Worker \<Rightarrow>
    (effect list \<times> mirrorConfig \<times> ('r, 'l) Worker) option" where
  "reload_modify E S now mirror i w =
     (let jobState = mj_state (wk_heap w i) in
      case disableJob S i w of (es, w1) \<Rightarrow>
      case newMirrorProvider E mirror (wk_cfg w1) of
        None \<Rightarrow> None
      | Some (p, mirror') \<Rightarrow>
          (case SetProvider p (wk_heap w1 i) of
             Inl e \<Rightarrow> Some (es, mirror', w1)
           | Inr job \<Rightarrow>
               (let w2 = upd_job i (\<lambda>_. job) w1 in
                Some (if jobState = stateDisabled then (es, mirror', SetState i stateDisabled w2)
                      else if jobState = statePaused then (es @ [Go i], mirror', SetState i statePaused w2)
                      else (es @ [Go i], mirror', add_job S now i (SetState i stateNone w2))))))"

definition reload_op :: "'r prov_env \<Rightarrow> ('l, nat) skiplist \<Rightarrow> gtime \<Rightarrow> mirrorCfgTrans \<Rightarrow> mirrorConfig list \<Rightarrow>
    ('r, 'l) Worker \<Rightarrow> (effect list \<times> mirrorConfig list \<times> ('r, 'l) Worker) option" where
  "reload_op E S now op new w =
     (case (diffOp op, wk_jobs w (mc_Name (mirCfg op))) of
        (diffDelete, Some i) \<Rightarrow> (case reload_delete S (mc_Name (mirCfg op)) i w of (es, w1) \<Rightarrow> Some (es, new, w1))
      | (diffModify, Some i) \<Rightarrow>
          (case reload_modify E S now (mirCfg op) i w of
             None \<Rightarrow> None
           | Some (es, c, w1) \<Rightarrow> Some (es, share_env (mirCfg op) c new, w1))
      | _ \<Rightarrow> Some ([], new, w))"

fun reload_changes :: "'r prov_env \<Rightarrow> ('l, nat) skiplist \<Rightarrow> (nat \<Rightarrow> gtime) \<Rightarrow> nat \<Rightarrow> mirrorCfgTrans list \<Rightarrow> mirrorConfig list \<Rightarrow>
    ('r, 'l) Worker \<Rightarrow> (effect list \<times> mirrorConfig list \<times> ('r, 'l) Worker) option" where
  "reload_changes E S clock k [] new w = Some ([], new, w)"
| "reload_changes E S clock k (op # ops) new w =
     (case reload_op E S (clock k) op new w of
        None \<Rightarrow> None
      | Some (es, new1, w1) \<Rightarrow>
          (case reload_changes E S clock (Suc k) ops new1 w1 of
             None \<Rightarrow> None
           | Some (es', new2, w2) \<Rightarrow> Some (es @ es', new2, w2)))"

text \<open>The second loop: additions.\<close>

definition reload_add :: "('l, nat) skiplist \<Rightarrow> gtime \<Rightarrow> 'r provider \<Rightarrow> ('r, 'l) Worker \<Rightarrow> effect list \<times> ('r, 'l) Worker" where
  "reload_add S now p w =
     (case create_job p w of (i, w1) \<Rightarrow> ([Go i], add_job S now i (SetState i stateNone w1)))"

fun reload_adds :: "'r prov_env \<Rightarrow> ('l, nat) skiplist \<Rightarrow> (nat \<Rightarrow> gtime) \<Rightarrow> nat \<Rightarrow> mirrorCfgTrans list \<Rightarrow> mirrorConfig list \<Rightarrow>
    ('r, 'l) Worker \<Rightarrow> (effect list \<times> mirrorConfig list \<times> ('r, 'l) Worker) option" where
  "reload_adds E S clock k [] new w = Some ([], new, w)"
| "reload_adds E S clock k (op # ops) new w =
     (if diffOp op \<noteq> diffAdd then reload_adds E S clock k ops new w
      else
        (case newMirrorProvider E (mirCfg op) (wk_cfg w) of
           None \<Rightarrow> None
         | Some (p, c) \<Rightarrow>
             (case reload_add S (clock k) p w of (es, w1) \<Rightarrow>
              case reload_adds E S clock (Suc k) ops (share_env (mirCfg op) c new) w1 of
                None \<Rightarrow> None
              | Some (es', new2, w2) \<Rightarrow> Some (es @ es', new2, w2))))"

definition ReloadMirrorConfig :: "'r prov_env \<Rightarrow> ('l, nat) skiplist \<Rightarrow> (nat \<Rightarrow> gtime) \<Rightarrow> mirrorConfig list \<Rightarrow> ('r, 'l) Worker \<Rightarrow>
    (effect list \<times> ('r, 'l) Worker) option" where
  "ReloadMirrorConfig E S clock newMirrors w =
     (case diffMirrorConfig (cf_Mirrors (wk_cfg w)) newMirrors of
        None \<Rightarrow> None
      | Some difference \<Rightarrow>
          (case reload_changes E S clock 0 difference newMirrors w of
             None \<Rightarrow> None
           | Some (es, new1, w1) \<Rightarrow>
               (case reload_adds E S clock (length difference) difference new1 w1 of
                  None \<Rightarrow> None
                | Some (es', new2, w2) \<Rightarrow> Some (es @ es', w2\<lparr>wk_cfg := (wk_cfg w2)\<lparr>cf_Mirrors := new2\<rparr>\<rparr>))))"

subsection \<open>The schedule loop\<close>

text \<open>Start-up, first the jobs the manager knows: one entry of its list, then the loop, with what remains
  of \<open>unset\<close>.\<close>

definition start_entry :: "('l, nat) skiplist \<Rightarrow> MirrorStatus \<Rightarrow> nat \<Rightarrow> ('r, 'l) Worker \<Rightarrow> effect list \<times> ('r, 'l) Worker" where
  "start_entry S m i w =
     (case ms_Status m of
        Disabled \<Rightarrow> ([], SetState i stateDisabled w)
      | Paused \<Rightarrow> ([Go i], SetState i statePaused w)
      | _ \<Rightarrow> (let w1 = SetState i stateNone w in
              ([Go i], add_job S (ms_LastUpdate m + Interval (mj_provider (wk_heap w1 i))) i w1)))"

fun start_known :: "('l, nat) skiplist \<Rightarrow> MirrorStatus list \<Rightarrow> string set \<Rightarrow> ('r, 'l) Worker \<Rightarrow> effect list \<times> string set \<times> ('r, 'l) Worker" where
  "start_known S [] unset w = ([], unset, w)"
| "start_known S (m # mirrorList) unset w =
     (case wk_jobs w (ms_Name m) of
        None \<Rightarrow> start_known S mirrorList unset w
      | Some i \<Rightarrow>
          (case start_entry S m i w of
             (es, w1) \<Rightarrow>
               (case start_known S mirrorList (unset - {ms_Name m}) w1 of (es', rest) \<Rightarrow> (es @ es', rest))))"

text \<open>Then the others, in the order in which the map \<open>unset\<close> is ranged over.\<close>

fun start_new :: "('l, nat) skiplist \<Rightarrow> (nat \<Rightarrow> gtime) \<Rightarrow> nat \<Rightarrow> string list \<Rightarrow> ('r, 'l) Worker \<Rightarrow> effect list \<times> ('r, 'l) Worker" where
  "start_new S clock k [] w = ([], w)"
| "start_new S clock k (name # ns) w =
     (case wk_jobs w name of
        None \<Rightarrow> ([], w)
      | Some i \<Rightarrow>
          (case start_new S clock (Suc k) ns (add_job S (clock k) i (SetState i stateNone w)) of
             (es, w1) \<Rightarrow> (Go i # es, w1)))"

text \<open>\<open>order\<close> lists a set of names in the iteration order of the map.\<close>

definition start_jobs :: "('l, nat) skiplist \<Rightarrow> (nat \<Rightarrow> gtime) \<Rightarrow> (string set \<Rightarrow> string list) \<Rightarrow> MirrorStatus list \<Rightarrow> ('r, 'l) Worker \<Rightarrow> effect list \<times> ('r, 'l) Worker" where
  "start_jobs S clock order mirrorList w =
     (case start_known S mirrorList (dom (wk_jobs w)) w of
        (es, unset, w1) \<Rightarrow>
          (case start_new S clock 0 (order unset) w1 of
             (es', w2) \<Rightarrow> (es @ es' @ report_schedule S w2, w2)))"

text \<open>The three cases of the \<open>select\<close>: a status message, a tick, the exit.\<close>

text \<open>A message: the lookup, under the lock, and the test of the state; then, without the lock, the reports
  and the new schedule of the job that was found.\<close>

definition message_check :: "jobMessage \<Rightarrow> ('r, 'l) Worker \<Rightarrow> nat option" where
  "message_check jobMsg w =
     (case wk_jobs w (jm_name jobMsg) of
        None \<Rightarrow> None
      | Some i \<Rightarrow>
          (if mj_state (wk_heap w i) \<noteq> stateReady \<and> mj_state (wk_heap w i) \<noteq> stateHalting then None else Some i))"

definition message_finish :: "('l, nat) skiplist \<Rightarrow> gtime \<Rightarrow> jobMessage \<Rightarrow> nat \<Rightarrow> ('r, 'l) Worker \<Rightarrow> effect list \<times> ('r, 'l) Worker" where
  "message_finish S now jobMsg i w =
     (let es = updateStatus w i jobMsg;
          w1 = (if jm_schedule jobMsg then add_job S (now + Interval (mj_provider (wk_heap w i))) i w else w)
      in (es @ report_schedule S w1, w1))"

definition status_message_received :: "('l, nat) skiplist \<Rightarrow> gtime \<Rightarrow> jobMessage \<Rightarrow> ('r, 'l) Worker \<Rightarrow> effect list \<times> ('r, 'l) Worker" where
  "status_message_received S now jobMsg w =
     (case message_check jobMsg w of None \<Rightarrow> ([], w) | Some i \<Rightarrow> message_finish S now jobMsg i w)"

definition tick :: "('l, nat) skiplist \<Rightarrow> gtime \<Rightarrow> ('r, 'l) Worker \<Rightarrow> effect list \<times> ('r, 'l) Worker" where
  "tick S now w =
     (case Pop S (nm w) now (wk_schedule w) of
        (None, q) \<Rightarrow> ([], w\<lparr>wk_schedule := q\<rparr>)
      | (Some i, q) \<Rightarrow> ([SendTo i jobStart], w\<lparr>wk_schedule := q\<rparr>))"

text \<open>The messages still in the channel when the worker exits.\<close>

fun flush_messages :: "('r, 'l) Worker \<Rightarrow> jobMessage list \<Rightarrow> effect list" where
  "flush_messages w [] = []"
| "flush_messages w (jobMsg # ms) =
     (case wk_jobs w (jm_name jobMsg) of
        None \<Rightarrow> flush_messages w ms
      | Some i \<Rightarrow>
          (if jm_status jobMsg = Failed \<or> jm_status jobMsg = Success then updateStatus w i jobMsg else []) @ flush_messages w ms)"

text \<open>\<open>Halt\<close>, with the iteration order of \<open>jobs\<close>.\<close>

definition Halt :: "string list \<Rightarrow> ('r, 'l) Worker \<Rightarrow> effect list" where
  "Halt order w =
     concat (map (\<lambda>name. case wk_jobs w name of
         None \<Rightarrow> []
       | Some i \<Rightarrow> if mj_state (wk_heap w i) \<noteq> stateDisabled then [SendTo i jobHalt] else []) order) @
     [AwaitJobsDone, CloseExit]"

subsection \<open>The invariant\<close>

definition slots :: "('l, nat) skiplist \<Rightarrow> ('r, 'l) Worker \<Rightarrow> gtime \<rightharpoonup> nat" where
  "slots S w = q_slots S (wk_schedule w)"

definition unscheduled :: "('l, nat) skiplist \<Rightarrow> ('r, 'l) Worker \<Rightarrow> string \<Rightarrow> bool" where
  "unscheduled S w name \<longleftrightarrow> (\<forall>t i. slots S w t = Some i \<longrightarrow> nm w i \<noteq> name)"

text \<open>Every name is bound to an allocated job of that name; the queue is well-formed and holds only the
  current job of a name, which is not disabled.\<close>

definition worker_inv :: "('l, nat) skiplist \<Rightarrow> ('l \<Rightarrow> bool) \<Rightarrow> ('r, 'l) Worker \<Rightarrow> bool" where
  "worker_inv S ok w \<longleftrightarrow>
     queue_inv S ok (nm w) (wk_schedule w) \<and>
     (\<forall>name i. wk_jobs w name = Some i \<longrightarrow> i < wk_next w \<and> nm w i = name) \<and>
     (\<forall>t i. slots S w t = Some i \<longrightarrow> wk_jobs w (nm w i) = Some i \<and> mj_state (wk_heap w i) \<noteq> stateDisabled)"

lemma worker_invD:
  assumes "worker_inv S ok w"
  shows "queue_inv S ok (nm w) (wk_schedule w)"
    and "wk_jobs w name = Some i \<Longrightarrow> i < wk_next w" and "wk_jobs w name = Some i \<Longrightarrow> nm w i = name"
    and "slots S w t = Some i \<Longrightarrow> wk_jobs w (nm w i) = Some i"
    and "slots S w t = Some i \<Longrightarrow> mj_state (wk_heap w i) \<noteq> stateDisabled"
  using assms by (simp_all add: worker_inv_def)

lemma worker_invI:
  assumes "queue_inv S ok (nm w) (wk_schedule w)"
    and "\<And>name i. wk_jobs w name = Some i \<Longrightarrow> i < wk_next w \<and> nm w i = name"
    and "\<And>t i. slots S w t = Some i \<Longrightarrow> wk_jobs w (nm w i) = Some i \<and> mj_state (wk_heap w i) \<noteq> stateDisabled"
  shows "worker_inv S ok w"
  using assms by (simp add: worker_inv_def)

text \<open>Two names are never bound to the same job.\<close>

lemma jobs_inject: "worker_inv S ok w \<Longrightarrow> wk_jobs w n = Some i \<Longrightarrow> wk_jobs w n' = Some i \<Longrightarrow> n = n'"
  using worker_invD(3) by blast

lemma upd_job_fields [simp]:
  "wk_cfg (upd_job i f w) = wk_cfg w" "wk_jobs (upd_job i f w) = wk_jobs w" "wk_next (upd_job i f w) = wk_next w"
  "wk_schedule (upd_job i f w) = wk_schedule w" "slots S (upd_job i f w) = slots S w"
  "wk_heap (upd_job i f w) = (wk_heap w)(i := f (wk_heap w i))"
  by (simp_all add: upd_job_def slots_def)

lemma SetState_fields [simp]:
  "wk_cfg (SetState i st w) = wk_cfg w" "wk_jobs (SetState i st w) = wk_jobs w" "wk_next (SetState i st w) = wk_next w"
  "wk_schedule (SetState i st w) = wk_schedule w" "slots S (SetState i st w) = slots S w"
  "wk_heap (SetState i st w) = (wk_heap w)(i := (wk_heap w i)\<lparr>mj_state := st\<rparr>)" "nm (SetState i st w) = nm w"
  by (simp_all add: SetState_def nm_def job_Name_def fun_eq_iff)

lemma schedule_fields [simp]:
  "wk_cfg (add_job S t i w) = wk_cfg w" "wk_jobs (add_job S t i w) = wk_jobs w" "wk_next (add_job S t i w) = wk_next w"
  "wk_heap (add_job S t i w) = wk_heap w" "nm (add_job S t i w) = nm w"
  "wk_cfg (remove_job S n w) = wk_cfg w" "wk_jobs (remove_job S n w) = wk_jobs w" "wk_next (remove_job S n w) = wk_next w"
  "wk_heap (remove_job S n w) = wk_heap w" "nm (remove_job S n w) = nm w"
  by (simp_all add: add_job_def remove_job_def nm_def fun_eq_iff)

lemma create_job_fields [simp]:
  "fst (create_job p w) = wk_next w" "wk_cfg (snd (create_job p w)) = wk_cfg w"
  "wk_jobs (snd (create_job p w)) = (wk_jobs w)(Name p \<mapsto> wk_next w)" "wk_next (snd (create_job p w)) = Suc (wk_next w)"
  "wk_heap (snd (create_job p w)) = (wk_heap w)(wk_next w := newMirrorJob p)"
  "wk_schedule (snd (create_job p w)) = wk_schedule w" "slots S (snd (create_job p w)) = slots S w"
  "nm (snd (create_job p w)) = (nm w)(wk_next w := Name p)"
  by (simp_all add: create_job_def Let_def slots_def nm_def job_Name_def newMirrorJob_def fun_eq_iff)

lemma slots_add_job:
  assumes "worker_inv S ok w"
  shows "slots S (add_job S t i w) = (without (nm w) (nm w i) (slots S w))(t \<mapsto> i)"
  using sq.add [OF worker_invD(1) [OF assms]] by (simp add: slots_def add_job_def)

lemma slots_remove_job:
  assumes "worker_inv S ok w"
  shows "slots S (remove_job S n w) = without (nm w) n (slots S w)"
  using sq.remove [OF worker_invD(1) [OF assms]] by (simp add: slots_def remove_job_def)

lemma add_job_inv [invs]:
  assumes "worker_inv S ok w" and "wk_jobs w (nm w i) = Some i" and "mj_state (wk_heap w i) \<noteq> stateDisabled"
  shows "worker_inv S ok (add_job S t i w)"
proof (rule worker_invI)
  show "queue_inv S ok (nm (add_job S t i w)) (wk_schedule (add_job S t i w))"
    using sq.add [OF worker_invD(1) [OF assms(1)]] by (simp add: add_job_def nm_def [abs_def])
next
  fix u k
  assume "slots S (add_job S t i w) u = Some k"
  then have "k = i \<or> slots S w u = Some k" by (auto simp: slots_add_job [OF assms(1)] without_apply split: if_splits)
  then show "wk_jobs (add_job S t i w) (nm (add_job S t i w) k) = Some k \<and> mj_state (wk_heap (add_job S t i w) k) \<noteq> stateDisabled"
    using assms(2,3) worker_invD(4,5) [OF assms(1)] by auto
qed (simp add: worker_invD(2,3) [OF assms(1)])

lemma remove_job_inv [invs]:
  assumes "worker_inv S ok w"
  shows "worker_inv S ok (remove_job S n w)"
proof (rule worker_invI)
  show "queue_inv S ok (nm (remove_job S n w)) (wk_schedule (remove_job S n w))"
    using sq.remove [OF worker_invD(1) [OF assms]] by (simp add: remove_job_def nm_def [abs_def])
qed (auto simp: slots_remove_job [OF assms] without_apply dest: worker_invD(2-5) [OF assms])

lemma unscheduled_remove: "worker_inv S ok w \<Longrightarrow> unscheduled S (remove_job S n w) n"
  by (simp add: unscheduled_def slots_remove_job without_apply)

lemma upd_job_inv [invs]:
  assumes "worker_inv S ok w" and "job_Name (f (wk_heap w i)) = nm w i"
    and "mj_state (f (wk_heap w i)) = stateDisabled \<Longrightarrow> unscheduled S w (nm w i)"
  shows "worker_inv S ok (upd_job i f w)"
proof -
  have n: "nm (upd_job i f w) = nm w" using assms(2) by (auto simp: nm_def fun_eq_iff)
  show ?thesis
  proof (rule worker_invI)
    fix t k
    assume k: "slots S (upd_job i f w) t = Some k"
    then have "mj_state (f (wk_heap w i)) \<noteq> stateDisabled" if "k = i" using that assms(3) by (auto simp: unscheduled_def)
    with k show "wk_jobs (upd_job i f w) (nm (upd_job i f w) k) = Some k \<and> mj_state (wk_heap (upd_job i f w) k) \<noteq> stateDisabled"
      by (simp add: n worker_invD(4,5) [OF assms(1)])
  qed (simp_all add: n worker_invD(1-3) [OF assms(1)])
qed

lemma SetState_inv [invs]:
  assumes "worker_inv S ok w" and "st = stateDisabled \<Longrightarrow> unscheduled S w (nm w i)"
  shows "worker_inv S ok (SetState i st w)"
  unfolding SetState_def by (rule upd_job_inv [OF assms(1)]) (use assms(2) in \<open>auto simp: nm_def job_Name_def\<close>)

lemma create_job_inv [invs]:
  assumes "worker_inv S ok w" and "unscheduled S w (Name p)"
  shows "worker_inv S ok (snd (create_job p w))"
proof (rule worker_invI)
  have old: "i \<noteq> wk_next w" if "slots S w t = Some i" for t i
    using worker_invD(2) [OF assms(1) worker_invD(4) [OF assms(1) that]] by simp
  then show "queue_inv S ok (nm (snd (create_job p w))) (wk_schedule (snd (create_job p w)))"
    using worker_invD(1) [OF assms(1)] by (subst queue_inv_cong [where nm = "nm w"]) (auto simp: slots_def)
  show "wk_jobs (snd (create_job p w)) (nm (snd (create_job p w)) i) = Some i \<and> mj_state (wk_heap (snd (create_job p w)) i) \<noteq> stateDisabled"
    if "slots S (snd (create_job p w)) t = Some i" for t i
    using that old worker_invD(4,5) [OF assms(1)] assms(2) by (auto simp: unscheduled_def)
qed (use worker_invD(2,3) [OF assms(1)] in \<open>auto split: if_splits simp: less_Suc_eq\<close>)

subsection \<open>Commands keep the invariant\<close>

lemma disableJob_result:
  assumes "disableJob S i w = (es, w')"
  shows "wk_cfg w' = wk_cfg w" and "wk_jobs w' = wk_jobs w" and "wk_next w' = wk_next w" and "nm w' = nm w"
    and "wk_heap w' = (wk_heap w)(i := (wk_heap w i)\<lparr>mj_state := stateDisabled\<rparr>)"
    and "slots S w' = slots S (remove_job S (nm w i) w)"
    and "es = (if mj_state (wk_heap w i) = stateDisabled then [] else [SendTo i jobDisable, AwaitDisabled i])"
proof -
  have "(wk_heap w i)\<lparr>mj_state := stateDisabled\<rparr> = wk_heap w i" if "mj_state (wk_heap w i) = stateDisabled"
    using that by simp
  then show "wk_cfg w' = wk_cfg w" "wk_jobs w' = wk_jobs w" "wk_next w' = wk_next w" "nm w' = nm w"
    "wk_heap w' = (wk_heap w)(i := (wk_heap w i)\<lparr>mj_state := stateDisabled\<rparr>)"
    "slots S w' = slots S (remove_job S (nm w i) w)"
    "es = (if mj_state (wk_heap w i) = stateDisabled then [] else [SendTo i jobDisable, AwaitDisabled i])"
    using assms by (auto simp: disableJob_def Let_def split: if_splits)
qed

lemma disableJob_inv [invs]:
  assumes "worker_inv S ok w" and "disableJob S i w = (es, w')"
  shows "worker_inv S ok w'" and "unscheduled S w' (nm w i)"
proof -
  note r = remove_job_inv [OF assms(1), of "nm w i"]
  have u: "unscheduled S (remove_job S (nm w i) w) (nm w i)" by (rule unscheduled_remove [OF assms(1)])
  then have "worker_inv S ok (SetState i stateDisabled (remove_job S (nm w i) w))" by (intro SetState_inv [OF r]) simp
  with r show "worker_inv S ok w'" using assms(2) by (auto simp: disableJob_def Let_def split: if_splits)
  show "unscheduled S w' (nm w i)"
    using u disableJob_result(4,6) [OF assms(2)] by (simp add: unscheduled_def)
qed

lemma job_command_inv [invs]:
  assumes "worker_inv S ok w"
  shows "worker_inv S ok (snd (snd (job_command S cmd i w)))"
proof -
  note r = remove_job_inv [OF assms, of "nm w i"]
  have "worker_inv S ok (snd (disableJob S i (remove_job S (nm w i) w)))"
    by (rule disableJob_inv(1) [OF r surjective_pairing])
  with r show ?thesis by (simp add: job_command_def Let_def case_prod_beta split: CmdVerb.split)
qed

lemma handle_command_inv [invs]: "worker_inv S ok w \<Longrightarrow> worker_inv S ok (snd (snd (handle_command S req w)))"
  using job_command_inv [of S ok w] by (auto simp: handle_command_def Let_def split: prod.split option.split) (metis snd_conv)

lemma status_message_inv [invs]: "worker_inv S ok w \<Longrightarrow> worker_inv S ok (snd (status_message_received S now jobMsg w))"
  by (auto simp: status_message_received_def message_check_def message_finish_def Let_def worker_invD(3) split: option.split intro: add_job_inv)

lemma tick_slots:
  assumes "worker_inv S ok w"
  shows "slots S (snd (tick S now w)) \<subseteq>\<^sub>m slots S w" and "queue_inv S ok (nm w) (wk_schedule (snd (tick S now w)))"
    and "wk_jobs (snd (tick S now w)) = wk_jobs w" and "wk_heap (snd (tick S now w)) = wk_heap w"
    and "wk_next (snd (tick S now w)) = wk_next w" and "wk_cfg (snd (tick S now w)) = wk_cfg w"
proof -
  note q = worker_invD(1) [OF assms]
  have "q_slots S (snd (Pop S (nm w) now (wk_schedule w))) \<subseteq>\<^sub>m q_slots S (wk_schedule w) \<and>
    queue_inv S ok (nm w) (snd (Pop S (nm w) now (wk_schedule w)))"
    using sq.pop_step [OF q, of now] by (auto simp: map_le_def split: if_splits)
  then show "slots S (snd (tick S now w)) \<subseteq>\<^sub>m slots S w" and "queue_inv S ok (nm w) (wk_schedule (snd (tick S now w)))"
    by (auto simp: tick_def slots_def split: prod.splits option.splits)
qed (auto simp: tick_def split: prod.splits option.splits)

lemma tick_inv [invs]:
  assumes "worker_inv S ok w"
  shows "worker_inv S ok (snd (tick S now w))"
proof (rule worker_invI)
  note t = tick_slots [OF assms, of now]
  have n: "nm (snd (tick S now w)) = nm w" by (simp add: nm_def fun_eq_iff t(4))
  show "queue_inv S ok (nm (snd (tick S now w))) (wk_schedule (snd (tick S now w)))" using t(2) n by simp
  fix u i
  assume "slots S (snd (tick S now w)) u = Some i"
  then have "slots S w u = Some i" using t(1) by (metis domI map_le_def)
  then show "wk_jobs (snd (tick S now w)) (nm (snd (tick S now w)) i) = Some i \<and> mj_state (wk_heap (snd (tick S now w)) i) \<noteq> stateDisabled"
    using worker_invD(4,5) [OF assms] by (simp add: n t)
qed (simp_all add: nm_def tick_slots [OF assms] worker_invD(2,3) [OF assms, unfolded nm_def])

subsection \<open>An abstract view of the worker\<close>

text \<open>For every name: the address of its job, the job, and the instants at which it is scheduled.  On this
  view the operations of the worker are updates at one name, as long as no two jobs get the same
  instant.\<close>

definition starts :: "('l, nat) skiplist \<Rightarrow> ('r, 'l) Worker \<Rightarrow> string \<Rightarrow> gtime set" where
  "starts S w name = {t. \<exists>i. slots S w t = Some i \<and> nm w i = name}"

definition view :: "('l, nat) skiplist \<Rightarrow> ('r, 'l) Worker \<Rightarrow> string \<rightharpoonup> nat \<times> 'r mirrorJob \<times> gtime set" where
  "view S w name = map_option (\<lambda>i. (i, wk_heap w i, starts S w name)) (wk_jobs w name)"

lemma view_Some: "view S w name = Some (i, j, ts) \<longleftrightarrow> wk_jobs w name = Some i \<and> j = wk_heap w i \<and> ts = starts S w name"
  by (auto simp: view_def)

lemma view_None: "view S w name = None \<longleftrightarrow> wk_jobs w name = None"
  by (simp add: view_def)

lemma view_jobs: "wk_jobs w name = map_option fst (view S w name)"
  by (cases "wk_jobs w name") (simp_all add: view_def)

lemma view_NoneI [simp]: "wk_jobs w name = None \<Longrightarrow> view S w name = None"
  by (simp add: view_def)

lemma starts_cong: "slots S w' = slots S w \<Longrightarrow> nm w' = nm w \<Longrightarrow> starts S w' = starts S w"
  by (simp add: starts_def fun_eq_iff)

lemma starts_remove: "worker_inv S ok w \<Longrightarrow> starts S (remove_job S n w) = (starts S w)(n := {})"
  by (auto simp: starts_def slots_remove_job without_apply fun_eq_iff)

lemma starts_add:
  assumes "worker_inv S ok w" and "t \<notin> dom (slots S w)"
  shows "starts S (add_job S t i w) = (starts S w)(nm w i := {t})"
proof
  fix m
  have "slots S w t = None" using assms(2) by auto
  then show "starts S (add_job S t i w) m = ((starts S w)(nm w i := {t})) m"
    by (auto simp: starts_def slots_add_job [OF assms(1)] without_apply split: if_splits)
qed

lemma dom_slots_add: "worker_inv S ok w \<Longrightarrow> dom (slots S (add_job S t i w)) \<subseteq> insert t (dom (slots S w))"
  by (auto simp: slots_add_job without_apply dom_def split: if_splits)

lemma dom_slots_remove: "worker_inv S ok w \<Longrightarrow> dom (slots S (remove_job S n w)) \<subseteq> dom (slots S w)"
  by (auto simp: slots_remove_job without_apply dom_def)

lemma unscheduled_starts: "unscheduled S w n \<longleftrightarrow> starts S w n = {}"
  by (auto simp: unscheduled_def starts_def)

lemma view_update:
  assumes "worker_inv S ok w" and "wk_jobs w n = Some i" and "wk_jobs w' = wk_jobs w"
    and "wk_heap w' = (wk_heap w)(i := j)" and "starts S w' = (starts S w)(n := ts)"
  shows "view S w' = (view S w)(n \<mapsto> (i, j, ts))"
proof
  fix m
  show "view S w' m = ((view S w)(n \<mapsto> (i, j, ts))) m"
    using jobs_inject [OF assms(1,2), of m] assms(2-5) by (cases "wk_jobs w m") (auto simp: view_def)
qed

text \<open>The states a job has after its provider was replaced.\<close>

definition reloaded_state :: "jobState \<Rightarrow> jobState" where
  "reloaded_state st = (if st = stateDisabled \<or> st = statePaused then st else stateNone)"

text \<open>The jobs an effect concerns.\<close>

fun target :: "effect \<Rightarrow> nat set" where
  "target (Go i) = {i}"
| "target (SendTo i a) = {i}"
| "target (AwaitDisabled i) = {i}"
| "target _ = {}"

definition targets :: "effect list \<Rightarrow> nat set" where
  "targets es = (\<Union>e\<in>set es. target e)"

lemma targets_simps [simp]: "targets [] = {}" "targets (e # es) = target e \<union> targets es" "targets (es @ es') = targets es \<union> targets es'"
  by (auto simp: targets_def)

lemma disableJob_targets: "disableJob S i w = (es, w') \<Longrightarrow> targets es \<subseteq> {i}"
  using disableJob_result(7) [of S i w es w'] by (auto split: if_splits)

lemma disableJob_starts:
  assumes "worker_inv S ok w" and "disableJob S i w = (es, w')"
  shows "starts S w' = (starts S w)(nm w i := {})" and "dom (slots S w') \<subseteq> dom (slots S w)"
proof -
  note r = disableJob_result [OF assms(2)]
  have "starts S w' = starts S (remove_job S (nm w i) w)" by (rule starts_cong) (simp_all add: r)
  then show "starts S w' = (starts S w)(nm w i := {})" by (simp add: starts_remove [OF assms(1)])
  show "dom (slots S w') \<subseteq> dom (slots S w)" unfolding r(6) by (rule dom_slots_remove [OF assms(1)])
qed

subsection \<open>What a reload does to one job\<close>

lemma reload_delete_view:
  assumes "worker_inv S ok w" and "wk_jobs w n = Some i" and "reload_delete S n i w = (es, w')"
  shows "worker_inv S ok w'" and "view S w' = (view S w)(n := None)" and "wk_cfg w' = wk_cfg w"
    and "wk_next w' = wk_next w" and "dom (slots S w') \<subseteq> dom (slots S w)" and "targets es \<subseteq> {i}"
proof -
  obtain w1 where w1: "disableJob S i w = (es, w1)" and w': "w' = w1\<lparr>wk_jobs := (wk_jobs w1)(n := None)\<rparr>"
    using assms(3) by (auto simp: reload_delete_def split: prod.splits)
  note r = disableJob_result [OF w1] and v = disableJob_inv [OF assms(1) w1] and s = disableJob_starts [OF assms(1) w1]
  have n: "nm w i = n" using worker_invD(3) [OF assms(1,2)] .
  have f: "nm w' = nm w1" "slots S w' = slots S w1" "wk_heap w' = wk_heap w1" "wk_schedule w' = wk_schedule w1"
    by (simp_all add: w' nm_def slots_def fun_eq_iff)
  show "worker_inv S ok w'"
  proof (rule worker_invI)
    fix t k
    assume k: "slots S w' t = Some k"
    then have "nm w1 k \<noteq> n" using v(2) n by (auto simp: unscheduled_def f)
    with k show "wk_jobs w' (nm w' k) = Some k \<and> mj_state (wk_heap w' k) \<noteq> stateDisabled"
      using worker_invD(4,5) [OF v(1)] by (simp add: f, simp add: w')
  next
    show "queue_inv S ok (nm w') (wk_schedule w')" using worker_invD(1) [OF v(1)] by (simp add: f)
    show "k < wk_next w' \<and> nm w' k = m" if "wk_jobs w' m = Some k" for m k
      using that worker_invD(2,3) [OF v(1)] unfolding f by (auto simp: w' split: if_splits)
  qed
  have st: "starts S w' = starts S w1" by (rule starts_cong) (simp_all add: f)
  show "view S w' = (view S w)(n := None)"
  proof
    fix m
    show "view S w' m = ((view S w)(n := None)) m"
      using jobs_inject [OF assms(1,2), of m] st by (cases "wk_jobs w m") (auto simp: view_def w' r s(1) n)
  qed
  show "wk_cfg w' = wk_cfg w" "wk_next w' = wk_next w" "dom (slots S w') \<subseteq> dom (slots S w)"
    using r s(2) f by (simp_all add: w')
  show "targets es \<subseteq> {i}" by (rule disableJob_targets [OF w1])
qed

definition modified_job :: "'r provider \<Rightarrow> 'r mirrorJob \<Rightarrow> 'r mirrorJob" where
  "modified_job p j = j\<lparr>mj_provider := p, mj_state := reloaded_state (mj_state j)\<rparr>"

definition restarted :: "jobState \<Rightarrow> bool" where
  "restarted st \<longleftrightarrow> reloaded_state st = stateNone"

lemma reload_modify_view:
  assumes "worker_inv S ok w" and "wk_jobs w (mc_Name mirror) = Some i"
    and "reload_modify E S now mirror i w = Some (es, c, w')" and "now \<notin> dom (slots S w)"
  obtains p where "newMirrorProvider E mirror (wk_cfg w) = Some (p, c)" and "worker_inv S ok w'"
    and "view S w' = (view S w)(mc_Name mirror \<mapsto>
      (i, modified_job p (wk_heap w i), if restarted (mj_state (wk_heap w i)) then {now} else {}))"
    and "wk_cfg w' = wk_cfg w" and "wk_next w' = wk_next w" and "dom (slots S w') \<subseteq> insert now (dom (slots S w))"
    and "targets es \<subseteq> {i}" and "Go i \<in> set es \<longleftrightarrow> mj_state (wk_heap w i) \<noteq> stateDisabled"
proof -
  let ?st = "mj_state (wk_heap w i)" and ?n = "mc_Name mirror"
  obtain es1 w1 where w1: "disableJob S i w = (es1, w1)" by (cases "disableJob S i w")
  note r = disableJob_result [OF w1] and v = disableJob_inv [OF assms(1) w1] and s = disableJob_starts [OF assms(1) w1]
  have n: "nm w i = ?n" using worker_invD(3) [OF assms(1,2)] .
  obtain p where p: "newMirrorProvider E mirror (wk_cfg w) = Some (p, c)"
    using assms(3) by (auto simp: reload_modify_def w1 r Let_def split: option.splits sum.splits if_splits)
  define w2 where "w2 = upd_job i (\<lambda>_. (wk_heap w1 i)\<lparr>mj_provider := p\<rparr>) w1"
  have w2: "worker_inv S ok w2" "wk_jobs w2 = wk_jobs w" "nm w2 = nm w" "slots S w2 = slots S w1" "wk_cfg w2 = wk_cfg w" "wk_next w2 = wk_next w"
    "wk_heap w2 = (wk_heap w)(i := (wk_heap w i)\<lparr>mj_state := stateDisabled, mj_provider := p\<rparr>)"
  proof -
    show "nm w2 = nm w" using n newMirrorProvider_names(1) [OF p] by (auto simp: w2_def nm_def r job_Name_def fun_eq_iff)
    then show "worker_inv S ok w2" unfolding w2_def using v n newMirrorProvider_names(1) [OF p]
      by (intro upd_job_inv) (simp_all add: r job_Name_def)
  qed (simp_all add: w2_def r)
  have sp: "SetProvider p ((wk_heap w i)\<lparr>mj_state := stateDisabled\<rparr>) = Inr ((wk_heap w i)\<lparr>mj_state := stateDisabled, mj_provider := p\<rparr>)"
    by (simp add: SetProvider_def)
  define w3 where "w3 = SetState i (reloaded_state ?st) w2"
  have u: "unscheduled S w2 ?n" using v(2) n by (simp add: unscheduled_def w2 r)
  have w3: "worker_inv S ok w3" unfolding w3_def using u n by (intro SetState_inv w2) (simp add: w2)
  have w': "w' = (if restarted ?st then add_job S now i w3 else w3)" and es: "es = es1 @ (if ?st = stateDisabled then [] else [Go i])"
    using assms(3) by (auto simp: reload_modify_def w1 p r Let_def sp w3_def w2_def restarted_def reloaded_state_def split: if_splits)
  have d: "slots S w3 = slots S w1" "nm w3 = nm w" "wk_jobs w3 = wk_jobs w" by (simp_all add: w3_def w2)
  have fresh: "now \<notin> dom (slots S w3)" using assms(4) s(2) d(1) by auto
  have st3: "starts S w3 = (starts S w)(?n := {})" using starts_cong [of S w3 w1] s(1) d n r(4) by simp
  have inv': "worker_inv S ok w'"
  proof (cases "restarted ?st")
    case True
    then have "mj_state (wk_heap w3 i) \<noteq> stateDisabled" by (simp add: w3_def restarted_def)
    with add_job_inv [OF w3, of i now] assms(2) True show ?thesis by (simp add: w' d n)
  qed (simp add: w' w3)
  have "starts S w' = (starts S w)(?n := if restarted ?st then {now} else {})"
    by (simp add: w' starts_add [OF w3 fresh] st3 d n)
  from view_update [OF assms(1,2) _ _ this] have view':
    "view S w' = (view S w)(?n \<mapsto> (i, modified_job p (wk_heap w i), if restarted ?st then {now} else {}))"
    by (auto simp: w' w3_def w2 modified_job_def)
  have "dom (slots S w') \<subseteq> insert now (dom (slots S w))"
    using dom_slots_add [OF w3, of now i] s(2) d(1) by (auto simp: w')
  with p inv' view' show thesis
    using disableJob_targets [OF w1] r(7) by (intro that) (auto simp: w' w3_def w2 es split: if_splits)
qed

lemma reload_add_view:
  assumes "worker_inv S ok w" and "wk_jobs w (Name p) = None" and "reload_add S now p w = (es, w')" and "now \<notin> dom (slots S w)"
  shows "worker_inv S ok w'" and "view S w' = (view S w)(Name p \<mapsto> (wk_next w, newMirrorJob p, {now}))"
    and "wk_cfg w' = wk_cfg w" and "wk_next w' = Suc (wk_next w)" and "dom (slots S w') \<subseteq> insert now (dom (slots S w))"
    and "es = [Go (wk_next w)]"
proof -
  let ?i = "wk_next w"
  define w1 where "w1 = SetState ?i stateNone (snd (create_job p w))"
  have w': "w' = add_job S now ?i w1" and es: "es = [Go ?i]"
    using assms(3) by (auto simp: reload_add_def w1_def split: prod.splits dest: arg_cong [of _ _ snd] arg_cong [of _ _ fst])
  have u: "unscheduled S w (Name p)" using worker_invD(4) [OF assms(1)] assms(2) unfolding unscheduled_def by fastforce
  have w1: "worker_inv S ok w1" unfolding w1_def by (intro SetState_inv create_job_inv assms(1) u) simp
  have f: "nm w1 = (nm w)(?i := Name p)" "slots S w1 = slots S w" "wk_heap w1 = (wk_heap w)(?i := newMirrorJob p)"
    "wk_jobs w1 = (wk_jobs w)(Name p \<mapsto> ?i)" by (simp_all add: w1_def newMirrorJob_def)
  show "worker_inv S ok w'" unfolding w' by (rule add_job_inv [OF w1]) (simp_all add: f newMirrorJob_def)
  have lt: "k < ?i" if "slots S w t = Some k" for t k using worker_invD(2) [OF assms(1) worker_invD(4) [OF assms(1) that]] .
  then have "starts S w1 = (starts S w)" unfolding starts_def f by (force simp: fun_eq_iff)
  then have st: "starts S w' = (starts S w)(Name p := {now})"
    unfolding w' using starts_add [OF w1, of now ?i] assms(4) by (simp add: f)
  show "view S w' = (view S w)(Name p \<mapsto> (?i, newMirrorJob p, {now}))"
  proof
    fix m
    have "k \<noteq> ?i" if "wk_jobs w m = Some k" for k using worker_invD(2) [OF assms(1) that] by simp
    then show "view S w' m = ((view S w)(Name p \<mapsto> (?i, newMirrorJob p, {now}))) m"
      unfolding view_def st by (cases "wk_jobs w m") (auto simp: w' f)
  qed
  show "dom (slots S w') \<subseteq> insert now (dom (slots S w))" using dom_slots_add [OF w1, of now ?i] by (simp add: w' f)
qed (use assms in \<open>auto simp: reload_add_def create_job_def Let_def\<close>)

subsection \<open>What a reload does to all jobs\<close>

text \<open>No two jobs get the same instant: the clock never repeats a value, and none of its values is in the
  queue.\<close>

definition fresh_clock :: "('l, nat) skiplist \<Rightarrow> (nat \<Rightarrow> gtime) \<Rightarrow> nat \<Rightarrow> ('r, 'l) Worker \<Rightarrow> bool" where
  "fresh_clock S clock k w \<longleftrightarrow> inj clock \<and> (\<forall>k'\<ge>k. clock k' \<notin> dom (slots S w))"

lemma fresh_clock_step:
  assumes "fresh_clock S clock k w" and "dom (slots S w') \<subseteq> insert (clock k) (dom (slots S w))"
  shows "fresh_clock S clock (Suc k) w'"
  using assms unfolding fresh_clock_def by (metis Suc_leD insertE injD not_less_eq_eq order_refl subsetD)

lemma fresh_clock_mono: "fresh_clock S clock k w \<Longrightarrow> k \<le> k' \<Longrightarrow> fresh_clock S clock k' w"
  by (simp add: fresh_clock_def)

lemma names_share_env: "mc_Name m' = mc_Name m \<Longrightarrow> names (share_env m m' cs) = names cs"
  by (induction m m' cs rule: share_env.induct) (auto simp: names_def)

text \<open>The job of an operation before and after it.\<close>

definition op_result :: "'r prov_env \<Rightarrow> (nat \<Rightarrow> gtime) \<Rightarrow> Config \<Rightarrow> mirrorCfgTrans \<Rightarrow> effect list \<Rightarrow>
    (nat \<times> 'r mirrorJob \<times> gtime set) option \<Rightarrow> (nat \<times> 'r mirrorJob \<times> gtime set) option \<Rightarrow> bool" where
  "op_result E clock cfg op es v v' =
     (case diffOp op of
        diffDelete \<Rightarrow> v' = None
      | diffAdd \<Rightarrow> v' = v
      | diffModify \<Rightarrow>
          (case v of
             None \<Rightarrow> v' = None
           | Some (i, j, ts) \<Rightarrow>
               (Go i \<in> set es \<longleftrightarrow> mj_state j \<noteq> stateDisabled) \<and>
               (\<exists>p c t. newMirrorProvider E (mirCfg op) cfg = Some (p, c) \<and> t \<in> range clock \<and>
                  v' = Some (i, modified_job p j, if restarted (mj_state j) then {t} else {}))))"

definition op_targets :: "('r, 'l) Worker \<Rightarrow> mirrorCfgTrans \<Rightarrow> nat set" where
  "op_targets w op = (if diffOp op = diffAdd then {} else {i. wk_jobs w (mc_Name (mirCfg op)) = Some i})"

lemma reload_op_view:
  assumes "worker_inv S ok w" and "clock k \<notin> dom (slots S w)" and "reload_op E S (clock k) op new w = Some (es, new1, w1)"
  shows "worker_inv S ok w1" and "wk_cfg w1 = wk_cfg w" and "wk_next w1 = wk_next w"
    and "dom (slots S w1) \<subseteq> insert (clock k) (dom (slots S w))" and "names new1 = names new"
    and "targets es \<subseteq> op_targets w op" and "n \<noteq> mc_Name (mirCfg op) \<Longrightarrow> view S w1 n = view S w n"
    and "op_result E clock (wk_cfg w) op es (view S w (mc_Name (mirCfg op))) (view S w1 (mc_Name (mirCfg op)))"
proof -
  let ?n = "mc_Name (mirCfg op)"
  have "worker_inv S ok w1 \<and> wk_cfg w1 = wk_cfg w \<and> wk_next w1 = wk_next w \<and>
    dom (slots S w1) \<subseteq> insert (clock k) (dom (slots S w)) \<and> names new1 = names new \<and> targets es \<subseteq> op_targets w op \<and>
    (\<forall>n. n \<noteq> ?n \<longrightarrow> view S w1 n = view S w n) \<and> op_result E clock (wk_cfg w) op es (view S w ?n) (view S w1 ?n)"
  proof (cases "wk_jobs w ?n")
    case None
    then have "view S w ?n = None" by simp
    with None assms show ?thesis
      by (cases "diffOp op") (auto simp: reload_op_def op_result_def op_targets_def)
  next
    case (Some i)
    show ?thesis
    proof (cases "diffOp op")
      case diffDelete
      with Some assms(3) have "reload_delete S ?n i w = (es, w1)" "new1 = new" by (auto simp: reload_op_def split: prod.splits)
      note d = reload_delete_view [OF assms(1) Some this(1)] and this(2)
      then show ?thesis using diffDelete Some by (auto simp: op_result_def op_targets_def)
    next
      case diffAdd
      with assms Some show ?thesis by (auto simp: reload_op_def op_result_def op_targets_def)
    next
      case diffModify
      with Some assms(3) obtain c where m: "reload_modify E S (clock k) (mirCfg op) i w = Some (es, c, w1)"
        and new1: "new1 = share_env (mirCfg op) c new" by (auto simp: reload_op_def split: prod.splits option.splits)
      from reload_modify_view [OF assms(1) Some m assms(2)] obtain p where p:
        "newMirrorProvider E (mirCfg op) (wk_cfg w) = Some (p, c)" "worker_inv S ok w1"
        "view S w1 = (view S w)(?n \<mapsto> (i, modified_job p (wk_heap w i), if restarted (mj_state (wk_heap w i)) then {clock k} else {}))"
        "wk_cfg w1 = wk_cfg w" "wk_next w1 = wk_next w" "dom (slots S w1) \<subseteq> insert (clock k) (dom (slots S w))"
        "targets es \<subseteq> {i}" "Go i \<in> set es \<longleftrightarrow> mj_state (wk_heap w i) \<noteq> stateDisabled" .
      have "view S w ?n = Some (i, wk_heap w i, starts S w ?n)" using Some by (simp add: view_Some)
      with p diffModify Some new1 names_share_env [OF newMirrorProvider_names(2) [OF p(1)]] show ?thesis
        by (auto simp: op_result_def op_targets_def)
    qed
  qed
  then show "worker_inv S ok w1" and "wk_cfg w1 = wk_cfg w" and "wk_next w1 = wk_next w"
    and "dom (slots S w1) \<subseteq> insert (clock k) (dom (slots S w))" and "names new1 = names new"
    and "targets es \<subseteq> op_targets w op" and "n \<noteq> ?n \<Longrightarrow> view S w1 n = view S w n"
    and "op_result E clock (wk_cfg w) op es (view S w ?n) (view S w1 ?n)" by blast+
qed

lemma Go_targets: "Go i \<in> set es \<Longrightarrow> i \<in> targets es"
  by (force simp: targets_def)

text \<open>Effects on other jobs do not change the verdict on a job.\<close>

lemma op_result_more:
  assumes "op_result E clock cfg op es v v'" and "\<And>i j ts. v = Some (i, j, ts) \<Longrightarrow> i \<notin> targets es1 \<and> i \<notin> targets es2"
  shows "op_result E clock cfg op (es1 @ es @ es2) v v'"
proof (cases "diffOp op")
  case diffModify
  show ?thesis
  proof (cases v)
    case (Some x)
    obtain i j ts where x: "x = (i, j, ts)" by (cases x)
    then have "Go i \<in> set (es1 @ es @ es2) \<longleftrightarrow> Go i \<in> set es" using Some assms(2) by (auto dest: Go_targets)
    with assms(1) diffModify Some x show ?thesis by (simp only: op_result_def option.case prod.case diffOp.case)
  qed (use assms diffModify in \<open>auto simp: op_result_def\<close>)
qed (use assms in \<open>auto simp: op_result_def\<close>)

lemma op_targets_view:
  "n \<noteq> mc_Name (mirCfg op) \<Longrightarrow> worker_inv S ok w \<Longrightarrow> view S w n = Some (i, j, ts) \<Longrightarrow> i \<notin> op_targets w op"
  using jobs_inject [of S ok w n i] by (auto simp: op_targets_def view_Some split: if_splits)

lemma trans_names_mem: "op \<in> set ops \<Longrightarrow> mc_Name (mirCfg op) \<in> set (trans_names ops)"
  by (simp add: trans_names_def)

lemma reload_changes_view:
  assumes "worker_inv S ok w" and "distinct (trans_names ops)" and "fresh_clock S clock k w"
    and "reload_changes E S clock k ops new w = Some (es, new', w')"
  shows "worker_inv S ok w' \<and> wk_cfg w' = wk_cfg w \<and> wk_next w' = wk_next w \<and> fresh_clock S clock (k + length ops) w' \<and>
    names new' = names new \<and> targets es \<subseteq> (\<Union>op\<in>set ops. op_targets w op) \<and>
    (\<forall>n. n \<notin> set (trans_names ops) \<longrightarrow> view S w' n = view S w n) \<and>
    (\<forall>op\<in>set ops. op_result E clock (wk_cfg w) op es (view S w (mc_Name (mirCfg op))) (view S w' (mc_Name (mirCfg op))))"
  using assms
proof (induction ops arbitrary: k new w es)
  case Nil
  then show ?case by (simp add: trans_names_def)
next
  case (Cons op ops)
  let ?n = "mc_Name (mirCfg op)"
  from Cons.prems(4) obtain es1 new1 w1 es2 where
    o: "reload_op E S (clock k) op new w = Some (es1, new1, w1)" and
    rest: "reload_changes E S clock (Suc k) ops new1 w1 = Some (es2, new', w')" and es: "es = es1 @ es2"
    by (auto split: option.splits)
  have fresh: "clock k \<notin> dom (slots S w)" using Cons.prems(3) by (simp add: fresh_clock_def)
  note r = reload_op_view [where clock = clock and k = k, OF Cons.prems(1) fresh o]
  have d: "?n \<notin> set (trans_names ops)" "distinct (trans_names ops)" using Cons.prems(2) by (simp_all add: trans_names_def)
  note IH = Cons.IH [OF r(1) d(2) fresh_clock_step [OF Cons.prems(3) r(4)] rest]
  have other: "view S w1 m = view S w m" if "m \<in> set (trans_names ops)" for m using r(7) [of m] that d(1) by blast
  note mem = trans_names_mem
  have jobs: "wk_jobs w1 m = wk_jobs w m" if "m \<in> set (trans_names ops)" for m
    using other [OF that] by (metis view_jobs)
  then have t2: "targets es2 \<subseteq> (\<Union>op\<in>set ops. op_targets w op)" using IH mem by (auto simp: op_targets_def split: if_splits)
  have res: "op_result E clock (wk_cfg w) op' es (view S w (mc_Name (mirCfg op'))) (view S w' (mc_Name (mirCfg op')))"
    if "op' \<in> set (op # ops)" for op'
  proof (cases "op' \<in> set ops")
    case True
    with IH other [OF mem [OF True]] r(2)
    have "op_result E clock (wk_cfg w) op' es2 (view S w (mc_Name (mirCfg op'))) (view S w' (mc_Name (mirCfg op')))" by metis
    moreover have "i \<notin> targets es1" if "view S w (mc_Name (mirCfg op')) = Some (i, j, ts)" for i j ts
      using op_targets_view [OF _ Cons.prems(1) that] mem [OF True] d(1) r(6) by (metis subsetD)
    ultimately show ?thesis using op_result_more [of E clock "wk_cfg w" op' es2 _ _ es1 "[]"] es by simp
  next
    case False
    then have op': "op' = op" using that by simp
    have "view S w' ?n = view S w1 ?n" using IH d(1) by blast
    moreover have "i \<notin> targets es2" if "view S w ?n = Some (i, j, ts)" for i j ts
      using op_targets_view [OF _ Cons.prems(1) that] mem d(1) t2 by (smt (verit) UN_E subsetD)
    ultimately show ?thesis using op_result_more [OF r(8), of "[]" es2] es op' by simp
  qed
  moreover have "targets es \<subseteq> (\<Union>op\<in>set (op # ops). op_targets w op)" using r(6) t2 es by auto
  moreover have "view S w' m = view S w m" if "m \<notin> set (trans_names (op # ops))" for m
    using that IH r(7) [of m] by (simp add: trans_names_def)
  ultimately show ?case using IH r(2,3,5) by simp
qed

lemma reload_adds_view:
  assumes "worker_inv S ok w" and "distinct (trans_names ops)" and "fresh_clock S clock k w"
    and "\<And>op. op \<in> set ops \<Longrightarrow> diffOp op = diffAdd \<Longrightarrow> wk_jobs w (mc_Name (mirCfg op)) = None"
    and "reload_adds E S clock k ops new w = Some (es, new', w')"
  shows "worker_inv S ok w' \<and> wk_cfg w' = wk_cfg w \<and> names new' = names new \<and> targets es \<subseteq> {i. wk_next w \<le> i} \<and>
    (\<forall>n. (\<forall>op\<in>set ops. diffOp op = diffAdd \<longrightarrow> mc_Name (mirCfg op) \<noteq> n) \<longrightarrow> view S w' n = view S w n) \<and>
    (\<forall>op\<in>set ops. diffOp op = diffAdd \<longrightarrow> (\<exists>p c t i. newMirrorProvider E (mirCfg op) (wk_cfg w) = Some (p, c) \<and>
       t \<in> range clock \<and> wk_next w \<le> i \<and> Go i \<in> set es \<and>
       view S w' (mc_Name (mirCfg op)) = Some (i, newMirrorJob p, {t})))"
  using assms
proof (induction ops arbitrary: k new w es)
  case Nil
  then show ?case by simp
next
  case (Cons op ops)
  let ?n = "mc_Name (mirCfg op)"
  have d: "?n \<notin> set (trans_names ops)" "distinct (trans_names ops)" using Cons.prems(2) by (simp_all add: trans_names_def)
  have mem: "mc_Name (mirCfg op') \<noteq> ?n" if "op' \<in> set ops" for op' using trans_names_mem [OF that] d(1) by auto
  show ?case
  proof (cases "diffOp op = diffAdd")
    case False
    with Cons.prems(5) have rest: "reload_adds E S clock k ops new w = Some (es, new', w')" by simp
    from Cons.IH [OF Cons.prems(1) d(2) Cons.prems(3) _ rest] Cons.prems(4) False show ?thesis by simp
  next
    case True
    with Cons.prems(5) obtain p c es1 w1 es2 where p: "newMirrorProvider E (mirCfg op) (wk_cfg w) = Some (p, c)"
      and a: "reload_add S (clock k) p w = (es1, w1)"
      and rest: "reload_adds E S clock (Suc k) ops (share_env (mirCfg op) c new) w1 = Some (es2, new', w')" and es: "es = es1 @ es2"
      by (auto split: option.splits prod.splits)
    note pn = newMirrorProvider_names [OF p]
    have none: "wk_jobs w (Name p) = None" using Cons.prems(4) [of op] True pn(1) by simp
    have fresh: "clock k \<notin> dom (slots S w)" using Cons.prems(3) by (simp add: fresh_clock_def)
    note r = reload_add_view [OF Cons.prems(1) none a fresh]
    have v1: "view S w1 m = view S w m" if "m \<noteq> ?n" for m using r(2) that pn(1) by simp
    have jobs: "wk_jobs w1 (mc_Name (mirCfg op')) = None" if "op' \<in> set ops" "diffOp op' = diffAdd" for op'
      using Cons.prems(4) [of op'] that v1 [OF mem [OF that(1)]] by (metis list.set_intros(2) view_None)
    note IH = Cons.IH [OF r(1) d(2) fresh_clock_step [OF Cons.prems(3) r(5)] jobs rest]
    have new: "names (share_env (mirCfg op) c new) = names new" by (rule names_share_env [OF pn(2)])
    have "view S w' ?n = view S w1 ?n" using IH mem by blast
    then have head: "view S w' ?n = Some (wk_next w, newMirrorJob p, {clock k})" using r(2) pn(1) by simp
    have tail: "\<exists>p c t i. newMirrorProvider E (mirCfg op') (wk_cfg w) = Some (p, c) \<and> t \<in> range clock \<and> wk_next w \<le> i \<and>
        Go i \<in> set es \<and> view S w' (mc_Name (mirCfg op')) = Some (i, newMirrorJob p, {t})"
      if "op' \<in> set ops" "diffOp op' = diffAdd" for op'
    proof -
      from IH that r(3,4) obtain p c t i where "newMirrorProvider E (mirCfg op') (wk_cfg w) = Some (p, c)" "t \<in> range clock"
        "Suc (wk_next w) \<le> i" "Go i \<in> set es2" "view S w' (mc_Name (mirCfg op')) = Some (i, newMirrorJob p, {t})" by metis
      then show ?thesis using es by (intro exI [of _ p] exI [of _ c] exI [of _ t] exI [of _ i]) simp
    qed
    have "targets es \<subseteq> {i. wk_next w \<le> i}" using IH r(4,6) es by auto
    moreover have "view S w' m = view S w m" if "\<forall>op'\<in>set (op # ops). diffOp op' = diffAdd \<longrightarrow> mc_Name (mirCfg op') \<noteq> m" for m
      using IH v1 [of m] that True by (metis list.set_intros(1) list.set_intros(2))
    ultimately show ?thesis using IH r(3,6) new head tail p es by auto
  qed
qed

text \<open>The mirrors of the configuration have different names, and the jobs are theirs.\<close>

definition config_ok :: "('r, 'l) Worker \<Rightarrow> bool" where
  "config_ok w \<longleftrightarrow> distinct (names (cf_Mirrors (wk_cfg w))) \<and> dom (wk_jobs w) = set (names (cf_Mirrors (wk_cfg w)))"

text \<open>What a reload promises for one mirror of the new configuration.\<close>

definition reload_promise :: "'r prov_env \<Rightarrow> ('l, nat) skiplist \<Rightarrow> mirrorConfig \<Rightarrow> ('r, 'l) Worker \<Rightarrow> effect list \<Rightarrow> ('r, 'l) Worker \<Rightarrow> bool" where
  "reload_promise E S c w es w' \<longleftrightarrow>
     (if c \<in> set (cf_Mirrors (wk_cfg w))
      then view S w' (mc_Name c) = view S w (mc_Name c) \<and> the (wk_jobs w (mc_Name c)) \<notin> targets es
      else (\<exists>p c'. newMirrorProvider E c (wk_cfg w) = Some (p, c') \<and>
        (case view S w (mc_Name c) of
           Some (i, j, ts) \<Rightarrow> (Go i \<in> set es \<longleftrightarrow> mj_state j \<noteq> stateDisabled) \<and>
             (\<exists>t. view S w' (mc_Name c) = Some (i, modified_job p j, if restarted (mj_state j) then {t} else {}))
         | None \<Rightarrow> (\<exists>i t. wk_next w \<le> i \<and> Go i \<in> set es \<and> view S w' (mc_Name c) = Some (i, newMirrorJob p, {t})))))"

lemma ReloadMirrorConfig_cases:
  assumes "ReloadMirrorConfig E S clock newMirrors w = Some (es, w')"
  obtains ops es1 new1 w1 es2 new2 w2 where "diffMirrorConfig (cf_Mirrors (wk_cfg w)) newMirrors = Some ops"
    and "reload_changes E S clock 0 ops newMirrors w = Some (es1, new1, w1)"
    and "reload_adds E S clock (length ops) ops new1 w1 = Some (es2, new2, w2)" and "es = es1 @ es2"
    and "w' = w2\<lparr>wk_cfg := (wk_cfg w2)\<lparr>cf_Mirrors := new2\<rparr>\<rparr>"
  using assms by (auto simp: ReloadMirrorConfig_def split: option.splits)

lemma set_cfg_fields [simp]:
  "view S (w\<lparr>wk_cfg := c\<rparr>) = view S w" "worker_inv S ok (w\<lparr>wk_cfg := c\<rparr>) = worker_inv S ok w"
  "slots S (w\<lparr>wk_cfg := c\<rparr>) = slots S w" "nm (w\<lparr>wk_cfg := c\<rparr>) = nm w"
proof -
  show n: "nm (w\<lparr>wk_cfg := c\<rparr>) = nm w" and s: "slots S (w\<lparr>wk_cfg := c\<rparr>) = slots S w" for c
    by (simp_all add: nm_def slots_def fun_eq_iff)
  show "view S (w\<lparr>wk_cfg := c\<rparr>) = view S w" using starts_cong [OF s n] by (simp add: view_def fun_eq_iff)
  show "worker_inv S ok (w\<lparr>wk_cfg := c\<rparr>) = worker_inv S ok w" by (simp add: worker_inv_def n s)
qed

text \<open>What the two loops leave of a name, in terms of the difference.\<close>

lemma reload_loops:
  assumes "worker_inv S ok w" and "config_ok w" and "distinct (names newMirrors)" and "fresh_clock S clock 0 w"
    and "diffMirrorConfig (cf_Mirrors (wk_cfg w)) newMirrors = Some ops"
    and "reload_changes E S clock 0 ops newMirrors w = Some (es1, new1, w1)"
    and "reload_adds E S clock (length ops) ops new1 w1 = Some (es2, new2, w2)"
  shows "worker_inv S ok w2" and "wk_cfg w2 = wk_cfg w" and "names new2 = names newMirrors"
    and "i < wk_next w \<Longrightarrow> i \<in> targets (es1 @ es2) \<Longrightarrow> \<exists>op\<in>set ops. i \<in> op_targets w op"
    and "n \<notin> set (trans_names ops) \<Longrightarrow> view S w2 n = view S w n"
    and "op \<in> set ops \<Longrightarrow> diffOp op \<noteq> diffAdd \<Longrightarrow>
      op_result E clock (wk_cfg w) op (es1 @ es2) (view S w (mc_Name (mirCfg op))) (view S w2 (mc_Name (mirCfg op)))"
    and "op \<in> set ops \<Longrightarrow> diffOp op = diffAdd \<Longrightarrow> \<exists>p c t i. newMirrorProvider E (mirCfg op) (wk_cfg w) = Some (p, c) \<and>
       wk_next w \<le> i \<and> Go i \<in> set (es1 @ es2) \<and> view S w2 (mc_Name (mirCfg op)) = Some (i, newMirrorJob p, {t})"
proof -
  have dold: "distinct (names (cf_Mirrors (wk_cfg w)))" using assms(2) by (simp add: config_ok_def)
  note diff = diffMirrorConfig_Some [OF dold assms(3,5)]
  have dops: "distinct (trans_names ops)" using diff(1) by (simp add: strict_sorted_iff)
  note c = reload_changes_view [OF assms(1) dops assms(4,6)]
  have new: "wk_jobs w1 (mc_Name (mirCfg op)) = None" if "op \<in> set ops" "diffOp op = diffAdd" for op
  proof -
    from diff(2) that have "mc_Name (mirCfg op) \<notin> mc_Name ` set (cf_Mirrors (wk_cfg w))" by (auto simp: diff_member_def)
    then have "wk_jobs w (mc_Name (mirCfg op)) = None" using assms(2) by (auto simp: config_ok_def names_def dom_def)
    moreover from c that have "view S w1 (mc_Name (mirCfg op)) = view S w (mc_Name (mirCfg op))" by (auto simp: op_result_def)
    ultimately show ?thesis by (metis view_None)
  qed
  have fr: "fresh_clock S clock (length ops) w1" using c by simp
  from c have w1: "worker_inv S ok w1" by blast
  note a = reload_adds_view [OF w1 dops fr new assms(7)]
  have cfg: "wk_cfg w1 = wk_cfg w" and nxt: "wk_next w1 = wk_next w" and t1: "targets es1 \<subseteq> (\<Union>op\<in>set ops. op_targets w op)"
    and v1: "n \<notin> set (trans_names ops) \<Longrightarrow> view S w1 n = view S w n" for n using c by blast+
  have t2: "targets es2 \<subseteq> {i. wk_next w \<le> i}" using a nxt by simp
  show "worker_inv S ok w2" "wk_cfg w2 = wk_cfg w" "names new2 = names newMirrors" using a c by simp_all
  show "\<exists>op\<in>set ops. i \<in> op_targets w op" if "i < wk_next w" "i \<in> targets (es1 @ es2)" for i
    using that t1 t2 by auto
  show "view S w2 n = view S w n" if n: "n \<notin> set (trans_names ops)" for n
  proof -
    have "\<forall>op\<in>set ops. diffOp op = diffAdd \<longrightarrow> mc_Name (mirCfg op) \<noteq> n" using n trans_names_mem by metis
    then have "view S w2 n = view S w1 n" using a by blast
    then show ?thesis using v1 [OF n] by simp
  qed
  show "\<exists>p c t i. newMirrorProvider E (mirCfg op) (wk_cfg w) = Some (p, c) \<and>
       wk_next w \<le> i \<and> Go i \<in> set (es1 @ es2) \<and> view S w2 (mc_Name (mirCfg op)) = Some (i, newMirrorJob p, {t})"
    if "op \<in> set ops" "diffOp op = diffAdd"
  proof -
    from a that have "\<exists>p c t i. newMirrorProvider E (mirCfg op) (wk_cfg w1) = Some (p, c) \<and> t \<in> range clock \<and> wk_next w1 \<le> i \<and>
      Go i \<in> set es2 \<and> view S w2 (mc_Name (mirCfg op)) = Some (i, newMirrorJob p, {t})" by blast
    then show ?thesis unfolding cfg nxt by auto
  qed
  show "op_result E clock (wk_cfg w) op (es1 @ es2) (view S w (mc_Name (mirCfg op))) (view S w2 (mc_Name (mirCfg op)))"
    if op: "op \<in> set ops" "diffOp op \<noteq> diffAdd"
  proof -
    have "mc_Name (mirCfg op') \<noteq> mc_Name (mirCfg op)" if "op' \<in> set ops" "diffOp op' = diffAdd" for op'
      using dops op that unfolding trans_names_def by (metis distinct_map inj_onD)
    then have "view S w2 (mc_Name (mirCfg op)) = view S w1 (mc_Name (mirCfg op))" using a by blast
    with c op(1) have "op_result E clock (wk_cfg w) op es1 (view S w (mc_Name (mirCfg op))) (view S w2 (mc_Name (mirCfg op)))" by simp
    moreover have "i \<notin> targets es2" if "view S w (mc_Name (mirCfg op)) = Some (i, j, ts)" for i j ts
    proof -
      have "i < wk_next w" using that worker_invD(2) [OF assms(1)] by (auto simp: view_Some)
      then show ?thesis using t2 by auto
    qed
    ultimately show ?thesis using op_result_more [of E clock "wk_cfg w" op es1 _ _ "[]" es2] by simp
  qed
qed

end
