(* ===== verification/Worker_System.thy ===== *)
theory Worker_System
  imports Worker_Core
begin

section \<open>Properties of the worker\<close>

text \<open>
  The properties of the handlers of \<open>Worker_Core\<close>: the reload of the configuration, the start-up, the
  commands and the status messages, and the invariant of a worker under every sequence of these and of
  the changes that the goroutines of its jobs make.
\<close>

subsection \<open>Reload\<close>

text \<open>The operations of the difference that concern a mirror of the new configuration.\<close>

lemma diff_ops_of:
  assumes "distinct (names old)" and "distinct (names new)" and "diffMirrorConfig old new = Some ops" and "c \<in> set new"
  shows "c \<in> set old \<Longrightarrow> mc_Name c \<notin> set (trans_names ops)"
    and "c \<notin> set old \<Longrightarrow> mc_Name c \<in> set (names old) \<Longrightarrow> Mod c \<in> set ops"
    and "mc_Name c \<notin> set (names old) \<Longrightarrow> Add c \<in> set ops"
proof -
  note mem = diffMirrorConfig_Some(2) [OF assms(1-3)]
  have uniq: "c1 = c2" if "c1 \<in> set l" "c2 \<in> set l" "mc_Name c1 = mc_Name c2" "distinct (names l)" for c1 c2 l
    using that by (auto simp: names_def distinct_map dest: inj_onD)
  show "mc_Name c \<notin> set (trans_names ops)" if "c \<in> set old"
  proof
    assume "mc_Name c \<in> set (trans_names ops)"
    then obtain t where "t \<in> set ops" "mc_Name (mirCfg t) = mc_Name c" by (auto simp: trans_names_def)
    then have dm: "diff_member (set old) (set new) t" and n: "mc_Name (mirCfg t) = mc_Name c" using mem by simp_all
    have im: "mc_Name c \<in> mc_Name ` set old" "mc_Name c \<in> mc_Name ` set new" using that assms(4) by simp_all
    show False
    proof (cases "diffOp t")
      case diffModify
      with dm n obtain c' where "mirCfg t \<in> set new" "c' \<in> set old" "mc_Name c' = mc_Name c" "c' \<noteq> mirCfg t"
        by (auto simp: diff_member_def)
      with uniq [OF _ assms(4) n assms(2)] uniq [OF _ that _ assms(1)] show False by blast
    qed (use dm n im in \<open>simp_all add: diff_member_def\<close>)
  qed
  show "Mod c \<in> set ops" if "c \<notin> set old" "mc_Name c \<in> set (names old)"
    using that assms(4) by (auto simp: mem diff_member_def names_def)
  show "Add c \<in> set ops" if "mc_Name c \<notin> set (names old)"
    using that assms(4) by (auto simp: mem diff_member_def names_def)
qed

lemma reload_result:
  assumes "worker_inv S ok w" and "config_ok w" and "distinct (names newMirrors)" and "fresh_clock S clock 0 w"
    and "ReloadMirrorConfig E S clock newMirrors w = Some (es, w')"
  shows "worker_inv S ok w'" and "names (cf_Mirrors (wk_cfg w')) = names newMirrors"
    and "n \<notin> set (names newMirrors) \<Longrightarrow> wk_jobs w' n = None"
    and "c \<in> set newMirrors \<Longrightarrow> reload_promise E S c w es w'"
proof -
  let ?old = "cf_Mirrors (wk_cfg w)"
  from ReloadMirrorConfig_cases [OF assms(5)] obtain ops es1 new1 w1 es2 new2 w2 where
    diff: "diffMirrorConfig ?old newMirrors = Some ops" and
    loops: "reload_changes E S clock 0 ops newMirrors w = Some (es1, new1, w1)"
      "reload_adds E S clock (length ops) ops new1 w1 = Some (es2, new2, w2)" and es: "es = es1 @ es2" and
    w': "w' = w2\<lparr>wk_cfg := (wk_cfg w2)\<lparr>cf_Mirrors := new2\<rparr>\<rparr>" by blast
  have dold: "distinct (names ?old)" and dom: "dom (wk_jobs w) = set (names ?old)" using assms(2) by (simp_all add: config_ok_def)
  note r = reload_loops [OF assms(1-4) diff loops]
  note mem = diffMirrorConfig_Some(2) [OF dold assms(3) diff]
  have v: "view S w' = view S w2" by (simp add: w')
  show "worker_inv S ok w'" using r(1) by (simp add: w')
  show "names (cf_Mirrors (wk_cfg w')) = names newMirrors" using r(3) by (simp add: w')
  show "wk_jobs w' n = None" if n: "n \<notin> set (names newMirrors)"
  proof (cases "n \<in> set (names ?old)")
    case True
    then obtain c where c: "c \<in> set ?old" "n = mc_Name c" by (auto simp: names_def)
    with n have "Del c \<in> set ops" by (auto simp: mem diff_member_def names_def)
    from r(6) [OF this] c show ?thesis using view_None [of S w' n] by (simp add: op_result_def v)
  next
    case False
    then have "n \<notin> set (trans_names ops)"
      using n by (auto simp: trans_names_def mem diff_member_def names_def split: diffOp.splits)
    from r(5) [OF this] False dom show ?thesis using view_None [of S w' n] view_None [of S w n] by (auto simp: v)
  qed
  show "reload_promise E S c w es w'" if c: "c \<in> set newMirrors"
  proof (cases "c \<in> set ?old")
    case True
    then have n: "mc_Name c \<notin> set (trans_names ops)" using diff_ops_of(1) [OF dold assms(3) diff c] by simp
    have "mc_Name c \<in> dom (wk_jobs w)" using True dom by (simp add: names_def)
    then obtain i where i: "wk_jobs w (mc_Name c) = Some i" by auto
    have "i \<notin> op_targets w op" if "op \<in> set ops" for op
      using op_targets_view [OF _ assms(1)] trans_names_mem [OF that] n i by (metis view_Some)
    then have "i \<notin> targets es" using r(4) worker_invD(2) [OF assms(1) i] es by blast
    with r(5) [OF n] True i show ?thesis by (simp add: reload_promise_def v)
  next
    case False
    show ?thesis
    proof (cases "mc_Name c \<in> set (names ?old)")
      case True
      then obtain i where i: "wk_jobs w (mc_Name c) = Some i" using dom by (metis domD)
      from r(6) [OF diff_ops_of(2) [OF dold assms(3) diff c False True]] False i es
      show ?thesis by (auto simp: reload_promise_def op_result_def v view_def)
    next
      case new: False
      then have "view S w (mc_Name c) = None" using dom by (auto simp: view_None)
      with r(7) [OF diff_ops_of(3) [OF dold assms(3) diff c new]] False es
      show ?thesis by (auto simp: reload_promise_def v)
    qed
  qed
qed

text \<open>A reload only panics in the difference or in the construction of a provider.\<close>

lemma disableJob_cfg: "wk_cfg (snd (disableJob S i w)) = wk_cfg w"
  by (rule disableJob_result(1) [OF surjective_pairing])

lemma reload_op_total:
  assumes "newMirrorProvider E (mirCfg op) (wk_cfg w) \<noteq> None \<or> diffOp op = diffDelete"
  shows "\<exists>es new1 w1. reload_op E S now op new w = Some (es, new1, w1) \<and> wk_cfg w1 = wk_cfg w"
proof (cases "wk_jobs w (mc_Name (mirCfg op))")
  case (Some i)
  show ?thesis
  proof (cases "diffOp op")
    case diffModify
    with assms Some disableJob_cfg [of S i w] show ?thesis
      by (auto simp: reload_op_def reload_modify_def Let_def case_prod_beta split: sum.splits)
  qed (use Some disableJob_cfg [of S i w] in \<open>auto simp: reload_op_def reload_delete_def case_prod_beta\<close>)
qed (auto simp: reload_op_def split: diffOp.splits)

lemma reload_changes_total:
  assumes "\<And>op. op \<in> set ops \<Longrightarrow> diffOp op \<noteq> diffDelete \<Longrightarrow> newMirrorProvider E (mirCfg op) (wk_cfg w) \<noteq> None"
  shows "\<exists>es new' w'. reload_changes E S clock k ops new w = Some (es, new', w') \<and> wk_cfg w' = wk_cfg w"
  using assms
proof (induction ops arbitrary: k new w)
  case (Cons op ops)
  from reload_op_total [of E op w S "clock k" new] Cons.prems obtain es new1 w1 where
    o: "reload_op E S (clock k) op new w = Some (es, new1, w1)" "wk_cfg w1 = wk_cfg w" by fastforce
  from Cons.IH [of w1 "Suc k" new1] Cons.prems o show ?case by fastforce
qed simp

lemma reload_adds_total:
  assumes "\<And>op. op \<in> set ops \<Longrightarrow> diffOp op = diffAdd \<Longrightarrow> newMirrorProvider E (mirCfg op) (wk_cfg w) \<noteq> None"
  shows "\<exists>es new' w'. reload_adds E S clock k ops new w = Some (es, new', w')"
  using assms
proof (induction ops arbitrary: k new w)
  case (Cons op ops)
  show ?case
  proof (cases "diffOp op = diffAdd")
    case True
    with Cons.prems obtain p c where p: "newMirrorProvider E (mirCfg op) (wk_cfg w) = Some (p, c)" by fastforce
    have "wk_cfg (snd (reload_add S (clock k) p w)) = wk_cfg w" by (simp add: reload_add_def create_job_def Let_def)
    with Cons.IH [of "snd (reload_add S (clock k) p w)" "Suc k" "share_env (mirCfg op) c new"] Cons.prems p True
    show ?thesis by (fastforce simp: case_prod_beta)
  next
    case False
    with Cons.IH [of w k new] Cons.prems show ?thesis by auto
  qed
qed simp

lemma ReloadMirrorConfig_total:
  assumes "config_ok w" and "distinct (names newMirrors)" and "diffMirrorConfig (cf_Mirrors (wk_cfg w)) newMirrors \<noteq> None"
    and "\<forall>c\<in>set newMirrors. newMirrorProvider E c (wk_cfg w) \<noteq> None"
  shows "\<exists>es w'. ReloadMirrorConfig E S clock newMirrors w = Some (es, w')"
proof -
  from assms(3) obtain ops where ops: "diffMirrorConfig (cf_Mirrors (wk_cfg w)) newMirrors = Some ops" by blast
  have "mirCfg op \<in> set newMirrors" if "op \<in> set ops" "diffOp op \<noteq> diffDelete" for op
    using diffMirrorConfig_Some(2) [OF _ assms(2) ops, of op] that assms(1)
    by (cases "diffOp op") (auto simp: diff_member_def config_ok_def)
  then have ok: "newMirrorProvider E (mirCfg op) (wk_cfg w) \<noteq> None" if "op \<in> set ops" "diffOp op \<noteq> diffDelete" for op
    using that assms(4) by blast
  from reload_changes_total [of ops E w S clock 0 newMirrors] ok obtain es new1 w1 where
    w1: "reload_changes E S clock 0 ops newMirrors w = Some (es, new1, w1)" "wk_cfg w1 = wk_cfg w" by blast
  from reload_adds_total [of ops E w1 S clock "length ops" new1] ok w1(2) obtain es' new2 w2 where
    "reload_adds E S clock (length ops) ops new1 w1 = Some (es', new2, w2)" by fastforce
  with ops w1(1) show ?thesis by (simp add: ReloadMirrorConfig_def)
qed

lemma reload_config_ok:
  assumes "worker_inv S ok w" and "config_ok w" and "distinct (names newMirrors)" and "fresh_clock S clock 0 w"
    and "ReloadMirrorConfig E S clock newMirrors w = Some (es, w')"
  shows "config_ok w'"
proof -
  note r = reload_result [OF assms]
  have "wk_jobs w' (mc_Name c) \<noteq> None" if c: "c \<in> set newMirrors" for c
  proof (cases "c \<in> set (cf_Mirrors (wk_cfg w))")
    case True
    then have "wk_jobs w (mc_Name c) \<noteq> None" using assms(2) by (auto simp: config_ok_def names_def dom_def)
    with r(4) [OF c] True show ?thesis by (metis reload_promise_def view_None)
  next
    case False
    with r(4) [OF c] have "view S w' (mc_Name c) \<noteq> None"
      by (auto simp: reload_promise_def split: option.splits)
    then show ?thesis by (simp add: view_None)
  qed
  then have "dom (wk_jobs w') = set (names newMirrors)" using r(3) by (auto simp: names_def dom_def) (metis option.distinct(1))
  with r(2) assms(3) show ?thesis by (simp add: config_ok_def)
qed


subsection \<open>Creation and start-up\<close>

lemma init_loop_result:
  assumes "worker_inv S ok w" and "slots S w = Map.empty" and "init_loop E ready ms w = Some w'"
    and "\<And>n i. wk_jobs w n = Some i \<Longrightarrow> mj_state (wk_heap w i) = stateNone"
  shows "worker_inv S ok w' \<and> slots S w' = Map.empty \<and> dom (wk_jobs w') = dom (wk_jobs w) \<union> set (names ms) \<and>
    names (cf_Mirrors (wk_cfg w')) = names ready @ names ms \<and> wk_cfg w' = (wk_cfg w)\<lparr>cf_Mirrors := cf_Mirrors (wk_cfg w')\<rparr> \<and>
    (\<forall>n i. wk_jobs w' n = Some i \<longrightarrow> mj_state (wk_heap w' i) = stateNone)"
  using assms
proof (induction E ready ms w rule: init_loop.induct)
  case (1 E ready w)
  then show ?case by (auto simp: names_def)
next
  case (2 E ready mirror ms w)
  from 2(4) obtain p mirror' where p: "newMirrorProvider E mirror (wk_cfg w) = Some (p, mirror')"
    and rest: "init_loop E (ready @ [mirror']) ms (snd (create_job p w)) = Some w'" by (auto split: option.splits)
  have "unscheduled S w (Name p)" using 2(3) by (simp add: unscheduled_def)
  from create_job_inv [OF 2(2) this] have inv: "worker_inv S ok (snd (create_job p w))" .
  have st: "mj_state (wk_heap (snd (create_job p w)) i) = stateNone" if "wk_jobs (snd (create_job p w)) n = Some i" for n i
    using that 2(5) worker_invD(2) [OF 2(2)] by (auto simp: newMirrorJob_def split: if_splits)
  from 2(1) [OF p refl inv _ rest st] 2(3) newMirrorProvider_names [OF p] show ?case
    by (auto simp: names_def)
qed

lemma init_loop_cfg: "init_loop E ready ms w = Some w' \<Longrightarrow> wk_cfg w' = (wk_cfg w)\<lparr>cf_Mirrors := cf_Mirrors (wk_cfg w')\<rparr>"
  by (induction E ready ms w rule: init_loop.induct) (auto split: option.splits)

lemma NewTUNASyncWorker_result:
  assumes "skiplist_laws S ok" and "NewTUNASyncWorker E S e1 e2 h cfg = Some (Some w)" and "distinct (names (cf_Mirrors cfg))"
  shows "worker_inv S ok w" and "slots S w = Map.empty" and "config_ok w" and "names (cf_Mirrors (wk_cfg w)) = names (cf_Mirrors cfg)"
    and "wk_jobs w n = Some i \<Longrightarrow> mj_state (wk_heap w i) = stateNone"
proof -
  let ?w = "\<lambda>cfg. \<lparr>wk_cfg = cfg, wk_heap = h, wk_next = 0, wk_jobs = Map.empty, wk_schedule = newScheduleQueue S\<rparr>"
  from assms(2) obtain cfg' where i: "init_loop E [] (cf_Mirrors cfg') (?w cfg') = Some w" and c: "cf_Mirrors cfg' = cf_Mirrors cfg"
    by (auto simp: NewTUNASyncWorker_def initJobs_def Let_def split: if_splits)
  have s: "slots S (?w cfg') = Map.empty" using skiplist_lawsD(2) [OF assms(1)] by (simp add: slots_def newScheduleQueue_def q_slots_def)
  have inv: "worker_inv S ok (?w cfg')"
    by (rule worker_invI) (use newScheduleQueue_inv [OF assms(1)] s in auto)
  note r = init_loop_result [OF inv s i]
  show "worker_inv S ok w" "slots S w = Map.empty" "names (cf_Mirrors (wk_cfg w)) = names (cf_Mirrors cfg)"
    "wk_jobs w n = Some i \<Longrightarrow> mj_state (wk_heap w i) = stateNone" using r c by (auto simp: names_def)
  show "config_ok w" using r c assms(3) by (auto simp: config_ok_def names_def)
qed

text \<open>The instant at which a job known to the manager is scheduled, if it is, and its state.\<close>

definition startup_times :: "MirrorStatus \<Rightarrow> 'r mirrorJob \<Rightarrow> gtime set" where
  "startup_times m j =
     (if ms_Status m = Disabled \<or> ms_Status m = Paused then {} else {ms_LastUpdate m + Interval (mj_provider j)})"

definition startup_state :: "MirrorStatus \<Rightarrow> jobState" where
  "startup_state m = (if ms_Status m = Disabled then stateDisabled else if ms_Status m = Paused then statePaused else stateNone)"

definition known_start :: "('r, 'l) Worker \<Rightarrow> MirrorStatus \<Rightarrow> gtime set" where
  "known_start w m = (case wk_jobs w (ms_Name m) of None \<Rightarrow> {} | Some i \<Rightarrow> startup_times m (wk_heap w i))"

lemma start_entry_view:
  assumes "worker_inv S ok w" and "wk_jobs w (ms_Name m) = Some i" and "starts S w (ms_Name m) = {}"
    and "startup_times m (wk_heap w i) \<inter> dom (slots S w) = {}" and "start_entry S m i w = (es, w')"
  shows "worker_inv S ok w'"
    and "view S w' = (view S w)(ms_Name m \<mapsto> (i, (wk_heap w i)\<lparr>mj_state := startup_state m\<rparr>, startup_times m (wk_heap w i)))"
    and "dom (slots S w') \<subseteq> dom (slots S w) \<union> startup_times m (wk_heap w i)"
    and "es = (if ms_Status m = Disabled then [] else [Go i])" and "wk_cfg w' = wk_cfg w"
proof -
  let ?n = "ms_Name m" and ?w1 = "SetState i (startup_state m) w"
  have n: "nm w i = ?n" using worker_invD(3) [OF assms(1,2)] .
  have w1: "worker_inv S ok ?w1" using assms(3) n by (intro SetState_inv assms(1)) (simp add: unscheduled_starts)
  have s1: "starts S ?w1 = starts S w" by (rule starts_cong) simp_all
  have "worker_inv S ok w' \<and> starts S w' = (starts S w)(?n := startup_times m (wk_heap w i)) \<and>
    dom (slots S w') \<subseteq> dom (slots S w) \<union> startup_times m (wk_heap w i)"
  proof (cases "ms_Status m = Disabled \<or> ms_Status m = Paused")
    case True
    then have "w' = ?w1" using assms(5) by (auto simp: start_entry_def startup_state_def)
    with w1 s1 True assms(3) show ?thesis by (auto simp: startup_times_def fun_eq_iff)
  next
    case False
    let ?t = "ms_LastUpdate m + Interval (mj_provider (wk_heap w i))"
    from False have w': "w' = add_job S ?t i ?w1" using assms(5)
      by (auto simp: start_entry_def startup_state_def Let_def split: SyncStatus.splits)
    have t: "?t \<notin> dom (slots S ?w1)" "startup_times m (wk_heap w i) = {?t}" using False assms(4) by (auto simp: startup_times_def)
    from add_job_inv [OF w1, of i ?t] starts_add [OF w1 t(1), of i] dom_slots_add [OF w1, of ?t i] s1 n assms(2) False
    show ?thesis by (auto simp: w' t(2) startup_state_def)
  qed
  then show "worker_inv S ok w'" and "dom (slots S w') \<subseteq> dom (slots S w) \<union> startup_times m (wk_heap w i)"
    and "view S w' = (view S w)(?n \<mapsto> (i, (wk_heap w i)\<lparr>mj_state := startup_state m\<rparr>, startup_times m (wk_heap w i)))"
    using assms(5) by (auto intro!: view_update [OF assms(1,2)] simp: start_entry_def startup_state_def Let_def split: SyncStatus.splits)
  show "es = (if ms_Status m = Disabled then [] else [Go i])" and "wk_cfg w' = wk_cfg w"
    using assms(5) by (auto simp: start_entry_def Let_def split: SyncStatus.splits)
qed

lemma known_start_view: "known_start w m = (case view S w (ms_Name m) of None \<Rightarrow> {} | Some (i, j, ts) \<Rightarrow> startup_times m j)"
  by (cases "wk_jobs w (ms_Name m)") (simp_all add: known_start_def view_def)

lemma startup_times_provider: "mj_provider j' = mj_provider j \<Longrightarrow> startup_times m j' = startup_times m j"
  by (simp add: startup_times_def)

text \<open>What the manager's list makes of one name.\<close>

definition startup_view :: "MirrorStatus list \<Rightarrow> (string \<rightharpoonup> nat \<times> 'r mirrorJob \<times> gtime set) \<Rightarrow> string \<rightharpoonup> nat \<times> 'r mirrorJob \<times> gtime set" where
  "startup_view mirrorList v n =
     (case (find (\<lambda>m. ms_Name m = n) mirrorList, v n) of
        (Some m, Some (i, j, ts)) \<Rightarrow> Some (i, j\<lparr>mj_state := startup_state m\<rparr>, startup_times m j)
      | _ \<Rightarrow> v n)"

text \<open>The instants of the known jobs differ from each other and from those in the queue.\<close>

definition apart :: "('l, nat) skiplist \<Rightarrow> ('r, 'l) Worker \<Rightarrow> MirrorStatus list \<Rightarrow> bool" where
  "apart S w ml \<longleftrightarrow> sorted_wrt (\<lambda>m m'. known_start w m \<inter> known_start w m' = {}) ml \<and>
     (\<forall>m\<in>set ml. known_start w m \<inter> dom (slots S w) = {})"

lemma start_entry_known:
  assumes "worker_inv S ok w" and "wk_jobs w (ms_Name m) = Some i" and "starts S w (ms_Name m) = {}" and "apart S w (m # ml)"
    and "start_entry S m i w = (es, w')"
  shows "worker_inv S ok w'" and "wk_cfg w' = wk_cfg w" and "wk_jobs w' = wk_jobs w"
    and "view S w' = (view S w)(ms_Name m \<mapsto> (i, (wk_heap w i)\<lparr>mj_state := startup_state m\<rparr>, known_start w m))"
    and "dom (slots S w') \<subseteq> dom (slots S w) \<union> known_start w m" and "es = (if ms_Status m = Disabled then [] else [Go i])"
    and "known_start w' m' = known_start w m'" and "apart S w' ml"
proof -
  have ks: "known_start w m = startup_times m (wk_heap w i)" using assms(2) by (simp add: known_start_def)
  have ap: "sorted_wrt (\<lambda>m m'. known_start w m \<inter> known_start w m' = {}) ml" "\<forall>m'\<in>set ml. known_start w m \<inter> known_start w m' = {}"
    "\<forall>m'\<in>set (m # ml). known_start w m' \<inter> dom (slots S w) = {}" using assms(4) by (auto simp: apart_def)
  then have "startup_times m (wk_heap w i) \<inter> dom (slots S w) = {}" using ks by simp
  note v = start_entry_view [OF assms(1,2,3) this assms(5)]
  show "worker_inv S ok w'" "wk_cfg w' = wk_cfg w" "es = (if ms_Status m = Disabled then [] else [Go i])" using v by simp_all
  show view: "view S w' = (view S w)(ms_Name m \<mapsto> (i, (wk_heap w i)\<lparr>mj_state := startup_state m\<rparr>, known_start w m))"
    and dom: "dom (slots S w') \<subseteq> dom (slots S w) \<union> known_start w m" using v ks by simp_all
  show "wk_jobs w' = wk_jobs w"
    using view assms(2) by (auto simp: fun_eq_iff view_jobs [of w' _ S] view_jobs [of w _ S])
  show prov: "known_start w' m' = known_start w m'" for m'
    using view assms(2) by (auto simp: known_start_view [of w' m' S] known_start_view [of w m' S] view_def startup_times_def split: option.splits)
  have "known_start w m' \<inter> dom (slots S w') = {}" if "m' \<in> set ml" for m'
    using bspec [OF ap(2) that] bspec [OF ap(3), of m'] that dom by fastforce
  then show "apart S w' ml" using ap(1) by (simp add: apart_def prov)
qed

lemma start_known_view:
  assumes "worker_inv S ok w" and "distinct (map ms_Name ml)" and "\<forall>m\<in>set ml. \<forall>i j ts. view S w (ms_Name m) = Some (i, j, ts) \<longrightarrow> ts = {}"
    and "apart S w ml"
    and "start_known S ml unset w = (es, unset', w')"
  shows "worker_inv S ok w' \<and> view S w' = startup_view ml (view S w) \<and> wk_cfg w' = wk_cfg w \<and>
    unset' = unset - {n \<in> ms_Name ` set ml. wk_jobs w n \<noteq> None} \<and>
    dom (slots S w') \<subseteq> dom (slots S w) \<union> (\<Union>m\<in>set ml. known_start w m) \<and>
    set es = {Go i |i m. m \<in> set ml \<and> wk_jobs w (ms_Name m) = Some i \<and> ms_Status m \<noteq> Disabled} \<and> distinct es"
  using assms
proof (induction ml arbitrary: unset w es)
  case Nil
  then show ?case by (auto simp: startup_view_def fun_eq_iff split: option.split)
next
  case (Cons m ml)
  let ?n = "ms_Name m"
  have d: "?n \<notin> ms_Name ` set ml" "distinct (map ms_Name ml)" using Cons.prems(2) by auto
  show ?case
  proof (cases "wk_jobs w ?n")
    case None
    with Cons.prems(5) have rest: "start_known S ml unset w = (es, unset', w')" by simp
    have "apart S w ml" using Cons.prems(4) by (simp add: apart_def)
    with Cons.IH [OF Cons.prems(1) d(2) _ this rest] Cons.prems(3) None show ?thesis
      by (auto simp: startup_view_def fun_eq_iff known_start_def split: option.split)
  next
    case (Some i)
    obtain es1 w1 where e: "start_entry S m i w = (es1, w1)" by (cases "start_entry S m i w")
    with Cons.prems(5) Some obtain es2 where
      rest: "start_known S ml (unset - {?n}) w1 = (es2, unset', w')" and es: "es = es1 @ es2" by (auto split: prod.splits)
    have "starts S w ?n = {}" using Cons.prems(3) Some by (auto simp: view_def)
    note v = start_entry_known [OF Cons.prems(1) Some this Cons.prems(4) e]
    have "view S w1 (ms_Name m') = view S w (ms_Name m')" if "m' \<in> set ml" for m'
      using v(4) imageI [OF that, of ms_Name] d(1) by auto
    then have "\<forall>m\<in>set ml. \<forall>i j ts. view S w1 (ms_Name m) = Some (i, j, ts) \<longrightarrow> ts = {}" using Cons.prems(3) by simp
    from Cons.IH [OF v(1) d(2) this v(8) rest] have IH: "worker_inv S ok w' \<and> view S w' = startup_view ml (view S w1) \<and> wk_cfg w' = wk_cfg w1 \<and>
      unset' = unset - {?n} - {n \<in> ms_Name ` set ml. wk_jobs w n \<noteq> None} \<and>
      dom (slots S w') \<subseteq> dom (slots S w1) \<union> (\<Union>m\<in>set ml. known_start w m) \<and>
      set es2 = {Go i |i m. m \<in> set ml \<and> wk_jobs w (ms_Name m) = Some i \<and> ms_Status m \<noteq> Disabled} \<and> distinct es2"
      by (simp add: v(3,7))
    have "find (\<lambda>m. ms_Name m = ?n) ml = None"
      unfolding find_None_iff by (metis d(1) image_eqI)
    then have "startup_view ml (view S w1) = startup_view (m # ml) (view S w)"
      using v(4) Some by (auto simp: startup_view_def fun_eq_iff view_def known_start_def split: option.splits)
    moreover have "Go i \<notin> set es2" using IH jobs_inject [OF Cons.prems(1) Some] d(1) by force
    moreover have "dom (slots S w') \<subseteq> dom (slots S w) \<union> (\<Union>m\<in>set (m # ml). known_start w m)"
    proof -
      have "dom (slots S w') \<subseteq> dom (slots S w1) \<union> (\<Union>m\<in>set ml. known_start w m)" using IH by (elim conjE)
      also have "\<dots> \<subseteq> dom (slots S w) \<union> known_start w m \<union> (\<Union>m\<in>set ml. known_start w m)" using v(5) by (intro Un_mono) simp_all
      finally show ?thesis by (simp add: Un_assoc)
    qed
    ultimately show ?thesis using IH v(2,6) Some es by auto
  qed
qed

lemma start_new_view:
  assumes "worker_inv S ok w" and "distinct ns" and "\<forall>n\<in>set ns. wk_jobs w n \<noteq> None" and "fresh_clock S clock k w"
    and "start_new S clock k ns w = (es, w')"
  shows "worker_inv S ok w' \<and> wk_cfg w' = wk_cfg w \<and> (\<forall>n. n \<notin> set ns \<longrightarrow> view S w' n = view S w n) \<and>
    (\<forall>n\<in>set ns. \<exists>i j ts t. view S w n = Some (i, j, ts) \<and> t \<in> range clock \<and> view S w' n = Some (i, j\<lparr>mj_state := stateNone\<rparr>, {t})) \<and>
    set es = {Go i |i n. n \<in> set ns \<and> wk_jobs w n = Some i} \<and> distinct es"
  using assms
proof (induction ns arbitrary: k w es)
  case Nil
  then show ?case by simp
next
  case (Cons n ns)
  from Cons.prems(3) obtain i where i: "wk_jobs w n = Some i" by auto
  let ?w0 = "SetState i stateNone w" and ?w1 = "add_job S (clock k) i (SetState i stateNone w)"
  from Cons.prems(5) i obtain es' where rest: "start_new S clock (Suc k) ns ?w1 = (es', w')" and es: "es = Go i # es'"
    by (auto split: prod.splits)
  have nm: "nm w i = n" using worker_invD(3) [OF Cons.prems(1) i] .
  have w0: "worker_inv S ok ?w0" by (rule SetState_inv [OF Cons.prems(1)]) simp
  have fresh: "clock k \<notin> dom (slots S ?w0)" using Cons.prems(4) by (simp add: fresh_clock_def)
  have w1: "worker_inv S ok ?w1" by (rule add_job_inv [OF w0]) (simp_all add: nm i)
  have "starts S ?w0 = starts S w" by (rule starts_cong) simp_all
  then have "starts S ?w1 = (starts S w)(n := {clock k})" using starts_add [OF w0 fresh, of i] nm by simp
  from view_update [OF Cons.prems(1) i _ _ this] have v: "view S ?w1 = (view S w)(n \<mapsto> (i, (wk_heap w i)\<lparr>mj_state := stateNone\<rparr>, {clock k}))" by simp
  have fr: "fresh_clock S clock (Suc k) ?w1" by (rule fresh_clock_step [OF Cons.prems(4)]) (use dom_slots_add [OF w0, of "clock k" i] in simp)
  have "n \<notin> set ns" "distinct ns" using Cons.prems(2) by simp_all
  with Cons.IH [OF w1 _ _ fr rest] Cons.prems(3) have IH: "worker_inv S ok w' \<and> wk_cfg w' = wk_cfg w \<and> (\<forall>m. m \<notin> set ns \<longrightarrow> view S w' m = view S ?w1 m) \<and>
    (\<forall>m\<in>set ns. \<exists>i j ts t. view S ?w1 m = Some (i, j, ts) \<and> t \<in> range clock \<and> view S w' m = Some (i, j\<lparr>mj_state := stateNone\<rparr>, {t})) \<and>
    set es' = {Go i |i m. m \<in> set ns \<and> wk_jobs w m = Some i} \<and> distinct es'" by simp
  have head: "\<exists>i j ts t. view S w n = Some (i, j, ts) \<and> t \<in> range clock \<and> view S w' n = Some (i, j\<lparr>mj_state := stateNone\<rparr>, {t})"
    using IH v i \<open>n \<notin> set ns\<close> by (auto simp: view_def)
  have tail: "\<exists>i j ts t. view S w m = Some (i, j, ts) \<and> t \<in> range clock \<and> view S w' m = Some (i, j\<lparr>mj_state := stateNone\<rparr>, {t})"
    if "m \<in> set ns" for m
  proof -
    have eq: "view S ?w1 m = view S w m" using v that \<open>n \<notin> set ns\<close> by auto
    from IH have "\<forall>m\<in>set ns. \<exists>i j ts t. view S ?w1 m = Some (i, j, ts) \<and> t \<in> range clock \<and> view S w' m = Some (i, j\<lparr>mj_state := stateNone\<rparr>, {t})"
      by (elim conjE)
    from bspec [OF this that] show ?thesis unfolding eq .
  qed
  have "Go i \<notin> set es'" using IH jobs_inject [OF Cons.prems(1) i] \<open>n \<notin> set ns\<close> by auto
  with IH v head tail i es show ?case by auto
qed

lemma report_schedule_posts: "e \<in> set (report_schedule S w) \<Longrightarrow> \<exists>url s. e = Post url (PSchedules s)"
  by (auto simp: report_schedule_def updateSchedInfo_def Let_def)

definition iteration_order :: "(string set \<Rightarrow> string list) \<Rightarrow> string set \<Rightarrow> bool" where
  "iteration_order order U \<longleftrightarrow> distinct (order U) \<and> set (order U) = U"

text \<open>What start-up promises for the job \<open>i\<close> of a name.\<close>

definition startup_promise :: "('l, nat) skiplist \<Rightarrow> MirrorStatus list \<Rightarrow> string \<Rightarrow> nat \<Rightarrow> ('r, 'l) Worker \<Rightarrow> effect list \<Rightarrow> ('r, 'l) Worker \<Rightarrow> bool" where
  "startup_promise S mirrorList n i w es w' \<longleftrightarrow>
     (case find (\<lambda>m. ms_Name m = n) mirrorList of
        Some m \<Rightarrow> view S w' n = Some (i, (wk_heap w i)\<lparr>mj_state := startup_state m\<rparr>, startup_times m (wk_heap w i)) \<and>
          count_list es (Go i) = (if ms_Status m = Disabled then 0 else 1)
      | None \<Rightarrow> (\<exists>t. view S w' n = Some (i, (wk_heap w i)\<lparr>mj_state := stateNone\<rparr>, {t})) \<and> count_list es (Go i) = 1)"

lemma count_distinct: "distinct xs \<Longrightarrow> count_list xs x = (if x \<in> set xs then 1 else 0)"
  by (induction xs) auto

text \<open>Which goroutines the two loops start.\<close>

lemma Go_known:
  assumes "worker_inv S ok w" and "distinct (map ms_Name ml)" and "wk_jobs w n = Some i"
  shows "Go i \<in> {Go i |i m. m \<in> set ml \<and> wk_jobs w (ms_Name m) = Some i \<and> ms_Status m \<noteq> Disabled} \<longleftrightarrow>
    (\<exists>m. find (\<lambda>m. ms_Name m = n) ml = Some m \<and> ms_Status m \<noteq> Disabled)"
proof (cases "find (\<lambda>m. ms_Name m = n) ml")
  case None
  then have "ms_Name m \<noteq> n" if "m \<in> set ml" for m using that by (auto simp: find_None_iff)
  then show ?thesis using None jobs_inject [OF assms(1,3)] by force
next
  case (Some m)
  then have m: "m \<in> set ml" "ms_Name m = n" by (auto simp: find_Some_iff)
  have "m' = m" if "m' \<in> set ml" "wk_jobs w (ms_Name m') = Some i" for m'
    using jobs_inject [OF assms(1,3) that(2)] m that(1) assms(2) by (metis distinct_map inj_onD)
  then have "(\<exists>m'. m' \<in> set ml \<and> wk_jobs w (ms_Name m') = Some i \<and> ms_Status m' \<noteq> Disabled) \<longleftrightarrow> ms_Status m \<noteq> Disabled"
    using m assms(3) by blast
  then show ?thesis using Some by simp
qed

lemma Go_new:
  "worker_inv S ok w \<Longrightarrow> wk_jobs w n = Some i \<Longrightarrow> Go i \<in> {Go i |i n. n \<in> U \<and> wk_jobs w n = Some i} \<longleftrightarrow> n \<in> U"
  using jobs_inject by (simp, blast)

lemma start_jobs_result:
  assumes "worker_inv S ok w" and "slots S w = Map.empty" and "distinct (map ms_Name ml)" and "apart S w ml"
    and "inj clock" and "\<And>m. m \<in> set ml \<Longrightarrow> range clock \<inter> known_start w m = {}"
    and "\<And>U. U \<subseteq> dom (wk_jobs w) \<Longrightarrow> iteration_order order U" and "start_jobs S clock order ml w = (es, w')"
  shows "worker_inv S ok w'" and "wk_cfg w' = wk_cfg w" and "dom (wk_jobs w') = dom (wk_jobs w)"
    and "wk_jobs w n = Some i \<Longrightarrow> startup_promise S ml n i w es w'"
proof -
  obtain es1 unset w1 where k: "start_known S ml (dom (wk_jobs w)) w = (es1, unset, w1)" by (cases "start_known S ml (dom (wk_jobs w)) w") auto
  obtain es2 where s: "start_new S clock 0 (order unset) w1 = (es2, w')" and es: "es = es1 @ es2 @ report_schedule S w'"
    using assms(8) k by (auto simp: start_jobs_def split: prod.splits)
  have "\<forall>m\<in>set ml. \<forall>i j ts. view S w (ms_Name m) = Some (i, j, ts) \<longrightarrow> ts = {}" using assms(2) by (simp add: view_Some starts_def)
  note K = start_known_view [OF assms(1,3) this assms(4) k]
  have w1: "worker_inv S ok w1" "wk_cfg w1 = wk_cfg w" "view S w1 = startup_view ml (view S w)" "distinct es1"
    "unset = dom (wk_jobs w) - {n \<in> ms_Name ` set ml. wk_jobs w n \<noteq> None}" "dom (slots S w1) \<subseteq> (\<Union>m\<in>set ml. known_start w m)"
    "set es1 = {Go i |i m. m \<in> set ml \<and> wk_jobs w (ms_Name m) = Some i \<and> ms_Status m \<noteq> Disabled}"
    using K assms(2) by auto
  have jobs: "wk_jobs w1 n = wk_jobs w n" for n
    using w1(3) by (auto simp: view_jobs [of w1 n S] view_jobs [of w n S] startup_view_def split: option.splits)
  have U: "distinct (order unset)" "set (order unset) = unset" using assms(7) [of unset] w1(5) by (auto simp: iteration_order_def)
  then have "\<forall>n\<in>set (order unset). wk_jobs w1 n \<noteq> None" using w1(5) jobs by auto
  moreover have "fresh_clock S clock 0 w1" using assms(5,6) w1(6) by (fastforce simp: fresh_clock_def)
  ultimately have N: "worker_inv S ok w'" "wk_cfg w' = wk_cfg w" "\<And>n. n \<notin> unset \<Longrightarrow> view S w' n = view S w1 n" "distinct es2"
    "\<And>n. n \<in> unset \<Longrightarrow> \<exists>i j ts t. view S w1 n = Some (i, j, ts) \<and> t \<in> range clock \<and> view S w' n = Some (i, j\<lparr>mj_state := stateNone\<rparr>, {t})"
    "set es2 = {Go i |i n. n \<in> unset \<and> wk_jobs w n = Some i}"
    using start_new_view [OF w1(1) U(1) _ _ s] U(2) w1(2) jobs by simp_all
  show "worker_inv S ok w'" "wk_cfg w' = wk_cfg w" using N by simp_all
  have "wk_jobs w' n \<noteq> None \<longleftrightarrow> wk_jobs w n \<noteq> None" for n
    using N(3,5) [of n] jobs [of n] by (metis option.distinct(1) view_None)
  then show "dom (wk_jobs w') = dom (wk_jobs w)" by (auto simp: dom_def)
  show "startup_promise S ml n i w es w'" if i: "wk_jobs w n = Some i"
  proof -
    have post: "count_list (report_schedule S w') (Go i) = 0" using report_schedule_posts by (fastforce simp: count_list_0_iff)
    have cnt: "count_list es (Go i) = (if Go i \<in> set es1 then 1 else 0) + (if Go i \<in> set es2 then 1 else 0)"
      by (simp add: es post count_distinct w1(4) N(4))
    note go = Go_known [OF assms(1,3) i, folded w1(7)] Go_new [OF assms(1) i, of unset, folded N(6)]
    show ?thesis
    proof (cases "find (\<lambda>m. ms_Name m = n) ml")
      case None
      then have u: "n \<in> unset" using i by (auto simp: w1(5) find_None_iff)
      have "view S w1 n = Some (i, wk_heap w i, {})" using None i assms(2) by (simp add: w1(3) startup_view_def view_def starts_def)
      then show ?thesis using None cnt go u N(5) [OF u] by (auto simp: startup_promise_def)
    next
      case (Some m)
      then have "m \<in> set ml" "ms_Name m = n" by (auto simp: find_Some_iff)
      then have u: "n \<notin> unset" using i w1(5) by auto
      with Some cnt go N(3) [OF u] i show ?thesis by (auto simp: startup_promise_def w1(3) startup_view_def view_def)
    qed
  qed
qed

text \<open>C11.  Start-up.  A worker that was created from a configuration with distinct names and starts its
  schedule loop with the list of the manager gives every job what it needs, once: a job that the manager
  has as disabled is disabled, neither started nor scheduled; a paused one is started, paused and not
  scheduled; any other known one is started and scheduled exactly at its last update plus its interval;
  one the manager does not know is started and scheduled exactly once.  Two jobs must not ask for the
  same instant, and the clock must not repeat itself.\<close>

theorem startup_serves_every_job:
  assumes "skiplist_laws S ok" and "NewTUNASyncWorker E S e1 e2 h cfg = Some (Some w)" and "distinct (names (cf_Mirrors cfg))"
    and "distinct (map ms_Name ml)" and "apart S w ml" and "inj clock" and "\<forall>m\<in>set ml. range clock \<inter> known_start w m = {}"
    and "\<forall>U. U \<subseteq> dom (wk_jobs w) \<longrightarrow> iteration_order order U"
  shows "\<exists>es w'. start_jobs S clock order ml w = (es, w') \<and> worker_inv S ok w' \<and> config_ok w' \<and>
    (\<forall>n\<in>set (names (cf_Mirrors cfg)). \<exists>i. wk_jobs w n = Some i \<and> startup_promise S ml n i w es w')"
proof -
  note N = NewTUNASyncWorker_result [OF assms(1-3)]
  obtain es w' where s: "start_jobs S clock order ml w = (es, w')" by (cases "start_jobs S clock order ml w")
  have k: "\<And>m. m \<in> set ml \<Longrightarrow> range clock \<inter> known_start w m = {}" and o: "\<And>U. U \<subseteq> dom (wk_jobs w) \<Longrightarrow> iteration_order order U"
    using assms(7,8) by blast+
  note r = start_jobs_result [OF N(1,2) assms(4-6) k o s]
  have "config_ok w'" using N(3) r(2,3) by (simp add: config_ok_def)
  moreover have "\<exists>i. wk_jobs w n = Some i \<and> startup_promise S ml n i w es w'" if "n \<in> set (names (cf_Mirrors cfg))" for n
  proof -
    have "n \<in> dom (wk_jobs w)" using N(3,4) that by (simp add: config_ok_def)
    then show ?thesis using r(4) by blast
  qed
  ultimately show ?thesis using s r(1) by blast
qed

definition ex_second :: mirrorConfig where
  "ex_second = ex_rsync\<lparr>mc_Name := ''m'', mc_Env := None\<rparr>"

definition ex_wcfg :: Config where
  "ex_wcfg = ex_config\<lparr>cf_Mirrors := [ex_rsync, ex_second]\<rparr>"

lemma init_loop_total: "\<forall>c\<in>set ms. newMirrorProvider E c (wk_cfg w) \<noteq> None \<Longrightarrow> init_loop E ready ms w \<noteq> None"
  by (induction E ready ms w rule: init_loop.induct) (auto split: option.splits)

text \<open>The configuration after creation: the default number of attempts, and any list of mirrors.\<close>

definition ex_ready :: "mirrorConfig list \<Rightarrow> Config" where
  "ex_ready ms = ex_config\<lparr>cf_Global := (cf_Global ex_config)\<lparr>gc_Retry := defaultMaxRetry\<rparr>, cf_Mirrors := ms\<rparr>"

lemma ex_providers: "newMirrorProvider ex_env ex_rsync (ex_ready ms) \<noteq> None" "newMirrorProvider ex_env ex_second (ex_ready ms) \<noteq> None"
  by (simp_all add: newMirrorProvider_def ex_ready_def ex_env_def ex_second_def ex_rsync_def ex_config_def zero_mirrorConfig_def with_defaults_def
      newRsyncProvider_def rsync_conf_def has_suffix_slash_def add_hooks_def elems_def Let_def defaultMaxRetry_def)

lemma ex_created: "\<exists>w ms. NewTUNASyncWorker ex_env S None None h ex_wcfg = Some (Some w) \<and> wk_cfg w = ex_ready ms"
proof -
  let ?w = "\<lparr>wk_cfg = ex_ready [ex_rsync, ex_second], wk_heap = h, wk_next = 0, wk_jobs = Map.empty, wk_schedule = newScheduleQueue S\<rparr>"
  have "init_loop ex_env [] [ex_rsync, ex_second] ?w \<noteq> None" by (rule init_loop_total) (use ex_providers in simp)
  then obtain w where w: "init_loop ex_env [] [ex_rsync, ex_second] ?w = Some w" by blast
  have "wk_cfg w = (wk_cfg ?w)\<lparr>cf_Mirrors := cf_Mirrors (wk_cfg w)\<rparr>" by (rule init_loop_cfg [OF w])
  then have "wk_cfg w = ex_ready (cf_Mirrors (wk_cfg w))" by (simp add: ex_ready_def)
  moreover have "NewTUNASyncWorker ex_env S None None h ex_wcfg = map_option Some (init_loop ex_env [] [ex_rsync, ex_second] ?w)"
    by (simp add: NewTUNASyncWorker_def initJobs_def Let_def ex_wcfg_def ex_ready_def ex_config_def)
  ultimately show ?thesis using w by auto
qed

lemma ex_names: "distinct (names (cf_Mirrors ex_wcfg))" "names (cf_Mirrors ex_wcfg) = [''deb'', ''m'']"
  by (simp_all add: ex_wcfg_def names_def ex_second_def ex_rsync_def)


definition ex_known :: MirrorStatus where
  "ex_known = zero_MirrorStatus\<lparr>ms_Name := ''deb'', ms_Worker := ''w'', ms_Status := Success, ms_LastUpdate := 1000\<rparr>"

theorem startup_serves_every_job_witness:
  "\<forall>h. \<exists>w clock es w'. NewTUNASyncWorker ex_env ref_skiplist None None h ex_wcfg = Some (Some w) \<and> inj clock \<and>
    start_jobs ref_skiplist clock sorted_list_of_set [ex_known] w = (es, w') \<and> worker_inv ref_skiplist ref_sorted w' \<and>
    (\<exists>i. wk_jobs w ''deb'' = Some i \<and> startup_promise ref_skiplist [ex_known] ''deb'' i w es w') \<and>
    (\<exists>i. wk_jobs w ''m'' = Some i \<and> startup_promise ref_skiplist [ex_known] ''m'' i w es w')"
proof
  fix h :: "nat \<Rightarrow> string mirrorJob"
  obtain w ms where w: "NewTUNASyncWorker ex_env ref_skiplist None None h ex_wcfg = Some (Some w)" "wk_cfg w = ex_ready ms"
    using ex_created by blast
  note N = NewTUNASyncWorker_result [OF ref_skiplist_laws w(1) ex_names(1)]
  have "''deb'' \<in> dom (wk_jobs w)" using N(3,4) by (simp add: config_ok_def ex_names(2))
  then obtain i where i: "wk_jobs w ''deb'' = Some i" by blast
  define clock where "clock k = 1001 + Interval (mj_provider (wk_heap w i)) + int k" for k
  have clk: "inj clock" "\<forall>m\<in>set [ex_known]. range clock \<inter> known_start w m = {}"
    by (auto simp: inj_on_def clock_def known_start_def i ex_known_def startup_times_def)
  have ap: "apart ref_skiplist w [ex_known]" using N(2) by (simp add: apart_def)
  have fin: "finite (dom (wk_jobs w))" using N(3) by (simp add: config_ok_def)
  have ord: "\<forall>U. U \<subseteq> dom (wk_jobs w) \<longrightarrow> iteration_order sorted_list_of_set U"
    using finite_subset [OF _ fin] by (simp add: iteration_order_def)
  from startup_serves_every_job [OF ref_skiplist_laws w(1) ex_names(1) _ ap clk ord] w(1) clk(1)
  show "\<exists>w clock es w'. NewTUNASyncWorker ex_env ref_skiplist None None h ex_wcfg = Some (Some w) \<and> inj clock \<and>
    start_jobs ref_skiplist clock sorted_list_of_set [ex_known] w = (es, w') \<and> worker_inv ref_skiplist ref_sorted w' \<and>
    (\<exists>i. wk_jobs w ''deb'' = Some i \<and> startup_promise ref_skiplist [ex_known] ''deb'' i w es w') \<and>
    (\<exists>i. wk_jobs w ''m'' = Some i \<and> startup_promise ref_skiplist [ex_known] ''m'' i w es w')"
    unfolding ex_names(2) by auto
qed

end
