(* ===== verification/Worker_Steps.thy ===== *)
theory Worker_Steps
  imports Worker_System
begin

section \<open>The worker over time\<close>

text \<open>
  The worker as a transition system: the commands of the manager, hot reloads, status messages, ticks of
  the schedule and the changes that the goroutines of the jobs make to their jobs, in every order.
  Shown: in every state that a started worker can reach, the schedule holds only current jobs, each at
  most once and none of them disabled; hence a tick only ever wakes such a job.  Then the answer and the
  effects of every command, the handling of a status message, and three behaviours that the code does
  not intend: a reload command that is answered as not found, a ping that unschedules, and a message
  whose handling overlaps with a disable command.
\<close>

subsection \<open>Start-up keeps the invariant\<close>

lemma unscheduled_add:
  assumes "worker_inv S ok w" and "unscheduled S w n" and "nm w i \<noteq> n"
  shows "unscheduled S (add_job S t i w) n"
  using assms(2,3) by (auto simp: unscheduled_def slots_add_job [OF assms(1)] without_apply split: if_splits)

lemma start_entry_inv [invs]:
  assumes "worker_inv S ok w" and "wk_jobs w (ms_Name m) = Some i" and "unscheduled S w (ms_Name m)"
  shows "worker_inv S ok (snd (start_entry S m i w))"
    and "n \<noteq> ms_Name m \<Longrightarrow> unscheduled S w n \<Longrightarrow> unscheduled S (snd (start_entry S m i w)) n"
    and "wk_jobs (snd (start_entry S m i w)) = wk_jobs w" and "wk_cfg (snd (start_entry S m i w)) = wk_cfg w"
proof -
  have n: "nm w i = ms_Name m" by (rule worker_invD(3) [OF assms(1,2)])
  have s: "worker_inv S ok (SetState i st w)" for st using SetState_inv [OF assms(1)] assms(3) n by simp
  have a: "worker_inv S ok (add_job S t i (SetState i stateNone w))" for t
    by (rule add_job_inv [OF s]) (simp_all add: n assms(2))
  show "worker_inv S ok (snd (start_entry S m i w))"
    using s a by (simp add: start_entry_def Let_def split: SyncStatus.split)
  show "unscheduled S (snd (start_entry S m i w)) n" if "n \<noteq> ms_Name m" "unscheduled S w n"
  proof -
    have u: "unscheduled S (SetState i st w) n" for st using that(2) by (simp add: unscheduled_def)
    have "unscheduled S (add_job S t i (SetState i stateNone w)) n" for t
      by (rule unscheduled_add [OF s u]) (use n that(1) in simp)
    with u show ?thesis by (simp add: start_entry_def Let_def split: SyncStatus.split)
  qed
  show "wk_jobs (snd (start_entry S m i w)) = wk_jobs w" "wk_cfg (snd (start_entry S m i w)) = wk_cfg w"
    by (simp_all add: start_entry_def Let_def split: SyncStatus.split)
qed

lemma start_known_inv:
  assumes "worker_inv S ok w" and "distinct (map ms_Name ml)" and "\<And>m. m \<in> set ml \<Longrightarrow> unscheduled S w (ms_Name m)"
    and "start_known S ml unset w = (es, unset', w')"
  shows "worker_inv S ok w' \<and> wk_jobs w' = wk_jobs w \<and> wk_cfg w' = wk_cfg w"
  using assms
proof (induction ml arbitrary: unset w es)
  case (Cons m ml)
  show ?case
  proof (cases "wk_jobs w (ms_Name m)")
    case None
    with Cons show ?thesis by auto
  next
    case (Some i)
    obtain es1 w1 where e: "start_entry S m i w = (es1, w1)" by (cases "start_entry S m i w")
    with Cons.prems(4) Some obtain es2 where rest: "start_known S ml (unset - {ms_Name m}) w1 = (es2, unset', w')"
      by (auto split: prod.splits)
    note r = start_entry_inv [OF Cons.prems(1) Some, unfolded e snd_conv]
    have u: "unscheduled S w (ms_Name m)" using Cons.prems(3) by simp
    have "unscheduled S w1 (ms_Name m')" if m': "m' \<in> set ml" for m'
    proof (rule r(2) [OF u])
      show "ms_Name m' \<noteq> ms_Name m" using Cons.prems(2) imageI [OF m', of ms_Name] by auto
      show "unscheduled S w (ms_Name m')" using Cons.prems(3) m' by simp
    qed
    from Cons.IH [OF r(1) [OF u] _ this rest] Cons.prems(2) r(3,4) [OF u] show ?thesis by simp
  qed
qed simp

lemma start_new_inv:
  assumes "worker_inv S ok w" and "start_new S clock k ns w = (es, w')"
  shows "worker_inv S ok w' \<and> wk_jobs w' = wk_jobs w \<and> wk_cfg w' = wk_cfg w"
  using assms
proof (induction ns arbitrary: k w es)
  case (Cons n ns)
  show ?case
  proof (cases "wk_jobs w n")
    case (Some i)
    let ?w1 = "add_job S (clock k) i (SetState i stateNone w)"
    from Cons.prems(2) Some obtain es' where rest: "start_new S clock (Suc k) ns ?w1 = (es', w')" by (auto split: prod.splits)
    have n: "nm w i = n" by (rule worker_invD(3) [OF Cons.prems(1) Some])
    have "worker_inv S ok (SetState i stateNone w)" by (rule SetState_inv [OF Cons.prems(1)]) simp
    then have "worker_inv S ok ?w1" by (rule add_job_inv) (simp_all add: n Some)
    from Cons.IH [OF this rest] show ?thesis by simp
  qed (use Cons.prems in auto)
qed simp

lemma start_jobs_inv:
  assumes "worker_inv S ok w" and "slots S w = Map.empty" and "distinct (map ms_Name ml)" and "start_jobs S clock order ml w = (es, w')"
  shows "worker_inv S ok w'" and "wk_jobs w' = wk_jobs w" and "wk_cfg w' = wk_cfg w"
proof -
  obtain es1 unset w1 where k: "start_known S ml (dom (wk_jobs w)) w = (es1, unset, w1)" by (cases "start_known S ml (dom (wk_jobs w)) w") auto
  then obtain es2 where s: "start_new S clock 0 (order unset) w1 = (es2, w')"
    using assms(4) by (auto simp: start_jobs_def split: prod.splits)
  have "unscheduled S w n" for n using assms(2) by (simp add: unscheduled_def)
  from start_known_inv [OF assms(1,3) this k] have w1: "worker_inv S ok w1" "wk_jobs w1 = wk_jobs w" "wk_cfg w1 = wk_cfg w" by simp_all
  from start_new_inv [OF w1(1) s] w1(2,3)
  show "worker_inv S ok w'" "wk_jobs w' = wk_jobs w" "wk_cfg w' = wk_cfg w" by simp_all
qed

subsection \<open>The transition system\<close>

text \<open>\<open>worker_step E S w es w'\<close>: one handler runs, with the effects \<open>es\<close>, or the goroutine of a job changes
  the job's state (to \<open>stateDisabled\<close> only on behalf of \<open>disableJob\<close>, which waits for it) or its size.\<close>

inductive worker_step :: "'r prov_env \<Rightarrow> ('l, nat) skiplist \<Rightarrow> ('r, 'l) Worker \<Rightarrow> effect list \<Rightarrow> ('r, 'l) Worker \<Rightarrow> bool"
  for E S where
  command: "handle_command S req w = (answer, es, w') \<Longrightarrow> worker_step E S w es w'"
| reload: "ReloadMirrorConfig E S clock newMirrors w = Some (es, w') \<Longrightarrow> distinct (names newMirrors) \<Longrightarrow> fresh_clock S clock 0 w \<Longrightarrow>
    worker_step E S w es w'"
| message: "status_message_received S now jobMsg w = (es, w') \<Longrightarrow> worker_step E S w es w'"
| ticked: "tick S now w = (es, w') \<Longrightarrow> worker_step E S w es w'"
| job_state: "st \<noteq> stateDisabled \<Longrightarrow> worker_step E S w [] (SetState i st w)"
| job_size: "worker_step E S w [] (upd_job i (\<lambda>j. j\<lparr>mj_size := sz\<rparr>) w)"

text \<open>The history of a worker: the effects of its steps in their order.\<close>

inductive worker_run :: "'r prov_env \<Rightarrow> ('l, nat) skiplist \<Rightarrow> ('r, 'l) Worker \<Rightarrow> effect list list \<Rightarrow> ('r, 'l) Worker \<Rightarrow> bool"
  for E S where
  start: "worker_run E S w [] w"
| more: "worker_run E S w ess w1 \<Longrightarrow> worker_step E S w1 es w2 \<Longrightarrow> worker_run E S w (ess @ [es]) w2"

lemma job_command_keeps: "wk_cfg (snd (snd (job_command S cmd i w))) = wk_cfg w" "wk_jobs (snd (snd (job_command S cmd i w))) = wk_jobs w"
  using disableJob_result(1,2) [OF surjective_pairing, of S i "remove_job S (nm w i) w"]
  by (simp_all add: job_command_def Let_def case_prod_beta split: CmdVerb.split)

lemma handle_command_keeps: "wk_cfg (snd (snd (handle_command S req w))) = wk_cfg w" "wk_jobs (snd (snd (handle_command S req w))) = wk_jobs w"
  by (simp_all add: handle_command_def Let_def case_prod_beta job_command_keeps split: option.split)

lemma message_keeps: "wk_cfg (snd (status_message_received S now m w)) = wk_cfg w" "wk_jobs (snd (status_message_received S now m w)) = wk_jobs w"
  by (simp_all add: status_message_received_def message_finish_def Let_def split: option.split)

lemma config_ok_cong: "wk_cfg w' = wk_cfg w \<Longrightarrow> wk_jobs w' = wk_jobs w \<Longrightarrow> config_ok w' = config_ok w"
  by (simp add: config_ok_def)

lemma worker_step_inv:
  assumes "worker_step E S w es w'" and "worker_inv S ok w" and "config_ok w"
  shows "worker_inv S ok w' \<and> config_ok w'"
  using assms(1)
proof cases
  case (command req answer)
  with handle_command_inv [OF assms(2), of req] handle_command_keeps [of S req w] assms(3) show ?thesis
    by (simp add: config_ok_def)
next
  case (reload clock newMirrors)
  with reload_result(1) [OF assms(2,3)] reload_config_ok [OF assms(2,3)] show ?thesis by blast
next
  case (message now jobMsg)
  with status_message_inv [OF assms(2), of now jobMsg] message_keeps [of S now jobMsg w] assms(3) show ?thesis
    by (simp add: config_ok_def)
next
  case (ticked now)
  with tick_inv [OF assms(2), of now] tick_slots(3,6) [OF assms(2), of now] assms(3) show ?thesis by (simp add: config_ok_def)
next
  case (job_state st i)
  with SetState_inv [OF assms(2), of st i] assms(3) show ?thesis by (simp add: config_ok_def)
next
  case (job_size i sz)
  then have n: "nm w' = nm w" by (auto simp: nm_def job_Name_def fun_eq_iff)
  have "worker_inv S ok w'"
    by (rule worker_invI) (use job_size worker_invD [OF assms(2)] n in auto)
  with job_size assms(3) show ?thesis by (simp add: config_ok_def)
qed

lemma worker_run_inv:
  assumes "worker_run E S w ess w'" and "worker_inv S ok w" and "config_ok w"
  shows "worker_inv S ok w' \<and> config_ok w'"
  using assms by (induction rule: worker_run.induct) (auto dest: worker_step_inv)

lemma scheduled_once:
  assumes "worker_inv S ok w" and "slots S w t = Some i" and "slots S w t' = Some i'" and "nm w i = nm w i'"
  shows "t = t'"
  using worker_invD(1) [OF assms(1)] assms(2-4) by (auto simp: queue_inv_def unique_names_def slots_def)

lemma tick_sends:
  assumes "worker_inv S ok w" and "tick S now w = (es, w')"
  shows "es = [] \<and> w' = w \<and> (\<forall>t\<in>dom (slots S w). now \<le> t) \<or>
    (\<exists>i t. es = [SendTo i jobStart] \<and> slots S w t = Some i \<and> t < now \<and> slots S w' = (slots S w)(t := None))"
  using sq.pop_step [OF worker_invD(1) [OF assms(1)], of now] assms(2)
  by (auto simp: tick_def slots_def split: prod.splits option.splits)


subsection \<open>Commands\<close>

text \<open>The answer to a command for an existing job and its effects, given whether the job is disabled.\<close>

definition command_spec :: "WorkerCmd \<Rightarrow> nat \<Rightarrow> bool \<Rightarrow> (nat \<times> string) \<times> effect list" where
  "command_spec cmd i disabled =
     (case wc_Cmd cmd of
        CmdStart \<Rightarrow> ((200, ''OK''), (if disabled then [Go i] else []) @ [SendTo i (if wc_option cmd ''force'' then jobForceStart else jobStart)])
      | CmdRestart \<Rightarrow> ((200, ''OK''), (if disabled then [Go i] else []) @ [SendTo i jobRestart])
      | CmdStop \<Rightarrow> ((200, ''OK''), if disabled then [] else [SendTo i jobStop])
      | CmdDisable \<Rightarrow> ((200, ''OK''), if disabled then [] else [SendTo i jobDisable, AwaitDisabled i])
      | CmdPing \<Rightarrow> ((200, ''OK''), [])
      | _ \<Rightarrow> ((406, ''Invalid Command''), []))"

lemma job_command_result:
  assumes "worker_inv S ok w" and "wk_jobs w n = Some i" and "job_command S cmd i w = (r, es, w')"
  shows "(r, es) = command_spec cmd i (mj_state (wk_heap w i) = stateDisabled)" and "worker_inv S ok w'"
    and "view S w' = (view S w)(n \<mapsto>
      (i, if wc_Cmd cmd = CmdDisable then (wk_heap w i)\<lparr>mj_state := stateDisabled\<rparr> else wk_heap w i, {}))"
proof -
  let ?w1 = "remove_job S (nm w i) w"
  have n: "nm w i = n" by (rule worker_invD(3) [OF assms(1,2)])
  have w1: "worker_inv S ok ?w1" by (rule remove_job_inv [OF assms(1)])
  obtain es2 w2 where d: "disableJob S i ?w1 = (es2, w2)" by (cases "disableJob S i ?w1")
  note D = disableJob_result [OF d] and s = disableJob_starts(1) [OF w1 d]
  show "worker_inv S ok w'" using job_command_inv [OF assms(1), of cmd i] assms(3) by simp
  show "(r, es) = command_spec cmd i (mj_state (wk_heap w i) = stateDisabled)"
    using assms(3) D(7) d by (auto simp: job_command_def command_spec_def Let_def split: CmdVerb.splits)
  have st: "starts S ?w1 = (starts S w)(n := {})" using starts_remove [OF assms(1), of n] by (simp add: n)
  show "view S w' = (view S w)(n \<mapsto>
      (i, if wc_Cmd cmd = CmdDisable then (wk_heap w i)\<lparr>mj_state := stateDisabled\<rparr> else wk_heap w i, {}))"
  proof (cases "wc_Cmd cmd = CmdDisable")
    case True
    then have "w' = w2" using assms(3) d by (simp add: job_command_def Let_def)
    with True D s st n show ?thesis by (simp add: view_update [OF assms(1,2)])
  next
    case False
    then have "w' = ?w1" using assms(3) by (auto simp: job_command_def Let_def split: CmdVerb.splits)
    with False st show ?thesis by (simp add: view_update [OF assms(1,2)])
  qed
qed

text \<open>C13.  What a command does.  A command for an existing job is answered and acted on as specified for its
  verb (a disabled job gets a goroutine before it is started or restarted, and nothing is ever sent to a
  job that stays disabled); the job's scheduled run is cancelled; \<open>disable\<close> leaves the job disabled; no
  other job is touched, and the invariant is kept.  A request that cannot be decoded, a worker-level
  command other than \<open>reload\<close> and a command for an unknown mirror are refused with an error and change
  nothing.\<close>

theorem handle_command_spec:
  assumes "worker_inv S ok w" and "handle_command S (cmd, err) w = (r, es, w')"
  shows "(if err \<noteq> None \<or> wc_MirrorID cmd = '''' \<and> wc_Cmd cmd \<noteq> CmdReload \<or> wk_jobs w (wc_MirrorID cmd) = None
     then w' = w \<and> fst r = (if err \<noteq> None then 400 else if wc_MirrorID cmd = '''' \<and> wc_Cmd cmd \<noteq> CmdReload then 406 else 404) \<and> targets es = {}
     else (\<exists>i j. wk_jobs w (wc_MirrorID cmd) = Some i \<and> j = wk_heap w i \<and> worker_inv S ok w' \<and>
       (r, filter (\<lambda>e. e \<noteq> Sighup) es) = command_spec cmd i (mj_state j = stateDisabled) \<and>
       view S w' = (view S w)(wc_MirrorID cmd \<mapsto>
         (i, if wc_Cmd cmd = CmdDisable then j\<lparr>mj_state := stateDisabled\<rparr> else j, {}))))"
proof (cases "err \<noteq> None \<or> wc_MirrorID cmd = '''' \<and> wc_Cmd cmd \<noteq> CmdReload \<or> wk_jobs w (wc_MirrorID cmd) = None")
  case True
  with assms(2) show ?thesis by (auto simp: handle_command_def Let_def split: if_splits option.splits)
next
  case False
  then obtain i where i: "wk_jobs w (wc_MirrorID cmd) = Some i" by auto
  obtain r' es' w'' where c: "job_command S cmd i w = (r', es', w'')" by (cases "job_command S cmd i w") auto
  note J = job_command_result [OF assms(1) i c]
  have eq: "r = r'" "w' = w''" "es = (if wc_MirrorID cmd = '''' then [Sighup] else []) @ es'"
    using False assms(2) i c by (auto simp: handle_command_def Let_def)
  have "Sighup \<notin> set es'" using J(1) by (auto simp: command_spec_def split: CmdVerb.splits if_splits)
  then have "filter (\<lambda>e. e \<noteq> Sighup) es = es'" by (auto simp: eq(3) filter_id_conv)
  with False i J eq show ?thesis by auto
qed

subsection \<open>Status messages\<close>

text \<open>The report of a message and of the schedule that goes to one manager.\<close>

definition status_report :: "('r, 'l) Worker \<Rightarrow> nat \<Rightarrow> jobMessage \<Rightarrow> MirrorStatus" where
  "status_report w i jobMsg =
     zero_MirrorStatus\<lparr>ms_Name := jm_name jobMsg, ms_Worker := worker_Name w, ms_IsMaster := IsMaster (mj_provider (wk_heap w i)),
       ms_Status := jm_status jobMsg, ms_Upstream := Upstream (mj_provider (wk_heap w i)),
       ms_Size := (if mj_size (wk_heap w i) = '''' then ''unknown'' else mj_size (wk_heap w i)), ms_ErrorMsg := jm_msg jobMsg\<rparr>"

lemma updateStatus_report:
  "updateStatus w i m = map (\<lambda>root. Post (root @ ''/workers/'' @ worker_Name w @ ''/jobs/'' @ jm_name m) (PStatus (status_report w i m)))
     (APIBaseList (cf_Manager (wk_cfg w)))"
  by (simp add: updateStatus_def status_report_def Let_def)

text \<open>C24.  What a status message does.  A message of a job that is neither ready nor halting, or of a job
  the worker does not have, has no effect.  Any other is reported to every manager, with the job's
  provider and size; then, if the message asks for it, the job is scheduled for exactly one run, an
  interval from now, and no other job's schedule changes unless it had that very instant; and the
  schedule is reported to every manager.\<close>

theorem status_message_spec:
  assumes "worker_inv S ok w" and "status_message_received S now m w = (es, w')"
  shows "(case wk_jobs w (jm_name m) of
      None \<Rightarrow> es = [] \<and> w' = w
    | Some i \<Rightarrow>
        (if mj_state (wk_heap w i) \<notin> {stateReady, stateHalting} then es = [] \<and> w' = w
         else worker_inv S ok w' \<and> wk_jobs w' = wk_jobs w \<and> wk_heap w' = wk_heap w \<and>
           es = map (\<lambda>root. Post (root @ ''/workers/'' @ worker_Name w @ ''/jobs/'' @ jm_name m) (PStatus (status_report w i m)))
             (APIBaseList (cf_Manager (wk_cfg w))) @ report_schedule S w' \<and>
           (if jm_schedule m
            then (let t = now + Interval (mj_provider (wk_heap w i)) in
              starts S w' (jm_name m) = {t} \<and> (\<forall>n. n \<noteq> jm_name m \<longrightarrow> starts S w' n = starts S w n - {t}))
            else starts S w' = starts S w)))"
proof (cases "wk_jobs w (jm_name m)")
  case None
  with assms(2) show ?thesis by (simp add: status_message_received_def message_check_def)
next
  case (Some i)
  show ?thesis
  proof (cases "mj_state (wk_heap w i) \<notin> {stateReady, stateHalting}")
    case True
    with Some assms(2) show ?thesis by (simp add: status_message_received_def message_check_def)
  next
    case False
    let ?t = "now + Interval (mj_provider (wk_heap w i))"
    let ?w1 = "if jm_schedule m then add_job S ?t i w else w"
    have r: "es = updateStatus w i m @ report_schedule S ?w1" "w' = ?w1"
      using False Some assms(2) by (auto simp: status_message_received_def message_check_def message_finish_def Let_def)
    have n: "nm w i = jm_name m" by (rule worker_invD(3) [OF assms(1) Some])
    have inv: "worker_inv S ok w'" using status_message_inv [OF assms(1), of now m] assms(2) by simp
    have "starts S (add_job S ?t i w) k = (if k = jm_name m then {?t} else starts S w k - {?t})" for k
      by (auto simp: starts_def slots_add_job [OF assms(1)] without_apply n split: if_splits option.splits)
    with False Some r inv show ?thesis by (auto simp: updateStatus_report Let_def)
  qed
qed

subsection \<open>Halting and registration\<close>

text \<open>Halting: whatever the iteration order of the map of jobs, \<open>Halt\<close> sends \<open>jobHalt\<close> to every job that
  is not disabled, once each and to no other, and only then waits for the jobs and closes the exit
  channel.\<close>

theorem Halt_reaches_every_job:
  assumes "iteration_order (\<lambda>_. order) (dom (wk_jobs w))" and "worker_inv S ok w"
  shows "\<exists>sent. Halt order w = map (\<lambda>i. SendTo i jobHalt) sent @ [AwaitJobsDone, CloseExit] \<and> distinct sent \<and>
    set sent = {i \<in> ran (wk_jobs w). mj_state (wk_heap w i) \<noteq> stateDisabled}"
proof -
  define sent where "sent = concat (map (\<lambda>n. case wk_jobs w n of None \<Rightarrow> [] | Some i \<Rightarrow> if mj_state (wk_heap w i) \<noteq> stateDisabled then [i] else []) order)"
  have o: "distinct order" "set order = dom (wk_jobs w)" using assms(1) by (simp_all add: iteration_order_def)
  have "Halt order w = map (\<lambda>i. SendTo i jobHalt) sent @ [AwaitJobsDone, CloseExit]"
    by (auto simp: Halt_def sent_def map_concat comp_def split: option.split intro!: arg_cong [where f = concat])
  moreover have "set sent = {i \<in> ran (wk_jobs w). mj_state (wk_heap w i) \<noteq> stateDisabled}"
    using o(2) by (force simp: sent_def ran_def dom_def split: option.splits if_splits)
  moreover have "distinct sent" using o(1) unfolding sent_def
  proof (induction order)
    case (Cons n ns)
    have "i \<notin> set (concat (map (\<lambda>n. case wk_jobs w n of None \<Rightarrow> [] | Some i \<Rightarrow> if mj_state (wk_heap w i) \<noteq> stateDisabled then [i] else []) ns))"
      if "wk_jobs w n = Some i" for i
      using jobs_inject [OF assms(2) that] Cons.prems by (auto split: option.splits if_splits)
    with Cons show ?case by (auto split: option.split)
  qed simp
  ultimately show ?thesis by blast
qed

text \<open>Registration tries a manager again after an error, ten times at most, and stops at the first success.\<close>

lemma register_retries_count:
  "n \<le> 10 \<Longrightarrow> length (register_retries answer url msg n) =
     (case find answer [10 - n..<10] of Some k \<Rightarrow> Suc k - (10 - n) | None \<Rightarrow> n)"
proof (induction n)
  case (Suc n)
  then have u: "[9 - n..<10] = (9 - n) # [10 - n..<10]" using upt_conv_Cons [of "9 - n" 10] Suc_diff_le [of n 9] by simp
  have k: "k \<ge> 10 - n" if "find answer [10 - n..<10] = Some k" for k
    using that by (auto simp: find_Some_iff)
  show ?case using Suc by (auto simp: u split: option.splits dest: k)
qed simp

text \<open>Registration at one manager: with the first success at attempt \<open>k\<close> (from zero) of ten, the worker
  posts itself \<open>k + 1\<close> times; without any, ten times; and it always posts the same name and URL to the
  address \<open>/workers\<close> of that manager.\<close>

theorem registration_is_bounded:
  "length (register_retries answer url msg 10) = (case find answer [0..<10] of Some k \<Rightarrow> Suc k | None \<Rightarrow> 10) \<and>
   set (worker_registerWorker answers w) =
     (\<lambda>root. Post (root @ ''/workers'') (PWorker (zero_WorkerStatus\<lparr>ws_ID := worker_Name w, ws_URL := URL w\<rparr>))) ` set (APIBaseList (cf_Manager (wk_cfg w)))"
proof -
  have s: "set (register_retries a u m (Suc n)) = {Post u (PWorker m)}" for a u m n
    by (induction n) auto
  have "set (register_retries a u m 10) = {Post u (PWorker m)}" for a u m using s [of a u m 9] by (simp add: eval_nat_numeral)
  then show ?thesis using register_retries_count [of 10 answer url msg]
    by (auto simp: worker_registerWorker_def Let_def split: option.split)
qed

subsection \<open>Behaviour the code does not intend\<close>

text \<open>A status message whose handling overlaps with a disable command.  The message handler looks the
  job up and tests its state, reports to the managers without the lock, and only then schedules the job.
  If a disable command is handled in between, the job ends up disabled and scheduled: the invariant that
  the schedule never holds a disabled job is lost, and a later tick sends \<open>jobStart\<close> to a job without a
  goroutine.\<close>

theorem disable_during_message_schedules_disabled_job:
  assumes "worker_inv S ok w" and "message_check m w = Some i" and "jm_schedule m" and "wc_MirrorID cmd = jm_name m"
    and "wc_MirrorID cmd \<noteq> ''''" and "wc_Cmd cmd = CmdDisable" and "handle_command S (cmd, None) w = (r, es, w1)"
    and "message_finish S now m i w1 = (es', w2)"
  shows "fst r = 200 \<and> mj_state (wk_heap w2 i) = stateDisabled \<and> starts S w2 (jm_name m) = {now + Interval (mj_provider (wk_heap w i))} \<and>
    \<not> worker_inv S ok w2"
proof -
  from assms(2) have i: "wk_jobs w (jm_name m) = Some i" by (auto simp: message_check_def split: option.splits if_splits)
  obtain r' es1 w' where c: "job_command S cmd i w = (r', es1, w')" by (cases "job_command S cmd i w") auto
  have eq: "w1 = w'" "r = r'" using assms(4,5,7) i c by (auto simp: handle_command_def)
  note J = job_command_result [OF assms(1) i c]
  have v: "view S w1 (jm_name m) = Some (i, (wk_heap w i)\<lparr>mj_state := stateDisabled\<rparr>, {})" using J(3) assms(6) eq by simp
  then have h: "wk_heap w1 i = (wk_heap w i)\<lparr>mj_state := stateDisabled\<rparr>" and u: "starts S w1 (jm_name m) = {}" and i1: "wk_jobs w1 (jm_name m) = Some i"
    by (auto simp: view_Some)
  have inv: "worker_inv S ok w1" using J(2) eq by simp
  let ?t = "now + Interval (mj_provider (wk_heap w i))"
  have w2: "w2 = add_job S ?t i w1" using assms(3,8) h by (auto simp: message_finish_def Let_def)
  have n: "nm w1 i = jm_name m" by (rule worker_invD(3) [OF inv i1])
  have sl: "slots S w2 = (without (nm w1) (jm_name m) (slots S w1))(?t \<mapsto> i)" using slots_add_job [OF inv, of ?t i] by (simp add: w2 n)
  have st: "starts S w2 (jm_name m) = {?t}" using sl n by (auto simp: starts_def w2 without_apply split: if_splits)
  have d: "mj_state (wk_heap w2 i) = stateDisabled" by (simp add: w2 h)
  have "slots S w2 ?t = Some i" by (simp add: sl)
  then have "\<not> worker_inv S ok w2" using d worker_invD(5) by blast
  moreover have "fst r = 200" using J(1) assms(6) eq by (auto simp: command_spec_def split: if_splits)
  ultimately show ?thesis using d st by simp
qed

text \<open>A worker-level reload command is answered as an error: the worker signals itself and then goes on
  to look up a job with an empty name, so the manager is told that the mirror was not found.\<close>

theorem reload_command_answers_not_found:
  assumes "wk_jobs w '''' = None" and "wc_MirrorID cmd = ''''" and "wc_Cmd cmd = CmdReload"
  shows "handle_command S (cmd, None) w = ((404, ''Mirror ``'' @ [CHR 0x27, CHR 0x27] @ '' not found''), [Sighup], w)"
  using assms by (simp add: handle_command_def)

text \<open>A command that is refused, and a ping, cancel the next run: the job is taken out of the schedule
  before the verb is looked at, nothing is sent to it, and so nothing will schedule it again until
  another command comes.\<close>

theorem refused_command_unschedules:
  assumes "worker_inv S ok w" and "wk_jobs w (wc_MirrorID cmd) = Some i" and "wc_MirrorID cmd \<noteq> ''''"
    and "wc_Cmd cmd = CmdPing \<or> wc_Cmd cmd = CmdReload" and "handle_command S (cmd, None) w = (r, es, w')"
  shows "es = [] \<and> wk_heap w' i = wk_heap w i \<and> starts S w' (wc_MirrorID cmd) = {}"
proof -
  obtain r' es1 w1 where c: "job_command S cmd i w = (r', es1, w1)" by (cases "job_command S cmd i w") auto
  have eq: "w1 = w'" "es1 = es" using assms(2,3,5) c by (auto simp: handle_command_def)
  from job_command_result [OF assms(1,2) c] assms(4) eq show ?thesis
    by (auto simp: command_spec_def fun_eq_iff view_Some dest!: spec [of _ "wc_MirrorID cmd"])
qed

lemma starts_add_apply:
  "worker_inv S ok w \<Longrightarrow> starts S (add_job S t i w) n = (if n = nm w i then {t} else starts S w n - {t})"
  by (auto simp: starts_def slots_add_job without_apply split: if_splits option.splits)

lemma SetState_starts [simp]: "starts S (SetState i st w) = starts S w"
  by (rule starts_cong) simp_all

lemma start_new_starts:
  assumes "worker_inv S ok w" and "start_new S clock k ns w = (es, w')" and "n \<notin> set ns"
  shows "starts S w' n \<subseteq> starts S w n"
  using assms
proof (induction ns arbitrary: k w es)
  case (Cons m ns)
  show ?case
  proof (cases "wk_jobs w m")
    case (Some i)
    let ?w0 = "SetState i stateNone w"
    let ?w1 = "add_job S (clock k) i ?w0"
    from Cons.prems(2) Some obtain es' where rest: "start_new S clock (Suc k) ns ?w1 = (es', w')" by (auto split: prod.splits)
    have m: "nm w i = m" by (rule worker_invD(3) [OF Cons.prems(1) Some])
    have w0: "worker_inv S ok ?w0" by (rule SetState_inv [OF Cons.prems(1)]) simp
    then have "worker_inv S ok ?w1" by (rule add_job_inv) (simp_all add: m Some)
    from Cons.IH [OF this rest] Cons.prems(3) starts_add_apply [OF w0, of "clock k" i n] m show ?thesis by auto
  qed (use Cons.prems in auto)
qed simp

text \<open>What start-up leaves alone: a job whose name is not in the list it works on.\<close>

definition untouched :: "('l, nat) skiplist \<Rightarrow> string \<Rightarrow> nat \<Rightarrow> ('r, 'l) Worker \<Rightarrow> effect list \<Rightarrow> ('r, 'l) Worker \<Rightarrow> bool" where
  "untouched S n i w es w' \<longleftrightarrow> wk_heap w' i = wk_heap w i \<and> starts S w' n \<subseteq> starts S w n \<and> Go i \<notin> set es"

lemma untouched_trans:
  "untouched S n i w es w1 \<Longrightarrow> untouched S n i w1 es' w2 \<Longrightarrow> untouched S n i w (es @ es') w2"
  by (auto simp: untouched_def)

lemma start_entry_untouched:
  assumes "worker_inv S ok w" and "wk_jobs w (ms_Name m) = Some k" and "wk_jobs w n = Some i" and "ms_Name m \<noteq> n"
  shows "untouched S n i w (fst (start_entry S m k w)) (snd (start_entry S m k w))"
proof -
  have ne: "k \<noteq> i" using jobs_inject [OF assms(1,2), of n] assms(3,4) by auto
  have nm: "nm w k = ms_Name m" by (rule worker_invD(3) [OF assms(1,2)])
  have "worker_inv S ok (SetState k stateNone w)" by (rule SetState_inv [OF assms(1)]) simp
  from starts_add_apply [OF this, of _ k n] ne nm assms(4) show ?thesis
    by (auto simp: untouched_def start_entry_def Let_def split: SyncStatus.split)
qed

lemma start_known_untouched:
  assumes "worker_inv S ok w" and "distinct (map ms_Name ml)" and "\<And>m. m \<in> set ml \<Longrightarrow> unscheduled S w (ms_Name m)"
    and "start_known S ml unset w = (es, unset', w')" and "wk_jobs w n = Some i" and "n \<notin> ms_Name ` set ml"
  shows "untouched S n i w es w'"
  using assms
proof (induction ml arbitrary: unset w es)
  case Nil
  then show ?case by (simp add: untouched_def)
next
  case (Cons m ml)
  show ?case
  proof (cases "wk_jobs w (ms_Name m)")
    case None
    with Cons show ?thesis by auto
  next
    case (Some k)
    obtain es1 w1 where e: "start_entry S m k w = (es1, w1)" by (cases "start_entry S m k w")
    with Cons.prems(4) Some obtain es2 where rest: "start_known S ml (unset - {ms_Name m}) w1 = (es2, unset', w')" and es: "es = es1 @ es2"
      by (auto split: prod.splits)
    have u: "unscheduled S w (ms_Name m)" using Cons.prems(3) by simp
    note r = start_entry_inv [OF Cons.prems(1) Some u, unfolded e snd_conv]
    have u1: "unscheduled S w1 (ms_Name m')" if m': "m' \<in> set ml" for m'
      by (rule r(2)) (use Cons.prems(2,3) m' in \<open>auto simp: rev_image_eqI\<close>)
    have "untouched S n i w es1 w1"
      using start_entry_untouched [OF Cons.prems(1) Some Cons.prems(5)] Cons.prems(6) e by auto
    moreover have "untouched S n i w1 es2 w'"
      by (rule Cons.IH [OF r(1) _ u1 rest]) (use Cons.prems(2,5,6) r(3) in auto)
    ultimately show ?thesis unfolding es by (rule untouched_trans)
  qed
qed

lemma start_new_untouched:
  assumes "worker_inv S ok w" and "start_new S clock k ns w = (es, w')" and "wk_jobs w n = Some i" and "n \<notin> set ns"
  shows "untouched S n i w es w'"
  using assms
proof (induction ns arbitrary: k w es)
  case Nil
  then show ?case by (simp add: untouched_def)
next
  case (Cons m ns)
  show ?case
  proof (cases "wk_jobs w m")
    case None
    with Cons.prems show ?thesis by (simp add: untouched_def)
  next
    case (Some j)
    let ?w0 = "SetState j stateNone w"
    let ?w1 = "add_job S (clock k) j ?w0"
    from Cons.prems(2) Some obtain es' where rest: "start_new S clock (Suc k) ns ?w1 = (es', w')" and es: "es = [Go j] @ es'"
      by (auto split: prod.splits)
    have m: "nm w j = m" by (rule worker_invD(3) [OF Cons.prems(1) Some])
    have ne: "j \<noteq> i" using jobs_inject [OF Cons.prems(1) Some, of n] Cons.prems(3,4) by auto
    have w0: "worker_inv S ok ?w0" by (rule SetState_inv [OF Cons.prems(1)]) simp
    then have w1: "worker_inv S ok ?w1" by (rule add_job_inv) (simp_all add: m Some)
    have "untouched S n i w [Go j] ?w1"
      using starts_add_apply [OF w0, of "clock k" j n] ne m Cons.prems(4) by (auto simp: untouched_def)
    moreover have "untouched S n i ?w1 es' w'"
      by (rule Cons.IH [OF w1 rest]) (use Cons.prems(3,4) in auto)
    ultimately show ?thesis unfolding es by (rule untouched_trans)
  qed
qed

text \<open>A job that the manager has as disabled.\<close>

lemma start_known_unset: "start_known S ml unset w = (es, unset', w') \<Longrightarrow> unset' \<subseteq> unset"
proof (induction ml arbitrary: unset w es)
  case (Cons m ml)
  show ?case
  proof (cases "wk_jobs w (ms_Name m)")
    case (Some i)
    with Cons.prems obtain es2 where "start_known S ml (unset - {ms_Name m}) (snd (start_entry S m i w)) = (es2, unset', w')"
      by (auto split: prod.splits)
    from Cons.IH [OF this] show ?thesis by blast
  qed (use Cons in auto)
qed simp

lemma start_known_disabled:
  assumes "worker_inv S ok w" and "distinct (map ms_Name ml)" and "\<And>m. m \<in> set ml \<Longrightarrow> unscheduled S w (ms_Name m)"
    and "start_known S ml unset w = (es, unset', w')" and "m \<in> set ml" and "ms_Status m = Disabled" and "wk_jobs w (ms_Name m) = Some i"
  shows "mj_state (wk_heap w' i) = stateDisabled \<and> starts S w' (ms_Name m) = {} \<and> Go i \<notin> set es \<and> unset' \<subseteq> unset - {ms_Name m}"
  using assms
proof (induction ml arbitrary: unset w es)
  case (Cons m' ml)
  show ?case
  proof (cases "wk_jobs w (ms_Name m')")
    case None
    then have "m \<in> set ml" using Cons.prems(5,7) by auto
    with None Cons show ?thesis by auto
  next
    case (Some k)
    obtain es1 w1 where e: "start_entry S m' k w = (es1, w1)" by (cases "start_entry S m' k w")
    with Cons.prems(4) Some obtain es2 where rest: "start_known S ml (unset - {ms_Name m'}) w1 = (es2, unset', w')" and es: "es = es1 @ es2"
      by (auto split: prod.splits)
    have u: "unscheduled S w (ms_Name m')" using Cons.prems(3) by simp
    note r = start_entry_inv [OF Cons.prems(1) Some u, unfolded e snd_conv]
    have u1: "unscheduled S w1 (ms_Name m'')" if "m'' \<in> set ml" for m''
      by (rule r(2)) (use Cons.prems(2,3) that in \<open>auto simp: rev_image_eqI\<close>)
    have d: "distinct (map ms_Name ml)" "ms_Name m' \<notin> ms_Name ` set ml" using Cons.prems(2) by auto
    show ?thesis
    proof (cases "m = m'")
      case True
      then have e': "es1 = []" "w1 = SetState i stateDisabled w" using e Some Cons.prems(6,7) by (auto simp: start_entry_def)
      have "untouched S (ms_Name m) i w1 es2 w'"
        by (rule start_known_untouched [OF r(1) d(1) u1 rest]) (use True d(2) r(3) Cons.prems(7) in auto)
      moreover have "starts S w1 (ms_Name m) = {}" using u True e'(2) by (simp add: unscheduled_starts)
      ultimately show ?thesis using e' es True start_known_unset [OF rest] by (auto simp: untouched_def)
    next
      case False
      then have m: "m \<in> set ml" "ms_Name m' \<noteq> ms_Name m" using Cons.prems(5) d(2) by auto
      have "untouched S (ms_Name m) i w es1 w1"
        using start_entry_untouched [OF Cons.prems(1) Some Cons.prems(7) m(2)] e by simp
      moreover have "mj_state (wk_heap w' i) = stateDisabled \<and> starts S w' (ms_Name m) = {} \<and> Go i \<notin> set es2 \<and> unset' \<subseteq> unset - {ms_Name m'} - {ms_Name m}"
        by (rule Cons.IH [OF r(1) d(1) u1 rest m(1) Cons.prems(6)]) (use r(3) Cons.prems(7) in auto)
      ultimately show ?thesis using es by (auto simp: untouched_def)
    qed
  qed
qed simp

lemma start_jobs_disabled:
  assumes "worker_inv S ok w" and "slots S w = Map.empty" and "distinct (map ms_Name ml)" and "start_jobs S clock order ml w = (es, w')"
    and "\<And>U. U \<subseteq> dom (wk_jobs w) \<Longrightarrow> iteration_order order U" and "m \<in> set ml" and "ms_Status m = Disabled" and "wk_jobs w (ms_Name m) = Some i"
  shows "mj_state (wk_heap w' i) = stateDisabled" and "starts S w' (ms_Name m) = {}" and "Go i \<notin> set es"
proof -
  obtain es1 unset w1 where k: "start_known S ml (dom (wk_jobs w)) w = (es1, unset, w1)" by (cases "start_known S ml (dom (wk_jobs w)) w") auto
  obtain es2 where s: "start_new S clock 0 (order unset) w1 = (es2, w')" and es: "es = es1 @ es2 @ report_schedule S w'"
    using assms(4) k by (auto simp: start_jobs_def split: prod.splits)
  have u: "unscheduled S w n" for n using assms(2) by (simp add: unscheduled_def)
  note D = start_known_disabled [OF assms(1,3) u k assms(6-8)]
  from start_known_inv [OF assms(1,3) u k] have w1: "worker_inv S ok w1" "wk_jobs w1 = wk_jobs w" by simp_all
  have "iteration_order order unset" by (rule assms(5)) (use D in blast)
  then have "ms_Name m \<notin> set (order unset)" using D by (auto simp: iteration_order_def)
  from start_new_untouched [OF w1(1) s _ this] w1(2) assms(8) have "untouched S (ms_Name m) i w1 es2 w'" by simp
  with D report_schedule_posts [of "Go i" S w']
  show "mj_state (wk_heap w' i) = stateDisabled" "starts S w' (ms_Name m) = {}" "Go i \<notin> set es"
    by (auto simp: untouched_def es)
qed

text \<open>Start-up loses jobs that ask for the same instant.  Two mirrors that have never been synchronised
  have the same last update, zero, so with equal intervals their first runs fall on the same instant; the
  schedule keeps one job per instant, so the first of them is started but is in no slot of the
  schedule and will not run until a command comes for it.\<close>

theorem startup_loses_equal_instants:
  assumes "worker_inv S ok w" and "slots S w = Map.empty" and "ms_Name m1 \<noteq> ms_Name m2"
    and "wk_jobs w (ms_Name m1) = Some i1" and "wk_jobs w (ms_Name m2) = Some i2"
    and "ms_Status m1 \<notin> {Disabled, Paused}" and "ms_Status m2 \<notin> {Disabled, Paused}"
    and "ms_LastUpdate m1 + Interval (mj_provider (wk_heap w i1)) = ms_LastUpdate m2 + Interval (mj_provider (wk_heap w i2))"
    and "\<forall>U. U \<subseteq> dom (wk_jobs w) \<longrightarrow> iteration_order order U" and "start_jobs S clock order [m1, m2] w = (es, w')"
  shows "Go i1 \<in> set es \<and> starts S w' (ms_Name m1) = {}"
proof -
  let ?t = "ms_LastUpdate m2 + Interval (mj_provider (wk_heap w i2))"
  let ?U = "dom (wk_jobs w) - {ms_Name m1} - {ms_Name m2}"
  let ?w1 = "add_job S ?t i1 (SetState i1 stateNone w)"
  let ?w2 = "add_job S ?t i2 (SetState i2 stateNone ?w1)"
  have ne: "i1 \<noteq> i2" using worker_invD(3) [OF assms(1)] assms(3-5) by metis
  have e: "start_entry S m1 i1 w = ([Go i1], ?w1)" "start_entry S m2 i2 ?w1 = ([Go i2], ?w2)"
    using assms(6-8) ne by (auto simp: start_entry_def Let_def split: SyncStatus.splits)
  then have k: "start_known S [m1, m2] (dom (wk_jobs w)) w = ([Go i1, Go i2], ?U, ?w2)" using assms(4,5) by simp
  then obtain es2 where s: "start_new S clock 0 (order ?U) ?w2 = (es2, w')" and es: "es = [Go i1, Go i2] @ es2 @ report_schedule S w'"
    using assms(10) by (auto simp: start_jobs_def split: prod.splits)
  have u: "unscheduled S w n" for n using assms(2) by (simp add: unscheduled_def)
  have w1: "worker_inv S ok ?w1" using start_entry_inv(1) [OF assms(1,4) u] e(1) by simp
  have w1': "worker_inv S ok (SetState i2 stateNone ?w1)" by (rule SetState_inv [OF w1]) simp
  have n2: "nm w i2 = ms_Name m2" by (rule worker_invD(3) [OF assms(1,5)])
  have w2: "worker_inv S ok ?w2" by (rule add_job_inv [OF w1']) (simp_all add: n2 assms(5))
  have w0: "worker_inv S ok (SetState i1 stateNone w)" by (rule SetState_inv [OF assms(1)]) simp
  have "starts S ?w2 (ms_Name m1) = {}"
    using assms(3) worker_invD(3) [OF assms(1,4)] n2
    by (simp add: starts_add_apply [OF w1'] starts_add_apply [OF w0])
  moreover have "iteration_order order ?U" using assms(9) by (meson Diff_subset order_trans)
  then have "ms_Name m1 \<notin> set (order ?U)" by (simp add: iteration_order_def)
  ultimately show ?thesis using start_new_starts [OF w2 s, of "ms_Name m1"] es by simp
qed

subsection \<open>Examples\<close>

lemma init_loop_interval:
  assumes "init_loop E ready ms w = Some w'" and "\<forall>c\<in>set ms. \<forall>p c'. newMirrorProvider E c (wk_cfg w) = Some (p, c') \<longrightarrow> Interval p = d"
    and "\<forall>n i. wk_jobs w n = Some i \<longrightarrow> i < wk_next w \<and> Interval (mj_provider (wk_heap w i)) = d" and "wk_jobs w' n = Some i"
  shows "Interval (mj_provider (wk_heap w' i)) = d"
  using assms
proof (induction E ready ms w rule: init_loop.induct)
  case (2 E ready mirror ms w)
  obtain p mirror' where p: "newMirrorProvider E mirror (wk_cfg w) = Some (p, mirror')"
    using 2(2) by (cases "newMirrorProvider E mirror (wk_cfg w)") auto
  with 2(2) have rest: "init_loop E (ready @ [mirror']) ms (snd (create_job p w)) = Some w'" by simp
  let ?w1 = "snd (create_job p w)"
  have ip: "Interval p = d" using 2(3) p by simp
  have "i < wk_next ?w1 \<and> Interval (mj_provider (wk_heap ?w1 i)) = d" if "wk_jobs ?w1 n = Some i" for n i
  proof (cases "n = Name p")
    case False
    with that have "wk_jobs w n = Some i" by simp
    with 2(4) have "i < wk_next w" "Interval (mj_provider (wk_heap w i)) = d" by blast+
    then show ?thesis by simp
  qed (use that ip in \<open>simp add: newMirrorJob_def\<close>)
  then show ?case using 2(1) [OF p refl rest] 2(3,5) by simp
qed auto

lemma ex_intervals:
  assumes "NewTUNASyncWorker ex_env S None None h ex_wcfg = Some (Some w)" and "wk_jobs w n = Some i"
  shows "Interval (mj_provider (wk_heap w i)) = 120 * Minute"
proof -
  let ?w = "\<lparr>wk_cfg = ex_ready [ex_rsync, ex_second], wk_heap = h, wk_next = 0, wk_jobs = Map.empty, wk_schedule = newScheduleQueue S\<rparr>"
  have i: "init_loop ex_env [] [ex_rsync, ex_second] ?w = Some w"
    using assms(1) by (simp add: NewTUNASyncWorker_def initJobs_def Let_def ex_wcfg_def ex_ready_def ex_config_def)
  have "Interval p = 120 * Minute" if "newMirrorProvider ex_env c (ex_ready ms) = Some (p, c')" "mc_Interval c = 0" for p c c' ms
    using newMirrorProvider_interval [OF that(1)] that(2) by (simp add: ex_ready_def ex_config_def)
  then show ?thesis by (intro init_loop_interval [OF i _ _ assms(2)]) (auto simp: ex_second_def ex_rsync_def zero_mirrorConfig_def)
qed

text \<open>A worker with a ready job, from the configuration of the earlier examples.\<close>

lemma ex_ready_worker:
  obtains w :: "(string, (gtime \<times> nat) list) Worker" and i where "worker_inv ref_skiplist ref_sorted w" and "wk_jobs w ''deb'' = Some i"
    and "mj_state (wk_heap w i) = stateReady" and "dom (wk_jobs w) = {''deb'', ''m''}" and "wk_jobs w '''' = None"
    and "worker_Name w = ''w''" and "APIBaseList (cf_Manager (wk_cfg w)) = [''http://m'']"
proof -
  obtain w ms where w: "NewTUNASyncWorker ex_env ref_skiplist None None (\<lambda>_. undefined) ex_wcfg = Some (Some w)" "wk_cfg w = ex_ready ms"
    using ex_created by blast
  note N = NewTUNASyncWorker_result [OF ref_skiplist_laws w(1) ex_names(1)]
  have d: "dom (wk_jobs w) = {''deb'', ''m''}" using N(3,4) by (simp add: config_ok_def ex_names(2))
  then obtain i where i: "wk_jobs w ''deb'' = Some i" by blast
  have "'''' \<notin> dom (wk_jobs w)" using d by simp
  then have e: "wk_jobs w '''' = None" by blast
  have "worker_inv ref_skiplist ref_sorted (SetState i stateReady w)" by (rule SetState_inv [OF N(1)]) simp
  moreover have "worker_Name (SetState i stateReady w) = ''w''" using w(2) by (simp add: worker_Name_def ex_ready_def ex_config_def)
  moreover have "APIBaseList (cf_Manager (wk_cfg (SetState i stateReady w))) = [''http://m'']"
    using w(2) by (simp add: ex_ready_def ex_config_def APIBaseList_def elems_def)
  ultimately show thesis using that [of "SetState i stateReady w" i] i e d by simp
qed

definition ex_cmd :: "CmdVerb \<Rightarrow> WorkerCmd" where
  "ex_cmd verb = \<lparr>wc_Cmd = verb, wc_MirrorID = ''deb'', wc_Args = [], wc_Options = []\<rparr>"

definition ex_msg :: jobMessage where
  "ex_msg = \<lparr>jm_status = Success, jm_name = ''deb'', jm_msg = '''', jm_schedule = True\<rparr>"

theorem handle_command_spec_witness:
  "\<exists>(w :: (string, (gtime \<times> nat) list) Worker) i es w'. wk_jobs w ''deb'' = Some i \<and>
    handle_command ref_skiplist (ex_cmd CmdDisable, None) w = ((200, ''OK''), es, w') \<and>
    filter (\<lambda>e. e \<noteq> Sighup) es = [SendTo i jobDisable, AwaitDisabled i] \<and> mj_state (wk_heap w' i) = stateDisabled"
proof -
  obtain w :: "(string, (gtime \<times> nat) list) Worker" and i where
    w: "worker_inv ref_skiplist ref_sorted w" "wk_jobs w ''deb'' = Some i" "mj_state (wk_heap w i) = stateReady"
      "dom (wk_jobs w) = {''deb'', ''m''}" "wk_jobs w '''' = None" by (rule ex_ready_worker) blast
  obtain r es w' where h: "handle_command ref_skiplist (ex_cmd CmdDisable, None) w = (r, es, w')" by (cases "handle_command ref_skiplist (ex_cmd CmdDisable, None) w") auto
  from handle_command_spec [OF w(1) h] w(2,3) have
    v: "(r, filter (\<lambda>e. e \<noteq> Sighup) es) = command_spec (ex_cmd CmdDisable) i False"
      "view ref_skiplist w' ''deb'' = Some (i, (wk_heap w i)\<lparr>mj_state := stateDisabled\<rparr>, {})" by (simp_all add: ex_cmd_def)
  from v(1) have "r = (200, ''OK'')" "filter (\<lambda>e. e \<noteq> Sighup) es = [SendTo i jobDisable, AwaitDisabled i]"
    by (simp_all add: command_spec_def ex_cmd_def)
  moreover have "mj_state (wk_heap w' i) = stateDisabled" using v(2) by (metis mirrorJob.select_convs(2) mirrorJob.surjective mirrorJob.update_convs(2) view_Some)
  ultimately show ?thesis using h w(2) by blast
qed

theorem status_message_spec_witness:
  "\<exists>(w :: (string, (gtime \<times> nat) list) Worker) i es w'. wk_jobs w ''deb'' = Some i \<and>
    status_message_received ref_skiplist 7 ex_msg w = (es, w') \<and> starts ref_skiplist w' ''deb'' = {7 + Interval (mj_provider (wk_heap w i))}"
proof -
  obtain w :: "(string, (gtime \<times> nat) list) Worker" and i where
    w: "worker_inv ref_skiplist ref_sorted w" "wk_jobs w ''deb'' = Some i" "mj_state (wk_heap w i) = stateReady"
      "dom (wk_jobs w) = {''deb'', ''m''}" "wk_jobs w '''' = None" by (rule ex_ready_worker) blast
  obtain es w' where h: "status_message_received ref_skiplist 7 ex_msg w = (es, w')" by (cases "status_message_received ref_skiplist 7 ex_msg w")
  from status_message_spec [OF w(1) h] w(2,3) have "starts ref_skiplist w' ''deb'' = {7 + Interval (mj_provider (wk_heap w i))}"
    by (simp add: ex_msg_def Let_def)
  with h w(2) show ?thesis by blast
qed

theorem Halt_reaches_every_job_witness:
  "\<exists>(w :: (string, (gtime \<times> nat) list) Worker) i sent. wk_jobs w ''deb'' = Some i \<and> i \<in> set sent \<and>
    Halt [''deb'', ''m''] w = map (\<lambda>i. SendTo i jobHalt) sent @ [AwaitJobsDone, CloseExit]"
proof -
  obtain w :: "(string, (gtime \<times> nat) list) Worker" and i where
    w: "worker_inv ref_skiplist ref_sorted w" "wk_jobs w ''deb'' = Some i" "mj_state (wk_heap w i) = stateReady"
      "dom (wk_jobs w) = {''deb'', ''m''}" "wk_jobs w '''' = None" by (rule ex_ready_worker) blast
  have "iteration_order (\<lambda>_. [''deb'', ''m'']) (dom (wk_jobs w))" by (simp add: iteration_order_def w(4))
  from Halt_reaches_every_job [OF this w(1)] obtain sent where
    s: "Halt [''deb'', ''m''] w = map (\<lambda>i. SendTo i jobHalt) sent @ [AwaitJobsDone, CloseExit]"
      "set sent = {i \<in> ran (wk_jobs w). mj_state (wk_heap w i) \<noteq> stateDisabled}" by blast
  have "i \<in> set sent" using ranI [of "wk_jobs w", OF w(2)] w(3) by (simp add: s(2))
  with s(1) w(2) show ?thesis by blast
qed

theorem disable_during_message_schedules_disabled_job_witness:
  "\<exists>(w :: (string, (gtime \<times> nat) list) Worker) i r es w1 es' w2. message_check ex_msg w = Some i \<and>
    handle_command ref_skiplist (ex_cmd CmdDisable, None) w = (r, es, w1) \<and> message_finish ref_skiplist 7 ex_msg i w1 = (es', w2) \<and>
    mj_state (wk_heap w2 i) = stateDisabled \<and> starts ref_skiplist w2 ''deb'' \<noteq> {}"
proof -
  obtain w :: "(string, (gtime \<times> nat) list) Worker" and i where
    w: "worker_inv ref_skiplist ref_sorted w" "wk_jobs w ''deb'' = Some i" "mj_state (wk_heap w i) = stateReady"
      "dom (wk_jobs w) = {''deb'', ''m''}" "wk_jobs w '''' = None" by (rule ex_ready_worker) blast
  have c: "message_check ex_msg w = Some i" using w(2,3) by (simp add: message_check_def ex_msg_def)
  obtain r es w1 where h: "handle_command ref_skiplist (ex_cmd CmdDisable, None) w = (r, es, w1)" by (cases "handle_command ref_skiplist (ex_cmd CmdDisable, None) w") auto
  obtain es' w2 where f: "message_finish ref_skiplist 7 ex_msg i w1 = (es', w2)" by (cases "message_finish ref_skiplist 7 ex_msg i w1")
  have "mj_state (wk_heap w2 i) = stateDisabled \<and> starts ref_skiplist w2 ''deb'' \<noteq> {}"
    using disable_during_message_schedules_disabled_job [OF w(1) c _ _ _ _ h f] by (simp add: ex_msg_def ex_cmd_def)
  with c h f show ?thesis by blast
qed

theorem reload_command_answers_not_found_witness:
  "\<exists>(w :: (string, (gtime \<times> nat) list) Worker). dom (wk_jobs w) = {''deb'', ''m''} \<and>
    fst (fst (handle_command ref_skiplist (\<lparr>wc_Cmd = CmdReload, wc_MirrorID = '''', wc_Args = [], wc_Options = []\<rparr>, None) w)) = 404"
proof -
  obtain w :: "(string, (gtime \<times> nat) list) Worker" and i where
    w: "worker_inv ref_skiplist ref_sorted w" "wk_jobs w ''deb'' = Some i" "mj_state (wk_heap w i) = stateReady"
      "dom (wk_jobs w) = {''deb'', ''m''}" "wk_jobs w '''' = None" by (rule ex_ready_worker) blast
  from reload_command_answers_not_found [OF w(5)] w(4) show ?thesis by (intro exI [of _ w]) simp
qed

theorem refused_command_unschedules_witness:
  "\<exists>(w :: (string, (gtime \<times> nat) list) Worker) i r w'. wk_jobs w ''deb'' = Some i \<and> starts ref_skiplist w ''deb'' = {5} \<and>
    handle_command ref_skiplist (ex_cmd CmdPing, None) w = (r, [], w') \<and> starts ref_skiplist w' ''deb'' = {}"
proof -
  obtain w :: "(string, (gtime \<times> nat) list) Worker" and i where
    w: "worker_inv ref_skiplist ref_sorted w" "wk_jobs w ''deb'' = Some i" "mj_state (wk_heap w i) = stateReady"
      "dom (wk_jobs w) = {''deb'', ''m''}" "wk_jobs w '''' = None" by (rule ex_ready_worker) blast
  let ?w = "add_job ref_skiplist 5 i w"
  have n: "nm w i = ''deb''" by (rule worker_invD(3) [OF w(1,2)])
  have v: "worker_inv ref_skiplist ref_sorted ?w" by (rule add_job_inv [OF w(1)]) (simp_all add: n w)
  have s: "starts ref_skiplist ?w ''deb'' = {5}"
    by (auto simp: starts_def slots_add_job [OF w(1)] without_apply n split: if_splits option.splits)
  obtain r es w' where h: "handle_command ref_skiplist (ex_cmd CmdPing, None) ?w = (r, es, w')" by (cases "handle_command ref_skiplist (ex_cmd CmdPing, None) ?w") auto
  have "es = [] \<and> starts ref_skiplist w' ''deb'' = {}"
    using refused_command_unschedules [OF v _ _ _ h, of i] w(2) by (simp add: ex_cmd_def)
  moreover have "wk_jobs ?w ''deb'' = Some i" using w(2) by simp
  ultimately show ?thesis using s h by blast
qed


theorem startup_loses_equal_instants_witness:
  "\<forall>h. \<exists>w i1 es w'. NewTUNASyncWorker ex_env ref_skiplist None None h ex_wcfg = Some (Some w) \<and> wk_jobs w ''deb'' = Some i1 \<and>
    start_jobs ref_skiplist int sorted_list_of_set
      [zero_MirrorStatus\<lparr>ms_Name := ''deb'', ms_Status := Failed\<rparr>, zero_MirrorStatus\<lparr>ms_Name := ''m'', ms_Status := Failed\<rparr>] w = (es, w') \<and>
    Go i1 \<in> set es \<and> starts ref_skiplist w' ''deb'' = {}"
proof
  fix h :: "nat \<Rightarrow> string mirrorJob"
  let ?m1 = "zero_MirrorStatus\<lparr>ms_Name := ''deb'', ms_Status := Failed\<rparr>" and ?m2 = "zero_MirrorStatus\<lparr>ms_Name := ''m'', ms_Status := Failed\<rparr>"
  obtain w ms where w: "NewTUNASyncWorker ex_env ref_skiplist None None h ex_wcfg = Some (Some w)" "wk_cfg w = ex_ready ms"
    using ex_created by blast
  note N = NewTUNASyncWorker_result [OF ref_skiplist_laws w(1) ex_names(1)]
  have d: "dom (wk_jobs w) = {''deb'', ''m''}" using N(3,4) by (simp add: config_ok_def ex_names(2))
  obtain i1 where i1: "wk_jobs w ''deb'' = Some i1" using d by blast
  obtain i2 where i2: "wk_jobs w ''m'' = Some i2" using d by blast
  have "Interval (mj_provider (wk_heap w i1)) = 120 * Minute \<and> Interval (mj_provider (wk_heap w i2)) = 120 * Minute"
    using ex_intervals [OF w(1)] i1 i2 by blast
  then have t: "ms_LastUpdate ?m1 + Interval (mj_provider (wk_heap w i1)) = ms_LastUpdate ?m2 + Interval (mj_provider (wk_heap w i2))" by simp
  have ord: "\<forall>U. U \<subseteq> dom (wk_jobs w) \<longrightarrow> iteration_order sorted_list_of_set U"
    using finite_subset [of _ "dom (wk_jobs w)"] d by (simp add: iteration_order_def)
  obtain es w' where s: "start_jobs ref_skiplist int sorted_list_of_set [?m1, ?m2] w = (es, w')"
    by (cases "start_jobs ref_skiplist int sorted_list_of_set [?m1, ?m2] w")
  have "Go i1 \<in> set es \<and> starts ref_skiplist w' ''deb'' = {}"
    using startup_loses_equal_instants [OF N(1,2) _ _ _ _ _ t ord s] i1 i2 by simp
  with w(1) i1 s show "\<exists>w i1 es w'. NewTUNASyncWorker ex_env ref_skiplist None None h ex_wcfg = Some (Some w) \<and> wk_jobs w ''deb'' = Some i1 \<and>
    start_jobs ref_skiplist int sorted_list_of_set [?m1, ?m2] w = (es, w') \<and>
    Go i1 \<in> set es \<and> starts ref_skiplist w' ''deb'' = {}" by blast
qed

end
