(* ===== verification/Main_Program.thy ===== *)
theory Main_Program
  imports Control_Client Cgroup Worker_Steps
begin

section \<open>The main program (cmd/tunasync/tunasync.go, manager/config.go, makeDBAdapter, GetTUNASyncManager)\<close>

text \<open>
  How a manager and a worker come up.  The stores that a database file or URL opens are the parameters of the record
  \<open>stores\<close>, the TOML decoder and the file system parameters too.  A process ends with an exit code, crashes with a
  panic, hangs, or runs.

  Shown: the settings of the manager and that it comes up with a working database that has what the store had;
  what a signal does to a worker; and that a second request to stop crashes it.
\<close>

subsection \<open>Configuration of the manager\<close>

record ServerConfig =
  srv_Addr :: string
  srv_Port :: int
  srv_SSLCert :: string
  srv_SSLKey :: string

record FileConfig =
  fl_StatusFile :: string
  fl_DBFile :: string
  fl_DBType :: string
  fl_CACert :: string

record mgr_Config =
  mg_Debug :: bool
  mg_Server :: ServerConfig
  mg_Files :: FileConfig

record mgr_flags =
  mf_config :: string
  mf_addr :: string
  mf_port :: int
  mf_cert :: string
  mf_key :: string
  mf_statusFile :: string
  mf_dbFile :: string
  mf_dbType :: string

definition mgr_default :: mgr_Config where
  "mgr_default =
     \<lparr>mg_Debug = False,
      mg_Server = \<lparr>srv_Addr = ''127.0.0.1'', srv_Port = 14242, srv_SSLCert = '''', srv_SSLKey = ''''\<rparr>,
      mg_Files = \<lparr>fl_StatusFile = ''/var/lib/tunasync/tunasync.json'', fl_DBFile = ''/var/lib/tunasync/tunasync.db'', fl_DBType = ''bolt'',
                  fl_CACert = ''''\<rparr>\<rparr>"

text \<open>The options of the command line over a configuration.\<close>

definition mgr_override :: "mgr_flags \<Rightarrow> mgr_Config \<Rightarrow> mgr_Config" where
  "mgr_override c cfg =
     (let s = mg_Server cfg; f = mg_Files cfg;
          s = (if mf_addr c \<noteq> '''' then s\<lparr>srv_Addr := mf_addr c\<rparr> else s);
          s = (if mf_port c > 0 then s\<lparr>srv_Port := mf_port c\<rparr> else s);
          s = (if mf_cert c \<noteq> '''' \<and> mf_key c \<noteq> '''' then s\<lparr>srv_SSLCert := mf_cert c, srv_SSLKey := mf_key c\<rparr> else s);
          f = (if mf_statusFile c \<noteq> '''' then f\<lparr>fl_StatusFile := mf_statusFile c\<rparr> else f);
          f = (if mf_dbFile c \<noteq> '''' then f\<lparr>fl_DBFile := mf_dbFile c\<rparr> else f);
          f = (if mf_dbType c \<noteq> '''' then f\<lparr>fl_DBType := mf_dbType c\<rparr> else f)
      in cfg\<lparr>mg_Server := s, mg_Files := f\<rparr>)"

definition mgr_LoadConfig :: "(string \<Rightarrow> mgr_Config \<Rightarrow> mgr_Config with_err) \<Rightarrow> string \<Rightarrow> mgr_flags option \<Rightarrow> goerror + mgr_Config" where
  "mgr_LoadConfig decodeFile cfgFile c =
     (case (if cfgFile \<noteq> '''' then decodeFile cfgFile mgr_default else (mgr_default, None)) of
        (_, Some e) \<Rightarrow> Inl e
      | (cfg, None) \<Rightarrow> Inr (case c of None \<Rightarrow> cfg | Some flags \<Rightarrow> mgr_override flags cfg))"

subsection \<open>The database\<close>

record 's stores =
  so_Bolt :: "string \<Rightarrow> goerror + ('s bolt_db \<times> 's)"
  so_Redis :: "string \<Rightarrow> goerror + ('s redis_db \<times> 's)"
  so_Badger :: "string \<Rightarrow> goerror + ('s badger_db \<times> 's)"
  so_LevelDB :: "string \<Rightarrow> goerror + ('s level_db \<times> 's)"

text \<open>\<open>kv.Init()\<close> after opening; an error is returned beside the adapter, which the caller then ignores.\<close>

definition init_adapter :: "wrapper \<Rightarrow> 's kvAdapter \<Rightarrow> 's \<Rightarrow> goerror + ('s dbAdapter \<times> 's)" where
  "init_adapter wrap K s =
     (case kvdb_Init K s of (Some e, s') \<Rightarrow> Inl e | (None, s') \<Rightarrow> Inr (kvDBAdapter K wrap, s'))"

definition makeDBAdapter :: "'s stores \<Rightarrow> wrapper \<Rightarrow> string \<Rightarrow> string \<Rightarrow> goerror + ('s dbAdapter \<times> 's)" where
  "makeDBAdapter so wrap dbType dbFile =
     (if dbType = ''bolt'' then (case so_Bolt so dbFile of Inl e \<Rightarrow> Inl e | Inr (B, s) \<Rightarrow> init_adapter wrap (boltAdapter B) s)
      else if dbType = ''redis'' then (case so_Redis so dbFile of Inl e \<Rightarrow> Inl (''bad redis url: '' @ e) | Inr (R, s) \<Rightarrow> init_adapter wrap (redisAdapter R) s)
      else if dbType = ''badger'' then (case so_Badger so dbFile of Inl e \<Rightarrow> Inl e | Inr (B, s) \<Rightarrow> init_adapter wrap (badgerAdapter B) s)
      else if dbType = ''leveldb'' then (case so_LevelDB so dbFile of Inl e \<Rightarrow> Inl e | Inr (L, s) \<Rightarrow> init_adapter wrap (leveldbAdapter L) s)
      else Inl (''unsupported db-type: '' @ dbType))"

subsection \<open>The manager process\<close>

text \<open>\<open>man_Db\<close> is \<open>None\<close> when no database file is configured: the adapter stays \<open>nil\<close>.\<close>

record 's Manager =
  man_Config :: mgr_Config
  man_Db :: "('s dbAdapter \<times> 's) option"

definition GetTUNASyncManager :: "(string \<Rightarrow> goerror + string) \<Rightarrow> (string \<Rightarrow> bool) \<Rightarrow> 's stores \<Rightarrow> wrapper \<Rightarrow> 's Manager option \<Rightarrow> mgr_Config \<Rightarrow> 's Manager option" where
  "GetTUNASyncManager readFile validPEM so wrap manager cfg =
     (case manager of
        Some m \<Rightarrow> Some m
      | None \<Rightarrow>
          (if CreateHTTPClient readFile validPEM (fl_CACert (mg_Files cfg)) \<noteq> None then None
           else if fl_DBFile (mg_Files cfg) = '''' then Some \<lparr>man_Config = cfg, man_Db = None\<rparr>
           else case makeDBAdapter so wrap (fl_DBType (mg_Files cfg)) (fl_DBFile (mg_Files cfg)) of
             Inl e \<Rightarrow> None
           | Inr db \<Rightarrow> Some \<lparr>man_Config = cfg, man_Db = Some db\<rparr>))"

datatype listen = ListenAndServe string | ListenAndServeTLS string string string

definition manager_Run :: "mgr_Config \<Rightarrow> listen" where
  "manager_Run cfg =
     (let s = mg_Server cfg; addr = srv_Addr s @ '':'' @ show_int (srv_Port s)
      in if srv_SSLCert s = '''' \<and> srv_SSLKey s = '''' then ListenAndServe addr
         else ListenAndServeTLS addr (srv_SSLCert s) (srv_SSLKey s))"

text \<open>The middleware that logs the errors of a request: it looks at them before it calls the handlers with
  \<open>c.Next()\<close>.  \<open>errs\<close> are the errors so far; the handlers yield a result and may add errors.\<close>

definition contextErrorLogger :: "string \<Rightarrow> string \<Rightarrow> (goerror list \<Rightarrow> 'a \<times> goerror list) \<Rightarrow> goerror list \<Rightarrow> string list \<times> 'a \<times> goerror list" where
  "contextErrorLogger method path Next errs =
     (map (\<lambda>err. [CHR 0x22] @ ''in request '' @ [CHR 0x22] @ method @ '' '' @ path @ '': '' @ err @ [CHR 0x22]) errs, Next errs)"

theorem handler_errors_are_not_logged:
  "fst (contextErrorLogger method path Next errs) = fst (contextErrorLogger method path Next' errs)"
  by (simp add: contextErrorLogger_def)

datatype 'p process = ExitCode int | Crashed | Hangs | Running 'p

definition startManager :: "(string \<Rightarrow> mgr_Config \<Rightarrow> mgr_Config with_err) \<Rightarrow> (string \<Rightarrow> goerror + string) \<Rightarrow> (string \<Rightarrow> bool) \<Rightarrow> 's stores \<Rightarrow> wrapper \<Rightarrow>
    mgr_flags \<Rightarrow> ('s Manager \<times> listen) process" where
  "startManager decodeFile readFile validPEM so wrap c =
     (case mgr_LoadConfig decodeFile (mf_config c) (Some c) of
        Inl e \<Rightarrow> ExitCode 1
      | Inr cfg \<Rightarrow>
          (case GetTUNASyncManager readFile validPEM so wrap None cfg of
             None \<Rightarrow> ExitCode 1
           | Some m \<Rightarrow> Running (m, manager_Run cfg)))"

subsection \<open>The worker process\<close>

text \<open>The first failure decides: the HTTP client, the control groups (which may hang), the mirrors (a panic), the
  profiling path.\<close>

definition startWorker :: "conf_env \<Rightarrow> (string \<Rightarrow> goerror + string) \<Rightarrow> (string \<Rightarrow> bool) \<Rightarrow> ('m, 'w) cg_lib \<Rightarrow> 'w \<Rightarrow> (string \<Rightarrow> bool) \<Rightarrow>
    'r prov_env \<Rightarrow> ('l, nat) skiplist \<Rightarrow> (nat \<Rightarrow> 'r mirrorJob) \<Rightarrow> string \<Rightarrow> string \<Rightarrow> ('r, 'l) Worker process" where
  "startWorker C readFile validPEM G cw isDir E S h cfgFile profPath =
     (case LoadConfig C cfgFile of
        Inl e \<Rightarrow> ExitCode 1
      | Inr cfg \<Rightarrow>
          (let clientErr = CreateHTTPClient readFile validPEM (mgc_CACert (cf_Manager cfg)) in
           case (if clientErr = None \<and> cg_Enable (cf_Cgroup cfg) then map_option fst (initCgroup G (cf_Cgroup cfg) cw) else Some None) of
             None \<Rightarrow> Hangs
           | Some cgroupErr \<Rightarrow>
               (case NewTUNASyncWorker E S clientErr cgroupErr h cfg of
                  None \<Rightarrow> Crashed
                | Some None \<Rightarrow> ExitCode 1
                | Some (Some w) \<Rightarrow> if profPath \<noteq> '''' \<and> \<not> isDir profPath then ExitCode 1 else Running w)))"

text \<open>Where the worker listens for commands.\<close>

definition runHTTPServer :: "Config \<Rightarrow> listen" where
  "runHTTPServer cfg =
     (let s = cf_Server cfg; addr = sv_Addr s @ '':'' @ show_int (sv_Port s)
      in if sv_SSLCert s = '''' \<and> sv_SSLKey s = '''' then ListenAndServe addr
         else ListenAndServeTLS addr (sv_SSLCert s) (sv_SSLKey s))"

text \<open>The URL that a worker registers with has the protocol and the port it is served on.\<close>

lemma URL_matches_server:
  "\<exists>addr. runHTTPServer (wk_cfg w) =
      (if take 6 (URL w) = ''https:'' then ListenAndServeTLS addr (sv_SSLCert (cf_Server (wk_cfg w))) (sv_SSLKey (cf_Server (wk_cfg w))) else ListenAndServe addr) \<and>
    addr = sv_Addr (cf_Server (wk_cfg w)) @ '':'' @ show_int (sv_Port (cf_Server (wk_cfg w)))"
  by (simp add: runHTTPServer_def URL_def Let_def)

text \<open>\<open>Worker.Run\<close> up to the loop of \<open>runSchedule\<close>: registration, the server in a goroutine of its own, the start of
  the jobs with what \<open>fetchJobStatus\<close> returned.\<close>

definition worker_Run :: "(string \<Rightarrow> nat \<Rightarrow> bool) \<Rightarrow> ('l, nat) skiplist \<Rightarrow> (nat \<Rightarrow> gtime) \<Rightarrow> (string set \<Rightarrow> string list) \<Rightarrow> MirrorStatus list \<Rightarrow>
    ('r, 'l) Worker \<Rightarrow> listen \<times> effect list \<times> ('r, 'l) Worker" where
  "worker_Run answer S clock order mirrorList w =
     (case start_jobs S clock order mirrorList w of
        (es, w') \<Rightarrow> (runHTTPServer (wk_cfg w), worker_registerWorker answer w @ es, w'))"

text \<open>The signal loop.  \<open>C\<close> is the configuration on disk when the signal is handled, \<open>order\<close> the iteration order of
  \<open>Halt\<close>; \<open>ws_Exited\<close> says that the exit channel was closed, closing it again is a panic.\<close>

datatype os_signal = SIGHUP | SIGINT | SIGTERM

record ('r, 'l) worker_process =
  ws_Worker :: "('r, 'l) Worker"
  ws_Exited :: bool

definition handle_signal :: "'r prov_env \<Rightarrow> ('l, nat) skiplist \<Rightarrow> (nat \<Rightarrow> gtime) \<Rightarrow> string list \<Rightarrow> string \<Rightarrow> conf_env \<Rightarrow> os_signal \<Rightarrow>
    ('r, 'l) worker_process \<Rightarrow> (effect list \<times> ('r, 'l) worker_process) option" where
  "handle_signal E S clock order cfgFile C sig p =
     (case sig of
        SIGHUP \<Rightarrow>
          (case LoadConfig C cfgFile of
             Inl e \<Rightarrow> Some ([], p)
           | Inr newCfg \<Rightarrow>
               map_option (\<lambda>(es, w). (es, p\<lparr>ws_Worker := w\<rparr>)) (ReloadMirrorConfig E S clock (cf_Mirrors newCfg) (ws_Worker p)))
      | _ \<Rightarrow> if ws_Exited p then None else Some (Halt order (ws_Worker p), p\<lparr>ws_Exited := True\<rparr>))"

fun signal_loop :: "'r prov_env \<Rightarrow> ('l, nat) skiplist \<Rightarrow> (nat \<Rightarrow> gtime) \<Rightarrow> string list \<Rightarrow> string \<Rightarrow> (conf_env \<times> os_signal) list \<Rightarrow>
    ('r, 'l) worker_process \<Rightarrow> (effect list \<times> ('r, 'l) worker_process) option" where
  "signal_loop E S clock order cfgFile [] p = Some ([], p)"
| "signal_loop E S clock order cfgFile ((C, sig) # sigs) p =
     (case handle_signal E S clock order cfgFile C sig p of
        None \<Rightarrow> None
      | Some (es, p1) \<Rightarrow>
          (case signal_loop E S clock order cfgFile sigs p1 of
             None \<Rightarrow> None
           | Some (es', p2) \<Rightarrow> Some (es @ es', p2)))"

subsection \<open>The manager comes up\<close>

text \<open>The store of the configured type is there and behaves as documented; \<open>c\<close> is what its buckets hold, \<open>ok\<close> the
  condition under which an initialised database of that type works.\<close>

definition store_ready :: "'s stores \<Rightarrow> string \<Rightarrow> string \<Rightarrow> ('s \<Rightarrow> string \<Rightarrow> string \<rightharpoonup> json) \<Rightarrow> ('s \<Rightarrow> bool) \<Rightarrow> 's \<Rightarrow> bool" where
  "store_ready so dbType dbFile c ok s \<longleftrightarrow>
     (\<exists>B c0 u. dbType = ''bolt'' \<and> so_Bolt so dbFile = Inr (B, s) \<and> bolt_laws B c0 u \<and> u s \<and> c = bolt_contents c0 \<and> ok = bolt_up B c0 u) \<or>
     (\<exists>R u. dbType = ''redis'' \<and> so_Redis so dbFile = Inr (R, s) \<and> redis_up R c u s \<and> ok = redis_up R c u) \<or>
     (\<exists>B m u. dbType = ''badger'' \<and> so_Badger so dbFile = Inr (B, s) \<and> badger_up B m u s \<and> c = flat_contents m \<and> ok = badger_up B m u) \<or>
     (\<exists>L m u. dbType = ''leveldb'' \<and> so_LevelDB so dbFile = Inr (L, s) \<and> leveldb_up L m u s \<and> c = flat_contents m \<and> ok = leveldb_up L m u)"

lemma bolt_InitBucket_law:
  assumes "bolt_laws B c u" and "u s" and "b \<noteq> []"
  shows "\<exists>s'. bolt_InitBucket B b s = (None, s') \<and> u s' \<and> bolt_contents c s' = bolt_contents c s \<and> c s' b \<noteq> None \<and>
    (\<forall>b'. c s b' \<noteq> None \<longrightarrow> c s' b' \<noteq> None)"
proof -
  from assms obtain s' where s': "bolt_CreateBucketIfNotExists B b s = (None, s')" "u s'"
    "c s' = (if c s b = None then (c s)(b \<mapsto> Map.empty) else c s)" unfolding bolt_laws_def by meson
  have "bolt_Update B f s = (case f s of (None, s') \<Rightarrow> (None, s') | (Some e, _) \<Rightarrow> (Some e, s))" for f
    using assms(1,2) unfolding bolt_laws_def by meson
  with s' show ?thesis by (auto simp: bolt_InitBucket_def bolt_contents_def fun_eq_iff)
qed

lemma bolt_Init:
  assumes "bolt_laws B c u" and "u s"
  shows "\<exists>s'. kvdb_Init (boltAdapter B) s = (None, s') \<and> bolt_up B c u s' \<and> bolt_contents c s' = bolt_contents c s"
proof -
  have n: "workerBucketKey \<noteq> []" "statusBucketKey \<noteq> []" by (simp_all add: workerBucketKey_def statusBucketKey_def)
  from bolt_InitBucket_law [OF assms n(1)] obtain s1 where
    s1: "bolt_InitBucket B workerBucketKey s = (None, s1)" "u s1" "bolt_contents c s1 = bolt_contents c s" "c s1 workerBucketKey \<noteq> None" by blast
  from bolt_InitBucket_law [OF assms(1) s1(2) n(2)] obtain s2 where
    "bolt_InitBucket B statusBucketKey s1 = (None, s2)" "u s2" "bolt_contents c s2 = bolt_contents c s1" "c s2 statusBucketKey \<noteq> None"
    "c s2 workerBucketKey \<noteq> None" using s1(4) by blast
  with s1 assms(1) show ?thesis by (auto simp: kvdb_Init_def bolt_up_def is_bucket_def)
qed

lemma makeDBAdapter_ready:
  assumes "store_ready so dbType dbFile c ok s"
  obtains K s1 where "makeDBAdapter so wrap dbType dbFile = Inr (kvDBAdapter K wrap, s1)" and "db_backend K c ok" and "ok s1" and "c s1 = c s"
  using assms unfolding store_ready_def
proof (elim disjE exE conjE)
  fix B c0 u
  assume a: "dbType = ''bolt''" "so_Bolt so dbFile = Inr (B, s)" "bolt_laws B c0 u" "u s" "c = bolt_contents c0" "ok = bolt_up B c0 u"
  from bolt_Init [OF a(3,4)] obtain s' where "kvdb_Init (boltAdapter B) s = (None, s')" "bolt_up B c0 u s'" "bolt_contents c0 s' = bolt_contents c0 s" by blast
  moreover have "db_backend (boltAdapter B) (bolt_contents c0) (bolt_up B c0 u)" unfolding db_backend_def by blast
  ultimately show thesis using a that [of "boltAdapter B" s'] by (simp add: makeDBAdapter_def init_adapter_def)
next
  fix R u
  assume a: "dbType = ''redis''" "so_Redis so dbFile = Inr (R, s)" "redis_up R c u s" "ok = redis_up R c u"
  moreover have "db_backend (redisAdapter R) c (redis_up R c u)" unfolding db_backend_def by blast
  ultimately show thesis using that [of "redisAdapter R" s] by (simp add: makeDBAdapter_def init_adapter_def kvdb_Init_def redis_InitBucket_def)
next
  fix B m u
  assume a: "dbType = ''badger''" "so_Badger so dbFile = Inr (B, s)" "badger_up B m u s" "c = flat_contents m" "ok = badger_up B m u"
  moreover have "db_backend (badgerAdapter B) (flat_contents m) (badger_up B m u)" unfolding db_backend_def by blast
  ultimately show thesis using that [of "badgerAdapter B" s] by (simp add: makeDBAdapter_def init_adapter_def kvdb_Init_def badger_InitBucket_def)
next
  fix L m u
  assume a: "dbType = ''leveldb''" "so_LevelDB so dbFile = Inr (L, s)" "leveldb_up L m u s" "c = flat_contents m" "ok = leveldb_up L m u"
  moreover have "db_backend (leveldbAdapter L) (flat_contents m) (leveldb_up L m u)" unfolding db_backend_def by blast
  ultimately show thesis using that [of "leveldbAdapter L" s] by (simp add: makeDBAdapter_def init_adapter_def kvdb_Init_def leveldb_InitBucket_def)
qed

text \<open>C21.  The manager comes up with what its database had.  Whatever the configured type of database is (bolt,
  redis, badger or leveldb), when the configuration can be loaded, the CA certificate is usable and the store
  opens and behaves as documented, the process runs, with a working database (also when the buckets did not exist
  before) that holds exactly the workers and statuses the store held, so that every property of the manager
  applies to it; it listens on the configured address and port, with TLS unless neither certificate nor key is
  configured.\<close>

theorem manager_comes_up:
  assumes "mgr_LoadConfig decodeFile (mf_config f) (Some f) = Inr cfg" and "CreateHTTPClient readFile validPEM (fl_CACert (mg_Files cfg)) = None"
    and "fl_DBFile (mg_Files cfg) \<noteq> ''''" and "store_ready so (fl_DBType (mg_Files cfg)) (fl_DBFile (mg_Files cfg)) c ok s"
    and "db_wf (c s)" and "wrap_laws wrap"
  shows "\<exists>K s1 l. startManager decodeFile readFile validPEM so wrap f = Running (\<lparr>man_Config = cfg, man_Db = Some (kvDBAdapter K wrap, s1)\<rparr>, l) \<and>
    db_up K wrap c ok s1 \<and> workers_of (c s1) = workers_of (c s) \<and> statuses_of (c s1) = statuses_of (c s) \<and>
    (let srv = mg_Server cfg; addr = srv_Addr srv @ '':'' @ show_int (srv_Port srv) in
     l = (if srv_SSLCert srv = '''' \<and> srv_SSLKey srv = '''' then ListenAndServe addr else ListenAndServeTLS addr (srv_SSLCert srv) (srv_SSLKey srv)))"
proof -
  from makeDBAdapter_ready [OF assms(4)] obtain K s1 where
    K: "makeDBAdapter so wrap (fl_DBType (mg_Files cfg)) (fl_DBFile (mg_Files cfg)) = Inr (kvDBAdapter K wrap, s1)" "db_backend K c ok" "ok s1" "c s1 = c s" by blast
  with assms show ?thesis
    by (intro exI [of _ K] exI [of _ s1] exI [of _ "manager_Run cfg"])
       (simp add: startManager_def GetTUNASyncManager_def db_up_def manager_Run_def Let_def)
qed

definition ex_stores :: "ref_db stores" where
  "ex_stores = \<lparr>so_Bolt = (\<lambda>f. Inr (ref_bolt, [])), so_Redis = (\<lambda>f. Inl ''invalid URL''), so_Badger = (\<lambda>f. Inl ''no such file''), so_LevelDB = (\<lambda>f. Inl ''no such file'')\<rparr>"

definition ex_flags :: mgr_flags where
  "ex_flags = \<lparr>mf_config = '''', mf_addr = ''0.0.0.0'', mf_port = 80, mf_cert = ''c.pem'', mf_key = '''', mf_statusFile = '''', mf_dbFile = '''', mf_dbType = ''''\<rparr>"

theorem manager_comes_up_witness:
  "\<exists>K s1. startManager (\<lambda>_ cfg. (cfg, None)) (\<lambda>_. Inl ''no such file'') (\<lambda>_. False) ex_stores ex_wrap ex_flags =
      Running (\<lparr>man_Config = mgr_override ex_flags mgr_default, man_Db = Some (kvDBAdapter K ex_wrap, s1)\<rparr>, ListenAndServe ''0.0.0.0:80'') \<and>
    db_up K ex_wrap (bolt_contents ref_contents) (bolt_up ref_bolt ref_contents ref_ok) s1"
proof -
  let ?cfg = "mgr_override ex_flags mgr_default"
  have cfg: "mgr_LoadConfig (\<lambda>_ cfg. (cfg, None)) (mf_config ex_flags) (Some ex_flags) = Inr ?cfg" by (simp add: mgr_LoadConfig_def ex_flags_def)
  have v: "fl_DBFile (mg_Files ?cfg) = ''/var/lib/tunasync/tunasync.db''" "fl_DBType (mg_Files ?cfg) = ''bolt''" "fl_CACert (mg_Files ?cfg) = ''''"
    "srv_Addr (mg_Server ?cfg) = ''0.0.0.0''" "srv_Port (mg_Server ?cfg) = 80" "srv_SSLCert (mg_Server ?cfg) = ''''" "srv_SSLKey (mg_Server ?cfg) = ''''"
    by (simp_all add: mgr_override_def mgr_default_def ex_flags_def Let_def)
  have ready: "store_ready ex_stores (fl_DBType (mg_Files ?cfg)) (fl_DBFile (mg_Files ?cfg)) (bolt_contents ref_contents) (bolt_up ref_bolt ref_contents ref_ok) []"
    unfolding store_ready_def v by (intro disjI1 exI [of _ ref_bolt] exI [of _ ref_contents] exI [of _ ref_ok]) (simp add: ex_stores_def ref_bolt_laws ref_ok_def)
  have wf: "db_wf (bolt_contents ref_contents [])" by (simp add: db_wf_def bolt_contents_def ref_contents_def)
  have "wrap_laws ex_wrap" by (simp add: wrap_laws_def ex_wrap_def)
  moreover have "show_int 80 = ''80''" by code_simp
  ultimately show ?thesis
    using manager_comes_up [OF cfg _ _ ready wf, of "\<lambda>_. Inl ''no such file''" "\<lambda>_. False" ex_wrap]
    by (auto simp: v CreateHTTPClient_def Let_def)
qed

subsection \<open>The worker comes up\<close>

text \<open>C22.  A worker process never hangs while it starts, provided that the control group it is in can be drained, and when it runs, every mirror of its configuration
  has a job, nothing is scheduled yet, and the worker is in a state for which its invariant holds.\<close>

theorem worker_comes_up:
  assumes "skiplist_laws S ok" and "\<And>cfg. LoadConfig C cfgFile = Inr cfg \<Longrightarrow> distinct (names (cf_Mirrors cfg))"
    and "own_group_drains G cw"
  shows "startWorker C readFile validPEM G cw isDir E S h cfgFile profPath \<noteq> Hangs \<and>
    (\<forall>w. startWorker C readFile validPEM G cw isDir E S h cfgFile profPath = Running w \<longrightarrow>
      (\<exists>cfg. LoadConfig C cfgFile = Inr cfg \<and> worker_inv S ok w \<and> dom (wk_jobs w) = set (names (cf_Mirrors cfg)) \<and> slots S w = Map.empty))"
proof (cases "LoadConfig C cfgFile")
  case (Inl e)
  then show ?thesis by (simp add: startWorker_def)
next
  case (Inr cfg)
  have cg: "initCgroup G (cf_Cgroup cfg) cw \<noteq> None" by (rule initCgroup_never_hangs [OF assms(3)])
  have "\<exists>cfg. LoadConfig C cfgFile = Inr cfg \<and> worker_inv S ok w \<and> dom (wk_jobs w) = set (names (cf_Mirrors cfg)) \<and> slots S w = Map.empty"
    if "startWorker C readFile validPEM G cw isDir E S h cfgFile profPath = Running w" for w
  proof -
    from that Inr obtain e1 e2 where n: "NewTUNASyncWorker E S e1 e2 h cfg = Some (Some w)"
      by (auto simp: startWorker_def Let_def split: option.splits if_splits)
    note N = NewTUNASyncWorker_result [OF assms(1) n assms(2) [OF Inr]]
    from N(1-4) Inr show ?thesis by (auto simp: config_ok_def)
  qed
  with Inr cg show ?thesis by (auto simp: startWorker_def Let_def split: option.split if_splits)
qed

definition ex_wconf :: Config where
  "ex_wconf = (ex_ready [ex_rsync])\<lparr>cf_IncludeMirrors := '''', cf_MirrorsConf := [],
     cf_Cgroup := \<lparr>cg_Enable = True, cg_BasePath = '''', cg_Group = '''', cg_Subsystem = ''''\<rparr>\<rparr>"

lemma ex_wconf_loads: "LoadConfig (ex_conf_env\<lparr>ce_DecodeFile := \<lambda>_. Inr ex_wconf\<rparr>) f = Inr ex_wconf"
  by (simp add: LoadConfig_def ex_conf_env_def ex_wconf_def ex_ready_def)

lemma ex_wconf_worker: "\<exists>w. NewTUNASyncWorker ex_env S None None h ex_wconf = Some (Some w)"
proof -
  let ?w = "\<lparr>wk_cfg = ex_wconf, wk_heap = h, wk_next = 0, wk_jobs = Map.empty, wk_schedule = newScheduleQueue S\<rparr>"
  have "newMirrorProvider ex_env ex_rsync ex_wconf \<noteq> None"
    by (simp add: newMirrorProvider_def ex_wconf_def ex_ready_def ex_env_def ex_rsync_def ex_config_def zero_mirrorConfig_def with_defaults_def
      newRsyncProvider_def rsync_conf_def has_suffix_slash_def add_hooks_def elems_def Let_def defaultMaxRetry_def)
  then have "init_loop ex_env [] [ex_rsync] ?w \<noteq> None" by (intro init_loop_total) simp
  moreover have "NewTUNASyncWorker ex_env S None None h ex_wconf = map_option Some (init_loop ex_env [] [ex_rsync] ?w)"
    by (simp add: NewTUNASyncWorker_def initJobs_def Let_def ex_wconf_def ex_ready_def ex_config_def defaultMaxRetry_def)
  ultimately show ?thesis by auto
qed

theorem worker_comes_up_witness:
  "\<forall>h. \<exists>w. startWorker (ex_conf_env\<lparr>ce_DecodeFile := \<lambda>_. Inr ex_wconf\<rparr>) (\<lambda>_. Inl ''no such file'') (\<lambda>_. False) ex_cg [1, 7] (\<lambda>_. False)
      ex_env ref_skiplist h ''worker.conf'' '''' = Running w \<and> dom (wk_jobs w) = {''deb''}"
proof
  fix h :: "nat \<Rightarrow> string mirrorJob"
  let ?C = "ex_conf_env\<lparr>ce_DecodeFile := \<lambda>_. Inr ex_wconf\<rparr>"
  let ?r = "startWorker ?C (\<lambda>_. Inl ''no such file'') (\<lambda>_. False) ex_cg [1, 7] (\<lambda>_. False) ex_env ref_skiplist h ''worker.conf'' ''''"
  have names: "names (cf_Mirrors ex_wconf) = [''deb'']" by (simp add: ex_wconf_def ex_ready_def names_def ex_rsync_def)
  have d: "own_group_drains ex_cg [1, 7]"
    unfolding own_group_drains_def using ex_cg_drains by (auto simp: readings_def) (auto simp: ex_cg_def)
  have cg: "cf_Cgroup ex_wconf = \<lparr>cg_Enable = True, cg_BasePath = '''', cg_Group = '''', cg_Subsystem = ''''\<rparr>" "mgc_CACert (cf_Manager ex_wconf) = ''''"
    by (simp_all add: ex_wconf_def ex_ready_def ex_config_def)
  from initCgroup_never_hangs [OF d] obtain e m cw where "initCgroup ex_cg (cf_Cgroup ex_wconf) [1, 7] = Some (e, m, cw)" by fast
  moreover have "e = None" using calculation ex_cg_init by (simp add: cg)
  ultimately obtain w where w: "?r = Running w"
    using ex_wconf_worker [of ref_skiplist h] by (auto simp: startWorker_def ex_wconf_loads cg CreateHTTPClient_def)
  have dist: "\<And>cfg. LoadConfig ?C ''worker.conf'' = Inr cfg \<Longrightarrow> distinct (names (cf_Mirrors cfg))" by (simp add: ex_wconf_loads) (metis names distinct_singleton)
  from worker_comes_up [of ref_skiplist ref_sorted ?C "''worker.conf''" ex_cg "[1, 7]", OF ref_skiplist_laws dist d] w
  obtain cfg where "LoadConfig ?C ''worker.conf'' = Inr cfg" "dom (wk_jobs w) = set (names (cf_Mirrors cfg))" by blast
  then have "dom (wk_jobs w) = {''deb''}" using names by (auto simp: ex_wconf_loads)
  with w show "\<exists>w. ?r = Running w \<and> dom (wk_jobs w) = {''deb''}" by blast
qed

subsection \<open>Signals\<close>

lemma signal_loop_append:
  "signal_loop E S clock order f (xs @ ys) p =
     (case signal_loop E S clock order f xs p of
        None \<Rightarrow> None
      | Some (es, p1) \<Rightarrow> (case signal_loop E S clock order f ys p1 of None \<Rightarrow> None | Some (es', p2) \<Rightarrow> Some (es @ es', p2)))"
  by (induction E S clock order f xs p rule: signal_loop.induct) (auto split: option.split prod.split)

text \<open>C36.  A broken configuration does not hurt a running worker: a hang-up signal that finds a configuration that
  cannot be loaded is as if it had not been sent, whatever signals come before and after it.\<close>

theorem broken_config_is_ignored:
  assumes "LoadConfig C cfgFile = Inl e"
  shows "signal_loop E S clock order cfgFile (sigs @ (C, SIGHUP) # sigs') p = signal_loop E S clock order cfgFile (sigs @ sigs') p"
proof -
  have "signal_loop E S clock order cfgFile ((C, SIGHUP) # sigs') q = signal_loop E S clock order cfgFile sigs' q" for q
    using assms by (simp add: handle_signal_def split: option.split prod.split)
  then show ?thesis by (simp only: signal_loop_append)
qed

theorem broken_config_is_ignored_witness:
  "\<forall>(p :: (string, (gtime \<times> nat) list) worker_process) C.
    signal_loop ex_env ref_skiplist int [] ''w.conf'' ([] @ (ex_conf_env\<lparr>ce_Stat := \<lambda>_. Some ''no such file''\<rparr>, SIGHUP) # [(C, SIGTERM)]) p =
    signal_loop ex_env ref_skiplist int [] ''w.conf'' ([] @ [(C, SIGTERM)]) p"
  by (intro allI broken_config_is_ignored [where e = "''no such file''"]) (simp add: LoadConfig_def)

text \<open>A second request to stop, with reloads in between or not, closes the exit channel again: the process crashes
  instead of leaving.\<close>

lemma reload_keeps_exited:
  "signal_loop E S clock order cfgFile (map (\<lambda>C. (C, SIGHUP)) Cs) p = Some (es, p') \<Longrightarrow> ws_Exited p' = ws_Exited p"
  by (induction Cs arbitrary: p es) (auto simp: handle_signal_def split: option.splits sum.splits prod.splits)

theorem second_stop_crashes:
  assumes "sig \<noteq> SIGHUP" and "sig' \<noteq> SIGHUP"
  shows "signal_loop E S clock order cfgFile ((C, sig) # map (\<lambda>C. (C, SIGHUP)) Cs @ [(C', sig')]) p = None"
proof (cases "ws_Exited p")
  case True
  with assms(1) show ?thesis by (cases sig) (simp_all add: handle_signal_def)
next
  case False
  let ?p = "p\<lparr>ws_Exited := True\<rparr>"
  have "signal_loop E S clock order cfgFile (map (\<lambda>C. (C, SIGHUP)) Cs @ [(C', sig')]) ?p = None"
    using assms(2) reload_keeps_exited [of E S clock order cfgFile Cs ?p]
    by (cases sig') (auto simp: signal_loop_append handle_signal_def split: option.split)
  with assms(1) False show ?thesis by (cases sig) (simp_all add: handle_signal_def)
qed

end
