(* ===== verification/Logger.thy ===== *)
theory Logger
  imports Go_Prelude
begin

section \<open>The logger (internal/logger.go)\<close>

text \<open>
  Levels, the handler that writes one line for each record, and the functions of \<open>Logger\<close>.  What is written is a
  list of lines; a handler is a record with the fields of \<open>lineHandler\<close>.  The text of a time, of a source
  position and of \<open>fmt.Sprintf\<close>, \<open>fmt.Sprint\<close> and \<open>strconv.Quote\<close> are parameters (\<open>fmt_env\<close>).

  Shown: which messages are written under which options, that every written message is one line whose label
  is its level, that the messages of a panic are always written, and how attributes are qualified.
\<close>

subsection \<open>Levels\<close>

definition LevelDebug :: int where "LevelDebug = -4"
definition LevelInfo :: int where "LevelInfo = 0"
definition LevelNotice :: int where "LevelNotice = 2"
definition LevelWarn :: int where "LevelWarn = 4"
definition LevelError :: int where "LevelError = 8"

lemmas level_defs = LevelDebug_def LevelInfo_def LevelNotice_def LevelWarn_def LevelError_def

definition levelLabel :: "int \<Rightarrow> string" where
  "levelLabel level =
     (if level \<le> LevelDebug then ''DEBUG''
      else if level < LevelNotice then ''INFO''
      else if level < LevelWarn then ''NOTICE''
      else if level < LevelError then ''WARN''
      else ''ERROR'')"

subsection \<open>Attributes\<close>

text \<open>The kinds of \<open>slog.Value\<close>; \<open>KindText\<close> stands for the kinds whose text the library makes (floats, durations,
  times and any).\<close>

datatype slog_value = KindString string | KindBool bool | KindInt64 int | KindUint64 nat | KindText string

type_synonym slog_attr = "string \<times> slog_value option"

record fmt_env =
  fe_Time :: "gtime \<Rightarrow> string"
  fe_Quote :: "string \<Rightarrow> string"
  fe_Source :: "nat \<Rightarrow> string"

definition attrValue :: "fmt_env \<Rightarrow> slog_value \<Rightarrow> string" where
  "attrValue F v =
     (case v of
        KindString s \<Rightarrow> fe_Quote F s
      | KindBool b \<Rightarrow> if b then ''true'' else ''false''
      | KindInt64 i \<Rightarrow> show_int i
      | KindUint64 n \<Rightarrow> show_nat n
      | KindText t \<Rightarrow> t)"

text \<open>The empty attribute is skipped; an attribute with a key but no value prints \<open><nil>\<close>.\<close>

fun appendAttrs :: "fmt_env \<Rightarrow> string list \<Rightarrow> slog_attr list \<Rightarrow> string" where
  "appendAttrs F groups [] = ''''"
| "appendAttrs F groups ((key, v) # attrs) =
     (if key = '''' \<and> v = None then appendAttrs F groups attrs
      else '' '' @ strings_Join (CHR ''.'') (groups @ [key]) @ ''='' @ (case v of None \<Rightarrow> ''<nil>'' | Some x \<Rightarrow> attrValue F x) @
        appendAttrs F groups attrs)"

subsection \<open>The handler\<close>

record lineHandler =
  lh_level :: int
  lh_addSource :: bool
  lh_withSystemd :: bool
  lh_attrs :: "slog_attr list"
  lh_groups :: "string list"

record slog_record =
  sr_Time :: gtime
  sr_Level :: int
  sr_Message :: string
  sr_PC :: nat
  sr_Attrs :: "slog_attr list"

definition newLineHandler :: "int \<Rightarrow> bool \<Rightarrow> bool \<Rightarrow> lineHandler" where
  "newLineHandler level addSource withSystemd =
     \<lparr>lh_level = level, lh_addSource = addSource, lh_withSystemd = withSystemd, lh_attrs = [], lh_groups = []\<rparr>"

definition Enabled :: "lineHandler \<Rightarrow> int \<Rightarrow> bool" where
  "Enabled h level \<longleftrightarrow> level \<ge> lh_level h"

definition shortSource :: "fmt_env \<Rightarrow> nat \<Rightarrow> string" where
  "shortSource F pc = (if pc = 0 then '''' else fe_Source F pc)"

definition Handle :: "fmt_env \<Rightarrow> lineHandler \<Rightarrow> slog_record \<Rightarrow> string" where
  "Handle F h r =
     (if lh_withSystemd h then ''['' @ levelLabel (sr_Level r) @ ''] ''
      else ''['' @ fe_Time F (sr_Time r) @ ''][''  @ levelLabel (sr_Level r) @ '']'' @
           (if lh_addSource h \<and> shortSource F (sr_PC r) \<noteq> '''' then ''['' @ shortSource F (sr_PC r) @ '']'' else '''') @ '' '') @
     sr_Message r @ appendAttrs F (lh_groups h) (lh_attrs h @ sr_Attrs r) @ [CHR 0x0A]"

definition WithAttrs :: "slog_attr list \<Rightarrow> lineHandler \<Rightarrow> lineHandler" where
  "WithAttrs attrs h = h\<lparr>lh_attrs := lh_attrs h @ attrs\<rparr>"

definition WithGroup :: "string \<Rightarrow> lineHandler \<Rightarrow> lineHandler" where
  "WithGroup name h = h\<lparr>lh_groups := lh_groups h @ [name]\<rparr>"

subsection \<open>The logger\<close>

definition InitLogger :: "bool \<Rightarrow> bool \<Rightarrow> bool \<Rightarrow> lineHandler" where
  "InitLogger verbose debug withSystemd =
     newLineHandler (if debug then LevelDebug else if verbose then LevelInfo else LevelNotice) debug withSystemd"

text \<open>\<open>defaultHandler\<close> is the value stored last, if any.\<close>

definition currentHandler :: "lineHandler option \<Rightarrow> lineHandler" where
  "currentHandler defaultHandler = (case defaultHandler of Some h \<Rightarrow> h | None \<Rightarrow> newLineHandler LevelNotice False False)"

definition log_msg :: "fmt_env \<Rightarrow> lineHandler option \<Rightarrow> gtime \<Rightarrow> nat \<Rightarrow> int \<Rightarrow> string \<Rightarrow> string list" where
  "log_msg F defaultHandler now pc level msg =
     (let handler = currentHandler defaultHandler in
      if \<not> Enabled handler level then []
      else [Handle F handler \<lparr>sr_Time = now, sr_Level = level, sr_Message = msg, sr_PC = pc, sr_Attrs = []\<rparr>])"

text \<open>\<open>formatMessage\<close> and \<open>normalizeArgs\<close> over \<open>fmt.Sprintf\<close> and \<open>fmt.Sprint\<close>; an argument is a string or another
  value.\<close>

datatype 'v arg = ArgString string | ArgValue 'v

definition formatMessage :: "(string \<Rightarrow> 'v arg list \<Rightarrow> string) \<Rightarrow> ('v arg list \<Rightarrow> string) \<Rightarrow> string \<Rightarrow> 'v arg list \<Rightarrow> string" where
  "formatMessage Sprintf Sprint format args =
     (if args = [] then format
      else if CHR ''%'' \<in> set format then Sprintf format args
      else Sprint (ArgString format # args))"

definition normalizeArgs :: "(string \<Rightarrow> 'v arg list \<Rightarrow> string) \<Rightarrow> ('v arg list \<Rightarrow> string) \<Rightarrow> 'v arg list \<Rightarrow> string" where
  "normalizeArgs Sprintf Sprint args =
     (case args of
        [] \<Rightarrow> ''''
      | ArgString format # rest \<Rightarrow> if rest \<noteq> [] \<and> CHR ''%'' \<in> set format then Sprintf format rest else Sprint args
      | _ \<Rightarrow> Sprint args)"

text \<open>The methods of a logger, each with a level: with arguments (\<open>Debug\<close> \<open>...\<close> \<open>Error\<close>) and with a format
  (\<open>Debugf\<close> \<open>...\<close> \<open>Errorf\<close>).\<close>

datatype log_method = MDebug | MInfo | MNotice | MWarning | MError

fun method_level :: "log_method \<Rightarrow> int" where
  "method_level MDebug = LevelDebug"
| "method_level MInfo = LevelInfo"
| "method_level MNotice = LevelNotice"
| "method_level MWarning = LevelWarn"
| "method_level MError = LevelError"

definition log_args :: "fmt_env \<Rightarrow> lineHandler option \<Rightarrow> gtime \<Rightarrow> nat \<Rightarrow> (string \<Rightarrow> 'v arg list \<Rightarrow> string) \<Rightarrow> ('v arg list \<Rightarrow> string) \<Rightarrow> log_method \<Rightarrow> 'v arg list \<Rightarrow>
    string list" where
  "log_args F defaultHandler now pc Sprintf Sprint m args = log_msg F defaultHandler now pc (method_level m) (normalizeArgs Sprintf Sprint args)"

definition logf :: "fmt_env \<Rightarrow> lineHandler option \<Rightarrow> gtime \<Rightarrow> nat \<Rightarrow> (string \<Rightarrow> 'v arg list \<Rightarrow> string) \<Rightarrow> ('v arg list \<Rightarrow> string) \<Rightarrow> log_method \<Rightarrow> string \<Rightarrow> 'v arg list \<Rightarrow>
    string list" where
  "logf F defaultHandler now pc Sprintf Sprint m format args = log_msg F defaultHandler now pc (method_level m) (formatMessage Sprintf Sprint format args)"

text \<open>\<open>Panic\<close> and \<open>Panicf\<close>: the lines written, and the value of the panic.\<close>

definition Panic :: "fmt_env \<Rightarrow> lineHandler option \<Rightarrow> gtime \<Rightarrow> nat \<Rightarrow> (string \<Rightarrow> 'v arg list \<Rightarrow> string) \<Rightarrow> ('v arg list \<Rightarrow> string) \<Rightarrow> 'v arg list \<Rightarrow>
    string list \<times> string" where
  "Panic F defaultHandler now pc Sprintf Sprint args =
     (let msg = normalizeArgs Sprintf Sprint args in (log_msg F defaultHandler now pc LevelError msg, msg))"

definition Panicf :: "fmt_env \<Rightarrow> lineHandler option \<Rightarrow> gtime \<Rightarrow> nat \<Rightarrow> (string \<Rightarrow> 'v arg list \<Rightarrow> string) \<Rightarrow> ('v arg list \<Rightarrow> string) \<Rightarrow> string \<Rightarrow> 'v arg list \<Rightarrow>
    string list \<times> string" where
  "Panicf F defaultHandler now pc Sprintf Sprint format args =
     (let msg = formatMessage Sprintf Sprint format args in (log_msg F defaultHandler now pc LevelError msg, msg))"

subsection \<open>What is written\<close>

definition threshold :: "bool \<Rightarrow> bool \<Rightarrow> int" where
  "threshold verbose debug = (if debug then LevelDebug else if verbose then LevelInfo else LevelNotice)"

text \<open>The part of a line before the message.\<close>

definition line_start :: "fmt_env \<Rightarrow> bool \<Rightarrow> bool \<Rightarrow> gtime \<Rightarrow> nat \<Rightarrow> int \<Rightarrow> string" where
  "line_start F debug systemd now pc level =
     (if systemd then ''['' @ levelLabel level @ ''] ''
      else ''['' @ fe_Time F now @ ''][''  @ levelLabel level @ '']'' @
        (if debug \<and> pc \<noteq> 0 \<and> fe_Source F pc \<noteq> '''' then ''['' @ fe_Source F pc @ '']'' else '''') @ '' '')"

lemma levelLabel_plain: "CHR 0x0A \<notin> set (levelLabel level)"
  by (simp add: levelLabel_def)

lemma count_list_absent: "c \<notin> set s \<Longrightarrow> count_list s c = 0"
  by (induction s) auto

text \<open>Which messages the options let through, and what is written: errors, warnings and notices always,
  informational messages with \<open>--verbose\<close> or \<open>--debug\<close>, debug messages with \<open>--debug\<close>.  A message that is let
  through is written as one line with one newline, at its end, when the message (and the texts of the time and the
  source position) have none, and the line has the label of the level and then the message; the source
  position only with \<open>--debug\<close> and never for systemd.\<close>

theorem log_options:
  assumes "CHR 0x0A \<notin> set msg" and "CHR 0x0A \<notin> set (fe_Time F now)" and "CHR 0x0A \<notin> set (fe_Source F pc)"
  shows "log_msg F (Some (InitLogger verbose debug systemd)) now pc level msg =
      (if level < threshold verbose debug then [] else [line_start F debug systemd now pc level @ msg @ [CHR 0x0A]]) \<and>
    count_list (line_start F debug systemd now pc level @ msg @ [CHR 0x0A]) (CHR 0x0A) = 1"
proof -
  have "CHR 0x0A \<notin> set (line_start F debug systemd now pc level)" using assms(2,3) levelLabel_plain by (simp add: line_start_def)
  then have "count_list (line_start F debug systemd now pc level @ msg @ [CHR 0x0A]) (CHR 0x0A) = 1"
    using assms(1) by (simp add: count_list_absent)
  moreover have "log_msg F (Some (InitLogger verbose debug systemd)) now pc level msg =
      (if level < threshold verbose debug then [] else [line_start F debug systemd now pc level @ msg @ [CHR 0x0A]])"
    by (simp add: log_msg_def currentHandler_def InitLogger_def newLineHandler_def Enabled_def Handle_def line_start_def shortSource_def threshold_def)
  ultimately show ?thesis by simp
qed

theorem log_options_witness:
  "log_msg \<lparr>fe_Time = (\<lambda>_. ''24-01-01 00:00:00''), fe_Quote = id, fe_Source = (\<lambda>_. ''job.go:1'')\<rparr> (Some (InitLogger False False False)) 0 1 LevelWarn ''x'' =
    [''[24-01-01 00:00:00][WARN] x'' @ [CHR 0x0A]]"
  using log_options [of "''x''" "\<lparr>fe_Time = (\<lambda>_. ''24-01-01 00:00:00''), fe_Quote = id, fe_Source = (\<lambda>_. ''job.go:1'')\<rparr>" 0 1 False False False LevelWarn]
  by (simp add: threshold_def level_defs line_start_def levelLabel_def)

text \<open>The message of a panic is written whatever the options are.\<close>

lemma panic_is_logged:
  "\<exists>line. fst (Panicf F (Some (InitLogger verbose debug systemd)) now pc Sprintf Sprint format args) = [line]"
  "\<exists>line. fst (Panic F (Some (InitLogger verbose debug systemd)) now pc Sprintf Sprint args) = [line]"
  by (simp_all add: Panicf_def Panic_def log_msg_def currentHandler_def InitLogger_def newLineHandler_def Enabled_def level_defs Let_def)

text \<open>A group qualifies every attribute of the handler, also those that were added before the group was opened: the
  order of the two calls makes no difference, although \<open>slog.Handler\<close> asks for the attributes added later
  only.\<close>

theorem group_qualifies_earlier_attrs:
  "Handle F (WithGroup name (WithAttrs attrs h)) r = Handle F (WithAttrs attrs (WithGroup name h)) r"
  by (simp add: Handle_def WithGroup_def WithAttrs_def)

end
