(* ===== verification/Command_Line.thy ===== *)
theory Command_Line
  imports Main_Program Logger
begin

section \<open>Flags and commands of the two programs (main of cmd/tunasync and cmd/tunasynctl)\<close>

text \<open>
  The command tables of \<open>tunasync\<close> and \<open>tunasynctl\<close> with their flags, and \<open>main\<close>.  Parsing a command line
  belongs to \<open>urfave/cli\<close>: its result is the function \<open>given\<close>, which has the value of a flag under the flag's
  name, whichever alias was used.  \<open>c.String\<close>, \<open>c.Int\<close> and \<open>c.Bool\<close> yield the zero value for a flag that
  the command does not define.

  Shown: no command defines a flag twice and every command has an action; only \<open>start\<close> can override the
  concurrency limit; what of the command line reaches the manager; and that the status file of the manager
  cannot be set.
\<close>

subsection \<open>Flags\<close>

datatype flag_value = StringFlag string | IntFlag int | BoolFlag bool

text \<open>The name, the aliases and the default value, whose constructor is the kind of the flag.\<close>

record cli_flag =
  fg_Name :: string
  fg_Aliases :: "string list"
  fg_Value :: flag_value

type_synonym cli_given = "string \<Rightarrow> flag_value option"

abbreviation string_flag :: "string \<Rightarrow> string list \<Rightarrow> cli_flag" where
  "string_flag n as \<equiv> \<lparr>fg_Name = n, fg_Aliases = as, fg_Value = StringFlag ''''\<rparr>"

abbreviation int_flag :: "string \<Rightarrow> string list \<Rightarrow> cli_flag" where
  "int_flag n as \<equiv> \<lparr>fg_Name = n, fg_Aliases = as, fg_Value = IntFlag 0\<rparr>"

abbreviation bool_flag :: "string \<Rightarrow> string list \<Rightarrow> cli_flag" where
  "bool_flag n as \<equiv> \<lparr>fg_Name = n, fg_Aliases = as, fg_Value = BoolFlag False\<rparr>"

fun lookup_flag :: "cli_flag list \<Rightarrow> cli_given \<Rightarrow> string \<Rightarrow> flag_value option" where
  "lookup_flag [] given n = None"
| "lookup_flag (f # fs) given n =
     (if fg_Name f = n then Some (case given n of Some v \<Rightarrow> v | None \<Rightarrow> fg_Value f) else lookup_flag fs given n)"

definition c_String :: "cli_flag list \<Rightarrow> cli_given \<Rightarrow> string \<Rightarrow> string" where
  "c_String fs given n = (case lookup_flag fs given n of Some (StringFlag s) \<Rightarrow> s | _ \<Rightarrow> '''')"

definition c_Int :: "cli_flag list \<Rightarrow> cli_given \<Rightarrow> string \<Rightarrow> int" where
  "c_Int fs given n = (case lookup_flag fs given n of Some (IntFlag i) \<Rightarrow> i | _ \<Rightarrow> 0)"

definition c_Bool :: "cli_flag list \<Rightarrow> cli_given \<Rightarrow> string \<Rightarrow> bool" where
  "c_Bool fs given n = (case lookup_flag fs given n of Some (BoolFlag b) \<Rightarrow> b | _ \<Rightarrow> False)"

subsection \<open>tunasynctl\<close>

definition commonFlags :: "cli_flag list" where
  "commonFlags =
     [string_flag ''config'' [''c''],
      string_flag ''manager'' [''m''],
      int_flag ''port'' [''p''],
      string_flag ''ca-cert'' [],
      bool_flag ''verbose'' [''v''],
      bool_flag ''debug'' []]"

definition cmdFlags :: "cli_flag list" where
  "cmdFlags = [string_flag ''worker'' [''w'']]"

definition forceStartFlag :: cli_flag where
  "forceStartFlag = bool_flag ''force'' [''f'']"

definition ctl_commands :: "(string \<times> cli_flag list) list" where
  "ctl_commands =
     [(''list'', commonFlags @ [bool_flag ''all'' [''a''], string_flag ''status'' [''s''], string_flag ''format'' [''f'']]),
      (''flush'', commonFlags),
      (''workers'', commonFlags),
      (''rm-worker'', commonFlags @ [string_flag ''worker'' [''w'']]),
      (''set-size'', commonFlags @ [string_flag ''worker'' [''w'']]),
      (''start'', (commonFlags @ cmdFlags) @ [forceStartFlag]),
      (''stop'', commonFlags @ cmdFlags),
      (''disable'', commonFlags @ cmdFlags),
      (''restart'', commonFlags @ cmdFlags),
      (''reload'', commonFlags @ cmdFlags),
      (''ping'', commonFlags @ cmdFlags)]"

text \<open>What the actions read of their context.\<close>

definition ctl_context :: "cli_flag list \<Rightarrow> cli_given \<Rightarrow> string list \<Rightarrow> cli_ctx" where
  "ctl_context fs given args =
     \<lparr>cx_manager = c_String fs given ''manager'', cx_port = c_Int fs given ''port'', cx_caCert = c_String fs given ''ca-cert'',
      cx_config = c_String fs given ''config'', cx_worker = c_String fs given ''worker'', cx_all = c_Bool fs given ''all'',
      cx_status = c_String fs given ''status'', cx_format = c_String fs given ''format'', cx_force = c_Bool fs given ''force'',
      cx_args = args\<rparr>"

text \<open>A command that the table does not have has no action.\<close>

definition tunasynctl :: "cli_files \<Rightarrow> templates \<Rightarrow> (MirrorStatus slice list \<Rightarrow> MirrorStatus slice list) \<Rightarrow> (string \<Rightarrow> goerror option) \<Rightarrow>
    's net \<Rightarrow> string \<Rightarrow> cli_given \<Rightarrow> string list \<Rightarrow> 's \<Rightarrow> (cli_end \<times> 's) option" where
  "tunasynctl F T order newRequest net command given args s =
     (case map_of ctl_commands command of
        None \<Rightarrow> None
      | Some fs \<Rightarrow> ctl_main F T order newRequest net command (ctl_context fs given args) s)"

subsection \<open>The version\<close>

definition Version :: string where "Version = ''0.10.0''"

text \<open>\<open>strconv.Atoi\<close>: an optional sign, then decimal digits; the number has to be an \<open>int\<close> of 64 bits.\<close>

fun digits_value :: "string \<Rightarrow> int \<Rightarrow> int option" where
  "digits_value [] n = Some n"
| "digits_value (c # s) n =
     (if CHR ''0'' \<le> c \<and> c \<le> CHR ''9'' then digits_value s (10 * n + int (of_char c) - 48) else None)"

definition strconv_Atoi :: "string \<Rightarrow> int option" where
  "strconv_Atoi s =
     (let (neg, ds) = (case s of [] \<Rightarrow> (False, []) | c # r \<Rightarrow> if c = CHR ''-'' then (True, r) else if c = CHR ''+'' then (False, r) else (False, s))
      in if ds = [] then None
         else case digits_value ds 0 of
           None \<Rightarrow> None
         | Some n \<Rightarrow> let v = (if neg then - n else n) in if - (2 ^ 63) \<le> v \<and> v < 2 ^ 63 then Some v else None)"

text \<open>\<open>cli.VersionPrinter\<close> of both programs; the text of an instant, \<open>time.Unix(ts, 0).String()\<close>, depends on the local time
  zone and is a parameter, like the values the linker sets.\<close>

definition VersionPrinter :: "(int \<Rightarrow> string) \<Rightarrow> string \<Rightarrow> string \<Rightarrow> string \<Rightarrow> string" where
  "VersionPrinter unix_String app_Version githash buildstamp =
     (let builddate = (if buildstamp = '''' then ''No build date provided''
                       else case strconv_Atoi buildstamp of
                         None \<Rightarrow> ''No build date provided''
                       | Some ts \<Rightarrow> unix_String ts)
      in ''Version: '' @ app_Version @ [CHR 10] @ ''Git Hash: '' @ githash @ [CHR 10] @ ''Build Date: '' @ builddate @ [CHR 10])"

definition ctl_VersionPrinter :: "(int \<Rightarrow> string) \<Rightarrow> string \<Rightarrow> string \<Rightarrow> string \<Rightarrow> string" where
  "ctl_VersionPrinter unix_String app_Version githash buildstamp = VersionPrinter unix_String app_Version githash buildstamp"

lemma version_build_date:
  "strconv_Atoi ''1700000000'' = Some 1700000000" "strconv_Atoi ''2023-11-14'' = None" "strconv_Atoi ''9223372036854775808'' = None"
  by (simp_all add: strconv_Atoi_def less_eq_char_def)

subsection \<open>tunasync\<close>

definition manager_flags :: "cli_flag list" where
  "manager_flags =
     [string_flag ''config'' [''c''],
      string_flag ''addr'' [],
      int_flag ''port'' [],
      string_flag ''cert'' [],
      string_flag ''key'' [],
      string_flag ''db-file'' [],
      string_flag ''db-type'' [],
      bool_flag ''verbose'' [''v''],
      bool_flag ''debug'' [],
      bool_flag ''with-systemd'' [],
      \<lparr>fg_Name = ''pidfile'', fg_Aliases = [], fg_Value = StringFlag ''/run/tunasync/tunasync.manager.pid''\<rparr>]"

definition worker_flags :: "cli_flag list" where
  "worker_flags =
     [string_flag ''config'' [''c''],
      bool_flag ''verbose'' [''v''],
      bool_flag ''debug'' [],
      bool_flag ''with-systemd'' [],
      \<lparr>fg_Name = ''pidfile'', fg_Aliases = [], fg_Value = StringFlag ''/run/tunasync/tunasync.worker.pid''\<rparr>,
      string_flag ''prof-path'' []]"

definition tunasync_commands :: "(string \<times> string list \<times> cli_flag list) list" where
  "tunasync_commands = [(''manager'', [''m''], manager_flags), (''worker'', [''w''], worker_flags)]"

text \<open>The context of \<open>startManager\<close>, as \<open>LoadConfig\<close> reads it, and the handler that \<open>InitLogger\<close> installs.\<close>

definition mgr_context :: "cli_flag list \<Rightarrow> cli_given \<Rightarrow> mgr_flags" where
  "mgr_context fs given =
     \<lparr>mf_config = c_String fs given ''config'', mf_addr = c_String fs given ''addr'', mf_port = c_Int fs given ''port'',
      mf_cert = c_String fs given ''cert'', mf_key = c_String fs given ''key'', mf_statusFile = c_String fs given ''status-file'',
      mf_dbFile = c_String fs given ''db-file'', mf_dbType = c_String fs given ''db-type''\<rparr>"

definition start_logger :: "cli_flag list \<Rightarrow> cli_given \<Rightarrow> lineHandler" where
  "start_logger fs given = InitLogger (c_Bool fs given ''verbose'') (c_Bool fs given ''debug'') (c_Bool fs given ''with-systemd'')"

text \<open>\<open>main\<close>: a process that was started under the name that \<open>waitExec\<close> is registered with is the child of a
  command under a control group; otherwise the command decides.  The record has what the processes find
  outside.\<close>

datatype ('s, 'r, 'l) program =
    ChildOf exec_end
  | ManagerProcess lineHandler "('s Manager \<times> listen) process"
  | WorkerProcess lineHandler "('r, 'l) Worker process"
  | NoCommand

record ('s, 'm, 'w, 'r, 'l) surroundings =
  su_LookPath :: "string \<Rightarrow> goerror + string"
  su_Exec :: "string \<Rightarrow> string list \<Rightarrow> goerror option"
  su_Environ :: "string list"
  su_Pipe :: pipe_state
  su_DecodeManager :: "string \<Rightarrow> mgr_Config \<Rightarrow> mgr_Config with_err"
  su_ReadFile :: "string \<Rightarrow> goerror + string"
  su_ValidPEM :: "string \<Rightarrow> bool"
  su_IsDir :: "string \<Rightarrow> bool"
  su_Stores :: "'s stores"
  su_Wrap :: wrapper
  su_WorkerConf :: conf_env
  su_Cgroups :: "('m, 'w) cg_lib"
  su_World :: 'w
  su_Providers :: "'r prov_env"
  su_SkipList :: "('l, nat) skiplist"
  su_Heap :: "nat \<Rightarrow> 'r mirrorJob"

definition tunasync_main :: "('s, 'm, 'w, 'r, 'l) surroundings \<Rightarrow> string list \<Rightarrow> string \<Rightarrow> cli_given \<Rightarrow> ('s, 'r, 'l) program" where
  "tunasync_main U Args command given =
     (if Args \<noteq> [] \<and> hd Args = ''tunasync-exec'' then ChildOf (waitExec (su_LookPath U) (su_Exec U) (su_Environ U) (su_Pipe U) Args)
      else case find (\<lambda>(name, aliases, fs). command \<in> set (name # aliases)) tunasync_commands of
        None \<Rightarrow> NoCommand
      | Some (name, aliases, fs) \<Rightarrow>
          (if name = ''manager'' then
             ManagerProcess (start_logger fs given)
               (startManager (su_DecodeManager U) (su_ReadFile U) (su_ValidPEM U) (su_Stores U) (su_Wrap U) (mgr_context fs given))
           else
             WorkerProcess (start_logger fs given)
               (startWorker (su_WorkerConf U) (su_ReadFile U) (su_ValidPEM U) (su_Cgroups U) (su_World U) (su_IsDir U) (su_Providers U)
                 (su_SkipList U) (su_Heap U) (c_String fs given ''config'') (c_String fs given ''prof-path''))))"

subsection \<open>The tables\<close>

lemmas flag_tables = ctl_commands_def commonFlags_def cmdFlags_def forceStartFlag_def manager_flags_def worker_flags_def tunasync_commands_def

lemmas flag_reads = c_String_def c_Int_def c_Bool_def

text \<open>The names under which a flag can be given.  Defining one twice makes the flag library panic.\<close>

definition flag_names :: "cli_flag list \<Rightarrow> string list" where
  "flag_names fs = concat (map (\<lambda>f. fg_Name f # fg_Aliases f) fs)"

lemma ctl_main_names: "ctl_main F T order newRequest net command cx s \<noteq> None \<longleftrightarrow> command \<in> fst ` set ctl_commands"
proof -
  have "fst ` set ctl_commands = set [''list'', ''flush'', ''workers'', ''rm-worker'', ''set-size'', ''start'', ''stop'', ''disable'', ''restart'', ''reload'', ''ping'']"
    by (simp add: ctl_commands_def)
  then show ?thesis unfolding ctl_main_def option.map_disc_iff map_of_eq_None_iff by simp
qed

text \<open>The command tables are sound: no command of \<open>tunasynctl\<close> or \<open>tunasync\<close> defines a flag name or alias twice,
  no name or alias of a command is taken twice, and \<open>tunasynctl\<close> has an action for exactly the commands of its
  table.\<close>

theorem command_tables_sound:
  "distinct (map fst ctl_commands) \<and>
   distinct (concat (map (\<lambda>(name, aliases, fs). name # aliases) tunasync_commands)) \<and>
   list_all (\<lambda>fs. distinct (flag_names fs)) (map snd ctl_commands @ map (snd \<circ> snd) tunasync_commands) \<and>
   (tunasynctl F T order newRequest net command given args s \<noteq> None \<longleftrightarrow> command \<in> fst ` set ctl_commands)"
proof (intro conjI)
  show "distinct (map fst ctl_commands)" by code_simp
  show "distinct (concat (map (\<lambda>(name, aliases, fs). name # aliases) tunasync_commands))" by code_simp
  show "list_all (\<lambda>fs. distinct (flag_names fs)) (map snd ctl_commands @ map (snd \<circ> snd) tunasync_commands)" by code_simp
  show "tunasynctl F T order newRequest net command given args s \<noteq> None \<longleftrightarrow> command \<in> fst ` set ctl_commands"
  proof (cases "map_of ctl_commands command")
    case None
    then have "command \<notin> fst ` set ctl_commands" by (simp only: map_of_eq_None_iff not_False_eq_True)
    with None show ?thesis by (simp add: tunasynctl_def)
  next
    case (Some fs)
    then have "tunasynctl F T order newRequest net command given args s = ctl_main F T order newRequest net command (ctl_context fs given args) s"
      by (simp add: tunasynctl_def)
    then show ?thesis by (simp only: ctl_main_names)
  qed
qed

text \<open>Only \<open>start\<close> knows the flag that overrides the concurrency limit.\<close>

lemma only_start_forces:
  "map_of ctl_commands command = Some fs \<Longrightarrow> command \<noteq> ''start'' \<Longrightarrow> \<not> cx_force (ctl_context fs given args)"
proof -
  assume m: "map_of ctl_commands command = Some fs" and c: "command \<noteq> ''start''"
  have "(command, fs) \<in> set ctl_commands" by (rule map_of_SomeD [OF m])
  with c have "list_all (\<lambda>f. fg_Name f \<noteq> ''force'') fs" by (auto simp: flag_tables)
  then have "lookup_flag fs given ''force'' = None" by (induction fs) auto
  then show ?thesis by (simp add: ctl_context_def flag_reads)
qed

text \<open>What the user types is what is sent: for \<open>start\<close>, \<open>stop\<close>, \<open>disable\<close>, \<open>restart\<close> and \<open>ping\<close> with one
  argument the client posts, to the manager that \<open>initialize\<close> finds, one command with the verb of that name, the
  argument as the mirror, and the worker of \<open>-w\<close>; the option that overrides the concurrency limit is set exactly for
  \<open>start\<close> with \<open>--force\<close>.\<close>

lemma command_line_request:
  assumes "(command, verb) \<in> set [(''start'', CmdStart), (''stop'', CmdStop), (''disable'', CmdDisable), (''restart'', CmdRestart), (''ping'', CmdPing)]"
    and "\<And>fs. map_of ctl_commands command = Some fs \<Longrightarrow> initialize F (ctl_context fs given [m]) = Inr baseURL"
    and "given ''worker'' = map_option StringFlag w" and "given ''force'' = map_option BoolFlag f"
  shows "tunasynctl F T order newRequest net command given [m] s =
    Some (post_command net baseURL \<lparr>cc_Cmd = verb, cc_MirrorID = m, cc_WorkerID = (case w of None \<Rightarrow> '''' | Some i \<Rightarrow> i), cc_Args = [],
      cc_Options = (if command = ''start'' \<and> f = Some True then [(''force'', True)] else [])\<rparr> s)"
proof -
  have "\<exists>fs. map_of ctl_commands command = Some fs" using assms(1) by (auto simp: ctl_commands_def)
  then obtain fs where fs: "map_of ctl_commands command = Some fs" by blast
  have "fs = (if command = ''start'' then (commonFlags @ cmdFlags) @ [forceStartFlag] else commonFlags @ cmdFlags)"
    using fs assms(1) by (auto simp: ctl_commands_def)
  then have cx: "cx_worker (ctl_context fs given [m]) = (case w of None \<Rightarrow> '''' | Some i \<Rightarrow> i)"
    "cx_force (ctl_context fs given [m]) \<longleftrightarrow> command = ''start'' \<and> f = Some True" "cx_args (ctl_context fs given [m]) = [m]"
    using assms(3,4) by (auto simp: ctl_context_def flag_reads commonFlags_def cmdFlags_def forceStartFlag_def split: option.split)
  have "ctl_main F T order newRequest net command (ctl_context fs given [m]) s = Some (ctl_cmdJob net verb baseURL (ctl_context fs given [m]) s)"
    using assms(1) by (auto simp: ctl_main_def initializeWrapper_def assms(2) [OF fs])
  then show ?thesis using fs cx by (simp add: tunasynctl_def ctl_cmdJob_def job_cmd_def)
qed

text \<open>A client without configuration files, called as \<open>tunasynctl stop -w w -p 80 m\<close>.\<close>

definition ex_files :: cli_files where
  "ex_files = \<lparr>cf_Stat = (\<lambda>_. False), cf_Home = '''', cf_DecodeFile = (\<lambda>_ cfg. (cfg, None)), cf_ReadFile = (\<lambda>_. Inr ''''), cf_ValidPEM = (\<lambda>_. True)\<rparr>"

definition ex_given :: cli_given where
  "ex_given = [''worker'' \<mapsto> StringFlag ''w'', ''port'' \<mapsto> IntFlag 80]"

lemma ex_initialize:
  assumes "map_of ctl_commands ''stop'' = Some fs"
  shows "initialize ex_files (ctl_context fs ex_given [''m'']) = Inr ''http://localhost:80''"
proof -
  have "show_int 80 = ''80''" by code_simp
  then have "initialize ex_files (ctl_context (commonFlags @ cmdFlags) ex_given [''m'']) = Inr ''http://localhost:80''"
    by (simp add: initialize_def ctl_context_def flag_reads commonFlags_def cmdFlags_def load_if_def default_config_def override_config_def
        base_url_def CreateHTTPClient_def Let_def ex_files_def ex_given_def)
  with assms show ?thesis by (simp add: ctl_commands_def)
qed

text \<open>The status file of the manager cannot be set from the command line: the flag that \<open>LoadConfig\<close> reads is not
  defined.\<close>

theorem status_file_flag_missing:
  "mf_statusFile (mgr_context manager_flags given) = ''''"
  by (simp add: mgr_context_def flag_reads flag_tables)

text \<open>The debug flag of the manager reaches its logger but not its configuration.\<close>

theorem manager_debug_flag_ignored:
  assumes "given' = given(''debug'' \<mapsto> BoolFlag True)"
  shows "mgr_context manager_flags given' = mgr_context manager_flags given"
  by (simp add: assms mgr_context_def flag_reads flag_tables)

text \<open>The child of a command under a control group: the re-executed program becomes the command, once it is told to
  go on.\<close>

lemma reexecuted_child:
  assumes "newCmdJob_args user p (c # args) dir env = Some Args" and "bp_docker p = None" and "bp_cgroup p \<noteq> None"
    and "su_LookPath U c = Inr binary" and "su_Exec U binary (c # args) = None" and "su_Pipe U = PipeData cmd"
  shows "tunasync_main U Args command given =
    ChildOf (if cmd = cmdCont then Exec binary (c # args) (su_Environ U) else ExecPanic ''Exited on request'')"
proof -
  have "Args = ''tunasync-exec'' # c # args" using assms(1-3) by (auto simp: newCmdJob_args_def)
  with assms(4-6) show ?thesis by (simp add: tunasync_main_def waitExec_def cmdCont_def cmdAbrt_def)
qed

end
