(* ===== verification/Job_Run.thy ===== *)
theory Job_Run
  imports Provider_Run
begin

section \<open>Runs of a job with its provider and hooks (worker/job.go with the providers)\<close>

text \<open>
  The pieces of one run put together: \<open>runJobWrapper\<close> of \<open>Mirror_Job\<close>, the hooks of \<open>Job_Hooks\<close> and the
  providers of \<open>Provider_Run\<close>.  The goroutine that calls \<open>provider.Run\<close> sends its error to \<open>syncDone\<close>; whether a
  time-out or a kill comes first is decided by the parameter \<open>ri_Wait\<close>, and \<open>Terminate\<close> acts on the command of that
  attempt.  The world records every run of the provider: the provider as the hooks had left it, its error and its
  events.  The whole run is recorded when it starts, which no message depends on.  A panic of the provider's goroutine
  ends the process, like the panic of the wrapper.

  Shown: a job that reports a success has synchronised.
\<close>

record proc_world =
  pw_runs :: "(baseProvider \<times> goerror option \<times> proc_event list) list"
  pw_state :: run_state

record run_interrupts =
  ri_Wait :: "nat \<Rightarrow> sync_wait option"
  ri_KillErr :: "nat \<Rightarrow> goerror option"
  ri_InTime :: "nat \<Rightarrow> bool"
  ri_State :: "nat \<Rightarrow> jobState"

type_synonym job_world = "proc_world hook_world"

abbreviation runs_of :: "job_world \<Rightarrow> (baseProvider \<times> goerror option \<times> proc_event list) list" where
  "runs_of w \<equiv> pw_runs (hw_env w)"

text \<open>The goroutine, up to the first \<open>select\<close>: the error of a run that never started, or \<open>started\<close>.\<close>

definition goroutine_Start :: "('r \<Rightarrow> regexp) \<Rightarrow> (nat \<Rightarrow> int \<Rightarrow> os_answers) \<Rightarrow> 'r provider \<Rightarrow> job_world \<Rightarrow> sync_start \<times> job_world" where
  "goroutine_Start re AA pr w =
     (case provider_Run re (AA (length (runs_of w))) (hw_base w) (pr_kind pr) (pw_state (hw_env w)) of
        None \<Rightarrow> (StartNil, w)
      | Some (e, ev, st) \<Rightarrow>
          ((if SendStarted \<in> set ev then StartOk else case e of None \<Rightarrow> StartNil | Some err \<Rightarrow> StartError err),
           w\<lparr>hw_env := \<lparr>pw_runs = runs_of w @ [(hw_base w, e, ev)], pw_state = st\<rparr>\<rparr>))"

text \<open>The second \<open>select\<close>.\<close>

definition goroutine_Wait :: "run_interrupts \<Rightarrow> duration \<Rightarrow> job_world \<Rightarrow> sync_wait \<times> job_world" where
  "goroutine_Wait I timeout w =
     ((case ri_Wait I (length (runs_of w) - 1) of
         Some SyncKill \<Rightarrow> SyncKill
       | Some SyncTimeout \<Rightarrow> SyncTimeout
       | _ \<Rightarrow> SyncDone (case last (runs_of w) of (p, e, ev) \<Rightarrow> e)), w)"

definition run_Terminate :: "(nat \<Rightarrow> int \<Rightarrow> os_answers) \<Rightarrow> run_interrupts \<Rightarrow> job_world \<Rightarrow> goerror option \<times> job_world" where
  "run_Terminate AA I w =
     (let n = length (runs_of w) - 1; pid = (case oa_Start (AA n 1) of Inr pid \<Rightarrow> Some pid | Inl _ \<Rightarrow> None) in
      (fst (provider_Terminate (ri_KillErr I n) (ri_InTime I n) (hw_base w) pid ((pw_state (hw_env w))\<lparr>rs_running := True\<rparr>)), w))"

definition run_provider :: "('r \<Rightarrow> regexp) \<Rightarrow> (nat \<Rightarrow> hook_answers) \<Rightarrow> (nat \<Rightarrow> int \<Rightarrow> os_answers) \<Rightarrow> run_interrupts \<Rightarrow> 'r provider \<Rightarrow>
    (jobHook, job_world) mirrorProvider" where
  "run_provider re A AA I pr =
     \<lparr>p_Name = Name pr, p_Retry = Retry pr, p_Timeout = Timeout pr, p_Hooks = Hooks pr,
      p_Action = run_hook A (Upstream pr), p_Start = goroutine_Start re AA pr, p_Wait = goroutine_Wait I,
      p_Terminate = run_Terminate AA I,
      p_DataSize = (\<lambda>w. (rs_dataSize (pw_state (hw_env w)), w)),
      p_State = (\<lambda>w. (ri_State I (length (runs_of w) - 1), w))\<rparr>"

lemma run_provider_sel [simp]:
  "p_Start (run_provider re A AA I pr) = goroutine_Start re AA pr" "p_Wait (run_provider re A AA I pr) = goroutine_Wait I"
  "p_DataSize (run_provider re A AA I pr) w = (rs_dataSize (pw_state (hw_env w)), w)"
  "p_State (run_provider re A AA I pr) w = (ri_State I (length (runs_of w) - 1), w)"
  "p_Action (run_provider re A AA I pr) = run_hook A (Upstream pr)" "p_Retry (run_provider re A AA I pr) = Retry pr"
  "p_Hooks (run_provider re A AA I pr) = bp_hooks (pr_base pr)" "p_Name (run_provider re A AA I pr) = Name pr"
  "p_Terminate (run_provider re A AA I pr) = run_Terminate AA I" "p_Timeout (run_provider re A AA I pr) = bp_timeout (pr_base pr)"
  by (simp_all add: run_provider_def Hooks_def Timeout_def)

subsection \<open>A run that returns nil\<close>

text \<open>What a \<open>Run\<close> without an error says about the commands, whatever else the system answered.\<close>

lemma and_then_okE:
  assumes "and_then f g st = Some (None, ev, st')"
  obtains ev1 st1 ev2 where "f st = Some (None, ev1, st1)" and "g st1 = Some (None, ev2, st')" and "ev = ev1 @ ev2"
  using assms by (auto simp: and_then_def split: option.splits prod.splits)

lemma finally_close_okE:
  assumes "finally_close r = Some (None, ev, st')"
  obtains ev1 st1 where "r = Some (None, ev1, st1)"
  using assms by (auto simp: finally_close_def closeLogFile_def)

lemma launch_ok:
  assumes "launch A p command env app st = Some (None, ev, st')"
  shows "cmd_starts A p"
proof -
  from assms obtain wd ev0 args dir environ where "WorkingDir p = Some wd" "newCmdJob A p command wd env = Some (ev0, args, dir, environ)"
    and l: "and_then (emit ev0) (and_then (prepareLogFile A p app)
      (\<lambda>st1. case cmdJob_Start A p args dir environ of (Some e, ev') \<Rightarrow> Some (Some e, ev', st1) | (None, ev') \<Rightarrow> Some (None, ev', st1\<lparr>rs_running := True\<rparr>))) st =
      Some (None, ev, st')"
    by (auto simp: launch_def split: option.splits prod.splits)
  from l obtain ev1 st1 ev2 st2 where "prepareLogFile A p app st1 = Some (None, ev1, st2)"
    and c: "fst (cmdJob_Start A p args dir environ) = None"
    by (elim and_then_okE) (auto split: prod.splits option.splits)
  then have "LogFile p = Some ''/dev/null'' \<or> oa_OpenErr A = None" by (auto simp: prepareLogFile_def split: option.splits if_splits)
  with c show ?thesis
    by (auto simp: cmd_starts_def cmdJob_Start_def Let_def split: option.splits if_splits sum.splits add_result.splits)
qed

lemma Wait_ok:
  assumes "provider_Wait A p st = Some (None, ev, st')"
  shows "cmd_succeeds A p"
  using assms by (auto simp: provider_Wait_def cmd_succeeds_def cmdJob_Wait_def Let_def split: wait_result.splits if_splits)

lemma rsync_await_ok:
  assumes "rsync_await A p st = Some (None, ev, st')"
  shows "cmd_succeeds A p"
  using assms by (auto simp: rsync_await_def split: option.splits prod.splits intro: Wait_ok)

lemma cmd_await_ok:
  assumes "cmd_await A p st = Some (None, ev, st')"
  shows "cmd_succeeds A p"
  using assms by (auto simp: cmd_await_def intro: Wait_ok)

lemma fail_on_match_ok:
  assumes "fail_on_match re A p f st = Some (None, ev, st')"
  shows "no_match re A p f"
  using assms by (auto simp: fail_on_match_def no_match_def split: option.splits prod.splits if_splits)

lemma cmdProvider_Start_ok: "cmdProvider_Start A p c command st = Some (None, ev, st') \<Longrightarrow> cmd_starts A p"
  by (auto simp: cmdProvider_Start_def split: if_splits option.splits intro: launch_ok)

lemma rsyncProvider_Start_ok: "rsyncProvider_Start A p c options st = Some (None, ev, st') \<Longrightarrow> cmd_starts A p"
  by (auto simp: rsyncProvider_Start_def split: if_splits option.splits intro: launch_ok)

lemma two_stage_ok:
  assumes "two_stage A p c o1 o2 stage st = Some (None, ev, st')"
  shows "stage_begins (A stage) p c o1 o2 stage \<and> cmd_succeeds (A stage) p"
proof -
  from assms obtain ev1 st1 ev2 st2 where "two_stage_launch (A stage) p c o1 o2 stage st = Some (None, ev1, st1)"
    and r: "rsync_await (A stage) p st1 = Some (None, ev2, st2)"
    unfolding two_stage_def by (elim and_then_okE) (auto simp: emit_def)
  then have "stage_begins (A stage) p c o1 o2 stage"
    by (auto simp: two_stage_launch_def stage_begins_def split: sum.splits option.splits intro: launch_ok)
  with rsync_await_ok [OF r] show ?thesis by simp
qed

lemma provider_Run_ok:
  assumes "provider_Run re A p kind st = Some (None, ev, st')"
  shows "run_succeeds re A p kind"
proof (cases kind)
  case (CmdProvider c command f s)
  with assms obtain ev1 st1 ev2 st2 ev3 st3 ev4 st4 ev5 st5 where
    "cmdProvider_Start (A 1) p c command st1 = Some (None, ev1, st2)" "cmd_await (A 1) p st3 = Some (None, ev2, st4)"
    "fail_on_match re (A 1) p f st4 = Some (None, ev5, st5)"
    by (auto simp: provider_Run_def cmdProvider_Run_def elim!: finally_close_okE and_then_okE)
  with CmdProvider show ?thesis by (auto dest: cmdProvider_Start_ok cmd_await_ok fail_on_match_ok)
next
  case (RsyncProvider c options)
  with assms obtain ev1 st1 ev2 st2 st3 st4 where
    "rsyncProvider_Start (A 1) p c options st1 = Some (None, ev1, st2)" "rsync_await (A 1) p st3 = Some (None, ev2, st4)"
    by (auto simp: provider_Run_def rsyncProvider_Run_def elim!: finally_close_okE and_then_okE)
  with RsyncProvider show ?thesis by (auto dest: rsyncProvider_Start_ok rsync_await_ok)
next
  case (TwoStageRsyncProvider c o1 o2)
  with assms obtain ev1 st1 ev2 st2 st3 st4 where
    "two_stage A p c o1 o2 1 st1 = Some (None, ev1, st2)" "two_stage A p c o1 o2 2 st3 = Some (None, ev2, st4)"
    by (auto simp: provider_Run_def twoStageRsyncProvider_Run_def Let_def split: if_splits elim!: finally_close_okE and_then_okE)
  with TwoStageRsyncProvider show ?thesis by (auto dest: two_stage_ok)
qed

subsection \<open>What the operations of a provider keep\<close>

text \<open>A reflexive and transitive relation of worlds that every operation of a provider respects.\<close>

locale kept_by_provider =
  fixes P :: "('h, 'w) mirrorProvider" and R :: "'w \<Rightarrow> 'w \<Rightarrow> bool"
  assumes R_refl: "R w w"
    and R_trans: "R w1 w2 \<Longrightarrow> R w2 w3 \<Longrightarrow> R w1 w3"
    and R_Action: "p_Action P a h w = (e, w') \<Longrightarrow> R w w'"
    and R_Start: "p_Start P w = (s, w') \<Longrightarrow> R w w'"
    and R_Wait: "p_Wait P t w = (x, w') \<Longrightarrow> R w w'"
    and R_Terminate: "p_Terminate P w = (e, w') \<Longrightarrow> R w w'"
    and R_DataSize: "p_DataSize P w = (sz, w') \<Longrightarrow> R w w'"
    and R_State: "p_State P w = (st, w') \<Longrightarrow> R w w'"
begin

lemma runHooks_kept: "runHooks P hs a w = (e, tr, w') \<Longrightarrow> R w w'"
proof (induction hs arbitrary: w tr)
  case (Cons h hs)
  obtain e1 w1 where h: "p_Action P a h w = (e1, w1)" by (metis surj_pair)
  show ?case
  proof (cases e1)
    case None
    with Cons.prems h obtain tr1 where "runHooks P hs a w1 = (e, tr1, w')" by (auto split: prod.splits)
    from R_trans [OF R_Action [OF h] Cons.IH [OF this]] show ?thesis .
  next
    case (Some err)
    with Cons.prems h R_Action [OF h] show ?thesis by auto
  qed
qed (simp add: R_refl)

lemma finish_attempt_kept:
  assumes "finish_attempt P retry stop syncErr w = (r, tr, w')"
  shows "R w w'"
proof -
  let ?a = "if syncErr = None then postSuccess else postFail"
  obtain e tr1 w1 where h: "runHooks P (rev (p_Hooks P)) ?a w = (e, tr1, w1)" by (metis prod_cases3)
  obtain sz w2 st w3 where d: "p_DataSize P w1 = (sz, w2)" "p_State P w2 = (st, w3)" by (metis surj_pair)
  obtain st' w4 where s: "p_State P w1 = (st', w4)" by (metis surj_pair)
  have "w' \<in> {w1, w3, w4}" using assms h d s by (auto simp: finish_attempt_def split: option.splits if_splits)
  moreover have "R w w1" "R w1 w3" "R w1 w4"
    using runHooks_kept [OF h] R_trans [OF R_DataSize [OF d(1)] R_State [OF d(2)]] R_State [OF s] by simp_all
  ultimately show ?thesis using R_trans by blast
qed

lemma sync_attempt_kept:
  assumes "sync_attempt P retry w = (r, tr, w')"
  shows "R w w'"
proof (cases rule: sync_attempt_split [of P w retry])
  case (panic w1)
  with assms R_Start show ?thesis by auto
next
  case (terminate start w1 ev w2 w3 e)
  with assms R_trans [OF R_trans [OF R_Start [OF terminate(1)] R_Wait [OF terminate(2)]] R_Terminate [OF terminate(3)]] show ?thesis by simp
next
  case (post start w1 ev w2 wx syncErr stop tr1 e tr2 wy)
  have "R w2 wx" using post(3) R_refl R_Terminate by blast
  note reach = R_trans [OF R_trans [OF R_trans [OF R_Start [OF post(1)] R_Wait [OF post(2)]] this] runHooks_kept [OF post(7)]]
  obtain r' tr3 w5 where f: "finish_attempt P retry stop syncErr wy = (r', tr3, w5)" by (metis prod_cases3)
  then have "w' \<in> {wy, w5}" using assms post(8) by (cases e) simp_all
  with reach finish_attempt_kept [OF f] R_trans show ?thesis by blast
qed

lemma attempt_kept:
  assumes "attempt P retry w = (r, tr, w')"
  shows "R w w'"
proof -
  obtain e tr1 w1 where h: "runHooks P (p_Hooks P) preExec w = (e, tr1, w1)" by (metis prod_cases3)
  obtain r2 tr2 w2 where s: "sync_attempt P retry w1 = (r2, tr2, w2)" by (metis prod_cases3)
  from assms h s have "w' \<in> {w1, w2}" by (auto simp: attempt_def split: option.splits)
  then show ?thesis using runHooks_kept [OF h] sync_attempt_kept [OF s] R_trans by blast
qed

end

subsection \<open>A reported success\<close>

text \<open>The end of an attempt that reports a success.\<close>

definition success_end :: "('h, 'w) mirrorProvider \<Rightarrow> 'w \<Rightarrow> 'h job_event list \<Rightarrow> 'w \<Rightarrow> bool" where
  "success_end P w0 tr w' \<longleftrightarrow>
     (\<exists>w1 w2 w3 w4 w5 tr2 tr3 sz st. p_Start P w0 = (StartOk, w1) \<and> p_Wait P (effective_timeout P) w1 = (SyncDone None, w2) \<and>
        runHooks P (rev (p_Hooks P)) postExec w2 = (None, tr2, w3) \<and> runHooks P (rev (p_Hooks P)) postSuccess w3 = (None, tr3, w4) \<and>
        p_DataSize P w4 = (sz, w5) \<and> p_State P w5 = (st, w') \<and> SetSize sz \<in> set tr)"

lemma finish_attempt_success:
  assumes "finish_attempt P retry stop syncErr w = (r, tr, w')" and "m \<in> set (msgs tr)" and "jm_status m = Success"
  shows "r = Leave (Returned None) \<and> m = last (msgs tr) \<and> syncErr = None \<and>
    (\<exists>tr1 w1 sz w2 st. runHooks P (rev (p_Hooks P)) postSuccess w = (None, tr1, w1) \<and> p_DataSize P w1 = (sz, w2) \<and> p_State P w2 = (st, w') \<and>
      SetSize sz \<in> set tr)"
proof (cases syncErr)
  case None
  obtain e tr1 w1 where h: "runHooks P (rev (p_Hooks P)) postSuccess w = (e, tr1, w1)" by (metis prod_cases3)
  from assms None h runHooks_msgs [OF h] show ?thesis by (cases e) (auto simp: finish_attempt_def split: prod.splits)
next
  case (Some err)
  obtain e tr1 w1 where h: "runHooks P (rev (p_Hooks P)) postFail w = (e, tr1, w1)" by (metis prod_cases3)
  from assms Some h runHooks_msgs [OF h] show ?thesis by (cases e) (auto simp: finish_attempt_def split: prod.splits if_splits)
qed

lemma sync_attempt_success:
  assumes "sync_attempt P retry w = (r, tr, w')" and "m \<in> set (msgs tr)" and "jm_status m = Success"
  shows "r = Leave (Returned None) \<and> m = last (msgs tr) \<and> success_end P w tr w'"
proof (cases rule: sync_attempt_split [of P w retry])
  case (post start w1 ev w2 wx syncErr stop tr1 e tr2 wy)
  show ?thesis
  proof (cases e)
    case (Some he)
    with post(6,8) assms runHooks_msgs [OF post(7)] show ?thesis by auto
  next
    case None
    with post(8) assms(1) obtain tr3 where f: "finish_attempt P retry stop syncErr wy = (r, tr3, w')" "tr = Run # tr1 @ tr2 @ tr3"
      by (auto split: prod.splits)
    then have m: "msgs tr = msgs tr3" using post(6) None runHooks_msgs [OF post(7)] by simp
    from finish_attempt_success [OF f(1)] assms(2,3) m have F: "r = Leave (Returned None)" "m = last (msgs tr3)" "syncErr = None"
      "\<exists>tr1 w1 sz w2 st. runHooks P (rev (p_Hooks P)) postSuccess wy = (None, tr1, w1) \<and> p_DataSize P w1 = (sz, w2) \<and> p_State P w2 = (st, w') \<and>
        SetSize sz \<in> set tr3" by auto
    with post(1,2,4,7) None f(2) have "success_end P w tr w'" unfolding success_end_def by fastforce
    with F m show ?thesis by simp
  qed
qed (use assms in auto)

lemma attempt_success:
  assumes "attempt P retry w = (r, tr, w')" and "m \<in> set (msgs tr)" and "jm_status m = Success"
  obtains tr0 w0 where "runHooks P (p_Hooks P) preExec w = (None, tr0, w0)" and "r = Leave (Returned None)" and "m = last (msgs tr)"
    and "success_end P w0 tr w'"
proof -
  obtain e tr0 w0 where h: "runHooks P (p_Hooks P) preExec w = (e, tr0, w0)" by (metis prod_cases3)
  obtain r2 tr2 w2 where s: "sync_attempt P retry w0 = (r2, tr2, w2)" by (metis prod_cases3)
  have e: "e = None" using assms h runHooks_msgs [OF h] by (cases e) (auto simp: attempt_def)
  with assms(1) h s have eq: "r = r2" "w' = w2" "tr = tr0 @ Msg (syncing_message P) # tr2" by (auto simp: attempt_def)
  with assms(2,3) e runHooks_msgs [OF h] have "m \<in> set (msgs tr2)" by auto
  then have ne: "msgs tr2 \<noteq> []" and S: "r2 = Leave (Returned None)" "m = last (msgs tr2)" "success_end P w0 tr2 w2"
    using sync_attempt_success [OF s _ assms(3)] by auto
  from S(3) eq(2,3) have "success_end P w0 tr w'" by (auto simp: success_end_def)
  with S ne eq e h show thesis by (intro that [of tr0 w0]) simp_all
qed

context kept_by_provider
begin

lemma retry_loop_success:
  assumes "retry_loop P retry w = (r, tr, w')" and "m \<in> set (msgs tr)" and "jm_status m = Success"
  shows "r = Returned None \<and> m = last (msgs tr) \<and> (\<exists>w0. R w w0 \<and> success_end P w0 tr w')"
  using assms(1,2)
proof (induction P\<equiv>P retry w arbitrary: r tr w' rule: retry_loop.induct)
  case (1 retry w)
  show ?case
  proof (cases "retry < p_Retry P")
    case False
    with 1(2,3) show ?thesis by (simp add: retry_loop_end)
  next
    case True
    from attempt_cases [of P retry w] show ?thesis
    proof cases
      case (leave r1 tr1 w1)
      with 1(2) True have eq: "r = r1" "tr = tr1" "w' = w1" by (simp_all add: retry_loop_leave)
      from attempt_success [OF leave(1), of m] 1(3) assms(3) eq obtain tr0 w0 where
        "runHooks P (p_Hooks P) preExec w = (None, tr0, w0)" "r = Returned None" "m = last (msgs tr)" "success_end P w0 tr w'" by auto
      with runHooks_kept show ?thesis by blast
    next
      case (again tr1 w1 err b)
      obtain r2 tr2 w2 where l: "retry_loop P (retry + 1) w1 = (r2, tr2, w2)" by (metis prod_cases3)
      with 1(2) retry_loop_next [OF True again(1)] have eq: "r = r2" "tr = tr1 @ tr2" "w' = w2" by simp_all
      with 1(3) again(3) assms(3) have m: "m \<in> set (msgs tr2)" by auto
      from 1(1) [OF True again(1) [symmetric] refl refl l m] obtain w0 where
        "r2 = Returned None" "m = last (msgs tr2)" "R w1 w0" "success_end P w0 tr2 w2" by blast
      moreover have "R w w0" using R_trans [OF attempt_kept [OF again(1)] \<open>R w1 w0\<close>] .
      moreover have "msgs tr2 \<noteq> []" using m by auto
      ultimately show ?thesis using eq by (auto simp: success_end_def)
    qed
  qed
qed

lemma runJobWrapper_success:
  assumes "runJobWrapper P w = (r, tr, w')" and "m \<in> set (msgs tr)" and "jm_status m = Success"
  shows "r = Returned None \<and> m = last (msgs tr) \<and> (\<exists>w0. R w w0 \<and> success_end P w0 tr w')"
proof -
  obtain e tr0 w1 where h: "runHooks P (p_Hooks P) preJob w = (e, tr0, w1)" by (metis prod_cases3)
  obtain r2 tr2 w2 where l: "retry_loop P 0 w1 = (r2, tr2, w2)" by (metis prod_cases3)
  have e: "e = None" using assms h runHooks_msgs [OF h] by (cases e) (auto simp: runJobWrapper_def)
  with assms(1) h l have eq: "r = r2" "w' = w2" "tr = Msg (status_message P PreSyncing '''' False) # tr0 @ tr2" by (simp_all add: runJobWrapper_def)
  with assms(2,3) e runHooks_msgs [OF h] have m: "m \<in> set (msgs tr2)" by auto
  from retry_loop_success [OF l m assms(3)] obtain w0 where
    "r2 = Returned None" "m = last (msgs tr2)" "R w1 w0" "success_end P w0 tr2 w2" by blast
  moreover have "R w w0" using R_trans [OF runHooks_kept [OF h] \<open>R w1 w0\<close>] .
  moreover have "msgs tr2 \<noteq> []" using m by auto
  ultimately show ?thesis using eq e runHooks_msgs [OF h] by (auto simp: success_end_def)
qed

end

text \<open>The operations of a run change the provider only in its context.\<close>

definition same_provider :: "job_world \<Rightarrow> job_world \<Rightarrow> bool" where
  "same_provider w w' \<longleftrightarrow> (\<exists>c. hw_base w' = (hw_base w)\<lparr>bp_ctx := c\<rparr>)"

lemma same_provider_eq: "hw_base w' = hw_base w \<Longrightarrow> same_provider w w'"
  unfolding same_provider_def by (intro exI [of _ "bp_ctx (hw_base w)"]) simp

lemma hook_action_base:
  assumes "hook_action A up a h p = Some (e, ops, p')"
  shows "\<exists>c. p' = p\<lparr>bp_ctx := c\<rparr>"
proof -
  have id: "\<exists>c. p = p\<lparr>bp_ctx := c\<rparr>" by (intro exI [of _ "bp_ctx p"]) simp
  have enter: "\<exists>c. q = p\<lparr>bp_ctx := c\<rparr>" if "EnterContext p = Some q" for q using that by (auto simp: EnterContext_def)
  have exit: "\<exists>c. q = p\<lparr>bp_ctx := c\<rparr>" if "ExitContext p = Some q" for q using that by (auto simp: ExitContext_def)
  note cs = logLimiter_preExec_def logLimiter_postSuccess_def logLimiter_postFail_def dockerHook_preExec_def dockerHook_postExec_def
    exit_context_def set_ctx_def execPostHook_Do_def zfsHook_preJob_def btrfs_preJob_def btrfs_postSuccess_def Let_def
  show ?thesis using assms id
    by (cases a; cases h) (auto simp: cs split: option.splits if_splits dir_list.splits sum.splits prod.splits dest!: enter exit)
qed

lemma run_hook_base: "run_hook A up a h w = (e, w') \<Longrightarrow> same_provider w w' \<and> hw_env w' = hw_env w"
  using hook_action_base [of "A (hw_calls w)" up a h "hw_base w"] same_provider_eq [of w w]
  by (auto simp: run_hook_def same_provider_def split: option.splits)

interpretation run_provider: kept_by_provider "run_provider re A AA I pr" same_provider
proof
  show "same_provider w w" for w by (rule same_provider_eq) simp
  show "same_provider w1 w3" if "same_provider w1 w2" "same_provider w2 w3" for w1 w2 w3
    using that by (auto simp: same_provider_def)
  show "same_provider w w'" if "p_Action (run_provider re A AA I pr) a h w = (e, w')" for a h w e w'
    using that run_hook_base by simp
qed (auto simp: goroutine_Start_def goroutine_Wait_def run_Terminate_def Let_def intro!: same_provider_eq split: option.splits)

lemma runHooks_env: "runHooks (run_provider re A AA I pr) hs a w = (e, tr, w') \<Longrightarrow> hw_env w' = hw_env w"
proof (induction hs arbitrary: w tr)
  case (Cons h hs)
  obtain e1 w1 where h: "run_hook A (Upstream pr) a h w = (e1, w1)" by (metis surj_pair)
  with Cons.prems Cons.IH [of w1] run_hook_base [OF h] show ?case by (cases e1) (auto split: prod.splits)
qed simp

text \<open>C5.  A job tells the truth about a success.  Whatever the hooks, the time-outs, the kills and the operating
  system do: when a run of a job sends the message \<open>Success\<close>, that message is its last and the run returns
  \<open>nil\<close>; the last run of the provider returned no error and was neither killed nor timed out, so its command (both
  commands for the two-stage provider) was started and ended with exit code 0 or one of the configured codes, and
  a custom command left no forbidden line in its log; that run was one of this provider, with a context the hooks
  had set; and the size that is reported is the one that run found.\<close>

theorem reported_success_is_true:
  assumes "runJobWrapper (run_provider re A AA I pr) w = (r, tr, w')" and "m \<in> set (msgs tr)" and "jm_status m = Success"
  shows "r = Returned None \<and> m = last (msgs tr) \<and>
    (\<exists>rs c p ev. runs_of w' = rs @ [(p, None, ev)] \<and> p = (hw_base w)\<lparr>bp_ctx := c\<rparr> \<and> run_succeeds re (AA (length rs)) p (pr_kind pr) \<and>
      ri_Wait I (length rs) \<notin> {Some SyncKill, Some SyncTimeout} \<and> SetSize (rs_dataSize (pw_state (hw_env w'))) \<in> set tr)"
proof -
  let ?P = "run_provider re A AA I pr"
  from run_provider.runJobWrapper_success [OF assms] obtain w0 where
    r: "r = Returned None" "m = last (msgs tr)" and R: "same_provider w w0" and S: "success_end ?P w0 tr w'" by blast
  from S obtain w1 w2 w3 w4 tr2 tr3 where s: "goroutine_Start re AA pr w0 = (StartOk, w1)"
      "goroutine_Wait I (effective_timeout ?P) w1 = (SyncDone None, w2)" "runHooks ?P (rev (p_Hooks ?P)) postExec w2 = (None, tr2, w3)"
      "runHooks ?P (rev (p_Hooks ?P)) postSuccess w3 = (None, tr3, w4)" "w' = w4" "SetSize (rs_dataSize (pw_state (hw_env w4))) \<in> set tr"
    unfolding success_end_def by auto
  from s(1) obtain e ev st where run: "provider_Run re (AA (length (runs_of w0))) (hw_base w0) (pr_kind pr) (pw_state (hw_env w0)) = Some (e, ev, st)"
    and w1: "w1 = w0\<lparr>hw_env := \<lparr>pw_runs = runs_of w0 @ [(hw_base w0, e, ev)], pw_state = st\<rparr>\<rparr>"
    by (auto simp: goroutine_Start_def split: option.splits)
  have w2: "w2 = w1" "e = None" "ri_Wait I (length (runs_of w0)) \<notin> {Some SyncKill, Some SyncTimeout}"
    using s(2) by (auto simp: goroutine_Wait_def w1 split: option.splits sync_wait.splits)
  have "hw_env w' = hw_env w1" using runHooks_env [OF s(3)] runHooks_env [OF s(4)] s(5) w2(1) by simp
  then have "runs_of w' = runs_of w0 @ [(hw_base w0, None, ev)]" using w2(2) by (simp add: w1)
  moreover obtain c where "hw_base w0 = (hw_base w)\<lparr>bp_ctx := c\<rparr>" using R by (auto simp: same_provider_def)
  ultimately show ?thesis using r w2 s(5,6) provider_Run_ok [OF run [unfolded w2(2)]] by blast
qed

text \<open>A custom command without hooks that exits with a code that counts as success.\<close>

definition ex_job :: "regexp provider" where
  "ex_job = \<lparr>pr_base = ex_base, pr_kind = CmdProvider ex_cmd [''sync.sh'', ''-v''] None None\<rparr>"

definition ex_interrupts :: run_interrupts where
  "ex_interrupts = \<lparr>ri_Wait = (\<lambda>_. None), ri_KillErr = (\<lambda>_. None), ri_InTime = (\<lambda>_. True), ri_State = (\<lambda>_. stateReady)\<rparr>"

definition ex_job_world :: job_world where
  "ex_job_world = \<lparr>hw_calls = 0, hw_base = ex_base, hw_env = \<lparr>pw_runs = [], pw_state = \<lparr>rs_running = False, rs_logFd = False, rs_dataSize = ''''\<rparr>\<rparr>\<rparr>"

lemma ex_job_runs:
  "\<exists>tr w' m. runJobWrapper (run_provider (\<lambda>r. r) (\<lambda>_. ex_answers) (\<lambda>_ _. ex_os) ex_interrupts ex_job) ex_job_world = (Returned None, tr, w') \<and>
    m \<in> set (msgs tr) \<and> jm_status m = Success"
proof -
  let ?P = "run_provider (\<lambda>r. r) (\<lambda>_. ex_answers) (\<lambda>_ _. ex_os) ex_interrupts ex_job"
  have k: "runnable (\<lambda>r. r) (\<lambda>_. ex_os) ex_base (pr_kind ex_job)" "run_succeeds (\<lambda>r. r) (\<lambda>_. ex_os) ex_base (pr_kind ex_job)"
    "run_begins (\<lambda>_. ex_os) ex_base (pr_kind ex_job)"
    by (simp_all add: ex_job_def size_found_def no_match_def ex_os_ok)
  from provider_Run_promise [OF ex_base_ctx(1) ex_os_ok(1) ex_os_ok(1) _ _ k(1), of "pw_state (hw_env ex_job_world)"] k(2,3)
  obtain ev st where run: "provider_Run (\<lambda>r. r) (\<lambda>_. ex_os) ex_base (pr_kind ex_job) (pw_state (hw_env ex_job_world)) = Some (None, ev, st)"
    "SendStarted \<in> set ev" by (auto simp: run_promise_def ex_job_world_def)
  have hooks: "bp_hooks (pr_base ex_job) = []" "Retry ex_job = 1" "hw_base ex_job_world = ex_base" "runs_of ex_job_world = []"
    by (simp_all add: ex_job_def ex_base_def Retry_def ex_job_world_def)
  have "\<exists>tr w'. attempt ?P 0 ex_job_world = (Leave (Returned None), tr, w') \<and> status_message ?P Success '''' True \<in> set (msgs tr)"
    using run by (simp add: attempt_def sync_attempt_def finish_attempt_def hooks goroutine_Start_def goroutine_Wait_def ex_interrupts_def Let_def)
  then obtain tr w' m where a: "attempt ?P 0 ex_job_world = (Leave (Returned None), tr, w')" "m \<in> set (msgs tr)" "jm_status m = Success"
    by (metis attempt_msgs_simps(1))
  from retry_loop_leave [OF _ a(1)] a(2,3) show ?thesis by (auto simp: runJobWrapper_def hooks)
qed

theorem reported_success_is_true_witness:
  "\<exists>tr w' c p ev. runJobWrapper (run_provider (\<lambda>r. r) (\<lambda>_. ex_answers) (\<lambda>_ _. ex_os) ex_interrupts ex_job) ex_job_world = (Returned None, tr, w') \<and>
    last (runs_of w') = (p, None, ev) \<and> p = ex_base\<lparr>bp_ctx := c\<rparr> \<and> cmd_succeeds ex_os p"
proof -
  from ex_job_runs obtain tr w' m where
    r: "runJobWrapper (run_provider (\<lambda>r. r) (\<lambda>_. ex_answers) (\<lambda>_ _. ex_os) ex_interrupts ex_job) ex_job_world = (Returned None, tr, w')"
      "m \<in> set (msgs tr)" "jm_status m = Success" by blast
  from reported_success_is_true [OF r] obtain rs c p ev where
    "runs_of w' = rs @ [(p, None, ev)]" "p = (hw_base ex_job_world)\<lparr>bp_ctx := c\<rparr>" "run_succeeds (\<lambda>r. r) (\<lambda>_. ex_os) p (pr_kind ex_job)" by blast
  with r(1) show ?thesis by (auto simp: ex_job_def ex_job_world_def)
qed

end
