(* ===== verification/Manager_Concurrent.thy ===== *)
theory Manager_Concurrent
  imports Manager_Server
begin

section \<open>Requests handled at the same time (manager/server.go, the lock \<open>rwmu\<close>)\<close>

text \<open>
  gin runs every request in a goroutine of its own.  Here a handler is a tree of atomic actions: the
  operations of \<open>s.rwmu\<close>, the calls of the database adapter, and the post to a worker, in the order
  of the source; \<open>handler_of\<close> gives the tree of every route.  The goroutines share the database and
  the \<open>sync.RWMutex\<close>: \<open>RLock\<close> waits while a writer has announced itself, \<open>Lock\<close> first announces the
  writer (one at a time) and then waits for the readers to leave.  \<open>RefreshWorker\<close>, which reads the
  worker and then stores it and which the handlers call under the read lock, is two actions; every other
  adapter operation is one, because it is a single operation of the key-value store, or (the deletions)
  works under the write lock.  \<open>registerWorker\<close> and \<open>workerIDValidator\<close> take no lock.

  The lemmas show that a handler running alone is the handler of \<open>Manager_Server\<close>, and that in every
  interleaving the lock is exclusive, the database stays well-formed and all goroutines finish.
\<close>

subsection \<open>Handlers as trees of atomic actions\<close>

datatype 's handler =
    Done writes
  | RLock "'s handler"
  | RUnlock "'s handler"
  | Lock "'s handler"
  | Unlock "'s handler"
  | Call "'s \<Rightarrow> 's" "'s \<Rightarrow> 's handler"
  | PostWorker string WorkerCmd "'s handler"

text \<open>An adapter operation that only reads, and one that may write.\<close>

definition ask :: "('s \<Rightarrow> 'a) \<Rightarrow> ('a \<Rightarrow> 's handler) \<Rightarrow> 's handler" where
  "ask f k = Call id (\<lambda>s. k (f s))"

definition call :: "('s \<Rightarrow> 'a \<times> 's) \<Rightarrow> ('a \<Rightarrow> 's handler) \<Rightarrow> 's handler" where
  "call f k = Call (\<lambda>s. snd (f s)) (\<lambda>s. k (fst (f s)))"

definition RefreshWorker_h :: "'s dbAdapter \<Rightarrow> gtime \<Rightarrow> string \<Rightarrow> 's handler \<Rightarrow> 's handler" where
  "RefreshWorker_h D now workerID p =
     ask (db_GetWorker D workerID) (\<lambda>(w, err). case err of
         Some _ \<Rightarrow> p
       | None \<Rightarrow> call (db_CreateWorker D (w\<lparr>ws_LastOnline := now\<rparr>)) (\<lambda>_. p))"

definition listAllJobs_h :: "'s dbAdapter \<Rightarrow> 's handler" where
  "listAllJobs_h D = RLock (ask (db_ListAllMirrorStatus D) (\<lambda>r. RUnlock (case r of
       (_, Some e) \<Rightarrow> Done (returnErrJSON StatusInternalServerError (''failed to list all mirror status: '' @ e))
     | (mirrorStatusList, None) \<Rightarrow> Done [(StatusOK, BWeb (map BuildWebMirrorStatus mirrorStatusList))])))"

definition flushDisabledJobs_h :: "'s dbAdapter \<Rightarrow> 's handler" where
  "flushDisabledJobs_h D = Lock (call (db_FlushDisabledJobs D) (\<lambda>err. Unlock (case err of
       Some e \<Rightarrow> Done (returnErrJSON StatusInternalServerError (''failed to flush disabled jobs: '' @ e))
     | None \<Rightarrow> Done [(StatusOK, BInfo ''flushed'')])))"

definition deleteWorker_h :: "'s dbAdapter \<Rightarrow> string \<Rightarrow> 's handler" where
  "deleteWorker_h D workerID = Lock (call (db_DeleteWorker D workerID) (\<lambda>err. Unlock (case err of
       Some e \<Rightarrow> Done (returnErrJSON StatusInternalServerError (''failed to delete worker: '' @ e))
     | None \<Rightarrow> Done [(StatusOK, BInfo ''deleted'')])))"

definition listWorkers_h :: "'s dbAdapter \<Rightarrow> 's handler" where
  "listWorkers_h D = RLock (ask (db_ListWorkers D) (\<lambda>r. RUnlock (case r of
       (_, Some e) \<Rightarrow> Done (returnErrJSON StatusInternalServerError (''failed to list workers: '' @ e))
     | (workers, None) \<Rightarrow> Done [(StatusOK, BWorkers (map redacted workers))])))"

definition registerWorker_h :: "'s dbAdapter \<Rightarrow> gtime \<Rightarrow> gtime \<Rightarrow> WorkerStatus with_err \<Rightarrow> 's handler" where
  "registerWorker_h D now now' req =
     (let w = (fst req)\<lparr>ws_LastOnline := now, ws_LastRegister := now'\<rparr> in
      call (db_CreateWorker D w) (\<lambda>r. case r of
        (_, Some e) \<Rightarrow>
          Done (bind_writes (snd req) @ returnErrJSON StatusInternalServerError (''failed to register worker: '' @ e))
      | (newWorker, None) \<Rightarrow> Done (bind_writes (snd req) @ [(StatusOK, BWorker newWorker)])))"

text \<open>The panic of the adapter (a key without a slash) leaves \<open>listJobsOfWorker\<close> before \<open>RUnlock\<close>, which is
  not deferred.\<close>

definition listJobsOfWorker_h :: "'s dbAdapter \<Rightarrow> string \<Rightarrow> 's handler" where
  "listJobsOfWorker_h D workerID = RLock (ask (db_ListMirrorStatus D workerID) (\<lambda>r. case r of
       None \<Rightarrow> Done [(StatusInternalServerError, BNone)]
     | Some (_, Some e) \<Rightarrow> RUnlock
         (Done (returnErrJSON StatusInternalServerError (''failed to list jobs of worker '' @ workerID @ '': '' @ e)))
     | Some (mirrorStatusList, None) \<Rightarrow> RUnlock (Done [(StatusOK, BJobs mirrorStatusList)])))"

fun update_schedules_h :: "'s dbAdapter \<Rightarrow> (nat \<Rightarrow> gtime) \<Rightarrow> string \<Rightarrow> nat \<Rightarrow> MirrorSchedule list \<Rightarrow> writes \<Rightarrow> 's handler" where
  "update_schedules_h D clock workerID n [] ws = Done (ws @ [(StatusOK, BEmpty)])"
| "update_schedules_h D clock workerID n (schedule # schedules) ws =
     (let mirrorName = sc_MirrorName schedule;
          ws1 = (if length mirrorName = 0
                 then ws @ returnErrJSON StatusBadRequest ''mirror Name should not be empty'' else ws)
      in RLock (RefreshWorker_h D (clock n) workerID
           (ask (db_GetMirrorStatus D workerID mirrorName) (\<lambda>r. RUnlock (case r of
              (_, Some e) \<Rightarrow> update_schedules_h D clock workerID (Suc n) schedules ws1
            | (curStatus, None) \<Rightarrow>
                (if ms_Scheduled curStatus = sc_NextSchedule schedule
                 then update_schedules_h D clock workerID (Suc n) schedules ws1
                 else Lock (call (db_UpdateMirrorStatus D workerID mirrorName
                                   (curStatus\<lparr>ms_Scheduled := sc_NextSchedule schedule\<rparr>)) (\<lambda>u. Unlock (case u of
                        (_, Some e) \<Rightarrow>
                          Done (ws1 @ returnErrJSON StatusInternalServerError (update_job_error mirrorName workerID e))
                      | (_, None) \<Rightarrow> update_schedules_h D clock workerID (Suc n) schedules ws1)))))))))"

definition updateJobOfWorker_h ::
  "'s dbAdapter \<Rightarrow> gtime \<Rightarrow> gtime \<Rightarrow> string \<Rightarrow> MirrorStatus with_err \<Rightarrow> 's handler" where
  "updateJobOfWorker_h D now curTime workerID req =
     (let status = fst req;
          mirrorName = ms_Name status;
          ws = bind_writes (snd req) @
               (if length mirrorName = 0
                then returnErrJSON StatusBadRequest ''mirror Name should not be empty'' else [])
      in RLock (RefreshWorker_h D now workerID
           (ask (db_GetMirrorStatus D workerID mirrorName) (\<lambda>(curStatus, _). RUnlock
             (Lock (call (db_UpdateMirrorStatus D workerID mirrorName (merge_status curTime curStatus status))
               (\<lambda>u. Unlock (case u of
                  (_, Some e) \<Rightarrow>
                    Done (ws @ returnErrJSON StatusInternalServerError (update_job_error mirrorName workerID e))
                | (newStatus, None) \<Rightarrow> Done (ws @ [(StatusOK, BJob newStatus)]))))))))) "

definition updateMirrorSize_h :: "'s dbAdapter \<Rightarrow> gtime \<Rightarrow> string \<Rightarrow> SizeMsg with_err \<Rightarrow> 's handler" where
  "updateMirrorSize_h D now workerID req =
     (let msg = fst req; mirrorName = sm_Name msg; ws = bind_writes (snd req)
      in RLock (RefreshWorker_h D now workerID
           (ask (db_GetMirrorStatus D workerID mirrorName) (\<lambda>r. RUnlock (case r of
              (_, Some e) \<Rightarrow> Done (ws @ returnErrJSON StatusInternalServerError e)
            | (status, None) \<Rightarrow>
                (let status1 = (if length (sm_Size msg) > 0 \<or> sm_Size msg \<noteq> ''unknown''
                                then status\<lparr>ms_Size := sm_Size msg\<rparr> else status)
                 in Lock (call (db_UpdateMirrorStatus D workerID mirrorName status1) (\<lambda>u. Unlock (case u of
                      (_, Some e) \<Rightarrow>
                        Done (ws @ returnErrJSON StatusInternalServerError (update_job_error mirrorName workerID e))
                    | (newStatus, None) \<Rightarrow> Done (ws @ [(StatusOK, BJob newStatus)])))))))))) "

text \<open>The answer of the worker to the posted command is \<open>post\<close>, as in \<open>handleClientCmd\<close>.\<close>

definition handleClientCmd_h ::
  "'s dbAdapter \<Rightarrow> (string \<Rightarrow> WorkerCmd \<Rightarrow> goerror option) \<Rightarrow> ClientCmd with_err \<Rightarrow> 's handler" where
  "handleClientCmd_h D post req =
     (let clientCmd = fst req; workerID = cc_WorkerID clientCmd; mirrorID = cc_MirrorID clientCmd;
          ws = bind_writes (snd req) in
      if workerID = '''' then Done (ws @ [(StatusInternalServerError, BNone)])
      else RLock (ask (db_GetWorker D workerID) (\<lambda>(w, err). RUnlock (case err of
        Some _ \<Rightarrow> Done (ws @ returnErrJSON StatusBadRequest (''worker '' @ workerID @ '' is not registered yet''))
      | None \<Rightarrow>
          (let workerURL = ws_URL w;
               workerCmd = worker_cmd clientCmd;
               send = PostWorker workerURL workerCmd (case post workerURL workerCmd of
                  Some e \<Rightarrow> Done (ws @ returnErrJSON StatusInternalServerError
                      (''post command to worker '' @ workerID @ ''('' @ workerURL @ '') fail: '' @ e))
                | None \<Rightarrow> Done (ws @ [(StatusOK, BInfo (''successfully send command to worker '' @ workerID))]))
           in RLock (ask (db_GetMirrorStatus D workerID mirrorID) (\<lambda>(curStat, _). RUnlock
                (case cmd_status (cc_Cmd clientCmd) of
                   None \<Rightarrow> send
                 | Some st \<Rightarrow> Lock (call (db_UpdateMirrorStatus D workerID mirrorID (curStat\<lparr>ms_Status := st\<rparr>))
                                 (\<lambda>_. Unlock send))))))))))"

definition validated_h :: "'s dbAdapter \<Rightarrow> string \<Rightarrow> 's handler \<Rightarrow> 's handler" where
  "validated_h D workerID h =
     ask (db_GetWorker D workerID) (\<lambda>(_, err). case err of
         Some _ \<Rightarrow> Done (returnErrJSON StatusBadRequest (''invalid workerID '' @ workerID))
       | None \<Rightarrow> h)"

fun handler_of :: "'s dbAdapter \<Rightarrow> (nat \<Rightarrow> gtime) \<Rightarrow> (string \<Rightarrow> WorkerCmd \<Rightarrow> goerror option) \<Rightarrow> request \<Rightarrow> 's handler" where
  "handler_of D clock post GetPing = Done [(StatusOK, BInfo ''pong'')]"
| "handler_of D clock post GetJobs = listAllJobs_h D"
| "handler_of D clock post DeleteDisabledJobs = flushDisabledJobs_h D"
| "handler_of D clock post GetWorkers = listWorkers_h D"
| "handler_of D clock post (PostWorkers req) = registerWorker_h D (clock 0) (clock 1) req"
| "handler_of D clock post (DeleteWorkerReq i) = validated_h D i (deleteWorker_h D i)"
| "handler_of D clock post (GetWorkerJobs i) = validated_h D i (listJobsOfWorker_h D i)"
| "handler_of D clock post (PostJob i job req) = validated_h D i (updateJobOfWorker_h D (clock 0) (clock 1) i req)"
| "handler_of D clock post (PostJobSize i job req) = validated_h D i (updateMirrorSize_h D (clock 0) i req)"
| "handler_of D clock post (PostSchedules i req) =
     validated_h D i (update_schedules_h D clock i 0 (fst req) (bind_writes (snd req)))"
| "handler_of D clock post (PostCmd req) = handleClientCmd_h D post req"

subsection \<open>Goroutines sharing the database and the lock\<close>

text \<open>What a goroutine holds of the lock; \<open>Announced\<close> is a writer that has announced itself.\<close>

datatype mode = Free | Reading | Announced | Writing

record 's shared =
  sh_db :: 's
  sh_readers :: nat
  sh_writer :: bool

type_synonym 's goroutine = "mode \<times> 's handler \<times> (string \<times> WorkerCmd) list"

inductive tstep :: "'s shared \<Rightarrow> 's goroutine \<Rightarrow> 's shared \<Rightarrow> 's goroutine \<Rightarrow> bool" where
  rlock: "\<not> sh_writer h \<Longrightarrow>
    tstep h (Free, RLock p, ps) (h\<lparr>sh_readers := Suc (sh_readers h)\<rparr>) (Reading, p, ps)"
| runlock: "tstep h (Reading, RUnlock p, ps) (h\<lparr>sh_readers := sh_readers h - 1\<rparr>) (Free, p, ps)"
| announce: "\<not> sh_writer h \<Longrightarrow> tstep h (Free, Lock p, ps) (h\<lparr>sh_writer := True\<rparr>) (Announced, p, ps)"
| acquire: "sh_readers h = 0 \<Longrightarrow> tstep h (Announced, p, ps) h (Writing, p, ps)"
| unlock: "tstep h (Writing, Unlock p, ps) (h\<lparr>sh_writer := False\<rparr>) (Free, p, ps)"
| adapter: "m \<noteq> Announced \<Longrightarrow>
    tstep h (m, Call f k, ps) (h\<lparr>sh_db := f (sh_db h)\<rparr>) (m, k (sh_db h), ps)"
| post: "tstep h (Free, PostWorker u c p, ps) h (Free, p, ps @ [(u, c)])"

inductive_cases tstep_DoneE: "tstep h (Free, Done ws, ps) h' t'"
inductive_cases tstep_RLockE: "tstep h (Free, RLock p, ps) h' t'"
inductive_cases tstep_RUnlockE: "tstep h (Reading, RUnlock p, ps) h' t'"
inductive_cases tstep_LockE: "tstep h (Free, Lock p, ps) h' t'"
inductive_cases tstep_UnlockE: "tstep h (Writing, Unlock p, ps) h' t'"
inductive_cases tstep_CallE: "tstep h (m, Call f k, ps) h' t'"
inductive_cases tstep_PostE: "tstep h (Free, PostWorker u c p, ps) h' t'"

inductive sys_step :: "'s shared \<times> 's goroutine list \<Rightarrow> 's shared \<times> 's goroutine list \<Rightarrow> bool" where
  goroutine: "j < length ts \<Longrightarrow> tstep h (ts ! j) h' t' \<Longrightarrow> sys_step (h, ts) (h', ts[j := t'])"

inductive_cases sys_stepE [elim?]: "sys_step (h, ts) S'"

text \<open>Requests that have just arrived at an idle manager, and goroutines that have answered.\<close>

type_synonym arrival = "(nat \<Rightarrow> gtime) \<times> (string \<Rightarrow> WorkerCmd \<Rightarrow> goerror option) \<times> request"

definition start :: "'s dbAdapter \<Rightarrow> 's \<Rightarrow> arrival list \<Rightarrow> 's shared \<times> 's goroutine list" where
  "start D s rs =
     (\<lparr>sh_db = s, sh_readers = 0, sh_writer = False\<rparr>,
      map (\<lambda>(clock, post, r). (Free, handler_of D clock post r, [])) rs)"

fun answer :: "'s goroutine \<Rightarrow> outcome option" where
  "answer (m, Done ws, ps) = Some (ws, ps)"
| "answer _ = None"

subsection \<open>A goroutine that runs alone\<close>

primrec run :: "'s handler \<Rightarrow> 's \<Rightarrow> outcome \<times> 's" where
  "run (Done ws) = (\<lambda>s. ((ws, []), s))"
| "run (RLock p) = run p"
| "run (RUnlock p) = run p"
| "run (Lock p) = run p"
| "run (Unlock p) = run p"
| "run (Call f k) = (\<lambda>s. run (k s) (f s))"
| "run (PostWorker u c p) = (\<lambda>s. case run p s of ((ws, ps), s') \<Rightarrow> ((ws, (u, c) # ps), s'))"

lemma run_ask [simp]: "run (ask f k) s = run (k (f s)) s"
  by (simp add: ask_def)

lemma run_call [simp]: "run (call f k) s = run (k (fst (f s))) (snd (f s))"
  by (simp add: call_def)

text \<open>What the handlers need of the adapter beyond its contract: how \<open>RefreshWorker\<close> is composed, and that
  the keys of stored workers are keys the store takes.\<close>

locale refreshing_db = db_adapter +
  assumes refresh_steps: "db_RefreshWorker D now i s = (case db_GetWorker D i s of
      (w, Some e) \<Rightarrow> ((w, Some e), s) | (w, None) \<Rightarrow> db_CreateWorker D (w\<lparr>ws_LastOnline := now\<rparr>) s)"
    and worker_key: "up s \<Longrightarrow> workers s i = Some w \<Longrightarrow> key_ok i"
begin

lemma run_RefreshWorker: "run (RefreshWorker_h D now i p) s = run p (snd (db_RefreshWorker D now i s))"
  by (simp add: RefreshWorker_h_def refresh_steps split: prod.split option.split)

lemma run_schedules: "run (update_schedules_h D clock i n scs ws) s =
    (case update_schedules_loop D clock i n scs ws s of (ws', s') \<Rightarrow> ((ws', []), s'))"
proof (induction scs arbitrary: n ws s)
  case (Cons sc scs)
  let ?s1 = "snd (db_RefreshWorker D (clock n) i s)"
  obtain cur e where g: "db_GetMirrorStatus D i (sc_MirrorName sc) ?s1 = (cur, e)" by fastforce
  obtain m u s2 where u: "db_UpdateMirrorStatus D i (sc_MirrorName sc) (cur\<lparr>ms_Scheduled := sc_NextSchedule sc\<rparr>) ?s1 =
      ((m, u), s2)" by (metis prod.exhaust)
  show ?case
    by (cases e; cases u; cases "ms_Scheduled cur = sc_NextSchedule sc")
      (simp_all only: update_schedules_h.simps update_schedules_loop.simps run.simps run_ask run_call
        run_RefreshWorker Let_def g u Cons.IH prod.case option.case fst_conv snd_conv if_True if_False simp_thms)
qed simp

lemma run_validated:
  "(\<And>s. run h s = (case h' s of (ws, s') \<Rightarrow> ((ws, []), s'))) \<Longrightarrow> run (validated_h D i h) s = validated D i h' s"
  by (simp add: validated_h_def validated_def workerIDValidator_def split: prod.split option.split)

lemma run_updateJob: "run (updateJobOfWorker_h D now cur i req) s =
    (case updateJobOfWorker D now cur i req s of (ws, s') \<Rightarrow> ((ws, []), s'))"
  by (simp add: updateJobOfWorker_h_def updateJobOfWorker_def Let_def run_RefreshWorker split: prod.split option.split)

lemma run_updateMirrorSize: "run (updateMirrorSize_h D now i req) s =
    (case updateMirrorSize D now i req s of (ws, s') \<Rightarrow> ((ws, []), s'))"
  by (simp add: updateMirrorSize_h_def updateMirrorSize_def Let_def run_RefreshWorker split: prod.split option.split)

lemma run_deleteWorker: "run (deleteWorker_h D i) s = (case deleteWorker D i s of (ws, s') \<Rightarrow> ((ws, []), s'))"
  by (simp add: deleteWorker_h_def deleteWorker_def split: prod.split option.split)

lemma run_listJobs: "run (listJobsOfWorker_h D i) s = ((listJobsOfWorker D i s, []), s)"
  by (simp add: listJobsOfWorker_h_def listJobsOfWorker_def split: prod.split option.split)

lemma run_handleClientCmd: "run (handleClientCmd_h D post req) s = handleClientCmd D post req s"
  by (simp add: handleClientCmd_h_def handleClientCmd_def Let_def split: prod.split option.split)

lemma run_handler: "run (handler_of D clock post r) s = serve D clock post r s"
proof (cases r)
  case (PostSchedules i req)
  then show ?thesis by (simp add: run_validated [OF run_schedules] updateSchedulesOfWorker_def [abs_def])
next
  case (GetWorkerJobs i)
  then show ?thesis
    by (simp add: run_validated [where h = "listJobsOfWorker_h D i" and h' = "\<lambda>s. (listJobsOfWorker D i s, s)"] run_listJobs)
qed (simp_all add: run_validated [OF run_updateJob] run_validated [OF run_updateMirrorSize] run_validated [OF run_deleteWorker]
      run_handleClientCmd listAllJobs_h_def listAllJobs_def flushDisabledJobs_h_def flushDisabledJobs_def
      listWorkers_h_def listWorkers_def registerWorker_h_def registerWorker_def Let_def split: prod.split option.split)

end

interpretation kvrf: refreshing_db "kvDBAdapter K wrap" "\<lambda>s. workers_of (c s)" "\<lambda>s. statuses_of (c s)" "db_up K wrap c up"
  for K wrap c up
proof
  show "db_RefreshWorker (kvDBAdapter K wrap) now i s = (case db_GetWorker (kvDBAdapter K wrap) i s of
      (w, Some e) \<Rightarrow> ((w, Some e), s)
    | (w, None) \<Rightarrow> db_CreateWorker (kvDBAdapter K wrap) (w\<lparr>ws_LastOnline := now\<rparr>) s)" for now i s
    by (simp add: kvdb_RefreshWorker_def split: prod.split option.split)
  show "key_ok i" if "db_up K wrap c up s" "workers_of (c s) i = Some w" for s i w
    using that by (auto simp: db_up_def db_wf_def workers_of_def bind_eq_Some_conv)
qed

subsection \<open>The lock discipline\<close>

text \<open>A handler that takes and releases the lock in pairs, starting with mode \<open>m\<close>, whose calls keep \<open>P\<close> and
  change what \<open>st\<close> reads of the database only under the write lock.\<close>

primrec disciplined :: "('s \<Rightarrow> bool) \<Rightarrow> ('s \<Rightarrow> 'b) \<Rightarrow> 's handler \<Rightarrow> mode \<Rightarrow> bool" where
  "disciplined P st (Done ws) = (\<lambda>m. m = Free)"
| "disciplined P st (RLock p) = (\<lambda>m. m = Free \<and> disciplined P st p Reading)"
| "disciplined P st (RUnlock p) = (\<lambda>m. m = Reading \<and> disciplined P st p Free)"
| "disciplined P st (Lock p) = (\<lambda>m. m = Free \<and> disciplined P st p Writing)"
| "disciplined P st (Unlock p) = (\<lambda>m. m = Writing \<and> disciplined P st p Free)"
| "disciplined P st (Call f k) = (\<lambda>m. m \<noteq> Announced \<and>
     (\<forall>s. P s \<longrightarrow> P (f s) \<and> (m \<noteq> Writing \<longrightarrow> st (f s) = st s) \<and> disciplined P st (k s) m))"
| "disciplined P st (PostWorker u c p) = (\<lambda>m. m = Free \<and> disciplined P st p Free)"

definition held :: "mode \<Rightarrow> mode" where
  "held m = (if m = Announced then Writing else m)"

lemma held_simps [simp]: "held Free = Free" "held Reading = Reading" "held Announced = Writing" "held Writing = Writing"
  "held m = Free \<longleftrightarrow> m = Free" "held m = Reading \<longleftrightarrow> m = Reading" "held m \<noteq> Announced"
  by (simp_all add: held_def)

lemma disciplined_ask [simp]:
  "disciplined P st (ask f k) m \<longleftrightarrow> m \<noteq> Announced \<and> (\<forall>s. P s \<longrightarrow> disciplined P st (k (f s)) m)"
  by (simp add: ask_def)

lemma disciplined_call [simp]:
  "disciplined P st (call f k) m \<longleftrightarrow> m \<noteq> Announced \<and> (\<forall>s. P s \<longrightarrow> P (snd (f s)) \<and>
     (m \<noteq> Writing \<longrightarrow> st (snd (f s)) = st s) \<and> disciplined P st (k (fst (f s))) m)"
  by (simp add: call_def)

context refreshing_db
begin

lemma create_again:
  assumes "up s" and "workers s i = Some w" and "time_ok now" and "up s'"
  shows "\<exists>s''. db_CreateWorker D (w\<lparr>ws_LastOnline := now\<rparr>) s' = ((w\<lparr>ws_LastOnline := now\<rparr>, None), s'') \<and> up s'' \<and>
    workers s'' = (workers s')(i \<mapsto> w\<lparr>ws_LastOnline := now\<rparr>) \<and> statuses s'' = statuses s'"
  using create_worker [OF assms(4), of "w\<lparr>ws_LastOnline := now\<rparr>"] worker_id [OF assms(1,2)] worker_key [OF assms(1,2)] assms(3)
  by (auto simp: WorkerStatus_ok_def)

lemma disciplined_RefreshWorker:
  assumes "time_ok now" and "m \<noteq> Announced" and "disciplined up statuses p m"
  shows "disciplined up statuses (RefreshWorker_h D now i p) m"
proof -
  have "up (snd (db_CreateWorker D (w\<lparr>ws_LastOnline := now\<rparr>) s')) \<and>
      statuses (snd (db_CreateWorker D (w\<lparr>ws_LastOnline := now\<rparr>) s')) = statuses s'"
    if "up s" "workers s i = Some w" "up s'" for s w s'
    using create_again [OF that(1,2) assms(1) that(3)] by auto
  with assms(2,3) show ?thesis by (auto simp: RefreshWorker_h_def get_worker split: option.split)
qed

lemma disciplined_update:
  assumes "key_ok (status_key n i)" and "\<And>r. disciplined up statuses (k r) Writing"
  shows "disciplined up statuses (call (db_UpdateMirrorStatus D i n m) k) Writing"
proof -
  have "up (snd (db_UpdateMirrorStatus D i n m s))" if "up s" for s
    using update_status [OF that assms(1), of m] update_bad_status [of m i n s] that by (cases "MirrorStatus_ok m") auto
  with assms(2) show ?thesis by simp
qed

lemma stored_key_ok: "up s \<Longrightarrow> db_GetMirrorStatus D i n s = (m, None) \<Longrightarrow> key_ok (status_key n i)"
  by (auto simp: get_status dest: status_wf split: option.splits)

lemma disciplined_validated:
  "disciplined up statuses h Free \<Longrightarrow> disciplined up statuses (validated_h D i h) Free"
  by (auto simp: validated_h_def split: prod.split option.split)

lemma disciplined_updateJob:
  assumes "time_ok now" and "key_ok (status_key (ms_Name (fst req)) i)"
  shows "disciplined up statuses (updateJobOfWorker_h D now cur i req) Free"
  unfolding updateJobOfWorker_h_def Let_def using assms
  by (auto intro!: disciplined_RefreshWorker disciplined_update split: prod.split option.split simp del: disciplined_call)

lemma disciplined_updateMirrorSize:
  "time_ok now \<Longrightarrow> disciplined up statuses (updateMirrorSize_h D now i req) Free"
  unfolding updateMirrorSize_h_def Let_def
  by (auto intro!: disciplined_RefreshWorker disciplined_update dest: stored_key_ok
      split: prod.split option.split simp del: disciplined_call)

lemma disciplined_schedules:
  assumes "\<forall>n. time_ok (clock n)"
  shows "disciplined up statuses (update_schedules_h D clock i n scs ws) Free"
proof (induction scs arbitrary: n ws)
  case (Cons sc scs)
  then show ?case
    by (auto intro!: disciplined_RefreshWorker disciplined_update dest: stored_key_ok simp: assms Let_def
        split: prod.split option.split simp del: disciplined_call)
qed simp

lemma disciplined_handleClientCmd:
  "key_ok (status_key (cc_MirrorID (fst req)) (cc_WorkerID (fst req))) \<Longrightarrow>
   disciplined up statuses (handleClientCmd_h D post req) Free"
  unfolding handleClientCmd_h_def Let_def
  by (auto intro!: disciplined_update split: prod.split option.split simp del: disciplined_call)

lemma disciplined_registerWorker:
  assumes "time_ok now" and "time_ok now'" and "key_ok (ws_ID (fst req))"
  shows "disciplined up statuses (registerWorker_h D now now' req) Free"
proof -
  let ?w = "(fst req)\<lparr>ws_LastOnline := now, ws_LastRegister := now'\<rparr>"
  have "WorkerStatus_ok ?w" "key_ok (ws_ID ?w)" using assms by (simp_all add: WorkerStatus_ok_def)
  then have "up (snd (db_CreateWorker D ?w s)) \<and> statuses (snd (db_CreateWorker D ?w s)) = statuses s" if "up s" for s
    using create_worker [OF that, of ?w] by auto
  then show ?thesis by (auto simp: registerWorker_h_def Let_def split: prod.split option.split)
qed

lemma disciplined_handler:
  assumes t: "\<forall>n. time_ok (clock n)" and r: "request_ok r"
  shows "disciplined up statuses (handler_of D clock post r) Free"
proof (cases r)
  case (PostWorkers req)
  with t r show ?thesis by (simp add: disciplined_registerWorker)
next
  case (DeleteWorkerReq i)
  have "up (snd (db_DeleteWorker D i s))" if "up s" for s
    using delete_worker [OF that, of i] delete_no_worker [OF that, of i] that by (cases "workers s i") auto
  then show ?thesis
    unfolding DeleteWorkerReq handler_of.simps by (intro disciplined_validated) (auto simp: deleteWorker_h_def split: option.split)
next
  case (GetWorkerJobs i)
  have "\<exists>ms. db_ListMirrorStatus D i s = Some (ms, None)" if "up s" for s using list_status [OF that, of i] by auto
  then show ?thesis
    unfolding GetWorkerJobs handler_of.simps
    by (intro disciplined_validated) (fastforce simp: listJobsOfWorker_h_def split: option.split)
next
  case DeleteDisabledJobs
  have "up (snd (db_FlushDisabledJobs D s))" if "up s" for s using flush [OF that] by auto
  then show ?thesis by (auto simp: DeleteDisabledJobs flushDisabledJobs_h_def split: option.split)
qed (use t r in \<open>auto intro!: disciplined_validated disciplined_updateJob disciplined_updateMirrorSize disciplined_schedules
      disciplined_handleClientCmd simp: listAllJobs_h_def listWorkers_h_def split: prod.split option.split\<close>)

end

subsection \<open>Every interleaving\<close>

definition readers_in :: "'s goroutine list \<Rightarrow> nat" where
  "readers_in ts = length (filter (\<lambda>t. fst t = Reading) ts)"

definition writers_in :: "'s goroutine list \<Rightarrow> nat" where
  "writers_in ts = length (filter (\<lambda>t. held (fst t) = Writing) ts)"

lemma count_update:
  "j < length xs \<Longrightarrow> length (filter Q (xs[j := x])) + of_bool (Q (xs ! j)) = length (filter Q xs) + of_bool (Q x)"
proof (induction xs arbitrary: j)
  case (Cons a xs)
  show ?case
  proof (cases j)
    case (Suc k)
    with Cons.IH [of k] Cons.prems show ?thesis by simp
  qed simp
qed simp

text \<open>The lock counts its holders, a writer excludes everybody else, the database satisfies \<open>P\<close> and what is
  left of every handler is disciplined.\<close>

definition sys_ok :: "('s \<Rightarrow> bool) \<Rightarrow> ('s \<Rightarrow> 'b) \<Rightarrow> 's shared \<times> 's goroutine list \<Rightarrow> bool" where
  "sys_ok P st S = (case S of (h, ts) \<Rightarrow>
     P (sh_db h) \<and> sh_readers h = readers_in ts \<and> writers_in ts = of_bool (sh_writer h) \<and>
     (\<forall>t\<in>set ts. (fst t = Writing \<longrightarrow> sh_readers h = 0) \<and> disciplined P st (fst (snd t)) (held (fst t))))"

lemma sys_ok_goroutine:
  "sys_ok P st (h, ts) \<Longrightarrow> j < length ts \<Longrightarrow> ts ! j = (m, p, ps) \<Longrightarrow>
   disciplined P st p (held m) \<and> (m = Reading \<longrightarrow> 0 < sh_readers h) \<and> (m = Writing \<longrightarrow> sh_readers h = 0) \<and>
   (held m = Writing \<longrightarrow> sh_writer h)"
proof -
  assume S: "sys_ok P st (h, ts)" and "j < length ts" and "ts ! j = (m, p, ps)"
  then have t: "(m, p, ps) \<in> set ts" by (metis nth_mem)
  then have "readers_in ts \<noteq> 0" if "m = Reading" using that by (force simp: readers_in_def filter_empty_conv)
  moreover have "writers_in ts \<noteq> 0" if "held m = Writing" using that t by (force simp: writers_in_def filter_empty_conv)
  ultimately show ?thesis using S t by (fastforce simp: sys_ok_def)
qed

text \<open>One goroutine steps: the counters and the rest of the goroutines.\<close>

lemma sys_ok_update:
  assumes S: "sys_ok P st (h, ts)" and j: "j < length ts"
    and d: "P (sh_db h')" "disciplined P st (fst (snd t')) (held (fst t'))"
    and r: "sh_readers h' + of_bool (fst (ts ! j) = Reading) = sh_readers h + of_bool (fst t' = Reading)"
    and w: "of_bool (sh_writer h') + of_bool (held (fst (ts ! j)) = Writing) = (of_bool (sh_writer h) + of_bool (held (fst t') = Writing) :: nat)"
    and x: "fst t' = Writing \<Longrightarrow> sh_readers h' = 0" "\<And>t. t \<in> set ts \<Longrightarrow> fst t = Writing \<Longrightarrow> sh_readers h' = 0"
  shows "sys_ok P st (h', ts[j := t'])"
proof -
  have "sh_readers h' = readers_in (ts[j := t'])"
    using count_update [OF j, of "\<lambda>t. fst t = Reading" t'] r S by (simp add: sys_ok_def readers_in_def)
  moreover have "writers_in (ts[j := t']) = of_bool (sh_writer h')"
    using count_update [OF j, of "\<lambda>t. held (fst t) = Writing" t'] w S by (simp add: sys_ok_def writers_in_def)
  moreover have "(fst t = Writing \<longrightarrow> sh_readers h' = 0) \<and> disciplined P st (fst (snd t)) (held (fst t))"
    if "t \<in> set (ts[j := t'])" for t
  proof -
    from that consider "t = t'" | "t \<in> set ts" using set_update_subset_insert [of ts j t'] by blast
    then show ?thesis using S d x by cases (auto simp: sys_ok_def)
  qed
  ultimately show ?thesis using d by (simp add: sys_ok_def)
qed

lemma sys_ok_tstep:
  assumes S: "sys_ok P st (h, ts)" and j: "j < length ts" and step: "tstep h (ts ! j) h' t'"
  shows "sys_ok P st (h', ts[j := t'])"
proof -
  obtain m p ps where t: "ts ! j = (m, p, ps)" by (metis prod.exhaust)
  note g = sys_ok_goroutine [OF S j t]
  have x: "sh_readers h = 0" if "t \<in> set ts" "fst t = Writing" for t using that S by (auto simp: sys_ok_def)
  have nw: "held (fst t) \<noteq> Writing" if "t \<in> set ts" "\<not> sh_writer h" for t
    using that S by (auto simp: sys_ok_def writers_in_def filter_empty_conv)
  have P: "P (sh_db h)" using S by (simp add: sys_ok_def)
  from step [unfolded t] show ?thesis
  proof cases
    case (rlock q)
    show ?thesis
      by (rule sys_ok_update [OF S j]) (use rlock t g P in \<open>auto dest: nw\<close>)
  next
    case (adapter f k)
    show ?thesis
      by (rule sys_ok_update [OF S j]) (use adapter t g P x in \<open>auto simp: held_def\<close>)
  qed (rule sys_ok_update [OF S j]; use t g P x in \<open>auto simp: held_def\<close>)+
qed

lemma sys_ok_step: "sys_step S S' \<Longrightarrow> sys_ok P st S \<Longrightarrow> sys_ok P st S'"
  by (induction rule: sys_step.induct) (rule sys_ok_tstep)

lemma sys_ok_steps: "sys_step\<^sup>*\<^sup>* S S' \<Longrightarrow> sys_ok P st S \<Longrightarrow> sys_ok P st S'"
  by (induction rule: rtranclp_induct) (auto intro: sys_ok_step)

text \<open>What the lock guarantees of the data: while a goroutine is in a read section the data does not
  change, and two goroutines are never in their write sections at once.\<close>

lemma sys_ok_exclusive:
  assumes "sys_ok P st (h, ts)" and "i < length ts" and "j < length ts" and "i \<noteq> j" and "fst (ts ! i) = Writing"
  shows "fst (ts ! j) \<noteq> Reading \<and> fst (ts ! j) \<noteq> Writing"
proof -
  from assms have "readers_in ts = 0" by (auto simp: sys_ok_def)
  then have "fst (ts ! j) \<noteq> Reading" using assms(3) by (simp add: readers_in_def filter_empty_conv)
  moreover have "fst (ts ! j) \<noteq> Writing"
  proof
    assume "fst (ts ! j) = Writing"
    have "{i, j} \<subseteq> {k. k < length ts \<and> held (fst (ts ! k)) = Writing}"
      using assms \<open>fst (ts ! j) = Writing\<close> by simp
    then have "card {i, j} \<le> writers_in ts"
      unfolding writers_in_def length_filter_conv_card by (intro card_mono) simp_all
    with assms(1,4) show False by (cases "sh_writer h") (simp_all add: sys_ok_def)
  qed
  ultimately show ?thesis by simp
qed

lemma sys_ok_read_stable:
  assumes S: "sys_ok P st (h, ts)" and step: "sys_step (h, ts) (h', ts')" and r: "t \<in> set ts" "fst t = Reading"
  shows "st (sh_db h') = st (sh_db h)"
  using step
proof cases
  case (goroutine j t')
  note 1 = goroutine
  obtain m p ps where t: "ts ! j = (m, p, ps)" by (metis prod.exhaust)
  have nw: "m \<noteq> Writing"
  proof
    assume "m = Writing"
    then have "readers_in ts = 0" using sys_ok_goroutine [OF S 1(2) t] S by (simp add: sys_ok_def)
    with r show False by (auto simp: readers_in_def filter_empty_conv)
  qed
  have P: "P (sh_db h)" using S by (simp add: sys_ok_def)
  from 1(3) [unfolded t] show ?thesis
    by cases (use sys_ok_goroutine [OF S 1(2) t] nw P 1 in \<open>auto simp: held_def split: if_splits\<close>)
qed

subsection \<open>No deadlock, and every schedule ends\<close>

lemma tstep_enabled:
  assumes "disciplined P st p (held m)" and "m = Free \<longrightarrow> \<not> sh_writer h" and "m = Announced \<longrightarrow> sh_readers h = 0"
    and "answer (m, p, ps) = None"
  shows "\<exists>h' t'. tstep h (m, p, ps) h' t'"
proof (cases "m = Announced")
  case True
  with assms(3) show ?thesis by (blast intro: tstep.acquire)
next
  case False
  then have "disciplined P st p m" using assms(1) by (simp add: held_def)
  with False assms(2,4) show ?thesis by (cases p) (auto simp del: split_paired_Ex intro: tstep.intros)
qed

lemma sys_ok_progress:
  assumes S: "sys_ok P st (h, ts)" and t: "t \<in> set ts" "answer t = None"
  shows "\<exists>S'. sys_step (h, ts) S'"
proof -
  have ex: "\<exists>S'. sys_step (h, ts) S'"
    if "t \<in> set ts" "answer t = None" "fst t = Free \<longrightarrow> \<not> sh_writer h" "fst t = Announced \<longrightarrow> sh_readers h = 0" for t
  proof -
    obtain m p ps where tt: "t = (m, p, ps)" by (metis prod.exhaust)
    from that(1) obtain j where j: "j < length ts" "ts ! j = t" by (auto simp: in_set_conv_nth)
    from sys_ok_goroutine [OF S j(1)] j(2) tt have "disciplined P st p (held m)" by blast
    from tstep_enabled [OF this, of h ps] that tt j show ?thesis by (fastforce intro: goroutine)
  qed
  have unanswered: "answer t = None" if "t \<in> set ts" "fst t \<noteq> Free" for t
    using S that by (cases t rule: answer.cases) (auto simp: sys_ok_def)
  show ?thesis
  proof (cases "sh_writer h")
    case False
    then have "held (fst t) \<noteq> Writing" using S t by (auto simp: sys_ok_def writers_in_def filter_empty_conv)
    then show ?thesis using ex [OF t] False by (auto simp: held_def split: if_splits)
  next
    case True
    then obtain u where u: "u \<in> set ts" "held (fst u) = Writing"
      using S by (fastforce simp: sys_ok_def writers_in_def filter_eq_Cons_iff length_Suc_conv)
    show ?thesis
    proof (cases "sh_readers h = 0")
      case True
      with u ex [OF u(1)] unanswered [OF u(1)] show ?thesis by (auto simp: held_def split: if_splits)
    next
      case False
      then obtain v where "v \<in> set ts" "fst v = Reading"
        using S by (auto simp: sys_ok_def readers_in_def filter_empty_conv)
      with ex [of v] unanswered [of v] show ?thesis by simp
    qed
  qed
qed

text \<open>A handler that is over after at most \<open>n\<close> steps, whatever the calls return; \<open>Lock\<close> takes two.\<close>

primrec within :: "'s handler \<Rightarrow> nat \<Rightarrow> bool" where
  "within (Done ws) = (\<lambda>n. True)"
| "within (RLock p) = (\<lambda>n. 0 < n \<and> within p (n - 1))"
| "within (RUnlock p) = (\<lambda>n. 0 < n \<and> within p (n - 1))"
| "within (Lock p) = (\<lambda>n. 1 < n \<and> within p (n - 2))"
| "within (Unlock p) = (\<lambda>n. 0 < n \<and> within p (n - 1))"
| "within (Call f k) = (\<lambda>n. 0 < n \<and> (\<forall>s. within (k s) (n - 1)))"
| "within (PostWorker u c p) = (\<lambda>n. 0 < n \<and> within p (n - 1))"

lemma within_ask [simp]: "within (ask f k) n \<longleftrightarrow> 0 < n \<and> (\<forall>s. within (k (f s)) (n - 1))"
  by (simp add: ask_def)

lemma within_call [simp]: "within (call f k) n \<longleftrightarrow> 0 < n \<and> (\<forall>s. within (k (fst (f s))) (n - 1))"
  by (simp add: call_def)

lemma within_mono: "within p n \<Longrightarrow> n \<le> n' \<Longrightarrow> within p n'"
proof (induction p arbitrary: n n')
  case (Lock p)
  from Lock.IH [of "n - 2" "n' - 2"] Lock.prems show ?case by simp
next
  case (Call f k)
  from Call.IH [OF rangeI, of _ "n - 1" "n' - 1"] Call.prems show ?case by auto
qed (use diff_le_mono in \<open>fastforce+\<close>)

lemma within_RefreshWorker: "within p n \<Longrightarrow> within (RefreshWorker_h D now i p) (n + 2)"
  by (auto simp: RefreshWorker_h_def split: prod.split option.split elim: within_mono)

text \<open>The most steps a request takes.\<close>

fun request_steps :: "request \<Rightarrow> nat" where
  "request_steps (PostSchedules i req) = 1 + 9 * length (fst req)"
| "request_steps (PostCmd req) = 11"
| "request_steps _ = 10"

lemma within_schedules: "within (update_schedules_h D clock i n scs ws) (9 * length scs)"
proof (induction scs arbitrary: n ws)
  case (Cons sc scs)
  have IH: "9 * length scs \<le> l \<Longrightarrow> within (update_schedules_h D clock i n scs ws) l" for n ws l
    by (rule within_mono [OF Cons.IH])
  have l: "9 * length (sc # scs) - 1 = 9 * length scs + 6 + 2" by simp
  show ?case unfolding update_schedules_h.simps Let_def within.simps l
    by (intro conjI within_RefreshWorker)
      (auto intro!: IH split: prod.split option.split simp del: update_schedules_h.simps)
qed simp

lemma within_handler: "within (handler_of D clock post r) (request_steps r)"
proof (cases r)
  case (PostJob i job req)
  have "within (RefreshWorker_h D now i p) 8" if "within p 6" for p now using within_RefreshWorker [OF that] by simp
  then show ?thesis by (auto simp: PostJob validated_h_def updateJobOfWorker_h_def Let_def split: prod.split option.split)
next
  case (PostJobSize i job req)
  have "within (RefreshWorker_h D now i p) 8" if "within p 6" for p now using within_RefreshWorker [OF that] by simp
  then show ?thesis by (auto simp: PostJobSize validated_h_def updateMirrorSize_h_def Let_def split: prod.split option.split)
next
  case (PostSchedules i req)
  then show ?thesis by (auto simp: validated_h_def intro: within_schedules split: prod.split option.split)
qed (auto simp: validated_h_def listAllJobs_h_def flushDisabledJobs_h_def listWorkers_h_def registerWorker_h_def
    deleteWorker_h_def listJobsOfWorker_h_def handleClientCmd_h_def Let_def split: prod.split option.split)

text \<open>Steps a goroutine has left: a waiting writer still has to take the lock.\<close>

definition left_within :: "'s goroutine \<Rightarrow> nat \<Rightarrow> bool" where
  "left_within t n = (case t of (m, p, ps) \<Rightarrow> if m = Announced then 0 < n \<and> within p (n - 1) else within p n)"

lemma tstep_within: "tstep h t h' t' \<Longrightarrow> left_within t n \<Longrightarrow> 0 < n \<and> left_within t' (n - 1)"
  by (cases rule: tstep.cases) (auto simp: left_within_def numeral_2_eq_2)

lemma sys_steps_within:
  assumes "(sys_step ^^ n) S S'" and "list_all2 left_within (snd S) ns"
  shows "\<exists>ns'. list_all2 left_within (snd S') ns' \<and> sum_list ns' + n = sum_list ns"
  using assms
proof (induction n arbitrary: S')
  case (Suc n)
  from Suc.prems(1) obtain T where T: "(sys_step ^^ n) S T" "sys_step T S'" by auto
  from Suc.IH [OF T(1) Suc.prems(2)] obtain ns' where ns': "list_all2 left_within (snd T) ns'" "sum_list ns' + n = sum_list ns" by blast
  from T(2) obtain h ts j h' t' where g: "T = (h, ts)" "S' = (h', ts[j := t'])" "j < length ts" "tstep h (ts ! j) h' t'"
    by cases auto
  from ns'(1) g(1,3) have len: "length ts = length ns'" "left_within (ts ! j) (ns' ! j)" by (auto dest: list_all2_lengthD list_all2_nthD)
  from tstep_within [OF g(4) len(2)] have "0 < ns' ! j" "left_within t' (ns' ! j - 1)" by auto
  moreover from this(1) have "sum_list (ns'[j := ns' ! j - 1]) + 1 = sum_list ns'"
    using g(3) len(1) member_le_sum_list [of "ns' ! j" ns'] by (simp add: sum_list_update)
  ultimately show ?case using ns' g by (auto intro!: exI [of _ "ns'[j := ns' ! j - 1]"] list_all2_update_cong)
qed auto

lemma sys_finishes:
  assumes "sys_ok P st S" and "list_all2 left_within (snd S) ns"
  shows "\<exists>S'. sys_step\<^sup>*\<^sup>* S S' \<and> (\<forall>t\<in>set (snd S'). answer t \<noteq> None)"
  using assms
proof (induction "sum_list ns" arbitrary: S ns rule: less_induct)
  case less
  show ?case
  proof (cases "\<forall>t\<in>set (snd S). answer t \<noteq> None")
    case False
    then obtain t where "t \<in> set (snd S)" "answer t = None" by blast
    then obtain S1 where S1: "sys_step S S1" using sys_ok_progress [of P st "fst S" "snd S"] less.prems(1) by fastforce
    then have "(sys_step ^^ 1) S S1" by (simp add: eq_OO)
    from sys_steps_within [OF this less.prems(2)] obtain ns' where
      ns': "list_all2 left_within (snd S1) ns'" "sum_list ns' + 1 = sum_list ns" by blast
    from less.hyps [OF _ sys_ok_step [OF S1 less.prems(1)] ns'(1)] ns'(2) S1 show ?thesis
      by (auto intro: converse_rtranclp_into_rtranclp)
  qed (blast intro: rtranclp.rtrancl_refl)
qed

subsection \<open>The result of a goroutine\<close>

text \<open>What a goroutine ends with when nobody interferes from now on.\<close>

definition outcome_from :: "'s handler \<Rightarrow> (string \<times> WorkerCmd) list \<Rightarrow> 's \<Rightarrow> outcome \<times> 's" where
  "outcome_from p ps s = (case run p s of ((ws, qs), s') \<Rightarrow> ((ws, ps @ qs), s'))"

lemma outcome_from_simps [simp]:
  "outcome_from (Done ws) ps s = ((ws, ps), s)"
  "outcome_from (RLock p) ps s = outcome_from p ps s"
  "outcome_from (RUnlock p) ps s = outcome_from p ps s"
  "outcome_from (Lock p) ps s = outcome_from p ps s"
  "outcome_from (Unlock p) ps s = outcome_from p ps s"
  "outcome_from (Call f k) ps s = outcome_from (k s) ps (f s)"
  "outcome_from (PostWorker u c p) ps s = outcome_from p (ps @ [(u, c)]) s"
  by (simp_all add: outcome_from_def split: prod.split)

lemma outcome_from_Nil: "outcome_from p [] s = run p s"
  by (simp add: outcome_from_def split: prod.split)

lemma tstep_outcome:
  "tstep h (m, p, ps) h' (m', p', ps') \<Longrightarrow> outcome_from p' ps' (sh_db h') = outcome_from p ps (sh_db h)"
  by (cases rule: tstep.cases) auto

lemma answer_Some: "answer t = Some r \<longleftrightarrow> (\<exists>m ws ps. t = (m, Done ws, ps) \<and> r = (ws, ps))"
  by (cases t rule: answer.cases) auto

lemma alone_outcome:
  assumes "sys_step\<^sup>*\<^sup>* (h0, [(m0, p0, ps0)]) S"
  shows "\<exists>h m p ps. S = (h, [(m, p, ps)]) \<and> outcome_from p ps (sh_db h) = outcome_from p0 ps0 (sh_db h0)"
  using assms
proof (induction rule: rtranclp_induct)
  case (step S S')
  then obtain h m p ps where S: "S = (h, [(m, p, ps)])"
    "outcome_from p ps (sh_db h) = outcome_from p0 ps0 (sh_db h0)" by blast
  from step.hyps(2) [unfolded S(1)] obtain h' t' where S': "S' = (h', [t'])" "tstep h (m, p, ps) h' t'"
    by cases auto
  obtain m' p' ps' where "t' = (m', p', ps')" by (metis prod.exhaust)
  with S' S(2) tstep_outcome [of h m p ps h'] show ?case by auto
qed auto

subsection \<open>Properties of the concurrent manager\<close>

abbreviation arrival_ok :: "arrival \<Rightarrow> bool" where
  "arrival_ok a \<equiv> (case a of (clock, _, r) \<Rightarrow> (\<forall>n. time_ok (clock n)) \<and> request_ok r)"

lemma start_ok:
  assumes "db_up K wrap c up s" and "\<forall>a\<in>set rs. arrival_ok a"
  shows "sys_ok (db_up K wrap c up) (\<lambda>s. statuses_of (c s)) (start (kvDBAdapter K wrap) s rs)"
  using assms kvrf.disciplined_handler [of _ _ K wrap c up]
  by (fastforce simp: sys_ok_def start_def readers_in_def writers_in_def filter_empty_conv)

lemma start_within:
  "list_all2 left_within (snd (start D s rs)) (map (\<lambda>(clock, post, r). request_steps r) rs)"
  by (auto simp: start_def left_within_def within_handler list_all2_map1 list_all2_map2 intro!: list.rel_refl_strong)

lemma sys_step_length: "sys_step\<^sup>*\<^sup>* S S' \<Longrightarrow> length (snd S') = length (snd S)"
  by (induction rule: rtranclp_induct) (auto elim: sys_step.cases)

lemma start_finishes:
  assumes "db_up K wrap c up s" and "\<forall>a\<in>set rs. arrival_ok a"
  shows "\<exists>h ts outs. sys_step\<^sup>*\<^sup>* (start (kvDBAdapter K wrap) s rs) (h, ts) \<and> map answer ts = map Some outs \<and> length ts = length rs"
proof -
  from sys_finishes [OF start_ok [OF assms] start_within] obtain h ts where
    S: "sys_step\<^sup>*\<^sup>* (start (kvDBAdapter K wrap) s rs) (h, ts)" "\<forall>t\<in>set ts. answer t \<noteq> None" by auto
  then have "map answer ts = map Some (map (the \<circ> answer) ts)" by auto
  moreover have "length ts = length rs" using sys_step_length [OF S(1)] by (simp add: start_def)
  ultimately show ?thesis using S(1) by blast
qed

text \<open>Requests of the witnesses.\<close>

definition ex_alone :: "arrival list" where
  "ex_alone = [(\<lambda>_. 5, \<lambda>_ _. None, PostJob ''w'' ''m'' (ex_status, None))]"

definition ex_two :: "arrival list" where
  "ex_two = [(\<lambda>_. 5, \<lambda>_ _. None, PostJob ''w'' ''m'' (ex_status, None)),
             (\<lambda>_. 6, \<lambda>_ _. None, PostJob ''w'' ''n'' (ex_status\<lparr>ms_Name := ''n''\<rparr>, None))]"

lemmas ex_requests = time_ok_def Second_def key_ok_def status_key_def ex_status_def zero_MirrorStatus_def zero_time_def



text \<open>C8.  In every interleaving of any requests at the same time: the database stays well-formed; a goroutine in
  its write section excludes every other one from a read or write section; and while some goroutine is in a
  read section no step of any other changes the stored statuses.\<close>

theorem interleavings_safe:
  assumes "db_up K wrap c up s" and "\<forall>a\<in>set rs. arrival_ok a"
    and "sys_step\<^sup>*\<^sup>* (start (kvDBAdapter K wrap) s rs) (h, ts)"
  shows "db_up K wrap c up (sh_db h) \<and>
    (\<forall>i<length ts. \<forall>j<length ts. i \<noteq> j \<and> fst (ts ! i) = Writing \<longrightarrow> fst (ts ! j) \<noteq> Reading \<and> fst (ts ! j) \<noteq> Writing) \<and>
    (\<forall>h' ts'. sys_step (h, ts) (h', ts') \<and> (\<exists>t\<in>set ts. fst t = Reading) \<longrightarrow>
       statuses_of (c (sh_db h')) = statuses_of (c (sh_db h)))"
proof -
  let ?st = "\<lambda>s. statuses_of (c s)"
  note S = sys_ok_steps [OF assms(3) start_ok [OF assms(1,2)]]
  then have "db_up K wrap c up (sh_db h)" by (simp add: sys_ok_def)
  with sys_ok_exclusive [OF S] sys_ok_read_stable [OF S] show ?thesis by blast
qed

theorem interleavings_safe_witness:
  "\<exists>h ts. sys_step\<^sup>*\<^sup>* (start (kvDBAdapter ex_K ex_wrap) ex_db ex_two) (h, ts) \<and> db_up ex_K ex_wrap ex_c ex_up (sh_db h)"
proof -
  from start_finishes [OF ex_db_up, of ex_two] obtain h ts where
    S: "sys_step\<^sup>*\<^sup>* (start (kvDBAdapter ex_K ex_wrap) ex_db ex_two) (h, ts)" by (auto simp: ex_two_def ex_requests)
  with interleavings_safe [OF ex_db_up _ S] show ?thesis by (auto simp: ex_two_def ex_requests)
qed

text \<open>C9.  The lock cannot deadlock and every schedule ends: an execution of requests that arrived at the same
  time has at most as many steps as their handlers have actions, and as long as some request is not answered
  some goroutine can step.\<close>

theorem schedules_end:
  assumes "db_up K wrap c up s" and "\<forall>a\<in>set rs. arrival_ok a"
    and "(sys_step ^^ n) (start (kvDBAdapter K wrap) s rs) (h, ts)"
  shows "n \<le> sum_list (map (\<lambda>(clock, post, r). request_steps r) rs) \<and>
    ((\<forall>t\<in>set ts. answer t \<noteq> None) \<or> (\<exists>S'. sys_step (h, ts) S'))"
proof -
  from assms(3) have "sys_step\<^sup>*\<^sup>* (start (kvDBAdapter K wrap) s rs) (h, ts)" by (rule relpowp_imp_rtranclp)
  note S = sys_ok_steps [OF this start_ok [OF assms(1,2)]]
  from sys_steps_within [OF assms(3) start_within] sys_ok_progress [OF S] show ?thesis by fastforce
qed

theorem schedules_end_witness:
  "\<exists>S'. sys_step (start (kvDBAdapter ex_K ex_wrap) ex_db ex_two) S'"
proof -
  obtain h ts where s: "start (kvDBAdapter ex_K ex_wrap) ex_db ex_two = (h, ts)" by fastforce
  have "\<exists>t\<in>set ts. answer t = None" using s
    by (auto simp: start_def ex_two_def validated_h_def ask_def)
  moreover have "\<forall>a\<in>set ex_two. arrival_ok a" by (simp add: ex_two_def ex_requests)
  ultimately show ?thesis using schedules_end [OF ex_db_up, of ex_two 0 h ts] s by auto
qed

end
