(* ===== verification/Manager_Serial.thy ===== *)
theory Manager_Serial
  imports Manager_Concurrent
begin

section \<open>Which requests may be handled at the same time\<close>

text \<open>
  Most handlers read a status under the read lock, release it, and write the status under the write lock.
  Requests that concern different mirrors do not notice each other: any interleaving of reports, sizes,
  schedules and commands for different mirrors has the answers, posts and statuses of serving them one after
  the other (\<open>serve_seq\<close>).  The proof is by isolation: a handler that reads and writes only its own keys keeps
  its result while other goroutines work on other keys.  For one mirror this is not so: two interleavings
  show a report that a command undoes, and a registration that a report undoes.
\<close>

subsection \<open>Handlers that touch different keys\<close>

definition agree :: "('s \<Rightarrow> 'k \<Rightarrow> 'v) \<Rightarrow> 'k set \<Rightarrow> 's \<Rightarrow> 's \<Rightarrow> bool" where
  "agree st K s s' \<longleftrightarrow> (\<forall>x\<in>K. st s x = st s' x)"

definition same_result :: "('s \<Rightarrow> 'k \<Rightarrow> 'v) \<Rightarrow> 'k set \<Rightarrow> 'o \<times> 's \<Rightarrow> 'o \<times> 's \<Rightarrow> bool" where
  "same_result st K r r' \<longleftrightarrow> fst r = fst r' \<and> agree st K (snd r) (snd r')"

text \<open>A handler that keeps \<open>P\<close>, writes \<open>st\<close> only at the keys \<open>K\<close>, and whose result depends, at every point of its
  execution, only on \<open>st\<close> at those keys.\<close>

primrec isolated :: "('s \<Rightarrow> bool) \<Rightarrow> ('s \<Rightarrow> 'k \<Rightarrow> 'v) \<Rightarrow> 'k set \<Rightarrow> 's handler \<Rightarrow> bool" where
  "isolated P st K (Done ws) = True"
| "isolated P st K (RLock p) = isolated P st K p"
| "isolated P st K (RUnlock p) = isolated P st K p"
| "isolated P st K (Lock p) = isolated P st K p"
| "isolated P st K (Unlock p) = isolated P st K p"
| "isolated P st K (Call f k) =
     ((\<forall>s. P s \<longrightarrow> P (f s) \<and> agree st (- K) (f s) s \<and> isolated P st K (k s)) \<and>
      (\<forall>s s'. P s \<and> P s' \<and> agree st K s s' \<longrightarrow> same_result st K (run (k s) (f s)) (run (k s') (f s'))))"
| "isolated P st K (PostWorker u c p) = isolated P st K p"

lemma agree_refl [simp]: "agree st K s s"
  and agree_sym: "agree st K s s' \<Longrightarrow> agree st K s' s"
  and agree_trans [trans]: "agree st K s s' \<Longrightarrow> agree st K s' s'' \<Longrightarrow> agree st K s s''"
  and agree_mono: "agree st K s s' \<Longrightarrow> L \<subseteq> K \<Longrightarrow> agree st L s s'"
  by (auto simp: agree_def)

lemma same_result_refl [simp]: "same_result st K r r"
  and same_result_trans [trans]: "same_result st K r r' \<Longrightarrow> same_result st K r' r'' \<Longrightarrow> same_result st K r r''"
  by (auto simp: same_result_def intro: agree_trans)

lemma isolated_run:
  "isolated P st K p \<Longrightarrow> P s \<Longrightarrow> P (snd (run p s)) \<and> agree st (- K) (snd (run p s)) s"
proof (induction p arbitrary: s)
  case (Call f k)
  from Call.IH [OF rangeI, of s "f s"] Call.prems show ?case by (auto intro: agree_trans)
qed (simp_all add: split_beta)

lemma isolated_cong:
  "isolated P st K p \<Longrightarrow> P s \<Longrightarrow> P s' \<Longrightarrow> agree st K s s' \<Longrightarrow> same_result st K (run p s) (run p s')"
  by (induction p) (auto simp: same_result_def split_beta)

lemma isolated_cong_posts:
  "isolated P st K p \<Longrightarrow> P s \<Longrightarrow> P s' \<Longrightarrow> agree st K s s' \<Longrightarrow>
   same_result st K (outcome_from p ps s) (outcome_from p ps s')"
  using isolated_cong [of P st K p s s'] by (auto simp: outcome_from_def same_result_def split: prod.split)

lemma isolated_tstep:
  "tstep h (m, p, ps) h' (m', p', ps') \<Longrightarrow> isolated P st K p \<Longrightarrow> P (sh_db h) \<Longrightarrow>
   P (sh_db h') \<and> isolated P st K p' \<and> agree st (- K) (sh_db h') (sh_db h)"
  by (cases rule: tstep.cases) auto

lemma isolated_ask:
  assumes "\<And>s s'. P s \<Longrightarrow> P s' \<Longrightarrow> agree st K s s' \<Longrightarrow> k (f s) = k (f s')" and "\<And>s. P s \<Longrightarrow> isolated P st K (k (f s))"
  shows "isolated P st K (ask f k)"
proof -
  have "same_result st K (run (k (f s)) s) (run (k (f s')) s')" if "P s" "P s'" "agree st K s s'" for s s'
    using isolated_cong [OF assms(2) [OF that(1)] that] by (simp only: assms(1) [OF that])
  with assms(2) show ?thesis by (simp add: ask_def)
qed

text \<open>Requests served by the sequential manager, each with its own clock and answer of its worker.\<close>

fun serve_seq :: "'s dbAdapter \<Rightarrow> arrival list \<Rightarrow> 's \<Rightarrow> outcome list \<times> 's" where
  "serve_seq D [] s = ([], s)"
| "serve_seq D ((clock, post, r) # rs) s =
     (case serve D clock post r s of (out, s1) \<Rightarrow> case serve_seq D rs s1 of (outs, s2) \<Rightarrow> (out # outs, s2))"

text \<open>The updates of statuses, the keys they touch, and what the database takes.\<close>

fun touched :: "request \<Rightarrow> string set" where
  "touched (PostJob i job req) = {status_key (ms_Name (fst req)) i}"
| "touched (PostJobSize i job req) = {status_key (sm_Name (fst req)) i}"
| "touched (PostSchedules i req) = (\<lambda>sc. status_key (sc_MirrorName sc) i) ` set (fst req)"
| "touched (PostCmd req) = {status_key (cc_MirrorID (fst req)) (cc_WorkerID (fst req))}"
| "touched _ = {}"

fun update_ok :: "request \<Rightarrow> bool" where
  "update_ok (PostJob i job req) \<longleftrightarrow> key_ok (status_key (ms_Name (fst req)) i) \<and>
     status_ok (ms_Status (fst req)) \<and> time_ok (ms_Scheduled (fst req))"
| "update_ok (PostJobSize i job req) \<longleftrightarrow> True"
| "update_ok (PostSchedules i req) \<longleftrightarrow> (\<forall>sc\<in>set (fst req). time_ok (sc_NextSchedule sc))"
| "update_ok (PostCmd req) \<longleftrightarrow> key_ok (status_key (cc_MirrorID (fst req)) (cc_WorkerID (fst req)))"
| "update_ok _ \<longleftrightarrow> False"

text \<open>The registered workers, up to the time they were last seen.\<close>

definition registry :: "(string \<rightharpoonup> WorkerStatus) \<Rightarrow> string \<rightharpoonup> WorkerStatus" where
  "registry m i = map_option (\<lambda>w. w\<lparr>ws_LastOnline := zero_time\<rparr>) (m i)"

lemma registry_same:
  assumes "registry m = registry m'"
  shows "m i = None \<longleftrightarrow> m' i = None" and "m i = Some w \<Longrightarrow> m' i = Some w' \<Longrightarrow> ws_URL w = ws_URL w'"
proof -
  from assms have e: "registry m i = registry m' i" by simp
  then show "m i = None \<longleftrightarrow> m' i = None" by (auto simp: registry_def)
  assume "m i = Some w" "m' i = Some w'"
  with e have "w\<lparr>ws_LastOnline := zero_time\<rparr> = w'\<lparr>ws_LastOnline := zero_time\<rparr>" by (simp add: registry_def)
  then have "ws_URL (w\<lparr>ws_LastOnline := zero_time\<rparr>) = ws_URL (w'\<lparr>ws_LastOnline := zero_time\<rparr>)" by simp
  then show "ws_URL w = ws_URL w'" by simp
qed

lemma registry_seen_again:
  assumes "registry m = registry m'" and "m i = Some w"
  shows "registry (m'(i \<mapsto> w\<lparr>ws_LastOnline := now\<rparr>)) = registry m"
proof
  fix j
  have "registry (m'(i \<mapsto> w\<lparr>ws_LastOnline := now\<rparr>)) j =
      (if j = i then Some (w\<lparr>ws_LastOnline := zero_time\<rparr>) else registry m' j)" by (simp add: registry_def)
  moreover have "registry m i = Some (w\<lparr>ws_LastOnline := zero_time\<rparr>)" using assms(2) by (simp add: registry_def)
  ultimately show "registry (m'(i \<mapsto> w\<lparr>ws_LastOnline := now\<rparr>)) j = registry m j" using assms(1) by simp
qed

context refreshing_db
begin

definition steady where
  "steady W s \<longleftrightarrow> up s \<and> registry (workers s) = W"

lemma steady_up: "steady W s \<Longrightarrow> up s"
  by (simp add: steady_def)

lemma isolated_RefreshWorker:
  assumes t: "time_ok now" and p: "isolated (steady W) statuses K p"
  shows "isolated (steady W) statuses K (RefreshWorker_h D now i p)"
proof -
  let ?k = "\<lambda>s. case db_GetWorker D i s of (w, err) \<Rightarrow> case err of
      Some _ \<Rightarrow> p | None \<Rightarrow> call (db_CreateWorker D (w\<lparr>ws_LastOnline := now\<rparr>)) (\<lambda>_. p)"
  have create: "steady W s'' \<and> statuses s'' = statuses s'"
    if "steady W s" "workers s i = Some w" "steady W s'" "s'' = snd (db_CreateWorker D (w\<lparr>ws_LastOnline := now\<rparr>) s')" for s s' s'' w
    using create_again [OF _ that(2) t, of s'] registry_seen_again [of "workers s" "workers s'" i w now] that
    by (auto simp: steady_def)
  have run_k: "\<exists>s''. run (?k s) s' = run p s'' \<and> steady W s'' \<and> statuses s'' = statuses s'"
    if "steady W s" "steady W s'" for s s'
  proof (cases "workers s i")
    case None
    with that show ?thesis by (auto simp: get_worker [OF steady_up])
  next
    case (Some w)
    with create [OF that(1) Some that(2)] that show ?thesis by (auto simp: get_worker [OF steady_up])
  qed
  have "same_result statuses K (run (?k s) s) (run (?k s') s')" if "steady W s" "steady W s'" "agree statuses K s s'" for s s'
  proof -
    from run_k [OF that(1,1)] run_k [OF that(2,2)] obtain u u' where
      u: "run (?k s) s = run p u" "steady W u" "statuses u = statuses s"
         "run (?k s') s' = run p u'" "steady W u'" "statuses u' = statuses s'" by blast
    from u(3,6) that(3) have "agree statuses K u u'" by (simp add: agree_def)
    from isolated_cong [OF p u(2,5) this] show ?thesis by (simp only: u(1,4))
  qed
  moreover have "isolated (steady W) statuses K (?k s)" if s: "steady W s" for s
  proof (cases "workers s i")
    case None
    with p show ?thesis by (simp add: get_worker [OF steady_up [OF s]])
  next
    case (Some w)
    have "same_result statuses K (run p (snd (db_CreateWorker D (w\<lparr>ws_LastOnline := now\<rparr>) u)))
        (run p (snd (db_CreateWorker D (w\<lparr>ws_LastOnline := now\<rparr>) u')))"
      if "steady W u" "steady W u'" "agree statuses K u u'" for u u'
      using create [OF s Some that(1) refl] create [OF s Some that(2) refl] that(3)
      by (intro isolated_cong [OF p]) (simp_all add: agree_def)
    with Some p create [OF s Some] show ?thesis
      by (simp add: get_worker [OF steady_up [OF s]] call_def) (simp add: agree_def)
  qed
  ultimately show ?thesis by (simp add: RefreshWorker_h_def ask_def)
qed

lemma isolated_update:
  assumes "key_ok (status_key n i)" and "MirrorStatus_ok m" and "status_key n i \<in> K"
    and k: "isolated (steady W) statuses K (k (m, None))"
  shows "isolated (steady W) statuses K (call (db_UpdateMirrorStatus D i n m) k)"
proof -
  have u: "\<exists>s'. db_UpdateMirrorStatus D i n m s = ((m, None), s') \<and> steady W s' \<and>
      statuses s' = (statuses s)(status_key n i \<mapsto> m)" if "steady W s" for s
    using update_status [OF steady_up [OF that] assms(1,2)] that by (auto simp: steady_def)
  have "same_result statuses K (run (k (fst (db_UpdateMirrorStatus D i n m s))) (snd (db_UpdateMirrorStatus D i n m s)))
      (run (k (fst (db_UpdateMirrorStatus D i n m s'))) (snd (db_UpdateMirrorStatus D i n m s')))"
    if "steady W s" "steady W s'" "agree statuses K s s'" for s s'
  proof -
    from u [OF that(1)] u [OF that(2)] obtain v v' where
      "db_UpdateMirrorStatus D i n m s = ((m, None), v)" "steady W v" "statuses v = (statuses s)(status_key n i \<mapsto> m)"
      "db_UpdateMirrorStatus D i n m s' = ((m, None), v')" "steady W v'" "statuses v' = (statuses s')(status_key n i \<mapsto> m)"
      by blast
    with isolated_cong [OF k, of v v'] that(3) show ?thesis by (simp add: agree_def)
  qed
  moreover have "steady W (snd (db_UpdateMirrorStatus D i n m s)) \<and>
      agree statuses (- K) (snd (db_UpdateMirrorStatus D i n m s)) s \<and>
      isolated (steady W) statuses K (k (fst (db_UpdateMirrorStatus D i n m s)))" if "steady W s" for s
    using u [OF that] assms(3) k by (auto simp: agree_def)
  ultimately show ?thesis by (simp add: call_def)
qed

lemma isolated_GetMirrorStatus:
  assumes "status_key n i \<in> K"
    and "\<And>s m err. steady W s \<Longrightarrow> db_GetMirrorStatus D i n s = (m, err) \<Longrightarrow> isolated (steady W) statuses K (k (m, err))"
  shows "isolated (steady W) statuses K (ask (db_GetMirrorStatus D i n) k)"
proof (rule isolated_ask)
  show "k (db_GetMirrorStatus D i n s) = k (db_GetMirrorStatus D i n s')"
    if "steady W s" "steady W s'" "agree statuses K s s'" for s s'
    using that assms(1) by (simp add: get_status [OF steady_up] agree_def)
qed (metis assms(2) prod.exhaust)

lemma isolated_GetWorker:
  assumes "\<And>w w'. ws_URL w = ws_URL w' \<Longrightarrow> k (w, None) = k (w', None)"
    and "\<And>w err. isolated (steady W) statuses K (k (w, err))"
  shows "isolated (steady W) statuses K (ask (db_GetWorker D i) k)"
proof (rule isolated_ask)
  fix s s'
  assume s: "steady W s" "steady W s'"
  then have R: "registry (workers s) = registry (workers s')" by (simp add: steady_def)
  note g = get_worker [OF steady_up [OF s(1)], of i] get_worker [OF steady_up [OF s(2)], of i]
  show "k (db_GetWorker D i s) = k (db_GetWorker D i s')"
  proof (cases "workers s i")
    case None
    with registry_same(1) [OF R, of i] show ?thesis by (simp add: g)
  next
    case (Some w)
    with registry_same(1) [OF R, of i] obtain w' where w': "workers s' i = Some w'" by auto
    from assms(1) [OF registry_same(2) [OF R Some w']] Some w' show ?thesis by (simp add: g)
  qed
qed (metis assms(2) prod.exhaust)

lemma isolated_validated:
  "isolated (steady W) statuses K h \<Longrightarrow> isolated (steady W) statuses K (validated_h D i h)"
  unfolding validated_h_def by (rule isolated_GetWorker) (simp_all split: option.split)

lemma get_status_ok: "steady W s \<Longrightarrow> db_GetMirrorStatus D i n s = (m, err) \<Longrightarrow>
    MirrorStatus_ok m \<and> (err = None \<longrightarrow> key_ok (status_key n i))"
proof -
  assume s: "steady W s" and g: "db_GetMirrorStatus D i n s = (m, err)"
  from g cur_status_ok [OF steady_up [OF s], of i n] have "MirrorStatus_ok m"
    using fst_get_status [OF steady_up [OF s], of i n] by simp
  moreover from g have "\<exists>m. statuses s (status_key n i) = Some m" if "err = None"
    using that by (auto simp: get_status [OF steady_up [OF s]] split: option.splits)
  ultimately show ?thesis using status_wf [OF steady_up [OF s]] by blast
qed

lemma isolated_updateJob:
  assumes "time_ok now" and "time_ok cur" and "update_ok (PostJob i job req)" and "K = touched (PostJob i job req)"
  shows "isolated (steady W) statuses K (updateJobOfWorker_h D now cur i req)"
  unfolding updateJobOfWorker_h_def Let_def isolated.simps
  by (intro isolated_RefreshWorker isolated_GetMirrorStatus assms(1))
    (use assms in \<open>auto simp: merge_status_ok dest!: get_status_ok intro!: isolated_update\<close>)

lemma isolated_updateMirrorSize:
  assumes "time_ok now" and "K = touched (PostJobSize i job req)"
  shows "isolated (steady W) statuses K (updateMirrorSize_h D now i req)"
  unfolding updateMirrorSize_h_def Let_def isolated.simps
  by (intro isolated_RefreshWorker isolated_GetMirrorStatus assms(1))
    (auto simp: assms(2) MirrorStatus_ok_def dest!: get_status_ok intro!: isolated_update split: option.split)

lemma isolated_schedules:
  assumes "\<forall>n. time_ok (clock n)" and "\<forall>sc\<in>set scs. time_ok (sc_NextSchedule sc) \<and> status_key (sc_MirrorName sc) i \<in> K"
  shows "isolated (steady W) statuses K (update_schedules_h D clock i n scs ws)"
  using assms(2)
proof (induction scs arbitrary: n ws)
  case (Cons sc scs)
  then have K: "status_key (sc_MirrorName sc) i \<in> K" and t: "time_ok (sc_NextSchedule sc)" by simp_all
  have IH: "isolated (steady W) statuses K (update_schedules_h D clock i n scs ws)" for n ws using Cons by simp
  show ?case
    unfolding update_schedules_h.simps Let_def isolated.simps
    by (intro isolated_RefreshWorker isolated_GetMirrorStatus spec [OF assms(1)] K)
      (use t K in \<open>auto simp: MirrorStatus_ok_def IH dest!: get_status_ok intro!: isolated_update split: option.split\<close>)
qed simp

lemma isolated_handleClientCmd:
  assumes "update_ok (PostCmd req)" and "K = touched (PostCmd req)"
  shows "isolated (steady W) statuses K (handleClientCmd_h D post req)"
proof -
  let ?i = "cc_WorkerID (fst req)" and ?n = "cc_MirrorID (fst req)"
  have "status_ok st" if "cmd_status (cc_Cmd (fst req)) = Some st" for st
    using that by (auto simp: cmd_status_def split: CmdVerb.splits)
  then have inner: "isolated (steady W) statuses K (ask (db_GetMirrorStatus D ?i ?n) (\<lambda>(curStat, _). RUnlock
      (case cmd_status (cc_Cmd (fst req)) of
         None \<Rightarrow> send
       | Some st \<Rightarrow> Lock (call (db_UpdateMirrorStatus D ?i ?n (curStat\<lparr>ms_Status := st\<rparr>)) (\<lambda>_. Unlock send)))))"
    if "isolated (steady W) statuses K send" for send
    by (intro isolated_GetMirrorStatus)
      (use that assms in \<open>auto simp: MirrorStatus_ok_def dest!: get_status_ok intro!: isolated_update split: option.split\<close>)
  show ?thesis
    unfolding handleClientCmd_h_def Let_def
    by (simp only: isolated.simps split: if_split)
      (intro conjI impI TrueI isolated_GetWorker; (simp cong: option.case_cong; fail | auto intro!: inner split: option.split))
qed

lemma isolated_handler:
  assumes "\<forall>n. time_ok (clock n)" and "update_ok r"
  shows "isolated (steady W) statuses (touched r) (handler_of D clock post r)"
  using assms
  by (cases r) (auto intro!: isolated_validated isolated_updateJob isolated_updateMirrorSize isolated_schedules
      isolated_handleClientCmd)

text \<open>The updates served one after the other.\<close>

lemma serve_isolated:
  assumes "steady W s" and "\<forall>n. time_ok (clock n)" and "update_ok r"
  shows "steady W (snd (serve D clock post r s)) \<and> agree statuses (- touched r) (snd (serve D clock post r s)) s"
  using isolated_run [OF isolated_handler [OF assms(2,3)] assms(1)] by (simp add: run_handler)

lemma serve_isolated_cong:
  assumes "steady W s" and "steady W s'" and "agree statuses (touched r) s s'" and "\<forall>n. time_ok (clock n)" and "update_ok r"
  shows "same_result statuses (touched r) (serve D clock post r s) (serve D clock post r s')"
  using isolated_cong [OF isolated_handler [OF assms(4,5)] assms(1,2,3)] by (simp add: run_handler)

lemma serve_seq_isolated:
  assumes "steady W s" and "\<forall>(clock, post, r)\<in>set rs. (\<forall>n. time_ok (clock n)) \<and> update_ok r"
    and "sorted_wrt (\<lambda>a b. touched (snd (snd a)) \<inter> touched (snd (snd b)) = {}) rs"
  shows "\<exists>outs s'. serve_seq D rs s = (outs, s') \<and> steady W s' \<and>
    agree statuses (- (\<Union>a\<in>set rs. touched (snd (snd a)))) s' s \<and>
    list_all2 (\<lambda>(clock, post, r) out. same_result statuses (touched r) (out, s') (serve D clock post r s)) rs outs"
  using assms
proof (induction rs arbitrary: s)
  case (Cons a rs)
  obtain clock post r where a: "a = (clock, post, r)" by (metis prod.exhaust)
  from Cons.prems a have r: "\<forall>n. time_ok (clock n)" "update_ok r" by auto
  obtain out s1 where s1: "serve D clock post r s = (out, s1)" by fastforce
  with serve_isolated [OF Cons.prems(1) r, of post] have S1: "steady W s1" "agree statuses (- touched r) s1 s" by simp_all
  from Cons.IH [OF S1(1)] Cons.prems(2,3) obtain outs s' where IH:
    "serve_seq D rs s1 = (outs, s')" "steady W s'" "agree statuses (- (\<Union>a\<in>set rs. touched (snd (snd a)))) s' s1"
    "list_all2 (\<lambda>(clock, post, r) out. same_result statuses (touched r) (out, s') (serve D clock post r s1)) rs outs" by auto
  have dj: "touched r \<inter> (\<Union>a\<in>set rs. touched (snd (snd a))) = {}" using Cons.prems(3) a by auto
  have "same_result statuses (touched r) (out, s') (serve D clock post r s)"
    using IH(3) dj by (auto simp: same_result_def agree_def s1)
  moreover have "list_all2 (\<lambda>(clock, post, r) out. same_result statuses (touched r) (out, s') (serve D clock post r s)) rs outs"
    using IH(4)
  proof (rule list.rel_mono_strong, clarify)
    fix clock' post' r' out'
    assume m: "(clock', post', r') \<in> set rs" and sr: "same_result statuses (touched r') (out', s') (serve D clock' post' r' s1)"
    from m dj S1(2) have "agree statuses (touched r') s1 s" by (fastforce simp: agree_def)
    from serve_isolated_cong [OF S1(1) Cons.prems(1) this, of clock' post'] Cons.prems(2) m
    have "same_result statuses (touched r') (serve D clock' post' r' s1) (serve D clock' post' r' s)" by auto
    with sr show "same_result statuses (touched r') (out', s') (serve D clock' post' r' s)" by (rule same_result_trans)
  qed
  moreover have "agree statuses (- (\<Union>a\<in>set (a # rs). touched (snd (snd a)))) s' s"
    using IH(3) S1(2) a by (auto simp: agree_def)
  ultimately show ?case using IH(1,2) s1 a by simp
qed simp

text \<open>The updates in any interleaving: every goroutine is on the way to the result it would have alone.\<close>

definition on_track where
  "on_track W s0 s a t = (case a of (clock, post, r) \<Rightarrow> case t of (m, p, ps) \<Rightarrow>
     isolated (steady W) statuses (touched r) p \<and>
     same_result statuses (touched r) (outcome_from p ps s) (serve D clock post r s0))"

definition undisturbed where
  "undisturbed W s0 rs S = (case S of (h, ts) \<Rightarrow>
     steady W (sh_db h) \<and> agree statuses (- (\<Union>a\<in>set rs. touched (snd (snd a)))) (sh_db h) s0 \<and>
     list_all2 (on_track W s0 (sh_db h)) rs ts)"

lemma undisturbed_start:
  assumes "steady W s" and "\<forall>(clock, post, r)\<in>set rs. (\<forall>n. time_ok (clock n)) \<and> update_ok r"
  shows "undisturbed W s rs (start D s rs)"
proof -
  have "on_track W s s (clock, post, r) (Free, handler_of D clock post r, [])" if "(clock, post, r) \<in> set rs" for clock post r
    using assms(2) that by (auto simp: on_track_def outcome_from_Nil run_handler intro!: isolated_handler)
  with assms(1) show ?thesis
    by (auto simp: undisturbed_def start_def list_all2_map2 intro!: list.rel_refl_strong)
qed

lemma on_track_self:
  assumes "on_track W s0 (sh_db h) a t" and "tstep h t h' t'" and "steady W (sh_db h)"
  shows "steady W (sh_db h') \<and> on_track W s0 (sh_db h') a t' \<and> agree statuses (- touched (snd (snd a))) (sh_db h') (sh_db h)"
proof -
  obtain m p ps m' p' ps' where t: "t = (m, p, ps)" "t' = (m', p', ps')" by (metis prod.exhaust)
  from isolated_tstep [where P = "steady W" and st = statuses, OF assms(2) [unfolded t] _ assms(3)] tstep_outcome [OF assms(2) [unfolded t]] assms(1)
  show ?thesis by (auto simp: on_track_def t split: prod.splits)
qed

lemma on_track_other:
  assumes "on_track W s0 s a t" and "steady W s" and "steady W s'" and "agree statuses (touched (snd (snd a))) s' s"
  shows "on_track W s0 s' a t"
  using assms by (auto simp: on_track_def split: prod.splits intro: same_result_trans [OF isolated_cong_posts])

lemma undisturbed_step:
  assumes S: "undisturbed W s0 rs S" and step: "sys_step S S'"
    and dj: "sorted_wrt (\<lambda>a b. touched (snd (snd a)) \<inter> touched (snd (snd b)) = {}) rs"
  shows "undisturbed W s0 rs S'"
proof -
  from step obtain h ts j h' t' where g: "S = (h, ts)" "S' = (h', ts[j := t'])" "j < length ts" "tstep h (ts ! j) h' t'"
    by cases auto
  let ?K = "\<lambda>l. touched (snd (snd (rs ! l)))"
  have inv: "list_all2 (on_track W s0 (sh_db h)) rs ts" and P: "steady W (sh_db h)"
    using S by (simp_all add: undisturbed_def g(1))
  then have len: "length rs = length ts" by (simp add: list_all2_lengthD)
  from on_track_self [OF list_all2_nthD2 [OF inv g(3)] g(4) P]
  have P': "steady W (sh_db h')" and I': "on_track W s0 (sh_db h') (rs ! j) t'"
    and A: "agree statuses (- ?K j) (sh_db h') (sh_db h)" by simp_all
  have "on_track W s0 (sh_db h') (rs ! l) (ts[j := t'] ! l)" if l: "l < length ts" for l
  proof (cases "l = j")
    case False
    then have "?K j \<inter> ?K l = {}"
      using sorted_wrt_nth_less [OF dj, of l j] sorted_wrt_nth_less [OF dj, of j l] g(3) l len
      by (cases l j rule: linorder_cases) auto
    with A have "agree statuses (?K l) (sh_db h') (sh_db h)" by (auto simp: agree_def)
    from on_track_other [OF list_all2_nthD2 [OF inv l] P P' this] False show ?thesis by simp
  qed (use I' g(3) in simp)
  then have "list_all2 (on_track W s0 (sh_db h')) rs (ts[j := t'])" by (intro list_all2_all_nthI) (simp_all add: len)
  moreover have "agree statuses (- (\<Union>a\<in>set rs. touched (snd (snd a)))) (sh_db h') (sh_db h)"
    using A nth_mem [of j rs] g(3) len by (force simp: agree_def)
  ultimately show ?thesis using S P' by (auto simp: undisturbed_def g(1,2) intro: agree_trans)
qed

lemma undisturbed_steps:
  "sys_step\<^sup>*\<^sup>* S S' \<Longrightarrow> undisturbed W s0 rs S \<Longrightarrow>
   sorted_wrt (\<lambda>a b. touched (snd (snd a)) \<inter> touched (snd (snd b)) = {}) rs \<Longrightarrow> undisturbed W s0 rs S'"
  by (induction rule: rtranclp_induct) (auto intro: undisturbed_step)

lemma same_results_eq:
  assumes "list_all2 (\<lambda>(clock, post, r) out. same_result statuses (touched r) (out, u) (serve D clock post r s)) rs outs"
    and "list_all2 (\<lambda>(clock, post, r) out. same_result statuses (touched r) (out, v) (serve D clock post r s)) rs outs'"
  shows "outs = outs' \<and> agree statuses (\<Union>a\<in>set rs. touched (snd (snd a))) u v"
  using assms
  by (induction rs arbitrary: outs outs') (auto simp: list_all2_Cons1 same_result_def agree_def split: prod.splits)

lemma updates_like_sequence:
  assumes "up s" and "\<forall>(clock, post, r)\<in>set rs. (\<forall>n. time_ok (clock n)) \<and> update_ok r"
    and dj: "sorted_wrt (\<lambda>a b. touched (snd (snd a)) \<inter> touched (snd (snd b)) = {}) rs"
    and "sys_step\<^sup>*\<^sup>* (start D s rs) (h, ts)" and ans: "map answer ts = map Some outs"
  shows "\<exists>s'. serve_seq D rs s = (outs, s') \<and> statuses (sh_db h) = statuses s' \<and>
    registry (workers (sh_db h)) = registry (workers s')"
proof -
  let ?W = "registry (workers s)" and ?K = "\<Union>a\<in>set rs. touched (snd (snd a))"
  have s: "steady ?W s" using assms(1) by (simp add: steady_def)
  from undisturbed_steps [OF assms(4) undisturbed_start [OF s assms(2)] dj] have u:
    "steady ?W (sh_db h)" "agree statuses (- ?K) (sh_db h) s" "list_all2 (on_track ?W s (sh_db h)) rs ts"
    by (simp_all add: undisturbed_def)
  from serve_seq_isolated [OF s assms(2) dj] obtain outs' s' where q:
    "serve_seq D rs s = (outs', s')" "steady ?W s'" "agree statuses (- ?K) s' s"
    "list_all2 (\<lambda>(clock, post, r) out. same_result statuses (touched r) (out, s') (serve D clock post r s)) rs outs'" by blast
  have len: "length ts = length outs" "length rs = length ts" using ans u(3) by (auto dest: map_eq_imp_length_eq list_all2_lengthD)
  have "(\<lambda>(clock, post, r) out. same_result statuses (touched r) (out, sh_db h) (serve D clock post r s)) (rs ! j) (outs ! j)"
    if j: "j < length rs" for j
  proof -
    have "answer (ts ! j) = Some (outs ! j)" using arg_cong [OF ans, of "\<lambda>xs. xs ! j"] j len by simp
    with list_all2_nthD [OF u(3) j] show ?thesis by (auto simp: answer_Some on_track_def split: prod.splits)
  qed
  then have "list_all2 (\<lambda>(clock, post, r) out. same_result statuses (touched r) (out, sh_db h) (serve D clock post r s)) rs outs"
    by (intro list_all2_all_nthI) (simp_all add: len)
  from same_results_eq [OF this q(4)] have e: "outs = outs'" "agree statuses ?K (sh_db h) s'" by simp_all
  have "statuses (sh_db h) x = statuses s' x" for x
    using e(2) u(2) q(3) unfolding agree_def by (cases "x \<in> ?K") auto
  then show ?thesis using q(1,2) u(1) e(1) by (auto simp: steady_def)
qed

end

subsection \<open>Updates of different mirrors\<close>

text \<open>C4.  Updates of different mirrors do not interfere: whatever the interleaving of reports, sizes, schedules and
  client commands that concern pairwise different mirrors, every one of them is answered, and every command posted,
  exactly as when they are served one after the other, and the stored statuses at the end are the same.\<close>

theorem updates_serializable:
  assumes "db_up K wrap c up s" and "\<forall>(clock, post, r)\<in>set rs. (\<forall>n. time_ok (clock n)) \<and> update_ok r"
    and dj: "sorted_wrt (\<lambda>a b. touched (snd (snd a)) \<inter> touched (snd (snd b)) = {}) rs"
    and "sys_step\<^sup>*\<^sup>* (start (kvDBAdapter K wrap) s rs) (h, ts)" and "map answer ts = map Some outs"
  shows "\<exists>s'. serve_seq (kvDBAdapter K wrap) rs s = (outs, s') \<and>
    statuses_of (c (sh_db h)) = statuses_of (c s') \<and> registry (workers_of (c (sh_db h))) = registry (workers_of (c s'))"
  using kvrf.updates_like_sequence [OF assms] .

theorem updates_serializable_witness:
  "\<exists>h ts outs s'. sys_step\<^sup>*\<^sup>* (start (kvDBAdapter ex_K ex_wrap) ex_db ex_two) (h, ts) \<and> map answer ts = map Some outs \<and>
    serve_seq (kvDBAdapter ex_K ex_wrap) ex_two ex_db = (outs, s') \<and>
    statuses_of (ex_c (sh_db h)) = statuses_of (ex_c s')"
proof -
  from start_finishes [OF ex_db_up, of ex_two] obtain h ts outs where
    S: "sys_step\<^sup>*\<^sup>* (start (kvDBAdapter ex_K ex_wrap) ex_db ex_two) (h, ts)" "map answer ts = map Some outs"
    by (auto simp: ex_two_def ex_requests)
  from updates_serializable [OF ex_db_up _ _ S] S show ?thesis by (auto simp: ex_two_def ex_requests)
qed

subsection \<open>What two sections of one handler can lose\<close>

text \<open>A goroutine that runs while the others stand still.\<close>

inductive solo :: "'s shared \<Rightarrow> 's goroutine \<Rightarrow> 's shared \<Rightarrow> 's goroutine \<Rightarrow> bool" where
  solo_refl: "solo h t h t"
| solo_step: "tstep h t h' t' \<Longrightarrow> solo h' t' h'' t'' \<Longrightarrow> solo h t h'' t''"

lemma solo_trans: "solo h t h' t' \<Longrightarrow> solo h' t' h'' t'' \<Longrightarrow> solo h t h'' t''"
  by (induction rule: solo.induct) (auto intro: solo_step)

lemma sys_steps_solo:
  "solo h t h' t' \<Longrightarrow> j < length ts \<Longrightarrow> ts ! j = t \<Longrightarrow> sys_step\<^sup>*\<^sup>* (h, ts) (h', ts[j := t'])"
proof (induction arbitrary: ts rule: solo.induct)
  case (solo_refl h t)
  then show ?case by (metis list_update_id rtranclp.rtrancl_refl)
next
  case (solo_step h t h' t' h'' t'')
  have "sys_step (h, ts) (h', ts[j := t'])" using solo_step by (auto intro: goroutine)
  moreover have "sys_step\<^sup>*\<^sup>* (h', ts[j := t']) (h'', ts[j := t''])"
    using solo_step.IH [of "ts[j := t']"] solo_step.prems by simp
  ultimately show ?case by (rule converse_rtranclp_into_rtranclp)
qed

definition locked_by :: "mode \<Rightarrow> 's \<Rightarrow> 's shared" where
  "locked_by m s = \<lparr>sh_db = s, sh_readers = of_bool (m = Reading), sh_writer = (m = Writing)\<rparr>"

lemma locked_by_simps [simp]:
  "sh_db (locked_by m s) = s" "sh_readers (locked_by m s) = of_bool (m = Reading)" "sh_writer (locked_by m s) = (m = Writing)"
  by (simp_all add: locked_by_def)

lemma locked_tsteps:
  "tstep (locked_by Free s) (Free, RLock p, ps) (locked_by Reading s) (Reading, p, ps)"
  "tstep (locked_by Reading s) (Reading, RUnlock p, ps) (locked_by Free s) (Free, p, ps)"
  "tstep (locked_by Free s) (Free, Lock p, ps) (locked_by Writing s) (Announced, p, ps)"
  "tstep (locked_by Writing s) (Announced, p, ps) (locked_by Writing s) (Writing, p, ps)"
  "tstep (locked_by Writing s) (Writing, Unlock p, ps) (locked_by Free s) (Free, p, ps)"
  "m \<noteq> Announced \<Longrightarrow> tstep (locked_by m s) (m, Call f k, ps) (locked_by m (f s)) (m, k s, ps)"
  using tstep.rlock [of "locked_by Free s" p ps] tstep.runlock [of "locked_by Reading s" p ps]
    tstep.announce [of "locked_by Free s" p ps] tstep.acquire [of "locked_by Writing s" p ps]
    tstep.unlock [of "locked_by Writing s" p ps] tstep.adapter [of m "locked_by m s" f k ps]
  by (simp_all add: locked_by_def)

lemma solo_run:
  "disciplined P st p m \<Longrightarrow> P s \<Longrightarrow> outcome_from p ps s = ((ws, qs), s') \<Longrightarrow>
   solo (locked_by m s) (m, p, ps) (locked_by Free s') (Free, Done ws, qs)"
proof (induction p arbitrary: m s ps)
  case (Done ws')
  then show ?case by (simp add: solo_refl)
next
  case (RLock p)
  from RLock.prems RLock.IH [of Reading s ps] have "m = Free" and "solo (locked_by Reading s) (Reading, p, ps) (locked_by Free s') (Free, Done ws, qs)" by simp_all
  then show ?case by (simp add: solo_step [OF locked_tsteps(1)])
next
  case (RUnlock p)
  from RUnlock.prems RUnlock.IH [of Free s ps] have "m = Reading" and "solo (locked_by Free s) (Free, p, ps) (locked_by Free s') (Free, Done ws, qs)" by simp_all
  then show ?case by (simp add: solo_step [OF locked_tsteps(2)])
next
  case (Lock p)
  from Lock.prems Lock.IH [of Writing s ps] have "m = Free" and "solo (locked_by Writing s) (Writing, p, ps) (locked_by Free s') (Free, Done ws, qs)" by simp_all
  then show ?case by (simp add: solo_step [OF locked_tsteps(3) solo_step [OF locked_tsteps(4)]])
next
  case (Unlock p)
  from Unlock.prems Unlock.IH [of Free s ps] have "m = Writing" and "solo (locked_by Free s) (Free, p, ps) (locked_by Free s') (Free, Done ws, qs)" by simp_all
  then show ?case by (simp add: solo_step [OF locked_tsteps(5)])
next
  case (Call f k)
  from Call.prems Call.IH [OF rangeI [of k s], of m "f s" ps] have "solo (locked_by m (f s)) (m, k s, ps) (locked_by Free s') (Free, Done ws, qs)" and "m \<noteq> Announced" by simp_all
  then show ?case by (simp add: solo_step [OF locked_tsteps(6)])
next
  case (PostWorker u c p)
  from PostWorker.prems PostWorker.IH [of Free s "ps @ [(u, c)]"] have "m = Free" and "solo (locked_by Free s) (Free, p, ps @ [(u, c)]) (locked_by Free s') (Free, Done ws, qs)" by simp_all
  then show ?case by (simp add: solo_step [OF tstep.post])
qed

lemma locked_ask:
  "m \<noteq> Announced \<Longrightarrow> k (f s) = q \<Longrightarrow> tstep (locked_by m s) (m, ask f k, ps) (locked_by m s) (m, q, ps)"
  using locked_tsteps(6) [of m s id "\<lambda>s. k (f s)" ps] by (simp add: ask_def)

lemma tstep_call:
  "m \<noteq> Announced \<Longrightarrow> f s = (r, s') \<Longrightarrow> k r = q \<Longrightarrow> tstep (locked_by n s) (m, call f k, ps) (locked_by n s') (m, q, ps)"
  using tstep.adapter [of m "locked_by n s" "\<lambda>s. snd (f s)" "\<lambda>s. k (fst (f s))" ps] by (simp add: call_def locked_by_def)

lemma solo_section:
  assumes "k (f s) = RUnlock q"
  shows "solo (locked_by Free s) (Free, RLock (ask f k), ps) (locked_by Free s) (Free, q, ps)"
  by (rule solo_step [OF locked_tsteps(1) solo_step [OF locked_ask solo_step [OF locked_tsteps(2) solo_refl]]])
    (simp_all add: assms)

context refreshing_db
begin

text \<open>A command reads the stored status, a report of the same mirror comes in between, then the command writes
  back what it has read.\<close>

lemma command_between:
  assumes s: "up s" "workers s i = Some w" "statuses s (status_key n i) = Some cur" and i: "i \<noteq> []"
    and cmd: "cc_WorkerID cmd = i" "cc_MirrorID cmd = n" "cmd_status (cc_Cmd cmd) = Some v"
    and st: "ms_Name st = n" "\<forall>n. time_ok (clock n)"
  shows "\<exists>h ts outs. sys_step\<^sup>*\<^sup>* (start D s [(clock', post, PostCmd (cmd, None)), (clock, post', PostJob i n (st, None))]) (h, ts) \<and>
    map answer ts = map Some outs \<and> outs ! 1 = fst (serve D clock post' (PostJob i n (st, None)) s) \<and>
    statuses (sh_db h) (status_key n i) = Some (cur\<lparr>ms_Status := v\<rparr>)"
proof -
  let ?c = "handler_of D clock' post (PostCmd (cmd, None))" and ?r = "handler_of D clock post' (PostJob i n (st, None))"
  let ?m = "cur\<lparr>ms_Status := v\<rparr>"
  let ?send = "PostWorker (ws_URL w) (worker_cmd cmd) (case post (ws_URL w) (worker_cmd cmd) of
      Some e \<Rightarrow> Done (bind_writes None @ returnErrJSON 500 (''post command to worker '' @ i @ ''('' @ ws_URL w @ '') fail: '' @ e))
    | None \<Rightarrow> Done (bind_writes None @ [(200, BInfo (''successfully send command to worker '' @ i))]))"
  let ?p = "Lock (call (db_UpdateMirrorStatus D i n ?m) (\<lambda>_. Unlock ?send))"
  from status_wf [OF s(1,3)] cmd(3) have ok: "key_ok (status_key n i)" "MirrorStatus_ok ?m"
    by (auto simp: MirrorStatus_ok_def cmd_status_def split: CmdVerb.splits)
  let ?q = "RLock (ask (db_GetMirrorStatus D i n) (\<lambda>(curStat, _). RUnlock
      (Lock (call (db_UpdateMirrorStatus D i n (curStat\<lparr>ms_Status := v\<rparr>)) (\<lambda>_. Unlock ?send)))))"
  have "solo (locked_by Free s) (Free, ?c, []) (locked_by Free s) (Free, ?q, [])"
    unfolding handler_of.simps handleClientCmd_h_def Let_def fst_conv snd_conv cmd if_not_P [OF i] option.case
    by (rule solo_section) (simp only: get_worker [OF s(1)] s(2) option.case prod.case)
  moreover have "solo (locked_by Free s) (Free, ?q, []) (locked_by Free s) (Free, ?p, [])"
    by (rule solo_section) (simp only: get_status [OF s(1)] s(3) option.case prod.case)
  ultimately have 1: "solo (locked_by Free s) (Free, ?c, []) (locked_by Free s) (Free, ?p, [])" by (rule solo_trans)
  obtain ws qs s2 where r: "serve D clock post' (PostJob i n (st, None)) s = ((ws, qs), s2)" by (metis prod.exhaust)
  have 2: "solo (locked_by Free s) (Free, ?r, []) (locked_by Free s2) (Free, Done ws, qs)"
    by (rule solo_run [OF disciplined_handler s(1)])
      (use ok(1) st r in \<open>simp_all add: outcome_from_Nil run_handler del: handler_of.simps serve.simps\<close>)
  have s2: "up s2" using serve_up [OF s(1) st(2), of "PostJob i n (st, None)" post'] r ok(1) st(1) by simp
  from update_status [OF s2 ok] obtain s3 where s3: "db_UpdateMirrorStatus D i n ?m s2 = ((?m, None), s3)"
    "statuses s3 = (statuses s2)(status_key n i \<mapsto> ?m)" by blast
  have send: "disciplined up statuses ?send Free" by (simp split: option.split)
  obtain ws' qs' where o: "outcome_from ?p [] s2 = ((ws', qs'), s3)"
    by (cases "post (ws_URL w) (worker_cmd cmd)") (simp_all add: call_def s3(1))
  have 3: "solo (locked_by Free s2) (Free, ?p, []) (locked_by Free s3) (Free, Done ws', qs')"
    by (rule solo_run [where P = up and st = statuses, OF _ s2 o]) (use send ok(1) in \<open>auto intro!: disciplined_update simp del: disciplined_call\<close>)
  from sys_steps_solo [OF 1, of 0 "[(Free, ?c, []), (Free, ?r, [])]"] sys_steps_solo [OF 2, of 1 "[(Free, ?p, []), (Free, ?r, [])]"]
    sys_steps_solo [OF 3, of 0 "[(Free, ?p, []), (Free, Done ws, qs)]"]
  have "sys_step\<^sup>*\<^sup>* (locked_by Free s, [(Free, ?c, []), (Free, ?r, [])]) (locked_by Free s3, [(Free, Done ws', qs'), (Free, Done ws, qs)])"
    by (auto intro: rtranclp_trans simp del: handler_of.simps)
  then have "sys_step\<^sup>*\<^sup>* (start D s [(clock', post, PostCmd (cmd, None)), (clock, post', PostJob i n (st, None))])
      (locked_by Free s3, [(Free, Done ws', qs'), (Free, Done ws, qs)])"
    by (simp add: start_def locked_by_def del: handler_of.simps)
  moreover have "map answer [(Free, Done ws', qs'), (Free, Done ws, qs)] = map Some [(ws', qs'), (ws, qs)]" by simp
  moreover have "statuses (sh_db (locked_by Free s3)) (status_key n i) = Some ?m" using s3(2) by simp
  moreover have "[(ws', qs'), (ws, qs)] ! 1 = fst (serve D clock post' (PostJob i n (st, None)) s)" using r by simp
  ultimately show ?thesis by blast
qed

text \<open>Served one after the other, in either order, the report's time of the last update is kept.\<close>

lemma command_in_sequence:
  assumes s: "up s" "workers s i = Some w" and i: "i \<noteq> []" "key_ok (status_key n i)"
    and cmd: "cc_WorkerID cmd = i" "cc_MirrorID cmd = n"
    and st: "ms_Name st = n" "ms_Status st = Success" "time_ok (ms_Scheduled st)" "\<forall>n. time_ok (clock n)"
  shows "map_option ms_LastUpdate (statuses (snd (serve_seq D
      [(clock', post, PostCmd (cmd, None)), (clock, post', PostJob i n (st, None))] s)) (status_key n i)) = Some (clock 1)"
    and "map_option ms_LastUpdate (statuses (snd (serve_seq D
      [(clock, post', PostJob i n (st, None)), (clock', post, PostCmd (cmd, None))] s)) (status_key n i)) = Some (clock 1)"
proof -
  have report: "\<exists>out s'. serve D clock post' (PostJob i n (st, None)) u = (out, s') \<and> up s' \<and> workers s' = refreshed (clock 0) i (workers u) \<and>
      statuses s' = (statuses u)(status_key n i \<mapsto> merge_status (clock 1) (cur_status (statuses u) i n) st)"
    if "up u" "workers u i \<noteq> None" for u
    using updateJob_stores [OF that(1) spec [OF st(4), of 0] spec [OF st(4), of 1], of st i None] that i(2) st
    by (auto simp: validated_passes)
  have command: "\<exists>out s'. serve D clock' post (PostCmd (cmd, None)) u = (out, s') \<and> up s' \<and> workers s' = workers u \<and>
      statuses s' = cmd_statuses cmd (statuses u)" if "up u" "workers u i \<noteq> None" for u
  proof -
    from that(2) obtain w' where "workers u i = Some w'" by auto
    with handleClientCmd_known [OF that(1), of cmd w' post None] i cmd show ?thesis by auto
  qed
  from command [OF s(1)] s(2) obtain out s1 where c1: "serve D clock' post (PostCmd (cmd, None)) s = (out, s1)" "up s1" "workers s1 = workers s" by auto
  from report [OF c1(2)] c1(3) s(2) obtain out' s2 where r2: "serve D clock post' (PostJob i n (st, None)) s1 = (out', s2)"
    "statuses s2 = (statuses s1)(status_key n i \<mapsto> merge_status (clock 1) (cur_status (statuses s1) i n) st)" by auto
  from c1(1) r2 show "map_option ms_LastUpdate (statuses (snd (serve_seq D
      [(clock', post, PostCmd (cmd, None)), (clock, post', PostJob i n (st, None))] s)) (status_key n i)) = Some (clock 1)"
    using st(2) by (simp del: serve.simps)
  from report [OF s(1)] s(2) obtain out s1 where r1: "serve D clock post' (PostJob i n (st, None)) s = (out, s1)" "up s1"
    "workers s1 = refreshed (clock 0) i (workers s)"
    "statuses s1 = (statuses s)(status_key n i \<mapsto> merge_status (clock 1) (cur_status (statuses s) i n) st)" by auto
  have "workers s1 i \<noteq> None" using r1(3) s(2) by (simp add: refreshed_def)
  from command [OF r1(2) this] obtain out' s2 where c2: "serve D clock' post (PostCmd (cmd, None)) s1 = (out', s2)"
    "statuses s2 = cmd_statuses cmd (statuses s1)" by auto
  from r1(1,4) c2 show "map_option ms_LastUpdate (statuses (snd (serve_seq D
      [(clock, post', PostJob i n (st, None)), (clock', post, PostCmd (cmd, None))] s)) (status_key n i)) = Some (clock 1)"
    using st(2) cmd by (simp add: cmd_statuses_def cur_status_def del: serve.simps split: option.split)
qed

end

text \<open>A command to stop or disable a mirror reads the stored status and writes it back in two separate critical
  sections.  A report of a successful run that is handled in between is answered with 200 and then lost: the
  stored status keeps the old times and size, although in either order of serving the two requests the time of
  the last update is the one of the report.\<close>

theorem command_loses_report:
  assumes s: "db_up K wrap c up s" "workers_of (c s) i = Some w" "statuses_of (c s) (status_key n i) = Some cur" and i: "i \<noteq> []"
    and cmd: "cc_WorkerID cmd = i" "cc_MirrorID cmd = n" "cmd_status (cc_Cmd cmd) = Some v"
    and st: "ms_Name st = n" "ms_Status st = Success" "time_ok (ms_Scheduled st)" "\<forall>n. time_ok (clock n)"
    and ab: "a = (clock', post, PostCmd (cmd, None))" "b = (clock, post', PostJob i n (st, None))"
  shows "(\<exists>h ts outs. sys_step\<^sup>*\<^sup>* (start (kvDBAdapter K wrap) s [a, b]) (h, ts) \<and> map answer ts = map Some outs \<and>
      outs ! 1 = fst (serve (kvDBAdapter K wrap) clock post' (PostJob i n (st, None)) s) \<and>
      statuses_of (c (sh_db h)) (status_key n i) = Some (cur\<lparr>ms_Status := v\<rparr>)) \<and>
    map_option ms_LastUpdate (statuses_of (c (snd (serve_seq (kvDBAdapter K wrap) [a, b] s))) (status_key n i)) = Some (clock 1) \<and>
    map_option ms_LastUpdate (statuses_of (c (snd (serve_seq (kvDBAdapter K wrap) [b, a] s))) (status_key n i)) = Some (clock 1)"
proof -
  have "key_ok (status_key n i)" using kvdb.status_wf [OF s(1,3)] by simp
  with kvrf.command_between [OF s i cmd st(1,4)] kvrf.command_in_sequence [OF s(1,2) i _ cmd(1,2) st]
  show ?thesis unfolding ab by blast
qed

context refreshing_db
begin

text \<open>A worker registers again while another request of it is between the two halves of \<open>RefreshWorker\<close>:
  \<open>registerWorker\<close> does not take the lock, and the read lock would not keep it out of the write anyway.\<close>

definition report_rest where
  "report_rest cur i st = ask (db_GetMirrorStatus D i (ms_Name st)) (\<lambda>(curStatus, _). RUnlock
     (Lock (call (db_UpdateMirrorStatus D i (ms_Name st) (merge_status cur curStatus st)) (\<lambda>u. Unlock (case u of
        (_, Some e) \<Rightarrow> Done ((bind_writes None @ (if length (ms_Name st) = 0
            then returnErrJSON 400 ''mirror Name should not be empty'' else [])) @
          returnErrJSON 500 (update_job_error (ms_Name st) i e))
      | (newStatus, None) \<Rightarrow> Done ((bind_writes None @ (if length (ms_Name st) = 0
            then returnErrJSON 400 ''mirror Name should not be empty'' else [])) @ [(200, BJob newStatus)]))))))"

lemma report_handler: "handler_of D clock post (PostJob i n (st, None)) =
    validated_h D i (RLock (RefreshWorker_h D (clock 0) i (report_rest (clock 1) i st)))"
  by (simp only: handler_of.simps updateJobOfWorker_h_def Let_def report_rest_def fst_conv snd_conv)

lemma disciplined_report_rest:
  "key_ok (status_key (ms_Name st) i) \<Longrightarrow> disciplined up statuses (report_rest cur i st) Reading"
  unfolding report_rest_def
  by (auto intro!: disciplined_update split: prod.split option.split simp del: disciplined_call)

lemma report_rest_workers:
  assumes "up u" and k: "key_ok (status_key (ms_Name st) i)"
  shows "workers (snd (run (report_rest cur i st) u)) = workers u"
proof -
  let ?m = "merge_status cur (fst (db_GetMirrorStatus D i (ms_Name st) u)) st"
  have "workers (snd (db_UpdateMirrorStatus D i (ms_Name st) ?m u)) = workers u"
    using update_status [OF assms, of ?m] update_bad_status [of ?m i "ms_Name st" u] by (cases "MirrorStatus_ok ?m") auto
  moreover have "snd (run (report_rest cur i st) u) = snd (db_UpdateMirrorStatus D i (ms_Name st) ?m u)"
    by (simp add: report_rest_def split: prod.split option.split)
  ultimately show ?thesis by simp
qed

lemma register_between:
  assumes s: "up s" "workers s i = Some w" and w': "ws_ID w' = i" and t: "\<forall>n. time_ok (clock n)" "\<forall>n. time_ok (clock' n)"
    and k: "key_ok (status_key (ms_Name st) i)"
  shows "\<exists>h ts outs. sys_step\<^sup>*\<^sup>* (start D s [(clock, post, PostJob i n (st, None)), (clock', post', PostWorkers (w', None))]) (h, ts) \<and>
    map answer ts = map Some outs \<and> outs ! 1 = fst (serve D clock' post' (PostWorkers (w', None)) s) \<and>
    map_option ws_URL (workers (sh_db h) i) = Some (ws_URL w)"
proof -
  let ?w = "w\<lparr>ws_LastOnline := clock 0\<rparr>" and ?w' = "w'\<lparr>ws_LastOnline := clock' 0, ws_LastRegister := clock' 1\<rparr>"
  let ?r = "handler_of D clock post (PostJob i n (st, None))" and ?g = "handler_of D clock' post' (PostWorkers (w', None))"
  let ?q = "report_rest (clock 1) i st"
  let ?p = "call (db_CreateWorker D ?w) (\<lambda>_. ?q)"
  note get = get_worker [OF s(1), of i, unfolded s(2) option.case]
  have "tstep (locked_by Free s) (Free, ?r, []) (locked_by Free s) (Free, RLock (RefreshWorker_h D (clock 0) i ?q), [])"
    unfolding report_handler validated_h_def by (rule locked_ask) (simp_all add: get)
  moreover have "tstep (locked_by Reading s) (Reading, RefreshWorker_h D (clock 0) i ?q, []) (locked_by Reading s) (Reading, ?p, [])"
    unfolding RefreshWorker_h_def by (rule locked_ask) (simp_all add: get)
  ultimately have 1: "solo (locked_by Free s) (Free, ?r, []) (locked_by Reading s) (Reading, ?p, [])"
    by (rule solo_step [OF _ solo_step [OF locked_tsteps(1) solo_step [OF _ solo_refl]]])
  from registerWorker_stores [OF s(1) spec [OF t(2), of 0] spec [OF t(2), of 1], of w' None] worker_key [OF s] w'
  obtain s1 where s1: "db_CreateWorker D ?w' s = ((?w', None), s1)" "up s1"
    using create_worker [OF s(1), of ?w'] t by (auto simp: WorkerStatus_ok_def)
  have 2: "solo (locked_by Reading s) (Free, ?g, []) (locked_by Reading s1) (Free, Done [(200, BWorker ?w')], [])"
    unfolding handler_of.simps registerWorker_h_def Let_def fst_conv snd_conv
    by (rule solo_step [OF tstep_call [where f = "db_CreateWorker D ?w'", OF _ s1(1)] solo_refl]) (simp_all add: bind_writes_def)
  from create_again [OF s spec [OF t(1)] s1(2), of 0] obtain s2 where s2: "db_CreateWorker D ?w s1 = ((?w, None), s2)" "up s2"
    "workers s2 = (workers s1)(i \<mapsto> ?w)" by blast
  have dp: "disciplined up statuses ?p Reading"
  proof -
    have "up (snd (db_CreateWorker D ?w u)) \<and> statuses (snd (db_CreateWorker D ?w u)) = statuses u" if "up u" for u
      using create_again [OF s spec [OF t(1)] that, of 0] by auto
    with disciplined_report_rest [OF k] show ?thesis by simp
  qed
  obtain ws qs s3 where o: "outcome_from ?p [] s1 = ((ws, qs), s3)" by (metis prod.exhaust)
  from solo_run [where P = up and st = statuses, OF dp s1(2) o] have
    3: "solo (locked_by Reading s1) (Reading, ?p, []) (locked_by Free s3) (Free, Done ws, qs)" .
  have "s3 = snd (run ?q s2)" using o by (simp add: outcome_from_Nil s2(1))
  with report_rest_workers [OF s2(2) k] s2(3) have w3: "map_option ws_URL (workers s3 i) = Some (ws_URL w)" by simp
  from sys_steps_solo [OF 1, of 0 "[(Free, ?r, []), (Free, ?g, [])]"] sys_steps_solo [OF 2, of 1 "[(Reading, ?p, []), (Free, ?g, [])]"]
    sys_steps_solo [OF 3, of 0 "[(Reading, ?p, []), (Free, Done [(200, BWorker ?w')], [])]"]
  have "sys_step\<^sup>*\<^sup>* (start D s [(clock, post, PostJob i n (st, None)), (clock', post', PostWorkers (w', None))])
      (locked_by Free s3, [(Free, Done ws, qs), (Free, Done [(200, BWorker ?w')], [])])"
    by (auto simp: start_def locked_by_def [of Free s] intro: rtranclp_trans simp del: handler_of.simps)
  moreover have "map answer [(Free, Done ws, qs), (Free, Done [(200, BWorker ?w')], [])] = map Some [(ws, qs), ([(200, BWorker ?w')], [])]"
    by simp
  moreover have "[(ws, qs), ([(200, BWorker ?w')], [])] ! 1 = fst (serve D clock' post' (PostWorkers (w', None)) s)"
    by (simp add: registerWorker_def Let_def s1(1) [unfolded One_nat_def] bind_writes_def)
  ultimately show ?thesis using w3 by (metis locked_by_simps(1))
qed

lemma register_in_sequence:
  assumes s: "up s" "workers s i = Some w" and w': "ws_ID w' = i" and t: "\<forall>n. time_ok (clock n)" "\<forall>n. time_ok (clock' n)"
    and st: "key_ok (status_key (ms_Name st) i)" "status_ok (ms_Status st)" "time_ok (ms_Scheduled st)"
  shows "map_option ws_URL (workers (snd (serve_seq D
      [(clock, post, PostJob i n (st, None)), (clock', post', PostWorkers (w', None))] s)) i) = Some (ws_URL w')"
    and "map_option ws_URL (workers (snd (serve_seq D
      [(clock', post', PostWorkers (w', None)), (clock, post, PostJob i n (st, None))] s)) i) = Some (ws_URL w')"
proof -
  let ?w' = "w'\<lparr>ws_LastOnline := clock' 0, ws_LastRegister := clock' 1\<rparr>"
  have report: "\<exists>out s'. serve D clock post (PostJob i n (st, None)) u = (out, s') \<and> up s' \<and>
      workers s' = refreshed (clock 0) i (workers u)" if "up u" "workers u i \<noteq> None" for u
    using updateJob_stores [OF that(1) spec [OF t(1), of 0] spec [OF t(1), of 1] st, of None] that by (auto simp: validated_passes)
  have register: "\<exists>out s'. serve D clock' post' (PostWorkers (w', None)) u = (out, s') \<and> up s' \<and>
      workers s' = (workers u)(i \<mapsto> ?w')" if "up u" for u
    using registerWorker_stores [OF that spec [OF t(2), of 0] spec [OF t(2), of 1], of w' None] worker_key [OF s] w' by auto
  from report [OF s(1)] s(2) obtain o1 s1 where r1: "serve D clock post (PostJob i n (st, None)) s = (o1, s1)" "up s1" by auto
  from register [OF r1(2)] obtain o2 s2 where "serve D clock' post' (PostWorkers (w', None)) s1 = (o2, s2)"
    "workers s2 = (workers s1)(i \<mapsto> ?w')" by auto
  with r1(1) show "map_option ws_URL (workers (snd (serve_seq D
      [(clock, post, PostJob i n (st, None)), (clock', post', PostWorkers (w', None))] s)) i) = Some (ws_URL w')"
    by (simp del: serve.simps)
  from register [OF s(1)] obtain o3 s3 where g1: "serve D clock' post' (PostWorkers (w', None)) s = (o3, s3)" "up s3"
    "workers s3 = (workers s)(i \<mapsto> ?w')" by auto
  from report [OF g1(2)] g1(3) obtain o4 s4 where "serve D clock post (PostJob i n (st, None)) s3 = (o4, s4)"
    "workers s4 = refreshed (clock 0) i (workers s3)" by auto
  with g1 show "map_option ws_URL (workers (snd (serve_seq D
      [(clock', post', PostWorkers (w', None)), (clock, post, PostJob i n (st, None))] s)) i) = Some (ws_URL w')"
    by (simp add: refreshed_def del: serve.simps)
qed

end

text \<open>A report stores the worker it has read with a new time stamp (\<open>RefreshWorker\<close>), under the read lock only, and
  \<open>registerWorker\<close> takes no lock.  A worker that registers again with another URL in between is answered with
  200, and its new URL is lost; served in either order the new URL is kept.\<close>

theorem report_loses_registration:
  assumes s: "db_up K wrap c up s" "workers_of (c s) i = Some w" and w': "ws_ID w' = i"
    and t: "\<forall>n. time_ok (clock n)" "\<forall>n. time_ok (clock' n)"
    and st: "key_ok (status_key (ms_Name st) i)" "status_ok (ms_Status st)" "time_ok (ms_Scheduled st)"
    and ab: "a = (clock, post, PostJob i n (st, None))" "b = (clock', post', PostWorkers (w', None))"
  shows "(\<exists>h ts outs. sys_step\<^sup>*\<^sup>* (start (kvDBAdapter K wrap) s [a, b]) (h, ts) \<and> map answer ts = map Some outs \<and>
      outs ! 1 = fst (serve (kvDBAdapter K wrap) clock' post' (PostWorkers (w', None)) s) \<and>
      map_option ws_URL (workers_of (c (sh_db h)) i) = Some (ws_URL w)) \<and>
    map_option ws_URL (workers_of (c (snd (serve_seq (kvDBAdapter K wrap) [a, b] s))) i) = Some (ws_URL w') \<and>
    map_option ws_URL (workers_of (c (snd (serve_seq (kvDBAdapter K wrap) [b, a] s))) i) = Some (ws_URL w')"
  using kvrf.register_between [OF s w' t st(1)] kvrf.register_in_sequence [OF s w' t st] unfolding ab by blast

end
