(* ===== verification/Spec2Isabelle.thy ===== *)
theory Spec2Isabelle
  imports Command_Line Job_Run Job_Control Manager_Serial
begin

text \<open>
  A verification of tunasync, the mirror job manager, from its Go sources under src/.

  \<^bold>\<open>The program.\<close>  A manager (manager/) keeps the workers and the status of their mirrors in a key-value store and
  serves an HTTP interface.  A worker (worker/) runs the synchronisation of its mirrors: it registers with
  managers, fetches the last known statuses, schedules its jobs, runs them with a bound on concurrency, and reports
  every change of state.  A client (cmd/tunasynctl) lists and commands jobs through the manager, which forwards
  commands to the HTTP server of the worker.  Both servers are started by cmd/tunasync.  The messages they exchange
  and the helpers they share are in internal/.

  \<^bold>\<open>Conventions.\<close>  Structs are records with the fields of the source, enumerations are datatypes, slices that may be
  \<open>nil\<close> are optional lists, strings are byte strings, instants and durations are integers in nanoseconds, and Go's
  \<open>int\<close> is \<open>int\<close>: no value computed from the inputs comes near the width of the machine.  An error is a string, an
  optional error the second result of Go; a panic is \<open>None\<close>, and so is a loop that never ends.  What the program
  does outside a component is a list of effects in their order.  Code outside src/ (stores, skip list, TOML, JSON
  text, regular expressions, cgroups, the command-line and HTTP libraries) and the operating system are arguments of
  the definitions; where a theorem needs their documented behaviour, it is a named predicate (\<open>bolt_laws\<close>,
  \<open>skiplist_laws\<close>, \<open>mergo_laws\<close>, \<open>own_group_drains\<close>, \<open>kills\<close>) and a witness has an instance of it.

  \<^bold>\<open>The shared part.\<close>
  \<^item> \<open>Go_Prelude\<close>: strings, slices, times and numbers of Go, with the lemmas that all theories use.
  \<^item> \<open>Json_Doc\<close>: JSON documents, encoding and decoding of structs with Go's treatment of unknown, repeated and
    wrongly typed members.
  \<^item> \<open>Messages\<close> (internal/msg.go, status.go, status_web.go): statuses, verbs, the records sent and their encodings,
    with the round trips.
  \<^item> \<open>Rsync_Util\<close> (internal/util.go): exit codes of rsync and the size found in a log.
  \<^item> \<open>Logger\<close> (internal/logger.go): levels, handler and methods; which messages the options let through and what a
    line looks like.

  \<^bold>\<open>The manager.\<close>
  \<^item> \<open>Kv_Store\<close> (manager/db_*.go): the four adapters over their stores.  The locale \<open>kv_store\<close> is the contract
    of \<open>kvAdapter\<close> on the contents of two buckets; each adapter interprets it.
  \<^item> \<open>Manager_Db\<close> (manager/db.go): \<open>kvDBAdapter\<close> over any \<open>kv_store\<close>.  The locale \<open>db_adapter\<close> specifies the database
    as two maps, of workers and of statuses, and \<open>kvDBAdapter\<close> refines it: what is listed, stored, refreshed,
    deleted and flushed.
  \<^item> \<open>Manager_Server\<close> (manager/server.go, middleware.go): every handler, the validation of the worker, the routes
    (\<open>serve\<close>) and sequences of requests, over any \<open>db_adapter\<close>.  Shown: what a report changes, what a command
    does, that every sequence of requests keeps the database well-formed, and the answers to unknown workers.
  \<^item> \<open>Manager_Concurrent\<close> (the lock \<open>rwmu\<close> of manager/server.go): the same handlers as trees of atomic actions, run by
    goroutines in any order over the database and the lock.  Alone, a goroutine does what \<open>serve\<close> does; in every
    interleaving the lock is exclusive, the database stays well-formed and every request is answered.  The locale
    \<open>refreshing_db\<close> extends \<open>db_adapter\<close> by how \<open>RefreshWorker\<close> is composed.
  \<^item> \<open>Manager_Serial\<close>: updates of different mirrors have the effect of serving them one after the other; two
    interleavings on one mirror or worker that have not.

  \<^bold>\<open>The worker.\<close>
  \<^item> \<open>Worker_Config\<close> (worker/config.go): the configuration, and \<open>LoadConfig\<close> with its nested mirrors, which it
    flattens by inheritance.
  \<^item> \<open>Config_Diff\<close> (worker/config_diff.go): the difference of two configurations; applying it to the old one gives
    the new one, and its panic.
  \<^item> \<open>Schedule_Queue\<close> (worker/schedule.go): the queue over the skip list, with an invariant between the list and the
    set of names; the locale \<open>job_queue\<close> has the contract, which the queue refines.
  \<^item> \<open>Layered_Context\<close> (worker/context.go): the stack of contexts; the locale \<open>layered_store\<close> has its laws.
  \<^item> \<open>Provider\<close> (worker/provider.go and the constructors): \<open>newMirrorProvider\<close>, the three providers, their command
    lines, environments, settings and exit codes.
  \<^item> \<open>Job_Hooks\<close> (worker/*_hook.go, docker.go): the hooks as functions on the provider and its context; a run
    leaves the context as it was; which logs are deleted.
  \<^item> \<open>Provider_Run\<close> (worker/runner.go, \<open>Start\<close>, \<open>Run\<close>, \<open>Wait\<close>, \<open>Terminate\<close>): one command, the log file and the
    runs of the three providers over the answers of the operating system, with the outcome of every run; and the
    two-stage provider with \<open>Terminate\<close> beside it, as a step relation on the shared lock, with an invariant of the
    reachable states.
  \<^item> \<open>Cgroup\<close> (worker/cgroup.go): \<open>initCgroup\<close>, the child's \<open>waitExec\<close> and the hook.
  \<^item> \<open>Mirror_Job\<close> (worker/job.go, \<open>runJobWrapper\<close>): one run over any provider: hooks, attempts, messages.
  \<^item> \<open>Job_Run\<close>: that run with the hooks and providers above.  The locale \<open>kept_by_provider\<close> has what an operation
    of a provider may change; the theorem says that a reported success is one.
  \<^item> \<open>Job_Control\<close> (worker/job.go, \<open>Run\<close> and \<open>runJob\<close>): the goroutines of all jobs, their channels and the semaphore
    as steps in any order; the locale \<open>step_invariant\<close> is interpreted for the counting and for the order of runs:
    concurrency is bounded, a job runs once at a time, a killed run ends.
  \<^item> \<open>Worker_Core\<close> (worker/worker.go): the state of a worker and its handlers; jobs are shared between the map of jobs
    and the queue, so they are addresses in a store.  \<open>Worker_System\<close> has the properties of creation, start-up and
    reload, \<open>Worker_Steps\<close> the handlers as a transition system with its invariant: the schedule has only
    current, enabled jobs, each once.

  \<^bold>\<open>The programs.\<close>
  \<^item> \<open>Control_Client\<close> (cmd/tunasynctl, HTTP helpers of internal/util.go): the actions against any network, and the manager
    of \<open>Manager_Server\<close> behind its routes as one; what the client prints is what the manager did.
  \<^item> \<open>Main_Program\<close> (cmd/tunasync, manager/config.go, \<open>makeDBAdapter\<close>, \<open>GetTUNASyncManager\<close>): how a manager and a
    worker come up, and signals.
  \<^item> \<open>Command_Line\<close>: the commands and flags of both programs, the version printer and \<open>main\<close>.
  \<^item> This theory: what needs a manager and a worker at once.  A report arrives in the database, a command typed at
    the client arrives at the job, and a disabled mirror stays disabled over a restart.

  \<^bold>\<open>Termination and bounds.\<close>  All loops over data are structural.  The retries of a run and the rounds of
  \<open>killAll\<close> are functions with a measure.  The endless loop of \<open>initCgroup\<close> is a \<open>partial_function\<close>; it ends when
  moving a process takes it out of its group and only finitely many appear.  Nothing uses fuel: step relations have
  runs of any length, and those of the manager's goroutines are bounded by \<open>request_steps\<close>.

  \<^bold>\<open>Not modelled.\<close>  Parsing of text (TOML, JSON, shell words, units such as the memory limit) and of command lines; Go
  templates; sockets, TLS and the timeouts of net/http; profiling; the programs under tests/.  The properties
  that combine the manager with the worker or the client take the requests of the manager one after the other.
  The handlers of the worker hold its lock, and where it is released (the handling of a status message) the parts
  are steps of their own.  Identifiers in URLs are restricted to
  characters that need no escaping.
\<close>

section \<open>Properties that span the manager and the worker\<close>

text \<open>C14.  A report of a worker reaches the database of a manager.  When the worker handles a status message
  and posts a status, the encoding of the posted record can be decoded by the manager to the same
  record, the manager answers 200 and stores it for that mirror and worker, with the state, the upstream
  and the error message that the worker reported; a success sets the last update to the manager's clock;
  a size the worker does not know leaves the size the manager knows.\<close>

theorem report_reaches_manager:
  assumes "worker_inv S ok w" and "status_message_received S now m w = (es, w')" and "Post url (PStatus st) \<in> set es"
    and "status_ok (jm_status m)" and "jm_name m \<noteq> []" and "key_ok (status_key (jm_name m) (worker_Name w))"
    and "db_up K wrap c up s" and "workers_of (c s) (worker_Name w) \<noteq> None" and "time_ok (clock 0)" and "time_ok (clock 1)"
    and "cur = cur_status (statuses_of (c s)) (worker_Name w) (jm_name m)"
  shows "\<exists>i j r s'. wk_jobs w (jm_name m) = Some i \<and> MirrorStatus_Marshal st = Inr j \<and>
    serve (kvDBAdapter K wrap) clock post (PostJob (worker_Name w) (jm_name m) (MirrorStatus_Unmarshal j zero_MirrorStatus)) s =
      (([(200, BJob r)], []), s') \<and> db_up K wrap c up s' \<and>
    statuses_of (c s') = (statuses_of (c s))(status_key (jm_name m) (worker_Name w) \<mapsto> r) \<and>
    ms_Status r = jm_status m \<and> ms_ErrorMsg r = jm_msg m \<and> ms_Upstream r = Upstream (mj_provider (wk_heap w i)) \<and>
    ms_LastUpdate r = (if jm_status m = Success then clock 1 else ms_LastUpdate cur) \<and>
    (mj_size (wk_heap w i) = '''' \<longrightarrow> known_size (ms_Size cur) \<longrightarrow> ms_Size r = ms_Size cur)"
proof -
  obtain i where i: "message_check m w = Some i" and f: "message_finish S now m i w = (es, w')"
    using assms(2,3) by (auto simp: status_message_received_def split: option.splits)
  have wi: "wk_jobs w (jm_name m) = Some i" using i by (auto simp: message_check_def split: option.splits if_splits)
  have "es = updateStatus w i m @ report_schedule S w'" using f by (auto simp: message_finish_def Let_def)
  then have st: "st = status_report w i m"
    using assms(3) report_schedule_posts by (fastforce simp: updateStatus_report)
  have ok: "MirrorStatus_ok st" using assms(4) by (simp add: st status_report_def MirrorStatus_ok_def zero_MirrorStatus_def)
  then obtain j where j: "MirrorStatus_Marshal st = Inr j" "MirrorStatus_Unmarshal j zero_MirrorStatus = (st, None)"
    by (metis MirrorStatus_Marshal_Inr MirrorStatus_roundtrip)
  have n: "ms_Name st = jm_name m" "ms_Status st = jm_status m" "ms_Scheduled st = zero_time"
    by (simp_all add: st status_report_def zero_MirrorStatus_def)
  let ?r = "merge_status (clock 1) cur st"
  from kvdb.updateJob_stores [OF assms(7,9,10), of st "worker_Name w" None] assms(4-6,11) n obtain s' where
    s': "updateJobOfWorker (kvDBAdapter K wrap) (clock 0) (clock 1) (worker_Name w) (st, None) s = ([(200, BJob ?r)], s')"
      "db_up K wrap c up s'" "statuses_of (c s') = (statuses_of (c s))(status_key (jm_name m) (worker_Name w) \<mapsto> ?r)"
    by (auto simp: bind_writes_def)
  have r: "ms_Status ?r = jm_status m" "ms_ErrorMsg ?r = jm_msg m" "ms_Upstream ?r = Upstream (mj_provider (wk_heap w i))"
      "ms_LastUpdate ?r = (if jm_status m = Success then clock 1 else ms_LastUpdate cur)"
    by (simp_all add: merge_status_def Let_def st status_report_def)
  have "ms_Size ?r = ms_Size cur" if "mj_size (wk_heap w i) = ''''" "known_size (ms_Size cur)"
    using that by (simp add: merge_status_Size known_size_def st status_report_def)
  with wi j s' r kvdb.validated_passes [OF assms(7,8)] show ?thesis by auto
qed

text \<open>A client command arrives at the job.  For a registered worker that can be reached, the manager
  answers 200, posts the command once and stores the state that \<open>stop\<close> and \<open>disable\<close> imply; the verb
  survives its encoding; and the worker that gets the command acts on the job as specified for the verb
  and cancels its scheduled run.\<close>

lemma client_command_reaches_job:
  assumes "db_up K wrap c up s" and "workers_of (c s) i = Some wst" and "i \<noteq> []" and "key_ok (status_key n i)"
    and "cmd = \<lparr>cc_Cmd = verb, cc_MirrorID = n, cc_WorkerID = i, cc_Args = args, cc_Options = opts\<rparr>" and "\<forall>x. verb \<noteq> OtherCmd x"
    and "worker_inv S ok w" and "wk_jobs w n = Some k" and "n \<noteq> []"
  shows "\<exists>s' r es w'. serve (kvDBAdapter K wrap) clock (\<lambda>_ _. None) (PostCmd (cmd, None)) s =
      (([(200, BInfo (''successfully send command to worker '' @ i))], [(ws_URL wst, worker_cmd cmd)]), s') \<and>
    statuses_of (c s') = cmd_statuses cmd (statuses_of (c s)) \<and>
    CmdVerb_MarshalJSON verb = Inr (JStr (CmdVerb_String verb)) \<and> CmdVerb_UnmarshalJSON (JStr (CmdVerb_String verb)) = Inr verb \<and>
    handle_command S (worker_cmd cmd, None) w = (r, es, w') \<and>
    (r, es) = command_spec (worker_cmd cmd) k (mj_state (wk_heap w k) = stateDisabled) \<and>
    view S w' = (view S w)(n \<mapsto> (k, if verb = CmdDisable then (wk_heap w k)\<lparr>mj_state := stateDisabled\<rparr> else wk_heap w k, {}))"
proof -
  obtain r es w' where c: "job_command S (worker_cmd cmd) k w = (r, es, w')" by (cases "job_command S (worker_cmd cmd) k w") auto
  note J = job_command_result [OF assms(7,8) c]
  have h: "handle_command S (worker_cmd cmd, None) w = (r, es, w')" using c assms(5,8,9) by (simp add: handle_command_def worker_cmd_def)
  have v: "CmdVerb_UnmarshalJSON (JStr (CmdVerb_String verb)) = Inr verb" using assms(6) by (cases verb) (simp_all add: NewCmdVerbFromString_def)
  from kvdb.handleClientCmd_known [OF assms(1), of cmd wst "\<lambda>_ _. None" None] assms(2-5) obtain s' where
    "handleClientCmd (kvDBAdapter K wrap) (\<lambda>_ _. None) (cmd, None) s =
      (([(200, BInfo (''successfully send command to worker '' @ i))], [(ws_URL wst, worker_cmd cmd)]), s')"
    "statuses_of (c s') = cmd_statuses cmd (statuses_of (c s))" by (auto simp: bind_writes_def)
  with h v J(1,3) assms(5) show ?thesis by (simp add: CmdVerb_MarshalJSON_def worker_cmd_def)
qed


text \<open>C12.  A mirror that was disabled stays disabled when its worker restarts.  After a disable command for a
  mirror that the manager knows by its name, the job list that the manager gives to the worker makes a
  freshly created worker start with that job disabled: its goroutine is not started and it is not
  scheduled, even when the command itself never reached the old worker.\<close>

theorem disabled_mirror_survives_restart:
  assumes "db_up K wrap c up s" and "workers_of (c s) i = Some wst" and "i \<noteq> []" and "key_ok (status_key n i)"
    and "CHR ''/'' \<notin> set i" and "CHR ''/'' \<notin> set n" and "plain_keys (statuses_of (c s))" and "statuses_of (c s) (status_key n i) \<noteq> None"
    and "\<forall>n' m. statuses_of (c s) (status_key n' i) = Some m \<longrightarrow> ms_Name m = n'"
    and "cmd = \<lparr>cc_Cmd = CmdDisable, cc_MirrorID = n, cc_WorkerID = i, cc_Args = args, cc_Options = opts\<rparr>"
    and "skiplist_laws S ok" and "NewTUNASyncWorker E S e1 e2 h cfg = Some (Some w)" and "distinct (names (cf_Mirrors cfg))"
    and "wk_jobs w n = Some k" and "\<forall>U. U \<subseteq> dom (wk_jobs w) \<longrightarrow> iteration_order order U"
  shows "\<exists>out s1 mirrorList es w'. serve (kvDBAdapter K wrap) clock post (PostCmd (cmd, None)) s = (out, s1) \<and>
    serve (kvDBAdapter K wrap) clock post (GetWorkerJobs i) s1 = (([(200, BJobs mirrorList)], []), s1) \<and>
    start_jobs S clk order mirrorList w = (es, w') \<and>
    mj_state (wk_heap w' k) = stateDisabled \<and> starts S w' n = {} \<and> Go k \<notin> set es"
proof -
  let ?D = "kvDBAdapter K wrap"
  from kvdb.handleClientCmd_known [OF assms(1), of cmd wst post None] assms(2-4,10) obtain out s1 where
    s1: "handleClientCmd ?D post (cmd, None) s = (out, s1)" "db_up K wrap c up s1" "workers_of (c s1) = workers_of (c s)"
      "statuses_of (c s1) = cmd_statuses cmd (statuses_of (c s))" by auto
  obtain m where m: "statuses_of (c s) (status_key n i) = Some m" "ms_Name m = n" using assms(8,9) by blast
  have st: "statuses_of (c s1) = (statuses_of (c s))(status_key n i \<mapsto> m\<lparr>ms_Status := Disabled\<rparr>)"
    using s1(4) m(1) assms(10) by (simp add: cmd_statuses_def cmd_status_def cur_status_def)
  have plain: "plain_keys (statuses_of (c s1))" using assms(7) m(1) by (auto simp: plain_keys_def st dom_def)
  from ListMirrorStatus_names [OF s1(2) plain assms(5)] obtain ns where
    ns: "distinct ns" "set ns = {n. CHR ''/'' \<notin> set n \<and> statuses_of (c s1) (status_key n i) \<noteq> None}"
      "kvdb_ListMirrorStatus K wrap i s1 = Some (map (\<lambda>n. the (statuses_of (c s1) (status_key n i))) ns, None)" by blast
  let ?ml = "map (\<lambda>n. the (statuses_of (c s1) (status_key n i))) ns"
  have list: "serve ?D clock post (GetWorkerJobs i) s1 = (([(200, BJobs ?ml)], []), s1)"
    using ns(3) s1(3) assms(2) kvdb.validated_passes [OF s1(2), of i] by (simp add: listJobsOfWorker_def)
  have "ms_Name (the (statuses_of (c s1) (status_key n' i))) = n'" if "n' \<in> set ns" for n'
  proof (cases "n' = n")
    case True
    then show ?thesis by (simp add: st m(2))
  next
    case False
    with that ns(2) assms(6) have "status_key n' i \<noteq> status_key n i" by (simp add: status_key_inject)
    with that ns(2) assms(9) show ?thesis by (auto simp: st)
  qed
  then have nm: "map ms_Name ?ml = ns" by (simp add: map_idI)
  have mem: "m\<lparr>ms_Status := Disabled\<rparr> \<in> set ?ml" using ns(2) assms(6) by (force simp: st)
  obtain es w' where start: "start_jobs S clk order ?ml w = (es, w')" by (cases "start_jobs S clk order ?ml w")
  note N = NewTUNASyncWorker_result [OF assms(11-13)]
  have d: "distinct (map ms_Name ?ml)" using nm ns(1) by simp
  have ord: "\<And>U. U \<subseteq> dom (wk_jobs w) \<Longrightarrow> iteration_order order U" using assms(15) by blast
  from start_jobs_disabled [OF N(1,2) d start ord mem] m(2) assms(14)
  have "mj_state (wk_heap w' k) = stateDisabled" "starts S w' n = {}" "Go k \<notin> set es" by simp_all
  with s1(1) list start show ?thesis by auto
qed

section \<open>Examples\<close>

text \<open>The worker \<open>w\<close> of the earlier examples with its jobs \<open>deb\<close> and \<open>m\<close>, and the database that knows it.\<close>

lemma ex_keys: "key_ok (status_key ''deb'' ''w'')" "key_ok (status_key ''m'' ''w'')"
  by (simp_all add: key_ok_def status_key_def)

theorem report_reaches_manager_witness:
  "\<exists>(w :: (string, (gtime \<times> nat) list) Worker) es w' url st j r s'. status_message_received ref_skiplist 7 ex_msg w = (es, w') \<and>
    Post url (PStatus st) \<in> set es \<and> MirrorStatus_Marshal st = Inr j \<and>
    serve (kvDBAdapter ex_K ex_wrap) (\<lambda>_. 9) (\<lambda>_ _. None) (PostJob ''w'' ''deb'' (MirrorStatus_Unmarshal j zero_MirrorStatus)) ex_db =
      (([(200, BJob r)], []), s') \<and>
    statuses_of (ex_c s') (status_key ''deb'' ''w'') = Some r \<and> ms_Status r = Success \<and> ms_LastUpdate r = 9"
proof -
  obtain w :: "(string, (gtime \<times> nat) list) Worker" and i where
    w: "worker_inv ref_skiplist ref_sorted w" "wk_jobs w ''deb'' = Some i" "mj_state (wk_heap w i) = stateReady"
      "worker_Name w = ''w''" "APIBaseList (cf_Manager (wk_cfg w)) = [''http://m'']" by (rule ex_ready_worker) blast
  obtain es w' where h: "status_message_received ref_skiplist 7 ex_msg w = (es, w')" by (cases "status_message_received ref_skiplist 7 ex_msg w")
  let ?st = "status_report w i ex_msg"
  let ?url = "''http://m'' @ ''/workers/'' @ worker_Name w @ ''/jobs/'' @ jm_name ex_msg"
  have p: "Post ?url (PStatus ?st) \<in> set es"
    using h w(2,3,5) by (auto simp: status_message_received_def message_check_def message_finish_def ex_msg_def updateStatus_report Let_def)
  have e: "status_ok (jm_status ex_msg)" "jm_name ex_msg \<noteq> []" "key_ok (status_key (jm_name ex_msg) (worker_Name w))"
    "workers_of (ex_c ex_db) (worker_Name w) \<noteq> None" "time_ok 9" by (simp_all add: ex_msg_def ex_keys w(4) ex_db_maps time_ok_def Second_def)
  from report_reaches_manager [OF w(1) h p e(1-3) ex_db_up e(4,5,5) refl, of "\<lambda>_ _. None"]
  obtain j r s' where "MirrorStatus_Marshal ?st = Inr j"
    "serve (kvDBAdapter ex_K ex_wrap) (\<lambda>_. 9) (\<lambda>_ _. None) (PostJob ''w'' ''deb'' (MirrorStatus_Unmarshal j zero_MirrorStatus)) ex_db = (([(200, BJob r)], []), s')"
    "statuses_of (ex_c s') (status_key ''deb'' ''w'') = Some r" "ms_Status r = Success" "ms_LastUpdate r = 9"
    unfolding w(4) ex_msg_def jobMessage.simps fun_upd_same by auto
  with h p show ?thesis by blast
qed


theorem disabled_mirror_survives_restart_witness:
  "\<forall>h. \<exists>w k out s1 mirrorList es w'. NewTUNASyncWorker ex_env ref_skiplist None None h ex_wcfg = Some (Some w) \<and> wk_jobs w ''m'' = Some k \<and>
    serve (kvDBAdapter ex_K ex_wrap) (\<lambda>_. 9) (\<lambda>_ _. Some ''timeout'')
      (PostCmd (\<lparr>cc_Cmd = CmdDisable, cc_MirrorID = ''m'', cc_WorkerID = ''w'', cc_Args = [], cc_Options = []\<rparr>, None)) ex_db = (out, s1) \<and>
    serve (kvDBAdapter ex_K ex_wrap) (\<lambda>_. 9) (\<lambda>_ _. Some ''timeout'') (GetWorkerJobs ''w'') s1 = (([(200, BJobs mirrorList)], []), s1) \<and>
    start_jobs ref_skiplist int sorted_list_of_set mirrorList w = (es, w') \<and>
    mj_state (wk_heap w' k) = stateDisabled \<and> Go k \<notin> set es"
proof
  fix h :: "nat \<Rightarrow> string mirrorJob"
  obtain w ms where w: "NewTUNASyncWorker ex_env ref_skiplist None None h ex_wcfg = Some (Some w)" "wk_cfg w = ex_ready ms"
    using ex_created by blast
  note N = NewTUNASyncWorker_result [OF ref_skiplist_laws w(1) ex_names(1)]
  have d: "dom (wk_jobs w) = {''deb'', ''m''}" using N(3,4) by (simp add: config_ok_def ex_names(2))
  obtain k where k: "wk_jobs w ''m'' = Some k" using d by blast
  have ord: "\<forall>U. U \<subseteq> dom (wk_jobs w) \<longrightarrow> iteration_order sorted_list_of_set U"
    using finite_subset [of _ "dom (wk_jobs w)"] d by (simp add: iteration_order_def)
  let ?cmd = "\<lparr>cc_Cmd = CmdDisable, cc_MirrorID = ''m'', cc_WorkerID = ''w'', cc_Args = [], cc_Options = []\<rparr>"
  have e: "workers_of (ex_c ex_db) ''w'' = Some ex_worker" "''w'' \<noteq> []" "CHR ''/'' \<notin> set ''w''" "CHR ''/'' \<notin> set ''m''"
    "statuses_of (ex_c ex_db) (status_key ''m'' ''w'') \<noteq> None" by (simp_all add: ex_db_maps)
  have plain: "plain_keys (statuses_of (ex_c ex_db))"
    unfolding plain_keys_def ex_db_maps by (intro ballI exI [of _ "''m''"] exI [of _ "''w''"]) (simp split: if_splits)
  have named: "\<forall>n' m. statuses_of (ex_c ex_db) (status_key n' ''w'') = Some m \<longrightarrow> ms_Name m = n'"
    by (auto simp: ex_db_maps status_key_def ex_status_def split: if_splits)
  from disabled_mirror_survives_restart [OF ex_db_up e(1,2) ex_keys(2) e(3,4) plain e(5) named refl ref_skiplist_laws w(1) ex_names(1) k ord,
    where args = "[]" and opts = "[]" and clock = "\<lambda>_. 9" and post = "\<lambda>_ _. Some ''timeout''" and clk = int]
  show "\<exists>w k out s1 mirrorList es w'. NewTUNASyncWorker ex_env ref_skiplist None None h ex_wcfg = Some (Some w) \<and> wk_jobs w ''m'' = Some k \<and>
    serve (kvDBAdapter ex_K ex_wrap) (\<lambda>_. 9) (\<lambda>_ _. Some ''timeout'') (PostCmd (?cmd, None)) ex_db = (out, s1) \<and>
    serve (kvDBAdapter ex_K ex_wrap) (\<lambda>_. 9) (\<lambda>_ _. Some ''timeout'') (GetWorkerJobs ''w'') s1 = (([(200, BJobs mirrorList)], []), s1) \<and>
    start_jobs ref_skiplist int sorted_list_of_set mirrorList w = (es, w') \<and>
    mj_state (wk_heap w' k) = stateDisabled \<and> Go k \<notin> set es" using w(1) k by blast
qed

end
